(* ===== verification/Prelude.thy ===== *)
theory Prelude
  imports Main "HOL-Library.AList" "HOL-Library.Word"
begin

text \<open>
  Shared vocabulary of the development.

  Machine integers are words of the width the source declares (\<open>usize\<close> counters
  that only ever hold container sizes are naturals).  A \<open>Uuid\<close> is its 128-bit value;
  a \<open>String\<close> is the list of its UTF-8 bytes as characters, so that \<open>len\<close> is the byte
  length.  \<open>Instant\<close>, \<open>SystemTime\<close> and \<open>Duration\<close> are integers counting nanoseconds.

  A \<open>DashMap\<close> (and a \<open>HashMap\<close>) is an association list: the order of its entries stands for
  the unspecified iteration order of the container, and the invariants of the components
  keep its keys distinct.  The facts about it are stated through \<^term>\<open>map_of\<close>, so
  component proofs never look at the order.
\<close>

section \<open>Types and collections\<close>

type_synonym u8 = "8 word"
type_synonym u16 = "16 word"
type_synonym u32 = "32 word"
type_synonym u64 = "64 word"
type_synonym uuid = "128 word"
type_synonym instant = int
type_synonym duration = int
type_synonym ('k, 'v) dashmap = "('k \<times> 'v) list"

datatype ip_addr = IpV4 u32 | IpV6 uuid

type_synonym socket_addr = "ip_addr \<times> u16"

named_theorems dm_simps
named_theorems rust_simps

abbreviation secs :: "int \<Rightarrow> duration" where
  "secs n \<equiv> n * 1000000000"

abbreviation millis :: "int \<Rightarrow> duration" where
  "millis n \<equiv> n * 1000000"

definition quoted :: "string \<Rightarrow> string" where
  "quoted s = [CHR 39] @ s @ [CHR 39]"

section \<open>Concurrent maps as association lists\<close>

abbreviation dm_get :: "('k, 'v) dashmap \<Rightarrow> 'k \<Rightarrow> 'v option" where
  "dm_get m k \<equiv> map_of m k"

abbreviation dm_insert :: "'k \<Rightarrow> 'v \<Rightarrow> ('k, 'v) dashmap \<Rightarrow> ('k, 'v) dashmap" where
  "dm_insert k v m \<equiv> AList.update k v m"

abbreviation dm_remove :: "'k \<Rightarrow> ('k, 'v) dashmap \<Rightarrow> ('k, 'v) dashmap" where
  "dm_remove k m \<equiv> AList.delete k m"

definition dm_contains :: "('k, 'v) dashmap \<Rightarrow> 'k \<Rightarrow> bool" where
  "dm_contains m k = (dm_get m k \<noteq> None)"

text \<open>Mutation through \<open>get_mut\<close>: nothing happens when the key is absent.\<close>

definition dm_modify :: "'k \<Rightarrow> ('v \<Rightarrow> 'v) \<Rightarrow> ('k, 'v) dashmap \<Rightarrow> ('k, 'v) dashmap" where
  "dm_modify k f m = (case dm_get m k of None \<Rightarrow> m | Some v \<Rightarrow> dm_insert k (f v) m)"

definition dm_retain :: "('k \<Rightarrow> 'v \<Rightarrow> bool) \<Rightarrow> ('k, 'v) dashmap \<Rightarrow> ('k, 'v) dashmap" where
  "dm_retain P m = filter (\<lambda>(k, v). P k v) m"

definition dm_wf :: "('k, 'v) dashmap \<Rightarrow> bool" where
  "dm_wf m \<longleftrightarrow> distinct (map fst m)"

lemma dm_get_insert [simp, dm_simps]:
  "dm_get (dm_insert k v m) k' = (if k' = k then Some v else dm_get m k')"
  by (simp add: update_conv')

lemma dm_get_remove [simp, dm_simps]:
  "dm_get (dm_remove k m) k' = (if k' = k then None else dm_get m k')"
  by (simp add: delete_conv')

lemma dom_if_Some [simp]: "dom (\<lambda>x. if x = k then Some v else f x) = insert k (dom f)"
  by (auto split: if_splits)

lemma dom_if_None [simp]: "dom (\<lambda>x. if x = k then None else f x) = dom f - {k}"
  by (auto split: if_splits)

lemma dm_get_modify [simp, dm_simps]:
  "dm_get (dm_modify k f m) k' = (if k' = k then map_option f (dm_get m k) else dm_get m k')"
  by (simp add: dm_modify_def split: option.split)

lemma dm_get_retain:
  "dm_wf m \<Longrightarrow> dm_get (dm_retain P m) k =
     (case dm_get m k of None \<Rightarrow> None | Some v \<Rightarrow> if P k v then Some v else None)"
proof (induction m)
  case (Cons a m)
  obtain k0 v0 where a: "a = (k0, v0)" by (cases a)
  have fresh: "dm_get m k0 = None" using Cons.prems by (simp add: dm_wf_def a map_of_eq_None_iff)
  show ?case using Cons fresh by (auto simp: dm_wf_def dm_retain_def a split: option.splits)
qed (simp add: dm_retain_def)

lemma dm_wf_Nil [simp]: "dm_wf []"
  by (simp add: dm_wf_def)

lemma dm_wf_insert [simp, intro]: "dm_wf m \<Longrightarrow> dm_wf (dm_insert k v m)"
  by (simp add: dm_wf_def distinct_update)

lemma dm_wf_remove [simp, intro]: "dm_wf m \<Longrightarrow> dm_wf (dm_remove k m)"
  by (simp add: dm_wf_def distinct_delete)

lemma dm_wf_modify [simp, intro]: "dm_wf m \<Longrightarrow> dm_wf (dm_modify k f m)"
  by (simp add: dm_modify_def dm_wf_insert split: option.split)

lemma dm_wf_retain [simp, intro]: "dm_wf m \<Longrightarrow> dm_wf (dm_retain P m)"
  by (induction m) (auto simp: dm_wf_def dm_retain_def)

lemma dm_keys: "fst ` set m = dom (map_of m)"
  by (simp add: dom_map_of_conv_image_fst)

lemma dm_set_iff: "dm_wf m \<Longrightarrow> (k, v) \<in> set m \<longleftrightarrow> dm_get m k = Some v"
  by (simp add: dm_wf_def)

lemma dm_get_mem: "dm_get m k = Some v \<Longrightarrow> (k, v) \<in> set m"
  by (rule map_of_SomeD)

lemma dm_length_card: "dm_wf m \<Longrightarrow> length m = card (dom (map_of m))"
  by (metis dm_keys dm_wf_def distinct_card length_map list.set_map)

lemma dm_empty_iff: "m = [] \<longleftrightarrow> dom (map_of m) = {}"
  by (cases m) auto

lemma dm_remove_Nil_iff: "dm_remove k m = [] \<longleftrightarrow> dom (map_of m) \<subseteq> {k}"
  by (auto simp: dm_empty_iff[of "dm_remove k m"] delete_conv')

section \<open>Results\<close>

text \<open>\<open>Result<T, E>\<close> is a sum with the error on the left; \<open>?\<close> is this bind.\<close>

definition bind_result :: "'e + 'a \<Rightarrow> ('a \<Rightarrow> 'e + 'b) \<Rightarrow> 'e + 'b" where
  "bind_result r f = (case r of Inl e \<Rightarrow> Inl e | Inr x \<Rightarrow> f x)"

lemma bind_result_simps [simp]:
  "bind_result (Inl e) f = Inl e" "bind_result (Inr x) f = f x"
  by (simp_all add: bind_result_def)

lemma bind_result_Inr_iff:
  "bind_result r f = Inr y \<longleftrightarrow> (\<exists>x. r = Inr x \<and> f x = Inr y)"
  by (cases r) auto

section \<open>Machine integers\<close>

definition saturating_add :: "'a::len word \<Rightarrow> 'a word \<Rightarrow> 'a word" where
  "saturating_add a b = (if a \<le> a + b then a + b else - 1)"

lemma unat_saturating_add:
  fixes a b :: "'a::len word"
  shows "unat (saturating_add a b) = min (unat a + unat b) (2 ^ LENGTH('a) - 1)"
proof (cases "a \<le> a + b")
  case True
  then have lt: "unat a + unat b < 2 ^ LENGTH('a)"
    by (metis add.commute no_plus_overflow_unat_size word_size)
  then have "unat (a + b) = unat a + unat b" by (simp add: unat_word_ariths)
  then show ?thesis using True lt by (simp add: saturating_add_def)
next
  case False
  then have ge: "2 ^ LENGTH('a) \<le> unat a + unat b"
    by (metis add.commute no_plus_overflow_unat_size word_size not_le)
  have "unat (- 1 :: 'a word) = 2 ^ LENGTH('a) - 1"
    by (simp add: unsigned_minus_1_eq_mask mask_eq_exp_minus_1)
  then have "unat (saturating_add a b) = 2 ^ LENGTH('a) - 1"
    using False by (simp add: saturating_add_def)
  then show ?thesis using ge by linarith
qed

lemma saturating_add_no_overflow:
  fixes a b :: "'a::len word"
  assumes "unat a + unat b < 2 ^ LENGTH('a)"
  shows "saturating_add a b = a + b"
proof -
  have "unat (saturating_add a b) = unat (a + b)"
    using assms by (simp add: unat_saturating_add unat_word_ariths)
  then show ?thesis by (simp add: word_unat_eq_iff)
qed

section \<open>Strings\<close>

abbreviation byte_of :: "char \<Rightarrow> nat" where
  "byte_of c \<equiv> of_char c"

definition starts_with :: "string \<Rightarrow> string \<Rightarrow> bool" where
  "starts_with p s = (take (length p) s = p)"

definition ends_with :: "string \<Rightarrow> string \<Rightarrow> bool" where
  "ends_with p s = (length p \<le> length s \<and> drop (length s - length p) s = p)"

definition is_ascii_digit :: "char \<Rightarrow> bool" where
  "is_ascii_digit c = (48 \<le> byte_of c \<and> byte_of c \<le> 57)"

definition is_ascii_alphabetic :: "char \<Rightarrow> bool" where
  "is_ascii_alphabetic c = ((65 \<le> byte_of c \<and> byte_of c \<le> 90) \<or>
     (97 \<le> byte_of c \<and> byte_of c \<le> 122))"

definition is_ascii_alphanumeric :: "char \<Rightarrow> bool" where
  "is_ascii_alphanumeric c = (is_ascii_digit c \<or> is_ascii_alphabetic c)"

definition to_ascii_lowercase :: "char \<Rightarrow> char" where
  "to_ascii_lowercase c =
     (if 65 \<le> byte_of c \<and> byte_of c \<le> 90 then char_of (byte_of c + 32) else c)"

definition digit_char :: "nat \<Rightarrow> char" where
  "digit_char d = char_of (48 + d)"

text \<open>\<open>to_string\<close> of an unsigned integer.\<close>

fun dec_string :: "nat \<Rightarrow> string" where
  "dec_string n = (if n < 10 then [digit_char n] else dec_string (n div 10) @ [digit_char (n mod 10)])"

declare dec_string.simps [simp del]

definition hex_digit :: "nat \<Rightarrow> char" where
  "hex_digit d = (if d < 10 then char_of (48 + d) else char_of (87 + d))"

text \<open>The format \<open>{:02x}\<close> of a byte.\<close>

definition hex_byte :: "nat \<Rightarrow> string" where
  "hex_byte b = [hex_digit (b div 16 mod 16), hex_digit (b mod 16)]"

lemma dec_string_nonempty [simp]: "dec_string n \<noteq> []"
  by (subst dec_string.simps) simp

text \<open>
  \<open>chars().take(n)\<close> on the bytes of a UTF-8 string: a character is a leading byte with the
  continuation bytes (top bits 10) that follow it.
\<close>

definition utf8_cont :: "char \<Rightarrow> bool" where
  "utf8_cont c = (128 \<le> byte_of c \<and> byte_of c < 192)"

fun take_chars :: "nat \<Rightarrow> string \<Rightarrow> string" where
  "take_chars n [] = []"
| "take_chars n (c # cs) =
     (if utf8_cont c then c # take_chars n cs
      else case n of 0 \<Rightarrow> [] | Suc m \<Rightarrow> c # take_chars m cs)"

lemma take_chars_ascii:
  "\<forall>c \<in> set s. \<not> utf8_cont c \<Longrightarrow> take_chars n s = take n s"
  by (induction n s rule: take_chars.induct) (auto split: nat.splits)

end
