(* ===== verification/RateLimits.thy ===== *)
theory RateLimits
  imports Complex_Main Prelude
begin

text \<open>
  The three limiters the router owns: the per-IP sliding window (\<open>core/ip_limiter.rs\<close>), the
  per-IP throttle on failed authentications (\<open>auth.rs\<close>) and the per-tunnel token bucket
  (\<open>core/limiter.rs\<close>).  The two sliding windows share a contract, the locale
  \<open>window_log\<close>: whatever they prune or evict, the events still inside the window are exactly
  those of the full history.  \<open>f64\<close> values of the bucket are rationals with the rounding of every
  operation as the argument \<open>rnd\<close>.
\<close>

section \<open>Sliding windows over pruned histories\<close>

definition prune :: "instant \<Rightarrow> instant list \<Rightarrow> instant list" where
  "prune cutoff dq = dropWhile (\<lambda>t. t < cutoff) dq"

abbreviation since :: "instant \<Rightarrow> instant list \<Rightarrow> instant list" where
  "since c ts \<equiv> filter (\<lambda>t. c \<le> t) ts"

lemma prune_sorted: "sorted ts \<Longrightarrow> prune c ts = since c ts"
proof (induction ts)
  case (Cons t ts)
  then show ?case by (cases "t < c") (auto simp: prune_def intro!: filter_True[symmetric])
qed (simp add: prune_def)

lemma sorted_prune: "sorted ts \<Longrightarrow> sorted (prune c ts)"
  by (simp add: prune_def sorted_dropWhile)

lemma set_prune_subset: "set (prune c ts) \<subseteq> set ts"
  by (auto simp: prune_def dest: set_dropWhileD)

lemma since_prune: "sorted ts \<Longrightarrow> c \<le> c' \<Longrightarrow> since c' (prune c ts) = since c' ts"
  by (auto simp: prune_sorted intro: filter_cong)

text \<open>One use of a limiter: an event is noted, an address is only looked at, or idle addresses
  are swept.\<close>

datatype window_op = WNote instant ip_addr | WTouch instant ip_addr | WSweep instant

fun op_time :: "window_op \<Rightarrow> instant" where
  "op_time (WNote now ip) = now"
| "op_time (WTouch now ip) = now"
| "op_time (WSweep now) = now"

fun noted :: "ip_addr \<Rightarrow> window_op list \<Rightarrow> instant list" where
  "noted ip [] = []"
| "noted ip (WNote now ip' # ops) = (if ip' = ip then now # noted ip ops else noted ip ops)"
| "noted ip (_ # ops) = noted ip ops"

lemma noted_append: "noted ip (xs @ ys) = noted ip xs @ noted ip ys"
  by (induction ip xs rule: noted.induct) auto

locale window_log =
  fixes dq :: "'s \<Rightarrow> ip_addr \<Rightarrow> instant list"
    and note_op :: "instant \<Rightarrow> ip_addr \<Rightarrow> 's \<Rightarrow> 's"
    and touch_op :: "instant \<Rightarrow> ip_addr \<Rightarrow> 's \<Rightarrow> 's"
    and sweep_op :: "instant \<Rightarrow> 's \<Rightarrow> 's"
    and window :: "'s \<Rightarrow> duration"
    and ok :: "'s \<Rightarrow> bool"
  assumes window_ops: "window (note_op now ip s) = window s" "window (touch_op now ip s) = window s"
      "window (sweep_op now s) = window s"
    and ok_ops: "ok s \<Longrightarrow> ok (note_op now ip s)" "ok s \<Longrightarrow> ok (touch_op now ip s)"
      "ok s \<Longrightarrow> ok (sweep_op now s)"
    and note_since: "ok s \<Longrightarrow> (\<And>i. sorted (dq s i)) \<Longrightarrow> (\<And>t. t \<in> set (dq s ip) \<Longrightarrow> t \<le> now) \<Longrightarrow>
      now - window s \<le> c \<Longrightarrow>
      since c (dq (note_op now ip s) ip') =
      since c (dq s ip' @ (if ip' = ip then [now] else []))"
    and touch_since: "ok s \<Longrightarrow> (\<And>i. sorted (dq s i)) \<Longrightarrow> now - window s \<le> c \<Longrightarrow>
      since c (dq (touch_op now ip s) ip') = since c (dq s ip')"
    and sweep_since: "ok s \<Longrightarrow> (\<And>i. sorted (dq s i)) \<Longrightarrow> now - window s \<le> c \<Longrightarrow>
      since c (dq (sweep_op now s) ip') = since c (dq s ip')"
    and dq_sorted: "ok s \<Longrightarrow> (\<And>i. sorted (dq s i)) \<Longrightarrow> (\<And>t. t \<in> set (dq s ip) \<Longrightarrow> t \<le> now) \<Longrightarrow>
        sorted (dq (note_op now ip s) ip')"
      "ok s \<Longrightarrow> (\<And>i. sorted (dq s i)) \<Longrightarrow> sorted (dq (touch_op now ip s) ip')"
      "ok s \<Longrightarrow> (\<And>i. sorted (dq s i)) \<Longrightarrow> sorted (dq (sweep_op now s) ip')"
    and dq_set: "ok s \<Longrightarrow> set (dq (note_op now ip s) ip') \<subseteq> insert now (set (dq s ip'))"
      "ok s \<Longrightarrow> set (dq (touch_op now ip s) ip') \<subseteq> set (dq s ip')"
      "ok s \<Longrightarrow> set (dq (sweep_op now s) ip') \<subseteq> set (dq s ip')"
begin

fun apply_op :: "window_op \<Rightarrow> 's \<Rightarrow> 's" where
  "apply_op (WNote now ip) s = note_op now ip s"
| "apply_op (WTouch now ip) s = touch_op now ip s"
| "apply_op (WSweep now) s = sweep_op now s"

definition log_inv :: "instant \<Rightarrow> 's \<Rightarrow> bool" where
  "log_inv now s \<longleftrightarrow> ok s \<and> (\<forall>ip. sorted (dq s ip) \<and> (\<forall>t \<in> set (dq s ip). t \<le> now))"

lemma log_inv_apply:
  assumes "log_inv t0 s" and "t0 \<le> op_time w"
  shows "log_inv (op_time w) (apply_op w s)"
proof -
  have ok: "ok s" and srt: "\<And>i. sorted (dq s i)" and le: "\<And>i t. t \<in> set (dq s i) \<Longrightarrow> t \<le> op_time w"
    using assms by (fastforce simp: log_inv_def)+
  have old: "t \<le> op_time w" if "t \<in> set (dq (apply_op w s) i)" for i t
  proof (cases w)
    case (WNote now ip)
    then show ?thesis using that subsetD[OF dq_set(1)[OF ok, of now ip i], of t] le[of t i] by auto
  next
    case (WTouch now ip)
    then show ?thesis using that subsetD[OF dq_set(2)[OF ok, of now ip i], of t] le[of t i] by auto
  next
    case (WSweep now)
    then show ?thesis using that subsetD[OF dq_set(3)[OF ok, of now i], of t] le[of t i] by auto
  qed
  have srt': "sorted (dq (apply_op w s) i)" for i
    using dq_sorted[OF ok srt] le by (cases w) auto
  have "ok (apply_op w s)" using ok_ops[OF ok] by (cases w) auto
  then show ?thesis using old srt' by (simp add: log_inv_def)
qed

lemma since_apply:
  assumes "log_inv t0 s" and "t0 \<le> op_time w" and "op_time w - window s \<le> c"
  shows "since c (dq (apply_op w s) ip) = since c (dq s ip @ noted ip [w])"
proof -
  have ok: "ok s" and srt: "\<And>i. sorted (dq s i)" and le: "\<And>i t. t \<in> set (dq s i) \<Longrightarrow> t \<le> op_time w"
    using assms(1,2) by (fastforce simp: log_inv_def)+
  show ?thesis
    using assms(3) note_since[OF ok srt] touch_since[OF ok srt] sweep_since[OF ok srt] le
    by (cases w) auto
qed

lemma window_apply: "window (apply_op w s) = window s"
  by (cases w) (simp_all add: window_ops)

text \<open>
  A state tracks a history \<open>H\<close> of the noted events when both agree on everything inside the
  window that ends at the current time.
\<close>

definition tracks :: "instant \<Rightarrow> 's \<Rightarrow> (ip_addr \<Rightarrow> instant list) \<Rightarrow> bool" where
  "tracks T s H \<longleftrightarrow> log_inv T s \<and>
     (\<forall>ip c. T - window s \<le> c \<longrightarrow> since c (dq s ip) = since c (H ip))"

lemma tracks_apply:
  assumes "tracks T s H" and "T \<le> op_time w"
  shows "tracks (op_time w) (apply_op w s) (\<lambda>ip. H ip @ noted ip [w])"
proof -
  have inv: "log_inv T s" using assms(1) by (simp add: tracks_def)
  have "since c (dq (apply_op w s) ip) = since c (H ip @ noted ip [w])"
    if "op_time w - window s \<le> c" for ip c
    using since_apply[OF inv assms(2) that, of ip] assms that by (simp add: tracks_def)
  then show ?thesis using log_inv_apply[OF inv assms(2)] by (simp add: tracks_def window_apply)
qed

lemma tracks_run:
  "tracks T s H \<Longrightarrow> sorted (T # map op_time ws) \<Longrightarrow>
   tracks (last (T # map op_time ws)) (fold apply_op ws s) (\<lambda>ip. H ip @ noted ip ws)"
proof (induction ws arbitrary: s T H)
  case (Cons w ws)
  have "tracks (op_time w) (apply_op w s) (\<lambda>ip. H ip @ noted ip [w])"
    using Cons.prems tracks_apply by simp
  from Cons.IH[OF this] Cons.prems(2)
  have "tracks (last (op_time w # map op_time ws)) (fold apply_op ws (apply_op w s))
          (\<lambda>ip. (H ip @ noted ip [w]) @ noted ip ws)" by simp
  then show ?case using noted_append[of _ "[w]" ws] by simp
qed simp

lemma tracks_count:
  assumes "tracks T s H" and "T \<le> now"
  shows "length (prune (now - window s) (dq s ip)) = length (since (now - window s) (H ip))"
  using assms by (simp add: tracks_def log_inv_def prune_sorted)

lemma tracks_empty: "ok s \<Longrightarrow> (\<And>ip. dq s ip = []) \<Longrightarrow> tracks T s (\<lambda>_. [])"
  by (simp add: tracks_def log_inv_def)

end

section \<open>Per-IP request limiter\<close>

record ip_rate_limiter =
  il_windows :: "(ip_addr, instant list) dashmap"
  il_window :: duration
  il_max_per_window :: nat

definition ip_rate_limiter_new :: "u32 \<Rightarrow> ip_rate_limiter" where
  "ip_rate_limiter_new max_per_second =
     \<lparr>il_windows = [], il_window = secs 1, il_max_per_window = unat max_per_second\<rparr>"

definition or_default :: "(ip_addr, instant list) dashmap \<Rightarrow> ip_addr \<Rightarrow> instant list" where
  "or_default m ip = (case dm_get m ip of None \<Rightarrow> [] | Some d \<Rightarrow> d)"

definition ip_check :: "instant \<Rightarrow> ip_addr \<Rightarrow> ip_rate_limiter \<Rightarrow> ip_rate_limiter \<times> bool" where
  "ip_check now ip l =
     (if il_max_per_window l = 0 then (l, True)
      else let cutoff = now - il_window l;
               entry = prune cutoff (or_default (il_windows l) ip)
           in if length entry \<ge> il_max_per_window l
              then (l\<lparr>il_windows := dm_insert ip entry (il_windows l)\<rparr>, False)
              else (l\<lparr>il_windows := dm_insert ip (entry @ [now]) (il_windows l)\<rparr>, True))"

definition recent_back :: "instant \<Rightarrow> instant list \<Rightarrow> bool" where
  "recent_back cutoff d = (d \<noteq> [] \<and> cutoff \<le> last d)"

definition ip_evict_idle :: "instant \<Rightarrow> ip_rate_limiter \<Rightarrow> ip_rate_limiter" where
  "ip_evict_idle now l =
     l\<lparr>il_windows := dm_retain (\<lambda>_ d. recent_back (now - il_window l) d) (il_windows l)\<rparr>"

section \<open>Throttle on failed authentications\<close>

definition SWEEP_THRESHOLD :: nat where
  "SWEEP_THRESHOLD = 10000"

record auth_failure_limiter =
  al_failures :: "(ip_addr, instant list) dashmap"
  al_window :: duration
  al_max_failures :: nat

definition auth_with_window :: "u32 \<Rightarrow> duration \<Rightarrow> auth_failure_limiter" where
  "auth_with_window max_failures window =
     \<lparr>al_failures = [], al_window = window, al_max_failures = unat max_failures\<rparr>"

definition auth_failure_limiter_new :: "u32 \<Rightarrow> auth_failure_limiter" where
  "auth_failure_limiter_new max_failures_per_minute =
     auth_with_window max_failures_per_minute (secs 60)"

definition is_enabled :: "auth_failure_limiter \<Rightarrow> bool" where
  "is_enabled l = (al_max_failures l > 0)"

definition is_limited ::
  "instant \<Rightarrow> ip_addr \<Rightarrow> auth_failure_limiter \<Rightarrow> auth_failure_limiter \<times> bool" where
  "is_limited now ip l =
     (if \<not> is_enabled l then (l, False)
      else case dm_get (al_failures l) ip of
             None \<Rightarrow> (l, False)
           | Some d \<Rightarrow> let entry = prune (now - al_window l) d
                       in (l\<lparr>al_failures := dm_insert ip entry (al_failures l)\<rparr>,
                           length entry \<ge> al_max_failures l))"

definition auth_evict_idle :: "instant \<Rightarrow> auth_failure_limiter \<Rightarrow> auth_failure_limiter" where
  "auth_evict_idle now l =
     l\<lparr>al_failures := dm_retain (\<lambda>_ d. recent_back (now - al_window l) d) (al_failures l)\<rparr>"

definition record_failure :: "instant \<Rightarrow> ip_addr \<Rightarrow> auth_failure_limiter \<Rightarrow> auth_failure_limiter" where
  "record_failure now ip l =
     (if \<not> is_enabled l then l
      else let entry = prune (now - al_window l) (or_default (al_failures l) ip);
               l1 = l\<lparr>al_failures := dm_insert ip (entry @ [now]) (al_failures l)\<rparr>
           in if length (al_failures l1) > SWEEP_THRESHOLD then auth_evict_idle now l1 else l1)"

text \<open>\<open>client_ip\<close>: the proxy header counts only from a loopback peer.  Trimming and parsing an address
  are the standard library's \<open>trim\<close> and \<open>parse::<IpAddr>\<close>, passed as \<open>parse_ip\<close>.\<close>

definition is_loopback :: "ip_addr \<Rightarrow> bool" where
  "is_loopback ip = (case ip of IpV4 a \<Rightarrow> drop_bit 24 a = 127 | IpV6 a \<Rightarrow> a = 1)"

definition client_ip :: "(string \<Rightarrow> ip_addr option) \<Rightarrow> ip_addr \<Rightarrow> string option \<Rightarrow> ip_addr" where
  "client_ip parse_ip peer real_ip_header =
     (if \<not> is_loopback peer then peer
      else case Option.bind real_ip_header parse_ip of Some ip \<Rightarrow> ip | None \<Rightarrow> peer)"

text \<open>\<open>secret_eq\<close>: equality of the SHA-256 digests, the digest being an argument.\<close>

definition secret_eq :: "(string \<Rightarrow> string) \<Rightarrow> string \<Rightarrow> string \<Rightarrow> bool" where
  "secret_eq sha256 a b = (sha256 a = sha256 b)"

section \<open>Per-tunnel token bucket\<close>

record bucket =
  bk_tokens :: rat
  bk_last_refill :: instant

record rate_limiter =
  rl_buckets :: "(uuid, bucket) dashmap"
  rl_evict_after :: duration

definition bucket_new :: "instant \<Rightarrow> u32 \<Rightarrow> bucket" where
  "bucket_new now max_rps = \<lparr>bk_tokens = of_nat (unat max_rps), bk_last_refill = now\<rparr>"

definition as_secs_f64 :: "(rat \<Rightarrow> rat) \<Rightarrow> duration \<Rightarrow> rat" where
  "as_secs_f64 rnd d =
     rnd (rnd (of_int (d div 1000000000)) + rnd (of_int (d mod 1000000000) / 1000000000))"

definition try_consume :: "(rat \<Rightarrow> rat) \<Rightarrow> instant \<Rightarrow> u32 \<Rightarrow> bucket \<Rightarrow> bucket \<times> bool" where
  "try_consume rnd now max_rps b =
     (let elapsed = max 0 (now - bk_last_refill b);
          ceiling = of_nat (unat max_rps);
          new_tokens = rnd (as_secs_f64 rnd elapsed * ceiling);
          tokens = min (rnd (bk_tokens b + new_tokens)) ceiling
      in if tokens \<ge> 1 then (\<lparr>bk_tokens = rnd (tokens - 1), bk_last_refill = now\<rparr>, True)
         else (\<lparr>bk_tokens = tokens, bk_last_refill = now\<rparr>, False))"

definition rate_limiter_new :: rate_limiter where
  "rate_limiter_new = \<lparr>rl_buckets = [], rl_evict_after = secs 300\<rparr>"

definition check_rate_limit ::
  "(rat \<Rightarrow> rat) \<Rightarrow> instant \<Rightarrow> uuid \<Rightarrow> u32 \<Rightarrow> rate_limiter \<Rightarrow> rate_limiter \<times> bool" where
  "check_rate_limit rnd now tunnel_id max_rps l =
     (let b = (case dm_get (rl_buckets l) tunnel_id of Some b \<Rightarrow> b | None \<Rightarrow> bucket_new now max_rps);
          (b', allowed) = try_consume rnd now max_rps b
      in (l\<lparr>rl_buckets := dm_insert tunnel_id b' (rl_buckets l)\<rparr>, allowed))"

definition rate_evict_idle :: "instant \<Rightarrow> rate_limiter \<Rightarrow> rate_limiter" where
  "rate_evict_idle now l =
     l\<lparr>rl_buckets :=
        dm_retain (\<lambda>_ b. max 0 (now - bk_last_refill b) < rl_evict_after l) (rl_buckets l)\<rparr>"

end
