(* ===== verification/RateLimitProps.thy ===== *)
theory RateLimitProps
  imports RateLimits
begin

text \<open>
  Correctness of the limiters.  Both sliding windows are interpretations of \<open>window_log\<close>, so an
  admission decision depends only on the true history of the address inside the window.
\<close>

section \<open>The deques of both limiters are window logs\<close>

lemma or_default_insert [simp]:
  "or_default (dm_insert ip d m) ip' = (if ip' = ip then d else or_default m ip')"
  by (simp add: or_default_def)

lemma or_default_retain:
  "dm_wf m \<Longrightarrow> or_default (dm_retain (\<lambda>_ d. recent_back c d) m) ip =
     (if recent_back c (or_default m ip) then or_default m ip else [])"
  by (simp add: or_default_def dm_get_retain recent_back_def split: option.split)

lemma since_not_recent:
  assumes "sorted d" and "\<not> recent_back c0 d" and "c0 \<le> c"
  shows "since c d = []"
proof (cases "d = []")
  case False
  then have "\<And>t. t \<in> set d \<Longrightarrow> t \<le> last d"
    using assms(1) by (metis last_conv_nth sorted_iff_nth_mono in_set_conv_nth
        diff_less length_greater_0_conv less_one Suc_pred' less_Suc_eq_le)
  then show ?thesis using assms False by (force simp: recent_back_def filter_empty_conv)
qed simp

lemma since_sweep:
  assumes "dm_wf m" and "\<And>i. sorted (or_default m i)" and "c0 \<le> c"
  shows "since c (or_default (dm_retain (\<lambda>_ d. recent_back c0 d) m) ip) = since c (or_default m ip)"
  using since_not_recent[OF assms(2) _ assms(3)] by (auto simp: or_default_retain[OF assms(1)])

definition ip_put :: "instant list \<Rightarrow> ip_addr \<Rightarrow> ip_rate_limiter \<Rightarrow> ip_rate_limiter" where
  "ip_put d ip l = l\<lparr>il_windows := dm_insert ip d (il_windows l)\<rparr>"

abbreviation ip_entry :: "instant \<Rightarrow> ip_addr \<Rightarrow> ip_rate_limiter \<Rightarrow> instant list" where
  "ip_entry now ip l \<equiv> prune (now - il_window l) (or_default (il_windows l) ip)"

interpretation ip_log: window_log
  "\<lambda>l ip. or_default (il_windows l) ip"
  "\<lambda>now ip l. ip_put (ip_entry now ip l @ [now]) ip l"
  "\<lambda>now ip l. ip_put (ip_entry now ip l) ip l"
  ip_evict_idle il_window "\<lambda>l. dm_wf (il_windows l)"
proof (unfold_locales, goal_cases)
  case (7 s ip now c ip')
  then show ?case by (auto simp: ip_put_def since_prune)
next
  case (8 s now c ip ip')
  then show ?case by (auto simp: ip_put_def since_prune)
next
  case (9 s now c ip')
  then show ?case using since_sweep[of "il_windows s" "now - il_window s" c ip']
    by (simp add: ip_evict_idle_def)
next
  case (10 s ip now ip')
  then show ?case using set_prune_subset by (fastforce simp: ip_put_def sorted_append sorted_prune)
next
  case (12 s now ip')
  then show ?case by (simp add: ip_evict_idle_def or_default_retain)
next
  case (13 s now ip ip')
  then show ?case using set_prune_subset by (auto simp: ip_put_def)
next
  case (14 s now ip ip')
  then show ?case using set_prune_subset by (auto simp: ip_put_def)
next
  case (15 now s ip')
  then show ?case by (auto simp: ip_evict_idle_def or_default_retain)
qed (simp_all add: ip_put_def ip_evict_idle_def sorted_prune)


definition auth_put :: "instant list \<Rightarrow> ip_addr \<Rightarrow> auth_failure_limiter \<Rightarrow> auth_failure_limiter" where
  "auth_put d ip l = l\<lparr>al_failures := dm_insert ip d (al_failures l)\<rparr>"

abbreviation auth_entry :: "instant \<Rightarrow> ip_addr \<Rightarrow> auth_failure_limiter \<Rightarrow> instant list" where
  "auth_entry now ip l \<equiv> prune (now - al_window l) (or_default (al_failures l) ip)"

lemma record_failure_eq:
  "is_enabled l \<Longrightarrow> record_failure now ip l =
     (let l1 = auth_put (auth_entry now ip l @ [now]) ip l
      in if length (al_failures l1) > SWEEP_THRESHOLD then auth_evict_idle now l1 else l1)"
  by (simp add: record_failure_def auth_put_def Let_def)

lemma auth_put_sel [simp]:
  "or_default (al_failures (auth_put d ip l)) ip' = (if ip' = ip then d else or_default (al_failures l) ip')"
  "al_window (auth_put d ip l) = al_window l"
  "is_enabled (auth_put d ip l) = is_enabled l"
  "dm_wf (al_failures l) \<Longrightarrow> dm_wf (al_failures (auth_put d ip l))"
  by (simp_all add: auth_put_def is_enabled_def)

lemma auth_evict_sel [simp]:
  "al_window (auth_evict_idle now l) = al_window l"
  "is_enabled (auth_evict_idle now l) = is_enabled l"
  "dm_wf (al_failures l) \<Longrightarrow> dm_wf (al_failures (auth_evict_idle now l))"
  "dm_wf (al_failures l) \<Longrightarrow> or_default (al_failures (auth_evict_idle now l)) ip =
     (if recent_back (now - al_window l) (or_default (al_failures l) ip)
      then or_default (al_failures l) ip else [])"
  by (simp_all add: auth_evict_idle_def is_enabled_def or_default_retain)

lemma is_limited_fst:
  "is_enabled l \<Longrightarrow> or_default (al_failures (fst (is_limited now ip l))) ip' =
     (if ip' = ip then auth_entry now ip l else or_default (al_failures l) ip')"
  by (auto simp: is_limited_def Let_def or_default_def prune_def split: option.split)

lemma is_limited_snd:
  "is_enabled l \<Longrightarrow> snd (is_limited now ip l) \<longleftrightarrow> al_max_failures l \<le> length (auth_entry now ip l)"
  by (auto simp: is_limited_def is_enabled_def Let_def or_default_def prune_def split: option.split)

interpretation auth_log: window_log
  "\<lambda>l ip. or_default (al_failures l) ip"
  record_failure "\<lambda>now ip l. fst (is_limited now ip l)" auth_evict_idle al_window
  "\<lambda>l. dm_wf (al_failures l) \<and> is_enabled l"
proof (unfold_locales, goal_cases)
  case (1 now ip s)
  then show ?case by (simp add: record_failure_def auth_evict_idle_def Let_def)
next
  case (4 s now ip)
  then show ?case by (simp add: record_failure_eq Let_def)
next
  case (5 s now ip)
  then show ?case by (simp add: is_limited_def is_enabled_def Let_def split: option.split)
next
  case (7 s ip now c ip')
  let ?l = "auth_put (auth_entry now ip s @ [now]) ip s"
  have srt: "\<And>i. sorted (or_default (al_failures s) i)" using 7 by blast
  have "sorted (or_default (al_failures ?l) i)" for i
    using 7(3) srt set_prune_subset by (fastforce simp: sorted_append sorted_prune)
  then have sweep: "since c (or_default (al_failures (auth_evict_idle now ?l)) ip') =
      since c (or_default (al_failures ?l) ip')"
    using 7 since_sweep[of "al_failures ?l" "now - al_window s" c ip']
    by (simp del: auth_put_sel(1) add: auth_evict_idle_def)
  have put: "since c (or_default (al_failures ?l) ip') =
      since c (or_default (al_failures s) ip' @ (if ip' = ip then [now] else []))"
    using 7 srt by (simp add: since_prune)
  have "record_failure now ip s = auth_evict_idle now ?l \<or> record_failure now ip s = ?l"
    using 7(1) by (simp add: record_failure_eq Let_def)
  then show ?case using sweep put by auto
next
  case (8 s now c ip ip')
  then show ?case by (simp add: is_limited_fst since_prune)
next
  case (9 s now c ip')
  then show ?case using since_sweep[of "al_failures s" "now - al_window s" c ip']
    by (simp add: auth_evict_idle_def)
next
  case (10 s ip now ip')
  then have "sorted (or_default (al_failures s) ip')" "sorted (auth_entry now ip s @ [now])"
    using set_prune_subset by (fastforce simp: sorted_append sorted_prune)+
  then show ?case using 10(1) by (auto simp: record_failure_eq Let_def)
next
  case (11 s now ip ip')
  then show ?case by (simp add: is_limited_fst sorted_prune)
next
  case (13 s now ip ip')
  then show ?case using set_prune_subset[of "now - al_window s" "or_default (al_failures s) ip"]
    by (auto simp: record_failure_eq Let_def)
next
  case (14 s now ip ip')
  then show ?case using set_prune_subset[of "now - al_window s" "or_default (al_failures s) ip"]
    by (auto simp: is_limited_fst)
qed (auto simp: is_limited_def Let_def split: option.split)

section \<open>The request limiter over a run\<close>

datatype ip_op = IpCheck instant ip_addr | IpEvict instant

fun ip_op_time :: "ip_op \<Rightarrow> instant" where
  "ip_op_time (IpCheck now ip) = now"
| "ip_op_time (IpEvict now) = now"

text \<open>The limiter driven by a sequence of checks and evictions; the second component lists the
  admitted requests.\<close>

fun ip_run :: "ip_op list \<Rightarrow> ip_rate_limiter \<Rightarrow> ip_rate_limiter \<times> (instant \<times> ip_addr) list" where
  "ip_run [] l = (l, [])"
| "ip_run (IpCheck now ip # ops) l =
     (let (l1, allowed) = ip_check now ip l; (l2, acc) = ip_run ops l1
      in (l2, if allowed then (now, ip) # acc else acc))"
| "ip_run (IpEvict now # ops) l = ip_run ops (ip_evict_idle now l)"

text \<open>The reference: admit a request exactly when fewer than \<open>mx\<close> requests of the same address were
  admitted in the last \<open>w\<close> nanoseconds, remembering the whole history.\<close>

fun ip_spec ::
  "nat \<Rightarrow> duration \<Rightarrow> ip_op list \<Rightarrow> (instant \<times> ip_addr) list \<Rightarrow> (instant \<times> ip_addr) list" where
  "ip_spec mx w [] hist = []"
| "ip_spec mx w (IpCheck now ip # ops) hist =
     (if length (filter (\<lambda>(t, i). i = ip \<and> now - w \<le> t) hist) < mx
      then (now, ip) # ip_spec mx w ops (hist @ [(now, ip)])
      else ip_spec mx w ops hist)"
| "ip_spec mx w (IpEvict now # ops) hist = ip_spec mx w ops hist"

abbreviation history_of :: "(instant \<times> ip_addr) list \<Rightarrow> ip_addr \<Rightarrow> instant list" where
  "history_of hist ip \<equiv> map fst (filter (\<lambda>(t, i). i = ip) hist)"

lemma history_count:
  "length (since c (history_of hist ip)) = length (filter (\<lambda>(t, i). i = ip \<and> c \<le> t) hist)"
  by (induction hist) auto

lemma ip_check_tracks:
  assumes tr: "ip_log.tracks T l (history_of hist)" and le: "T \<le> now" and mx: "0 < il_max_per_window l"
    and chk: "ip_check now ip l = (l', allowed)"
  shows "allowed \<longleftrightarrow>
      length (filter (\<lambda>(t, i). i = ip \<and> now - il_window l \<le> t) hist) < il_max_per_window l"
    and "ip_log.tracks now l' (history_of (hist @ (if allowed then [(now, ip)] else [])))"
    and "il_window l' = il_window l \<and> il_max_per_window l' = il_max_per_window l"
proof -
  have cnt: "length (ip_entry now ip l) =
      length (filter (\<lambda>(t, i). i = ip \<and> now - il_window l \<le> t) hist)"
    using ip_log.tracks_count[OF tr le, of ip] history_count[of "now - il_window l" ip hist] by simp
  have res: "(l', allowed) =
      (if length (ip_entry now ip l) \<ge> il_max_per_window l then (ip_put (ip_entry now ip l) ip l, False)
       else (ip_put (ip_entry now ip l @ [now]) ip l, True))"
    using chk mx by (auto simp: ip_check_def ip_put_def Let_def)
  show "allowed \<longleftrightarrow>
      length (filter (\<lambda>(t, i). i = ip \<and> now - il_window l \<le> t) hist) < il_max_per_window l"
    using res cnt by (auto split: if_splits)
  show "ip_log.tracks now l' (history_of (hist @ (if allowed then [(now, ip)] else [])))"
  proof (cases allowed)
    case True
    have "(\<lambda>i. history_of hist i @ noted i [WNote now ip]) = history_of (hist @ [(now, ip)])" by auto
    then show ?thesis using ip_log.tracks_apply[OF tr, of "WNote now ip"] res le True
      by (auto split: if_splits)
  next
    case False
    then show ?thesis using ip_log.tracks_apply[OF tr, of "WTouch now ip"] res le
      by (auto split: if_splits)
  qed
  show "il_window l' = il_window l \<and> il_max_per_window l' = il_max_per_window l"
    using res by (auto simp: ip_put_def split: if_splits)
qed

lemma ip_run_spec:
  "ip_log.tracks T l (history_of hist) \<Longrightarrow> sorted (T # map ip_op_time ops) \<Longrightarrow> 0 < il_max_per_window l \<Longrightarrow>
   snd (ip_run ops l) = ip_spec (il_max_per_window l) (il_window l) ops hist"
proof (induction ops arbitrary: T l hist)
  case (Cons a ops)
  show ?case
  proof (cases a)
    case (IpCheck now ip)
    obtain l' allowed where chk: "ip_check now ip l = (l', allowed)" by fastforce
    have le: "T \<le> now" and srt: "sorted (now # map ip_op_time ops)"
      using Cons.prems(2) IpCheck by auto
    note step = ip_check_tracks[OF Cons.prems(1) le Cons.prems(3) chk]
    have "snd (ip_run ops l') = ip_spec (il_max_per_window l) (il_window l) ops
            (hist @ (if allowed then [(now, ip)] else []))"
      using Cons.IH[OF step(2) srt] step(3) Cons.prems(3) by simp
    then show ?thesis using step(1) IpCheck chk by (cases allowed) (auto simp: split_beta)
  next
    case (IpEvict now)
    have "ip_log.tracks now (ip_evict_idle now l) (history_of hist)"
      using ip_log.tracks_apply[OF Cons.prems(1), of "WSweep now"] Cons.prems(2) IpEvict by auto
    from Cons.IH[OF this] show ?thesis
      using Cons.prems IpEvict by (simp add: ip_evict_idle_def)
  qed
qed simp

lemma ip_tracks_new: "ip_log.tracks T (ip_rate_limiter_new m) (history_of [])"
  using ip_log.tracks_empty[of "ip_rate_limiter_new m" T]
  by (simp add: ip_rate_limiter_new_def or_default_def)

text \<open>In the reference, no interval of length \<open>w\<close> holds more than \<open>mx\<close> admissions of one address.\<close>

abbreviation in_window :: "ip_addr \<Rightarrow> instant \<Rightarrow> instant \<Rightarrow> (instant \<times> ip_addr) list \<Rightarrow> nat" where
  "in_window ip a b hist \<equiv> length (filter (\<lambda>(t, i). i = ip \<and> a \<le> t \<and> t \<le> b) hist)"

lemma in_window_snoc_bound:
  assumes "length (filter (\<lambda>(t, i). i = ip \<and> now - w \<le> t) hist) < mx"
    and "\<And>a. in_window ip' a (a + w) hist \<le> mx"
  shows "in_window ip' a (a + w) (hist @ [(now, ip)]) \<le> mx"
proof (cases "ip' = ip \<and> a \<le> now \<and> now \<le> a + w")
  case True
  have "in_window ip a (a + w) hist \<le> length (filter (\<lambda>(t, i). i = ip \<and> now - w \<le> t) hist)"
  proof -
    have eq: "filter (\<lambda>(t, i). i = ip \<and> a \<le> t \<and> t \<le> a + w) hist =
          filter (\<lambda>(t, i). a \<le> t \<and> t \<le> a + w) (filter (\<lambda>(t, i). i = ip \<and> now - w \<le> t) hist)"
      using True by (auto intro!: filter_cong simp: filter_filter)
    show ?thesis unfolding eq by (rule length_filter_le)
  qed
  then show ?thesis using assms(1) True by simp
next
  case False
  then show ?thesis using assms(2)[of a] by auto
qed

lemma ip_spec_bound:
  "(\<And>ip a. in_window ip a (a + w) hist \<le> mx) \<Longrightarrow>
   in_window ip a (a + w) (hist @ ip_spec mx w ops hist) \<le> mx"
proof (induction mx w ops hist rule: ip_spec.induct)
  case (2 mx w now i ops hist)
  show ?case
  proof (cases "length (filter (\<lambda>(t, j). j = i \<and> now - w \<le> t) hist) < mx")
    case True
    have "in_window ip' a' (a' + w) (hist @ [(now, i)]) \<le> mx" for ip' a'
      using in_window_snoc_bound[OF True 2(3)] by blast
    from 2(1)[OF True this] show ?thesis using True by simp
  qed (use 2 in simp)
qed auto

text \<open>C4. The sliding-window limiter of \<open>core/ip_limiter.rs\<close>, with all its pruning of deques and eviction
  of idle addresses, admits exactly the requests of the reference that remembers the whole
  history: a request passes iff fewer than \<open>max_per_second\<close> requests of its address were admitted
  during the second before it.  Times are those of a monotonic clock.\<close>

theorem ip_limiter_refines_history:
  assumes "0 < unat m" and "sorted (map ip_op_time ops)"
  shows "snd (ip_run ops (ip_rate_limiter_new m)) = ip_spec (unat m) (secs 1) ops []"
proof (cases ops)
  case (Cons a ops')
  have "ip_log.tracks (ip_op_time a) (ip_rate_limiter_new m) (history_of [])" by (rule ip_tracks_new)
  from ip_run_spec[OF this, of ops] show ?thesis
    using assms Cons by (simp add: ip_rate_limiter_new_def)
qed simp

theorem ip_limiter_refines_history_witness:
  "0 < unat (2::u32) \<and>
   sorted (map ip_op_time [IpCheck 0 (IpV4 1), IpCheck 5 (IpV4 1), IpEvict 6, IpCheck 7 (IpV4 1),
     IpCheck 1000000006 (IpV4 1)]) \<and>
   snd (ip_run [IpCheck 0 (IpV4 1), IpCheck 5 (IpV4 1), IpEvict 6, IpCheck 7 (IpV4 1),
     IpCheck 1000000006 (IpV4 1)] (ip_rate_limiter_new 2)) =
   [(0, IpV4 1), (5, IpV4 1), (1000000006, IpV4 1)]"
  using ip_limiter_refines_history[of 2 "[IpCheck 0 (IpV4 1), IpCheck 5 (IpV4 1), IpEvict 6,
    IpCheck 7 (IpV4 1), IpCheck 1000000006 (IpV4 1)]"] by simp

text \<open>Whatever the traffic, no closed interval of one second contains more admitted requests of one
  address than the configured \<open>max_per_second\<close>.\<close>

theorem ip_limiter_window_bound:
  assumes "0 < unat m" and "sorted (map ip_op_time ops)"
  shows "length (filter (\<lambda>(t, i). i = ip \<and> a \<le> t \<and> t \<le> a + secs 1)
           (snd (ip_run ops (ip_rate_limiter_new m)))) \<le> unat m"
proof -
  have eq: "snd (ip_run ops (ip_rate_limiter_new m)) = ip_spec (unat m) (secs 1) ops []"
  proof (cases ops)
    case (Cons o1 ops')
    from ip_run_spec[OF ip_tracks_new, of "ip_op_time o1" ops m] show ?thesis
      using assms Cons by (simp add: ip_rate_limiter_new_def)
  qed simp
  show ?thesis using ip_spec_bound[of "secs 1" "[]" "unat m" ip a ops] by (simp add: eq)
qed

theorem ip_limiter_window_bound_witness:
  "length (filter (\<lambda>(t, i). i = IpV4 9 \<and> 3 \<le> t \<and> t \<le> 3 + secs 1)
     (snd (ip_run [IpCheck 3 (IpV4 9), IpCheck 4 (IpV4 9), IpCheck 5 (IpV4 9)]
        (ip_rate_limiter_new 2)))) \<le> unat (2::u32)"
  by (rule ip_limiter_window_bound) simp_all

section \<open>The authentication throttle over a run\<close>

datatype auth_op = AuthFail instant ip_addr | AuthPeek instant ip_addr | AuthEvict instant

fun to_window_op :: "auth_op \<Rightarrow> window_op" where
  "to_window_op (AuthFail now ip) = WNote now ip"
| "to_window_op (AuthPeek now ip) = WTouch now ip"
| "to_window_op (AuthEvict now) = WSweep now"

fun auth_step :: "auth_op \<Rightarrow> auth_failure_limiter \<Rightarrow> auth_failure_limiter" where
  "auth_step (AuthFail now ip) l = record_failure now ip l"
| "auth_step (AuthPeek now ip) l = fst (is_limited now ip l)"
| "auth_step (AuthEvict now) l = auth_evict_idle now l"

definition auth_run :: "auth_op list \<Rightarrow> auth_failure_limiter \<Rightarrow> auth_failure_limiter" where
  "auth_run ops l = fold auth_step ops l"

fun failures_of :: "ip_addr \<Rightarrow> auth_op list \<Rightarrow> instant list" where
  "failures_of ip [] = []"
| "failures_of ip (AuthFail now ip' # ops) = (if ip' = ip then now # failures_of ip ops else failures_of ip ops)"
| "failures_of ip (_ # ops) = failures_of ip ops"

abbreviation auth_op_time :: "auth_op \<Rightarrow> instant" where
  "auth_op_time a \<equiv> op_time (to_window_op a)"

lemma auth_run_window: "auth_run ops l = fold auth_log.apply_op (map to_window_op ops) l"
proof (induction ops arbitrary: l)
  case (Cons a ops)
  have "auth_step a l = auth_log.apply_op (to_window_op a) l" by (cases a) auto
  then show ?case using Cons by (simp add: auth_run_def)
qed (simp add: auth_run_def)

lemma failures_noted: "failures_of ip ops = noted ip (map to_window_op ops)"
  by (induction ip ops rule: failures_of.induct) auto

lemma auth_run_sel:
  "al_window (auth_run ops l) = al_window l \<and> al_max_failures (auth_run ops l) = al_max_failures l"
proof (induction ops arbitrary: l)
  case (Cons a ops)
  have "al_window (auth_step a l) = al_window l \<and> al_max_failures (auth_step a l) = al_max_failures l"
    by (cases a) (auto simp: record_failure_def auth_evict_idle_def is_limited_def Let_def split: option.split)
  then show ?case using Cons by (simp add: auth_run_def)
qed (simp add: auth_run_def)

text \<open>After any history of failed attempts, look-ups, periodic evictions and threshold sweeps, the
  throttle of \<open>auth.rs\<close> rejects an address at time \<open>T\<close> iff at least \<open>max_failures\<close> failures of that
  very address lie in the 60 seconds before \<open>T\<close>: bounding its memory never forgives an attacker
  and never punishes another address.\<close>

theorem auth_throttle_exact:
  assumes "0 < unat m" and "sorted (map auth_op_time ops)" and "\<forall>a \<in> set ops. auth_op_time a \<le> T"
  shows "snd (is_limited T ip (auth_run ops (auth_failure_limiter_new m))) \<longleftrightarrow>
         unat m \<le> length (filter (\<lambda>t. T - secs 60 \<le> t) (failures_of ip ops))"
proof -
  let ?l = "auth_run ops (auth_failure_limiter_new m)"
  obtain t0 where t0: "sorted (t0 # map auth_op_time ops)" "t0 \<le> T"
  proof (cases ops)
    case Nil then show ?thesis using that[of T] by simp
  next
    case (Cons a ops') then show ?thesis using that[of "auth_op_time a"] assms(2,3) by auto
  qed
  have init: "auth_log.tracks t0 (auth_failure_limiter_new m) (\<lambda>_. [])"
    using assms(1) by (intro auth_log.tracks_empty)
      (simp_all add: auth_failure_limiter_new_def auth_with_window_def is_enabled_def or_default_def)
  have tr: "auth_log.tracks (last (t0 # map auth_op_time ops)) ?l (\<lambda>ip. failures_of ip ops)"
    using auth_log.tracks_run[OF init, of "map to_window_op ops"] t0(1)
    by (simp add: auth_run_window failures_noted comp_def)
  have le: "last (t0 # map auth_op_time ops) \<le> T"
    using t0(2) assms(3) by (cases ops) (auto simp: last_map)
  have sel: "al_window ?l = secs 60" "al_max_failures ?l = unat m"
    using auth_run_sel[of ops "auth_failure_limiter_new m"]
    by (simp_all add: auth_failure_limiter_new_def auth_with_window_def)
  have "is_enabled ?l" using assms(1) sel by (simp add: is_enabled_def)
  then show ?thesis using auth_log.tracks_count[OF tr le, of ip] sel by (simp add: is_limited_snd)
qed

theorem auth_throttle_exact_witness:
  "snd (is_limited 30 (IpV4 7) (auth_run [AuthFail 1 (IpV4 7), AuthEvict 2, AuthFail 3 (IpV4 8),
     AuthPeek 4 (IpV4 7), AuthFail 5 (IpV4 7)] (auth_failure_limiter_new 2)))"
  by (subst auth_throttle_exact) simp_all

section \<open>The token bucket\<close>

text \<open>What the bucket needs of \<open>f64\<close> rounding: it is monotone, idempotent and exact on the integers up
  to \<open>2^32\<close> (all of which are doubles).\<close>

definition f64_rounding :: "(rat \<Rightarrow> rat) \<Rightarrow> bool" where
  "f64_rounding rnd \<longleftrightarrow> mono rnd \<and> (\<forall>x. rnd (rnd x) = rnd x) \<and> (\<forall>n \<le> 2 ^ 32. rnd (of_nat n) = of_nat n)"

lemma f64_rounding_nonneg: "f64_rounding rnd \<Longrightarrow> 0 \<le> x \<Longrightarrow> 0 \<le> rnd x"
  using monoD[of rnd 0 x] by (force simp: f64_rounding_def dest: spec[of _ "0::nat"])

definition bucket_ok :: "u32 \<Rightarrow> bucket \<Rightarrow> bool" where
  "bucket_ok max_rps b \<longleftrightarrow> 0 \<le> bk_tokens b \<and> bk_tokens b \<le> of_nat (unat max_rps)"

lemma rate_ceiling_exact: "f64_rounding rnd \<Longrightarrow> rnd (of_nat (unat (m::u32))) = of_nat (unat m)"
  using unsigned_less[of m, where 'a = nat] by (simp add: f64_rounding_def del: of_nat_unat)

lemma try_consume_ok:
  assumes "f64_rounding rnd" and "bucket_ok m b"
  shows "bucket_ok m (fst (try_consume rnd now m b))"
proof -
  let ?c = "of_nat (unat m) :: rat"
  let ?e = "max 0 (now - bk_last_refill b)"
  have secs: "0 \<le> as_secs_f64 rnd ?e"
    unfolding as_secs_f64_def
    by (intro f64_rounding_nonneg[OF assms(1)] add_nonneg_nonneg divide_nonneg_nonneg) simp_all
  have new: "0 \<le> rnd (as_secs_f64 rnd ?e * ?c)"
    by (intro f64_rounding_nonneg[OF assms(1)] mult_nonneg_nonneg secs of_nat_0_le_iff)
  define k where "k = min (rnd (bk_tokens b + rnd (as_secs_f64 rnd ?e * ?c))) ?c"
  have k: "0 \<le> k" "k \<le> ?c"
    using assms(2) new f64_rounding_nonneg[OF assms(1)] by (simp_all add: k_def bucket_ok_def)
  have "rnd (k - 1) \<le> ?c"
    using monoD[of rnd "k - 1" ?c] assms(1) k rate_ceiling_exact[OF assms(1), of m]
    by (simp add: f64_rounding_def)
  moreover have "1 \<le> k \<Longrightarrow> 0 \<le> rnd (k - 1)" by (rule f64_rounding_nonneg[OF assms(1)]) simp
  ultimately show ?thesis
    using k unfolding try_consume_def Let_def k_def[symmetric] bucket_ok_def
    by (simp del: of_nat_unat)
qed

definition consume_burst :: "(rat \<Rightarrow> rat) \<Rightarrow> instant \<Rightarrow> u32 \<Rightarrow> nat \<Rightarrow> bucket \<Rightarrow> bucket \<times> nat" where
  "consume_burst rnd now m n b =
     ((\<lambda>(b, k). case try_consume rnd now m b of (b', allowed) \<Rightarrow> (b', if allowed then Suc k else k)) ^^ n)
       (b, 0)"

text \<open>For any admissible rounding, the tokens of a bucket stay between zero and the configured rate,
  and of \<open>n\<close> requests that hit a fresh bucket at one instant exactly \<open>min n max_rps\<close> pass.\<close>

theorem token_bucket_burst:
  assumes "f64_rounding rnd"
  shows "(\<forall>b now. bucket_ok m b \<longrightarrow> bucket_ok m (fst (try_consume rnd now m b))) \<and>
         snd (consume_burst rnd now m n (bucket_new now m)) = min n (unat m)"
proof -
  have rnd_nat: "rnd (of_nat k) = of_nat k" if "k \<le> unat m" for k
    using assms that unsigned_less[of m, where 'a = nat] by (simp add: f64_rounding_def)
  have rnd0: "rnd 0 = 0" using rnd_nat[of 0] by simp
  have inv: "(\<lambda>(b, k). case try_consume rnd now m b of (b', a) \<Rightarrow> (b', if a then Suc k else k))
        (\<lparr>bk_tokens = of_nat (unat m - k), bk_last_refill = now\<rparr>, k) =
      (if k < unat m then (\<lparr>bk_tokens = of_nat (unat m - Suc k), bk_last_refill = now\<rparr>, Suc k)
       else (\<lparr>bk_tokens = of_nat (unat m - k), bk_last_refill = now\<rparr>, k))" for k
  proof -
    have tok: "min (rnd (of_nat (unat m - k) + rnd (as_secs_f64 rnd 0 * of_nat (unat m)))) (of_nat (unat m))
        = (of_nat (unat m - k) :: rat)"
      by (simp add: as_secs_f64_def rnd0 rnd_nat min_def del: of_nat_unat of_nat_diff)
    have one: "(1 \<le> (of_nat (unat m - k) :: rat)) = (k < unat m)" by linarith
    have dec: "rnd (of_nat (unat m - k) - 1) = of_nat (unat m - Suc k)" if "k < unat m"
    proof -
      have "(of_nat (unat m - k) :: rat) - 1 = of_nat (unat m - Suc k)"
        using that by (simp del: of_nat_unat)
      then show ?thesis using rnd_nat[of "unat m - Suc k"] by (simp only: diff_le_self)
    qed
    have "try_consume rnd now m \<lparr>bk_tokens = of_nat (unat m - k), bk_last_refill = now\<rparr> =
      (if k < unat m then (\<lparr>bk_tokens = of_nat (unat m - Suc k), bk_last_refill = now\<rparr>, True)
       else (\<lparr>bk_tokens = of_nat (unat m - k), bk_last_refill = now\<rparr>, False))"
      unfolding try_consume_def Let_def bucket.select_convs diff_self max.idem tok one
      using dec by (cases "k < unat m") (simp_all only: if_True if_False)
    then show ?thesis by (simp only: prod.case split: if_split) simp
  qed
  have "((\<lambda>(b, k). case try_consume rnd now m b of (b', a) \<Rightarrow> (b', if a then Suc k else k)) ^^ n)
        (bucket_new now m, 0) =
      (\<lparr>bk_tokens = of_nat (unat m - min n (unat m)), bk_last_refill = now\<rparr>, min n (unat m))"
  proof (induction n)
    case (Suc n)
    then show ?case using inv[of "min n (unat m)"] by (auto simp: min_def)
  qed (simp add: bucket_new_def)
  then show ?thesis using try_consume_ok[OF assms] by (simp add: consume_burst_def)
qed

theorem token_bucket_burst_witness:
  "f64_rounding (\<lambda>x. x) \<and>
   snd (consume_burst (\<lambda>x. x) 0 3 5 (bucket_new 0 3)) = 3"
proof -
  have "f64_rounding (\<lambda>x. x)" by (simp add: f64_rounding_def mono_def)
  then show ?thesis using token_bucket_burst[of "\<lambda>x. x" 3 0 5] by simp
qed

end
