(* ===== verification/Protocol.thy ===== *)
theory Protocol
  imports Prelude
begin

text \<open>
  The control-plane frames of \<open>rustunnel-protocol\<close> (\<open>frame.rs\<close>): one constructor per frame of
  \<open>ControlFrame\<close>, with its fields in source order, and the health-check specification a
  registration may carry.  The JSON codec (\<open>serde_json\<close>) is outside the source; the
  components that decode frames take it as an argument.
\<close>

datatype tunnel_protocol = Http | Https | Tcp | Udp | P2p

datatype health_check_kind = HcTcp | HcHttp

record health_check_spec =
  hc_kind :: health_check_kind
  hc_interval_secs :: u32
  hc_timeout_secs :: u32
  hc_max_failed :: u32
  hc_http_path :: "string option"
  hc_http_expect_2xx :: bool
  hc_alert_webhook_url :: "string option"

definition default_http_expect_2xx :: bool where
  "default_http_expect_2xx = True"

text \<open>
  Fields, in order: \<open>Auth\<close> token, client version; \<open>AuthOk\<close> session id, server version;
  \<open>RegisterTunnel\<close> request id, protocol, subdomain, local address, P2P secret hash, P2P
  name, group, group key hash, health check, client surface; \<open>TunnelRegistered\<close> request
  id, tunnel id, public URL, assigned port, P2P tunnel name, notice; \<open>TunnelError\<close> and
  \<open>P2pError\<close> request id, message; \<open>NewConnection\<close> connection id, client address, protocol;
  \<open>TunnelUnhealthy\<close> tunnel id, reason; \<open>P2pConnect\<close> request id, target tunnel name, secret
  hash; \<open>P2pConnected\<close> request id, connection id; \<open>P2pNatInfo\<close> tunnel id, NAT type, mapped
  addresses, local addresses; \<open>P2pPunchInstructions\<close> connection id, peer addresses,
  strategy, timeout in ms; \<open>P2pPunchResult\<close> connection id, success, direct address;
  \<open>P2pMetrics\<close> tunnel id, bytes sent, bytes received.
\<close>

datatype (plugins only: code size) control_frame =
    Auth string string
  | AuthOk uuid string
  | AuthError string
  | RegisterTunnel string tunnel_protocol "string option" string "string option" "string option"
      "string option" "string option" "health_check_spec option" "string option"
  | TunnelRegistered string uuid string "u16 option" "string option" "string option"
  | TunnelError string string
  | UnregisterTunnel uuid
  | NewConnection uuid string tunnel_protocol
  | DataStreamOpen uuid
  | Ping u64
  | Pong u64
  | TunnelHealthy uuid
  | TunnelUnhealthy uuid string
  | P2pConnect string string string
  | P2pConnected string uuid
  | P2pError string string
  | P2pNatInfo uuid string "string list" "string list"
  | P2pPunchInstructions uuid "string list" string u32
  | P2pPunchResult uuid bool "string option"
  | P2pMetrics uuid u64 u64

text \<open>The \<open>Debug\<close> rendering of a protocol, used in registration error messages.\<close>

fun protocol_debug :: "tunnel_protocol \<Rightarrow> string" where
  "protocol_debug Http = ''Http''"
| "protocol_debug Https = ''Https''"
| "protocol_debug Tcp = ''Tcp''"
| "protocol_debug Udp = ''Udp''"
| "protocol_debug P2p = ''P2p''"

fun option_protocol_debug :: "tunnel_protocol option \<Rightarrow> string" where
  "option_protocol_debug None = ''None''"
| "option_protocol_debug (Some p) = ''Some('' @ protocol_debug p @ '')''"

end
