(* ===== verification/Ring.thy ===== *)
theory Ring
  imports Prelude
begin

text \<open>
  Several components keep the most recent entries of a stream in a bounded FIFO buffer: the health
  timeline of a group member, the captured requests of the dashboard and of the client's
  inspector, and the inspector's log.  The contract they share is that a push keeps the last
  \<open>cap\<close> entries; each provider proves it for its own code by an interpretation.
\<close>

definition last_n :: "nat \<Rightarrow> 'a list \<Rightarrow> 'a list" where
  "last_n n xs = drop (length xs - n) xs"

lemma length_last_n [simp]: "length (last_n n xs) = min n (length xs)"
  by (simp add: last_n_def)

lemma last_n_all [simp]: "length xs \<le> n \<Longrightarrow> last_n n xs = xs"
  by (simp add: last_n_def)

lemma last_n_append_last_n: "last_n n (last_n n xs @ ys) = last_n n (xs @ ys)"
proof (cases "length xs \<le> n")
  case False
  define d where "d = length xs - n"
  have len: "length xs = n + d" and dl: "length (drop d xs) = n" using False by (auto simp: d_def)
  have "last_n n (drop d xs @ ys) = drop (length ys) (drop d xs) @ drop (length ys - n) ys"
    using dl by (simp add: last_n_def)
  also have "\<dots> = last_n n (xs @ ys)"
    by (simp add: last_n_def len add.commute)
  finally show ?thesis by (simp add: last_n_def d_def)
qed simp

lemma set_last_n_subset: "set (last_n n xs) \<subseteq> set xs"
  by (simp add: last_n_def set_drop_subset)

text \<open>Evict the front when full, then append: the body of every ring buffer in the source.\<close>

definition ring_push :: "nat \<Rightarrow> 'a \<Rightarrow> 'a list \<Rightarrow> 'a list" where
  "ring_push cap x xs = (if length xs \<ge> cap then tl xs else xs) @ [x]"

lemma ring_push_last_n:
  "0 < cap \<Longrightarrow> length xs \<le> cap \<Longrightarrow> ring_push cap x xs = last_n cap (xs @ [x])"
  by (auto simp: ring_push_def last_n_def drop_Suc)

locale bounded_ring =
  fixes push :: "'e \<Rightarrow> 'r \<Rightarrow> 'r"
    and contents :: "'r \<Rightarrow> 'e list"
    and cap :: nat
  assumes cap_pos: "0 < cap"
    and contents_push:
      "length (contents r) \<le> cap \<Longrightarrow> contents (push e r) = last_n cap (contents r @ [e])"
begin

lemma push_bounded: "length (contents r) \<le> cap \<Longrightarrow> length (contents (push e r)) \<le> cap"
  by (simp add: contents_push)

lemma push_newest:
  assumes "length (contents r) \<le> cap"
  shows "last (contents (push e r)) = e \<and> contents (push e r) \<noteq> []"
  using assms cap_pos by (simp add: contents_push last_n_def last_drop)

lemma pushes_contents:
  "length (contents r) \<le> cap \<Longrightarrow>
   contents (fold push es r) = last_n cap (contents r @ es)"
proof (induction es arbitrary: r)
  case (Cons e es)
  then have "contents (fold push (e # es) r) = last_n cap (contents (push e r) @ es)"
    by (simp add: push_bounded)
  also have "\<dots> = last_n cap (contents r @ e # es)"
    using Cons.prems by (simp add: contents_push last_n_append_last_n)
  finally show ?case .
qed simp

lemma pushes_bounded:
  "length (contents r) \<le> cap \<Longrightarrow> length (contents (fold push es r)) \<le> cap"
  by (simp add: pushes_contents)

end

end
