(* ===== verification/TunnelModel.thy ===== *)
theory TunnelModel
  imports Protocol Ring
begin

text \<open>
  The data of \<open>core/tunnel.rs\<close> and \<open>error.rs\<close>: per-tunnel counters, load-balancing groups and
  their members, sessions, and the events the router publishes.  Atomics shared through
  \<open>Arc\<close> are fields of the one record that owns them in the routing table; the clock is an
  argument of the operations that read it.
\<close>

section \<open>Errors\<close>

text \<open>
  Variants of \<open>error.rs\<close>.  Where the source formats a message from an identifier and counts, the
  constructor carries those; \<^term>\<open>error_display\<close> below renders them, given the text form
  of a \<open>Uuid\<close>.
\<close>

datatype server_error =
    ConfigError string
  | AuthErr string
  | Tunnel string
  | NoPortsAvailable
  | SessionNotFound uuid
  | TunnelNotFound uuid
  | LimitExceeded uuid nat nat
  | IoError string
  | ProtocolError string
  | MuxError string
  | HttpError string
  | TlsError string
  | AcmeError string
  | DbError string
  | MigrateError string

fun error_display :: "(uuid \<Rightarrow> string) \<Rightarrow> server_error \<Rightarrow> string" where
  "error_display u (ConfigError m) = ''config error: '' @ m"
| "error_display u (AuthErr m) = ''auth error: '' @ m"
| "error_display u (Tunnel m) = ''tunnel error: '' @ m"
| "error_display u NoPortsAvailable = ''no TCP ports available''"
| "error_display u (SessionNotFound s) = ''session not found: '' @ u s"
| "error_display u (TunnelNotFound t) = ''tunnel not found: '' @ u t"
| "error_display u (LimitExceeded s n m) = ''limit exceeded: '' @ ''session '' @ u s @
     '' already has '' @ dec_string n @ '' tunnels (max '' @ dec_string m @ '')''"
| "error_display u (IoError m) = ''io error: '' @ m"
| "error_display u (ProtocolError m) = ''protocol error: '' @ m"
| "error_display u (MuxError m) = ''mux error: '' @ m"
| "error_display u (HttpError m) = ''http error: '' @ m"
| "error_display u (TlsError m) = ''tls error: '' @ m"
| "error_display u (AcmeError m) = ''acme error: '' @ m"
| "error_display u (DbError m) = ''database error: '' @ m"
| "error_display u (MigrateError m) = ''migration error: '' @ m"

section \<open>Events\<close>

record health_event =
  he_at :: instant
  he_healthy :: bool
  he_reason :: string

datatype tcp_tunnel_event = TcpRegistered uuid u16 | TcpUnregistered u16

datatype udp_tunnel_event = UdpRegistered uuid u16 | UdpUnregistered u16

datatype control_message = CmNewConnection uuid socket_addr tunnel_protocol | CmShutdown

section \<open>Tunnels and their counters\<close>

record tunnel_info =
  ti_session_id :: uuid
  ti_tunnel_id :: uuid
  ti_protocol :: tunnel_protocol
  ti_subdomain :: "string option"
  ti_assigned_port :: "u16 option"
  ti_created_at :: instant
  ti_request_count :: u64
  ti_bytes_in :: u64
  ti_bytes_out :: u64
  ti_bytes_proxied :: u64
  ti_conn_semaphore :: nat

record live_tunnel_meter =
  lm_tunnel_id :: uuid
  lm_request_count :: u64
  lm_bytes_in :: u64
  lm_bytes_out :: u64

definition meter_bytes_proxied :: "live_tunnel_meter \<Rightarrow> u64" where
  "meter_bytes_proxied m = saturating_add (lm_bytes_in m) (lm_bytes_out m)"

definition meter_zeros :: "uuid \<Rightarrow> live_tunnel_meter" where
  "meter_zeros t = \<lparr>lm_tunnel_id = t, lm_request_count = 0, lm_bytes_in = 0, lm_bytes_out = 0\<rparr>"

definition tunnel_info_new ::
  "instant \<Rightarrow> uuid \<Rightarrow> uuid \<Rightarrow> tunnel_protocol \<Rightarrow> string option \<Rightarrow> u16 option \<Rightarrow> nat \<Rightarrow> tunnel_info" where
  "tunnel_info_new now session_id tunnel_id prot subdomain assigned_port max_connections =
     \<lparr>ti_session_id = session_id, ti_tunnel_id = tunnel_id, ti_protocol = prot,
      ti_subdomain = subdomain, ti_assigned_port = assigned_port, ti_created_at = now,
      ti_request_count = 0, ti_bytes_in = 0, ti_bytes_out = 0, ti_bytes_proxied = 0,
      ti_conn_semaphore = max_connections\<rparr>"

text \<open>
  \<open>TransferMeter::add\<close>, reached through \<open>TunnelInfo::add_transfer\<close>.  \<open>fetch_add\<close> wraps; the sum of
  the two directions saturates before it is added to the combined counter.
\<close>

definition add_transfer :: "u64 \<Rightarrow> u64 \<Rightarrow> tunnel_info \<Rightarrow> tunnel_info" where
  "add_transfer inbound outbound ti =
     (let ti1 = (if inbound > 0 then ti\<lparr>ti_bytes_in := ti_bytes_in ti + inbound\<rparr> else ti);
          ti2 = (if outbound > 0 then ti1\<lparr>ti_bytes_out := ti_bytes_out ti1 + outbound\<rparr> else ti1);
          total = saturating_add inbound outbound
      in if total > 0 then ti2\<lparr>ti_bytes_proxied := ti_bytes_proxied ti2 + total\<rparr> else ti2)"

definition meter_snapshot :: "tunnel_info \<Rightarrow> live_tunnel_meter" where
  "meter_snapshot ti =
     \<lparr>lm_tunnel_id = ti_tunnel_id ti, lm_request_count = ti_request_count ti,
      lm_bytes_in = ti_bytes_in ti, lm_bytes_out = ti_bytes_out ti\<rparr>"

section \<open>Load-balancing groups\<close>

definition HEALTH_EVENT_RING_SIZE :: nat where
  "HEALTH_EVENT_RING_SIZE = 50"

record group_member =
  gm_info :: tunnel_info
  gm_healthy :: bool
  gm_health_spec :: "health_check_spec option"
  gm_consecutive_failures :: u32
  gm_total_health_failures :: u64
  gm_health_events :: "health_event list"

definition healthy_with :: "tunnel_info \<Rightarrow> group_member" where
  "healthy_with info =
     \<lparr>gm_info = info, gm_healthy = True, gm_health_spec = None, gm_consecutive_failures = 0,
      gm_total_health_failures = 0, gm_health_events = []\<rparr>"

definition with_health_spec ::
  "instant \<Rightarrow> tunnel_info \<Rightarrow> health_check_spec option \<Rightarrow> group_member" where
  "with_health_spec now info spec =
     (let initially_healthy = (spec = None);
          ev = \<lparr>he_at = now, he_healthy = initially_healthy,
                he_reason = (if initially_healthy then ''registered''
                             else ''registered (awaiting first probe)'')\<rparr>
      in \<lparr>gm_info = info, gm_healthy = initially_healthy, gm_health_spec = spec,
          gm_consecutive_failures = 0, gm_total_health_failures = 0, gm_health_events = [ev]\<rparr>)"

definition record_health_event :: "instant \<Rightarrow> bool \<Rightarrow> string \<Rightarrow> group_member \<Rightarrow> group_member" where
  "record_health_event now healthy reason m =
     (let ring = gm_health_events m;
          ring1 = (if length ring \<ge> HEALTH_EVENT_RING_SIZE then tl ring else ring)
      in m\<lparr>gm_health_events :=
            ring1 @ [\<lparr>he_at = now, he_healthy = healthy, he_reason = reason\<rparr>]\<rparr>)"

record tunnel_group =
  tg_name :: string
  tg_key_hash :: "string option"
  tg_members :: "(uuid, group_member) dashmap"
  tg_zero_healthy_alerted :: bool

definition new_solo :: "string \<Rightarrow> tunnel_info \<Rightarrow> tunnel_group" where
  "new_solo name info =
     \<lparr>tg_name = name, tg_key_hash = None,
      tg_members = dm_insert (ti_tunnel_id info) (healthy_with info) [],
      tg_zero_healthy_alerted = False\<rparr>"

definition new_with_member :: "string \<Rightarrow> string option \<Rightarrow> group_member \<Rightarrow> tunnel_group" where
  "new_with_member name key_hash member =
     \<lparr>tg_name = name, tg_key_hash = key_hash,
      tg_members = dm_insert (ti_tunnel_id (gm_info member)) member [],
      tg_zero_healthy_alerted = False\<rparr>"

definition healthy_count :: "tunnel_group \<Rightarrow> nat" where
  "healthy_count g = length (filter (\<lambda>(t, m). gm_healthy m) (tg_members g))"

record group_alert_payload =
  ga_region_id :: string
  ga_protocol :: string
  ga_label :: string
  ga_group_name :: string
  ga_key_hash_short :: string
  ga_member_count :: nat

record zero_healthy_alert =
  za_payload :: group_alert_payload
  za_tenant_webhook_urls :: "string list"

record group_event =
  ge_protocol :: string
  ge_label :: string
  ge_tunnel_id :: uuid
  ge_healthy :: bool
  ge_reason :: string
  ge_healthy_count :: nat
  ge_member_count :: nat

record group_spec =
  gs_group_name :: string
  gs_key_hash :: string
  gs_health_check :: "health_check_spec option"

section \<open>Sessions\<close>

text \<open>The control channel and the loopback pipe are represented by their identities.\<close>

record session_info =
  si_client_addr :: socket_addr
  si_auth_token_id :: string
  si_db_token_id :: "string option"
  si_user_id :: "uuid option"
  si_control_tx :: nat
  si_tunnels :: "uuid list"
  si_connected_at :: instant
  si_last_heartbeat :: instant
  si_data_pipe :: "nat option"

definition session_info_new ::
  "instant \<Rightarrow> socket_addr \<Rightarrow> string \<Rightarrow> string option \<Rightarrow> uuid option \<Rightarrow> nat \<Rightarrow> session_info" where
  "session_info_new now addr auth_token_id db_token_id user_id control_tx =
     \<lparr>si_client_addr = addr, si_auth_token_id = auth_token_id, si_db_token_id = db_token_id,
      si_user_id = user_id, si_control_tx = control_tx, si_tunnels = [], si_connected_at = now,
      si_last_heartbeat = now, si_data_pipe = None\<rparr>"

section \<open>Facts about counters and health timelines\<close>

lemma tunnel_info_new_sel [simp]:
  "ti_session_id (tunnel_info_new now s t p sd port mx) = s"
  "ti_tunnel_id (tunnel_info_new now s t p sd port mx) = t"
  "ti_protocol (tunnel_info_new now s t p sd port mx) = p"
  "ti_subdomain (tunnel_info_new now s t p sd port mx) = sd"
  "ti_assigned_port (tunnel_info_new now s t p sd port mx) = port"
  "ti_request_count (tunnel_info_new now s t p sd port mx) = 0"
  by (simp_all add: tunnel_info_new_def)

lemma healthy_with_sel [simp]:
  "gm_info (healthy_with i) = i" "gm_healthy (healthy_with i)"
  "gm_health_events (healthy_with i) = []"
  by (simp_all add: healthy_with_def)

lemma with_health_spec_sel [simp]:
  "gm_info (with_health_spec now i sp) = i"
  "gm_healthy (with_health_spec now i sp) = (sp = None)"
  "length (gm_health_events (with_health_spec now i sp)) = 1"
  by (simp_all add: with_health_spec_def Let_def)

lemma record_health_event_sel [simp]:
  "gm_info (record_health_event now h r m) = gm_info m"
  "gm_healthy (record_health_event now h r m) = gm_healthy m"
  "gm_health_spec (record_health_event now h r m) = gm_health_spec m"
  "gm_consecutive_failures (record_health_event now h r m) = gm_consecutive_failures m"
  "gm_total_health_failures (record_health_event now h r m) = gm_total_health_failures m"
  by (simp_all add: record_health_event_def Let_def)

lemma new_group_sel [simp]:
  "tg_key_hash (new_solo n i) = None"
  "tg_name (new_solo n i) = n"
  "tg_members (new_solo n i) = [(ti_tunnel_id i, healthy_with i)]"
  "tg_key_hash (new_with_member n kh m) = kh"
  "tg_name (new_with_member n kh m) = n"
  "tg_members (new_with_member n kh m) = [(ti_tunnel_id (gm_info m), m)]"
  "\<not> tg_zero_healthy_alerted (new_solo n i)"
  "\<not> tg_zero_healthy_alerted (new_with_member n kh m)"
  by (simp_all add: new_solo_def new_with_member_def)

lemma healthy_count_zero_iff:
  "dm_wf (tg_members g) \<Longrightarrow>
   healthy_count g = 0 \<longleftrightarrow> (\<forall>t m. dm_get (tg_members g) t = Some m \<longrightarrow> \<not> gm_healthy m)"
  by (auto simp: healthy_count_def filter_empty_conv dm_set_iff)

lemma healthy_count_le: "healthy_count g \<le> length (tg_members g)"
  by (simp add: healthy_count_def)

text \<open>The counters stay consistent while the two directions stay below \<open>2^64\<close> in total.\<close>

definition counters_ok :: "tunnel_info \<Rightarrow> bool" where
  "counters_ok ti \<longleftrightarrow> ti_bytes_proxied ti = ti_bytes_in ti + ti_bytes_out ti"

lemma saturating_add_eq_0_iff: "saturating_add a b = 0 \<longleftrightarrow> a = 0 \<and> b = (0 :: u64)"
proof
  assume "saturating_add a b = 0"
  then have "min (unat a + unat b) (2 ^ 64 - 1) = 0"
    using unat_saturating_add[of a b] by simp
  then show "a = 0 \<and> b = 0" by (simp add: min_def unat_eq_zero split: if_splits)
qed (simp add: saturating_add_def)

lemma add_transfer_sel [simp]:
  "ti_tunnel_id (add_transfer i out ti) = ti_tunnel_id ti"
  "ti_session_id (add_transfer i out ti) = ti_session_id ti"
  "ti_protocol (add_transfer i out ti) = ti_protocol ti"
  "ti_subdomain (add_transfer i out ti) = ti_subdomain ti"
  "ti_assigned_port (add_transfer i out ti) = ti_assigned_port ti"
  "ti_request_count (add_transfer i out ti) = ti_request_count ti"
  "ti_bytes_in (add_transfer i out ti) = ti_bytes_in ti + i"
  "ti_bytes_out (add_transfer i out ti) = ti_bytes_out ti + out"
  "ti_bytes_proxied (add_transfer i out ti) = ti_bytes_proxied ti + saturating_add i out"
  by (auto simp: add_transfer_def Let_def word_gt_0)

lemma add_transfer_counters_ok:
  assumes "counters_ok ti" and "unat i + unat out < 2 ^ 64"
  shows "counters_ok (add_transfer i out ti)"
  using assms by (simp add: counters_ok_def saturating_add_no_overflow)

interpretation health_ring: bounded_ring
  "\<lambda>(now, healthy, reason) m. record_health_event now healthy reason m"
  "\<lambda>m. map (\<lambda>e. (he_at e, he_healthy e, he_reason e)) (gm_health_events m)"
  HEALTH_EVENT_RING_SIZE
proof (unfold_locales, goal_cases)
  case (2 m e)
  obtain now h r where e: "e = (now, h, r)" by (cases e)
  let ?f = "\<lambda>e. (he_at e, he_healthy e, he_reason e)"
  have "map ?f (gm_health_events (record_health_event now h r m)) =
        ring_push HEALTH_EVENT_RING_SIZE (now, h, r) (map ?f (gm_health_events m))"
    by (simp add: record_health_event_def ring_push_def Let_def map_tl)
  then show ?case using 2
    by (simp add: e ring_push_last_n HEALTH_EVENT_RING_SIZE_def)
qed (simp add: HEALTH_EVENT_RING_SIZE_def)

end
