(* ===== verification/Router.thy ===== *)
theory Router
  imports TunnelModel RateLimits
begin

unbundle bit_operations_syntax

text \<open>
  \<open>TunnelCore\<close> of \<open>core/router.rs\<close>: the routing tables, the port pools, the sessions and the reverse
  index, with every operation of the type.  Each operation is one atomic transition of the
  record; random identifiers, the random pick among healthy members and the clock are arguments.
  Messages sent on the broadcast channels are appended to the event logs of the record.
\<close>

datatype tunnel_key = KHttp string | KTcp u16 | KUdp u16 | KP2p string

record p2p_publisher =
  pp_tunnel_info :: tunnel_info
  pp_secret_hash :: string
  pp_name :: string
  pp_nat_type :: "string option"
  pp_mapped_addrs :: "string list"

text \<open>A pending connection is the sending half of a oneshot channel; the flag tells whether its receiver
  is still waiting.\<close>

record tunnel_core =
  http_routes :: "(string, tunnel_group) dashmap"
  tcp_routes :: "(u16, tunnel_group) dashmap"
  udp_routes :: "(u16, tunnel_group) dashmap"
  tcp_group_index :: "(string \<times> string, u16) dashmap"
  p2p_tunnels :: "(string, p2p_publisher) dashmap"
  sessions :: "(uuid, session_info) dashmap"
  available_tcp_ports :: "u16 list"
  available_udp_ports :: "u16 list"
  tunnel_index :: "(uuid, tunnel_key) dashmap"
  max_tunnels_per_session :: nat
  max_connections_per_tunnel :: nat
  pending_conns :: "(uuid, bool) dashmap"
  tcp_events :: "tcp_tunnel_event list"
  udp_events :: "udp_tunnel_event list"
  group_events :: "group_event list"
  core_rate_limiter :: rate_limiter
  core_ip_limiter :: ip_rate_limiter
  core_auth_limiter :: auth_failure_limiter

section \<open>Construction\<close>

text \<open>The inclusive range \<open>low..=high\<close>, collected.\<close>

definition port_range :: "u16 \<Rightarrow> u16 \<Rightarrow> u16 list" where
  "port_range low high = map of_nat [unat low ..< Suc (unat high)]"

definition tunnel_core_new ::
  "u16 \<times> u16 \<Rightarrow> u16 \<times> u16 \<Rightarrow> nat \<Rightarrow> nat \<Rightarrow> u32 \<Rightarrow> u32 \<Rightarrow> tunnel_core" where
  "tunnel_core_new tcp_port_range udp_port_range max_tunnels max_connections ip_rps max_failed_auth =
     \<lparr>http_routes = [], tcp_routes = [], udp_routes = [], tcp_group_index = [], p2p_tunnels = [],
      sessions = [],
      available_tcp_ports = (case tcp_port_range of (low, high) \<Rightarrow> port_range low high),
      available_udp_ports = (case udp_port_range of (low, high) \<Rightarrow>
        if low = 0 \<and> high = 0 then [] else port_range low high),
      tunnel_index = [], max_tunnels_per_session = max_tunnels,
      max_connections_per_tunnel = max_connections, pending_conns = [],
      tcp_events = [], udp_events = [], group_events = [],
      core_rate_limiter = rate_limiter_new, core_ip_limiter = ip_rate_limiter_new ip_rps,
      core_auth_limiter = auth_failure_limiter_new max_failed_auth\<rparr>"

definition classify_nat_pair :: "string option \<Rightarrow> string option \<Rightarrow> string \<times> bool" where
  "classify_nat_pair pub_nat sub_nat =
     (let easy = (\<lambda>n. n = Some ''open'' \<or> n = Some ''cone'');
          sym = (\<lambda>n. n = Some ''symmetric'')
      in if easy pub_nat \<and> easy sub_nat then (''direct_exchange'', True)
         else if (easy pub_nat \<and> sym sub_nat) \<or> (sym pub_nat \<and> easy sub_nat)
         then (''port_prediction'', True)
         else if sym pub_nat \<and> sym sub_nat then (''relay'', False)
         else (''relay'', False))"

section \<open>Pending connections and data pipes\<close>

definition register_pending_conn :: "uuid \<Rightarrow> tunnel_core \<Rightarrow> tunnel_core" where
  "register_pending_conn conn_id c = c\<lparr>pending_conns := dm_insert conn_id True (pending_conns c)\<rparr>"

definition resolve_pending_conn :: "uuid \<Rightarrow> tunnel_core \<Rightarrow> tunnel_core \<times> bool" where
  "resolve_pending_conn conn_id c =
     (case dm_get (pending_conns c) conn_id of
        None \<Rightarrow> (c, False)
      | Some receiver_alive \<Rightarrow>
          (c\<lparr>pending_conns := dm_remove conn_id (pending_conns c)\<rparr>, receiver_alive))"

definition cancel_pending_conn :: "uuid \<Rightarrow> tunnel_core \<Rightarrow> tunnel_core" where
  "cancel_pending_conn conn_id c = c\<lparr>pending_conns := dm_remove conn_id (pending_conns c)\<rparr>"

definition set_data_pipe :: "uuid \<Rightarrow> nat \<Rightarrow> tunnel_core \<Rightarrow> tunnel_core" where
  "set_data_pipe session_id pipe c =
     c\<lparr>sessions := dm_modify session_id (\<lambda>s. s\<lparr>si_data_pipe := Some pipe\<rparr>) (sessions c)\<rparr>"

definition take_data_pipe :: "uuid \<Rightarrow> tunnel_core \<Rightarrow> tunnel_core \<times> nat option" where
  "take_data_pipe session_id c =
     (c\<lparr>sessions := dm_modify session_id (\<lambda>s. s\<lparr>si_data_pipe := None\<rparr>) (sessions c)\<rparr>,
      Option.bind (dm_get (sessions c) session_id) si_data_pipe)"

section \<open>Sessions\<close>

definition register_session ::
  "instant \<Rightarrow> uuid \<Rightarrow> socket_addr \<Rightarrow> string \<Rightarrow> string option \<Rightarrow> uuid option \<Rightarrow> nat \<Rightarrow> tunnel_core \<Rightarrow>
   tunnel_core \<times> uuid" where
  "register_session now session_id addr token_id db_token_id user_id control_tx c =
     (c\<lparr>sessions := dm_insert session_id
          (session_info_new now addr token_id db_token_id user_id control_tx) (sessions c)\<rparr>,
      session_id)"

definition check_session_limit :: "uuid \<Rightarrow> tunnel_core \<Rightarrow> server_error + unit" where
  "check_session_limit session_id c =
     (case dm_get (sessions c) session_id of
        None \<Rightarrow> Inl (SessionNotFound session_id)
      | Some s \<Rightarrow>
          if length (si_tunnels s) \<ge> max_tunnels_per_session c
          then Inl (LimitExceeded session_id (length (si_tunnels s)) (max_tunnels_per_session c))
          else Inr ())"

definition add_tunnel_to_session :: "uuid \<Rightarrow> uuid \<Rightarrow> tunnel_core \<Rightarrow> tunnel_core" where
  "add_tunnel_to_session session_id tunnel_id c =
     c\<lparr>sessions := dm_modify session_id (\<lambda>s. s\<lparr>si_tunnels := si_tunnels s @ [tunnel_id]\<rparr>) (sessions c)\<rparr>"

section \<open>Subdomains\<close>

text \<open>The en dash of the first message is written with its three UTF-8 bytes.\<close>

definition validate_subdomain :: "string \<Rightarrow> server_error + unit" where
  "validate_subdomain s =
     (if \<not> (3 \<le> length s \<and> length s \<le> 63)
      then Inl (Tunnel (''subdomain '' @ [CHR 39] @ s @ [CHR 39] @ '' must be 3'' @
             [CHR 0xE2, CHR 0x80, CHR 0x93] @ ''63 characters long''))
      else if starts_with ''-'' s \<or> ends_with ''-'' s
      then Inl (Tunnel (''subdomain '' @ [CHR 39] @ s @ [CHR 39] @ '' must not start or end with a hyphen''))
      else if \<not> list_all (\<lambda>c. is_ascii_alphanumeric c \<or> c = CHR ''-'') s
      then Inl (Tunnel (''subdomain '' @ [CHR 39] @ s @ [CHR 39] @
             '' may only contain letters, digits, and hyphens''))
      else Inr ())"

text \<open>The \<open>i\<close>-th byte of a UUID, most significant first.\<close>

definition uuid_byte :: "nat \<Rightarrow> uuid \<Rightarrow> nat" where
  "uuid_byte i u = unat (drop_bit (120 - 8 * i) u AND 255)"

definition random_subdomain :: "uuid \<Rightarrow> string" where
  "random_subdomain u =
     hex_byte (uuid_byte 0 u) @ hex_byte (uuid_byte 1 u) @ hex_byte (uuid_byte 2 u) @ hex_byte (uuid_byte 3 u)"

section \<open>Registration\<close>

text \<open>Insert a member under its tunnel id (\<open>members.insert\<close> on the shared group).\<close>

definition join_group :: "uuid \<Rightarrow> group_member \<Rightarrow> tunnel_group \<Rightarrow> tunnel_group" where
  "join_group tunnel_id m g = g\<lparr>tg_members := dm_insert tunnel_id m (tg_members g)\<rparr>"

text \<open>The entry step of \<open>register_http_tunnel\<close>: create the group or join it.\<close>

definition http_entry ::
  "instant \<Rightarrow> string \<Rightarrow> tunnel_protocol \<Rightarrow> tunnel_info \<Rightarrow> group_spec option \<Rightarrow>
   (string, tunnel_group) dashmap \<Rightarrow> server_error + (string, tunnel_group) dashmap" where
  "http_entry now subdomain prot info grp routes =
     (case dm_get routes subdomain of
        None \<Rightarrow>
          Inr (dm_insert subdomain
                (case grp of
                   None \<Rightarrow> new_solo subdomain info
                 | Some spec \<Rightarrow> new_with_member (gs_group_name spec) (Some (gs_key_hash spec))
                                 (with_health_spec now info (gs_health_check spec)))
                routes)
      | Some existing \<Rightarrow>
          (case grp of
             None \<Rightarrow> Inl (Tunnel (''subdomain '' @ quoted subdomain @ '' is already in use''))
           | Some spec \<Rightarrow>
               if tg_key_hash existing \<noteq> Some (gs_key_hash spec)
               then Inl (Tunnel (''group key does not match existing group for subdomain '' @ quoted subdomain))
               else let existing_protocol = (case tg_members existing of
                          [] \<Rightarrow> None | (_, m) # _ \<Rightarrow> Some (ti_protocol (gm_info m)))
                    in if existing_protocol \<noteq> Some prot
                       then Inl (Tunnel (''group member protocol mismatch for subdomain '' @ quoted subdomain @
                              '': existing='' @ option_protocol_debug existing_protocol @
                              '', new='' @ protocol_debug prot))
                       else Inr (dm_insert subdomain
                              (join_group (ti_tunnel_id info)
                                 (with_health_spec now info (gs_health_check spec)) existing)
                              routes)))"

definition register_http_tunnel ::
  "instant \<Rightarrow> uuid \<Rightarrow> uuid \<Rightarrow> uuid \<Rightarrow> string option \<Rightarrow> tunnel_protocol \<Rightarrow> group_spec option \<Rightarrow> tunnel_core \<Rightarrow>
   tunnel_core \<times> (server_error + uuid \<times> string)" where
  "register_http_tunnel now rand tunnel_id session_id subdomain_opt prot grp c =
     (case check_session_limit session_id c of
        Inl e \<Rightarrow> (c, Inl e)
      | Inr _ \<Rightarrow>
          (case (case subdomain_opt of
                   Some s \<Rightarrow> (case validate_subdomain s of Inl e \<Rightarrow> Inl e | Inr _ \<Rightarrow> Inr s)
                 | None \<Rightarrow> Inr (random_subdomain rand)) of
             Inl e \<Rightarrow> (c, Inl e)
           | Inr subdomain \<Rightarrow>
               let info = tunnel_info_new now session_id tunnel_id prot (Some subdomain) None
                            (max_connections_per_tunnel c)
               in case http_entry now subdomain prot info grp (http_routes c) of
                    Inl e \<Rightarrow> (c, Inl e)
                  | Inr routes \<Rightarrow>
                      (add_tunnel_to_session session_id tunnel_id
                         (c\<lparr>http_routes := routes,
                            tunnel_index := dm_insert tunnel_id (KHttp subdomain) (tunnel_index c)\<rparr>),
                       Inr (tunnel_id, subdomain))))"

text \<open>\<open>Vec::pop\<close> takes the last element.\<close>

definition vec_pop :: "'a list \<Rightarrow> ('a \<times> 'a list) option" where
  "vec_pop xs = (if xs = [] then None else Some (last xs, butlast xs))"

definition register_tcp_tunnel ::
  "instant \<Rightarrow> uuid \<Rightarrow> uuid \<Rightarrow> group_spec option \<Rightarrow> tunnel_core \<Rightarrow>
   tunnel_core \<times> (server_error + uuid \<times> u16)" where
  "register_tcp_tunnel now tunnel_id session_id grp c =
     (case check_session_limit session_id c of
        Inl e \<Rightarrow> (c, Inl e)
      | Inr _ \<Rightarrow>
          let build_info = (\<lambda>port. tunnel_info_new now session_id tunnel_id Tcp None (Some port)
                              (max_connections_per_tunnel c))
          in case grp of
               None \<Rightarrow>
                 (case vec_pop (available_tcp_ports c) of
                    None \<Rightarrow> (c, Inl NoPortsAvailable)
                  | Some (port, rest) \<Rightarrow>
                      let c1 = add_tunnel_to_session session_id tunnel_id
                            (c\<lparr>available_tcp_ports := rest,
                               tcp_routes := dm_insert port
                                 (new_solo (dec_string (unat port)) (build_info port)) (tcp_routes c),
                               tunnel_index := dm_insert tunnel_id (KTcp port) (tunnel_index c)\<rparr>)
                      in (c1\<lparr>tcp_events := tcp_events c1 @ [TcpRegistered tunnel_id port]\<rparr>,
                          Inr (tunnel_id, port)))
             | Some spec \<Rightarrow>
                 let idx_key = (gs_group_name spec, gs_key_hash spec)
                 in case dm_get (tcp_group_index c) idx_key of
                      None \<Rightarrow>
                        (case vec_pop (available_tcp_ports c) of
                           None \<Rightarrow> (c, Inl NoPortsAvailable)
                         | Some (port, rest) \<Rightarrow>
                             let c1 = add_tunnel_to_session session_id tunnel_id
                                   (c\<lparr>available_tcp_ports := rest,
                                      tcp_routes := dm_insert port
                                        (new_with_member (gs_group_name spec) (Some (gs_key_hash spec))
                                           (with_health_spec now (build_info port) (gs_health_check spec)))
                                        (tcp_routes c),
                                      tcp_group_index := dm_insert idx_key port (tcp_group_index c),
                                      tunnel_index := dm_insert tunnel_id (KTcp port) (tunnel_index c)\<rparr>)
                             in (c1\<lparr>tcp_events := tcp_events c1 @ [TcpRegistered tunnel_id port]\<rparr>,
                                 Inr (tunnel_id, port)))
                    | Some port \<Rightarrow>
                        (case dm_get (tcp_routes c) port of
                           None \<Rightarrow> (c, Inl (Tunnel (''TCP group index points to missing port '' @
                                     dec_string (unat port) @ ''; please retry'')))
                         | Some existing \<Rightarrow>
                             (add_tunnel_to_session session_id tunnel_id
                                (c\<lparr>tcp_routes := dm_insert port
                                     (join_group tunnel_id
                                        (with_health_spec now (build_info port) (gs_health_check spec)) existing)
                                     (tcp_routes c),
                                   tunnel_index := dm_insert tunnel_id (KTcp port) (tunnel_index c)\<rparr>),
                              Inr (tunnel_id, port))))"

definition register_udp_tunnel ::
  "instant \<Rightarrow> uuid \<Rightarrow> uuid \<Rightarrow> tunnel_core \<Rightarrow> tunnel_core \<times> (server_error + uuid \<times> u16)" where
  "register_udp_tunnel now tunnel_id session_id c =
     (case check_session_limit session_id c of
        Inl e \<Rightarrow> (c, Inl e)
      | Inr _ \<Rightarrow>
          (case vec_pop (available_udp_ports c) of
             None \<Rightarrow> (c, Inl NoPortsAvailable)
           | Some (port, rest) \<Rightarrow>
               let info = tunnel_info_new now session_id tunnel_id Udp None (Some port)
                            (max_connections_per_tunnel c);
                   c1 = add_tunnel_to_session session_id tunnel_id
                     (c\<lparr>available_udp_ports := rest,
                        udp_routes := dm_insert port (new_solo (dec_string (unat port)) info) (udp_routes c),
                        tunnel_index := dm_insert tunnel_id (KUdp port) (tunnel_index c)\<rparr>)
               in (c1\<lparr>udp_events := udp_events c1 @ [UdpRegistered tunnel_id port]\<rparr>,
                   Inr (tunnel_id, port))))"

definition register_p2p_tunnel ::
  "instant \<Rightarrow> uuid \<Rightarrow> uuid \<Rightarrow> string \<Rightarrow> string \<Rightarrow> tunnel_core \<Rightarrow>
   tunnel_core \<times> (server_error + uuid \<times> string)" where
  "register_p2p_tunnel now tunnel_id session_id name secret_hash c =
     (case check_session_limit session_id c of
        Inl e \<Rightarrow> (c, Inl e)
      | Inr _ \<Rightarrow>
          if dm_contains (p2p_tunnels c) name
          then (c, Inl (Tunnel (''P2P tunnel name '' @ quoted name @ '' is already in use'')))
          else let info = tunnel_info_new now session_id tunnel_id P2p None None
                            (max_connections_per_tunnel c);
                   publisher = \<lparr>pp_tunnel_info = info, pp_secret_hash = secret_hash, pp_name = name,
                                pp_nat_type = None, pp_mapped_addrs = []\<rparr>
               in (add_tunnel_to_session session_id tunnel_id
                     (c\<lparr>p2p_tunnels := dm_insert name publisher (p2p_tunnels c),
                        tunnel_index := dm_insert tunnel_id (KP2p name) (tunnel_index c)\<rparr>),
                   Inr (tunnel_id, name)))"

section \<open>Removal\<close>

text \<open>\<open>get(&key).map(|g| { g.members.remove(id); g.members.is_empty() }).unwrap_or(true)\<close>, then
  dropping the route when the group is empty: the shape of the HTTP, TCP and UDP arms.\<close>

definition leave_group ::
  "'k \<Rightarrow> uuid \<Rightarrow> ('k, tunnel_group) dashmap \<Rightarrow> ('k, tunnel_group) dashmap \<times> bool" where
  "leave_group k tunnel_id routes =
     (case dm_get routes k of
        None \<Rightarrow> (dm_remove k routes, True)
      | Some g \<Rightarrow>
          let g' = g\<lparr>tg_members := dm_remove tunnel_id (tg_members g)\<rparr>
          in if tg_members g' = [] then (dm_remove k routes, True)
             else (dm_insert k g' routes, False))"

definition remove_tunnel :: "uuid \<Rightarrow> tunnel_core \<Rightarrow> tunnel_core" where
  "remove_tunnel tunnel_id c0 =
     (case dm_get (tunnel_index c0) tunnel_id of
        None \<Rightarrow> c0
      | Some key \<Rightarrow>
          let c = c0\<lparr>tunnel_index := dm_remove tunnel_id (tunnel_index c0)\<rparr>
          in case key of
               KHttp subdomain \<Rightarrow>
                 c\<lparr>http_routes := fst (leave_group subdomain tunnel_id (http_routes c))\<rparr>
             | KTcp port \<Rightarrow>
                 let idx_key = Option.bind (dm_get (tcp_routes c) port)
                       (\<lambda>g. map_option (\<lambda>kh. (tg_name g, kh)) (tg_key_hash g));
                     (routes, group_empty) = leave_group port tunnel_id (tcp_routes c);
                     c1 = c\<lparr>tcp_routes := routes\<rparr>
                 in if group_empty
                    then c1\<lparr>tcp_group_index := (case idx_key of
                               None \<Rightarrow> tcp_group_index c1 | Some k \<Rightarrow> dm_remove k (tcp_group_index c1)),
                            available_tcp_ports := available_tcp_ports c1 @ [port],
                            tcp_events := tcp_events c1 @ [TcpUnregistered port]\<rparr>
                    else c1
             | KUdp port \<Rightarrow>
                 let (routes, group_empty) = leave_group port tunnel_id (udp_routes c);
                     c1 = c\<lparr>udp_routes := routes\<rparr>
                 in if group_empty
                    then c1\<lparr>available_udp_ports := available_udp_ports c1 @ [port],
                            udp_events := udp_events c1 @ [UdpUnregistered port]\<rparr>
                    else c1
             | KP2p name \<Rightarrow> c\<lparr>p2p_tunnels := dm_remove name (p2p_tunnels c)\<rparr>)"

definition remove_session :: "uuid \<Rightarrow> tunnel_core \<Rightarrow> tunnel_core" where
  "remove_session session_id c =
     (case dm_get (sessions c) session_id of
        None \<Rightarrow> c
      | Some s \<Rightarrow> fold remove_tunnel (si_tunnels s)
                    (c\<lparr>sessions := dm_remove session_id (sessions c)\<rparr>))"

end
