(* ===== verification/RouterHealth.thy ===== *)
theory RouterHealth
  imports Router
begin

text \<open>
  The rest of \<open>TunnelCore\<close> (\<open>core/router.rs\<close>): counters and look-ups by tunnel id, the health bit
  of group members with its live events and the zero-healthy alert, P2P discovery, and the
  dispatch of a public connection to a member.
\<close>

section \<open>Finding a tunnel\<close>

definition group_at :: "tunnel_key \<Rightarrow> tunnel_core \<Rightarrow> tunnel_group option" where
  "group_at k c = (case k of
       KHttp s \<Rightarrow> dm_get (http_routes c) s
     | KTcp p \<Rightarrow> dm_get (tcp_routes c) p
     | KUdp p \<Rightarrow> dm_get (udp_routes c) p
     | KP2p n \<Rightarrow> None)"

text \<open>Mutation of a shared group (or one of its members) in place.\<close>

definition modify_group :: "tunnel_key \<Rightarrow> (tunnel_group \<Rightarrow> tunnel_group) \<Rightarrow> tunnel_core \<Rightarrow> tunnel_core" where
  "modify_group k f c = (case k of
       KHttp s \<Rightarrow> c\<lparr>http_routes := dm_modify s f (http_routes c)\<rparr>
     | KTcp p \<Rightarrow> c\<lparr>tcp_routes := dm_modify p f (tcp_routes c)\<rparr>
     | KUdp p \<Rightarrow> c\<lparr>udp_routes := dm_modify p f (udp_routes c)\<rparr>
     | KP2p n \<Rightarrow> c)"

definition modify_member :: "uuid \<Rightarrow> (group_member \<Rightarrow> group_member) \<Rightarrow> tunnel_group \<Rightarrow> tunnel_group" where
  "modify_member t f g = g\<lparr>tg_members := dm_modify t f (tg_members g)\<rparr>"

text \<open>The match over the four kinds of key that the counter look-ups share.\<close>

definition tunnel_info_at :: "uuid \<Rightarrow> tunnel_core \<Rightarrow> tunnel_info option" where
  "tunnel_info_at tunnel_id c =
     (case dm_get (tunnel_index c) tunnel_id of
        Some (KHttp sub) \<Rightarrow> Option.bind (dm_get (http_routes c) sub)
          (\<lambda>g. map_option gm_info (dm_get (tg_members g) tunnel_id))
      | Some (KTcp port) \<Rightarrow> Option.bind (dm_get (tcp_routes c) port)
          (\<lambda>g. map_option gm_info (dm_get (tg_members g) tunnel_id))
      | Some (KUdp port) \<Rightarrow> Option.bind (dm_get (udp_routes c) port)
          (\<lambda>g. map_option gm_info (dm_get (tg_members g) tunnel_id))
      | Some (KP2p name) \<Rightarrow> map_option pp_tunnel_info (dm_get (p2p_tunnels c) name)
      | None \<Rightarrow> None)"

definition get_tunnel_request_count :: "uuid \<Rightarrow> tunnel_core \<Rightarrow> u64" where
  "get_tunnel_request_count tunnel_id c =
     (case tunnel_info_at tunnel_id c of Some i \<Rightarrow> ti_request_count i | None \<Rightarrow> 0)"

definition get_tunnel_bytes_proxied :: "uuid \<Rightarrow> tunnel_core \<Rightarrow> u64" where
  "get_tunnel_bytes_proxied tunnel_id c =
     (case tunnel_info_at tunnel_id c of Some i \<Rightarrow> ti_bytes_proxied i | None \<Rightarrow> 0)"

definition tunnel_meter :: "uuid \<Rightarrow> tunnel_core \<Rightarrow> live_tunnel_meter" where
  "tunnel_meter tunnel_id c =
     (case tunnel_info_at tunnel_id c of Some i \<Rightarrow> meter_snapshot i | None \<Rightarrow> meter_zeros tunnel_id)"

definition group_meters :: "('k, tunnel_group) dashmap \<Rightarrow> live_tunnel_meter list" where
  "group_meters routes =
     concat (map (\<lambda>(_, g). map (\<lambda>(_, m). meter_snapshot (gm_info m)) (tg_members g)) routes)"

definition live_tunnel_meters :: "tunnel_core \<Rightarrow> live_tunnel_meter list" where
  "live_tunnel_meters c =
     group_meters (http_routes c) @ group_meters (tcp_routes c) @ group_meters (udp_routes c) @
     map (\<lambda>(_, p). meter_snapshot (pp_tunnel_info p)) (p2p_tunnels c)"

definition tunnel_session :: "uuid \<Rightarrow> tunnel_core \<Rightarrow> uuid option" where
  "tunnel_session tunnel_id c =
     Option.bind (dm_get (tunnel_index c) tunnel_id)
       (\<lambda>key. case key of
          KP2p name \<Rightarrow> map_option (\<lambda>p. ti_session_id (pp_tunnel_info p)) (dm_get (p2p_tunnels c) name)
        | _ \<Rightarrow> Option.bind (group_at key c)
            (\<lambda>g. map_option (\<lambda>m. ti_session_id (gm_info m)) (dm_get (tg_members g) tunnel_id)))"

definition group_for_tunnel :: "uuid \<Rightarrow> tunnel_core \<Rightarrow> tunnel_group option" where
  "group_for_tunnel tunnel_id c = Option.bind (dm_get (tunnel_index c) tunnel_id) (\<lambda>key. group_at key c)"

section \<open>P2P discovery\<close>

definition resolve_p2p :: "string \<Rightarrow> tunnel_core \<Rightarrow> tunnel_core \<times> (p2p_publisher \<times> nat) option" where
  "resolve_p2p name c =
     (case dm_get (p2p_tunnels c) name of
        None \<Rightarrow> (c, None)
      | Some publisher \<Rightarrow>
          (case dm_get (sessions c) (ti_session_id (pp_tunnel_info publisher)) of
             None \<Rightarrow> (c, None)
           | Some s \<Rightarrow>
               let publisher' = publisher\<lparr>pp_tunnel_info := (pp_tunnel_info publisher)
                     \<lparr>ti_request_count := ti_request_count (pp_tunnel_info publisher) + 1\<rparr>\<rparr>
               in (c\<lparr>p2p_tunnels := dm_insert name publisher' (p2p_tunnels c)\<rparr>,
                   Some (publisher', si_control_tx s))))"

definition update_p2p_nat_info :: "uuid \<Rightarrow> string \<Rightarrow> string list \<Rightarrow> tunnel_core \<Rightarrow> tunnel_core" where
  "update_p2p_nat_info tunnel_id nat_type mapped_addrs c =
     (case dm_get (tunnel_index c) tunnel_id of
        Some (KP2p name) \<Rightarrow>
          c\<lparr>p2p_tunnels := dm_modify name
             (\<lambda>p. p\<lparr>pp_nat_type := Some nat_type, pp_mapped_addrs := mapped_addrs\<rparr>) (p2p_tunnels c)\<rparr>
      | _ \<Rightarrow> c)"

section \<open>Health\<close>

definition with_member ::
  "uuid \<Rightarrow> (group_member \<Rightarrow> group_member \<times> 'a) \<Rightarrow> tunnel_core \<Rightarrow> tunnel_core \<times> 'a option" where
  "with_member tunnel_id f c =
     (case dm_get (tunnel_index c) tunnel_id of
        None \<Rightarrow> (c, None)
      | Some key \<Rightarrow>
          (case group_at key c of
             None \<Rightarrow> (c, None)
           | Some grp \<Rightarrow>
               (case dm_get (tg_members grp) tunnel_id of
                  None \<Rightarrow> (c, None)
                | Some member \<Rightarrow>
                    (modify_group key (modify_member tunnel_id (\<lambda>m. fst (f m))) c,
                     Some (snd (f member))))))"

definition key_label :: "tunnel_key \<Rightarrow> (string \<times> string) option" where
  "key_label key = (case key of
       KHttp sub \<Rightarrow> Some (''http'', sub)
     | KTcp port \<Rightarrow> Some (''tcp'', dec_string (unat port))
     | KUdp port \<Rightarrow> Some (''udp'', dec_string (unat port))
     | KP2p _ \<Rightarrow> None)"

definition broadcast_group_event ::
  "uuid \<Rightarrow> tunnel_group \<Rightarrow> bool \<Rightarrow> string \<Rightarrow> tunnel_core \<Rightarrow> tunnel_core" where
  "broadcast_group_event tunnel_id grp healthy reason c =
     (case Option.bind (dm_get (tunnel_index c) tunnel_id) key_label of
        None \<Rightarrow> c
      | Some (prot, label) \<Rightarrow>
          c\<lparr>group_events := group_events c @
             [\<lparr>ge_protocol = prot, ge_label = label, ge_tunnel_id = tunnel_id, ge_healthy = healthy,
               ge_reason = reason, ge_healthy_count = healthy_count grp,
               ge_member_count = length (tg_members grp)\<rparr>]\<rparr>)"

text \<open>The closures run on the member by the two setters; the flag is \<open>transitioned\<close>.\<close>

definition mark_healthy :: "instant \<Rightarrow> group_member \<Rightarrow> group_member \<times> bool" where
  "mark_healthy now m =
     (let was_unhealthy = \<not> gm_healthy m;
          m1 = m\<lparr>gm_healthy := True, gm_consecutive_failures := 0\<rparr>
      in (if was_unhealthy then record_health_event now True ''recovered'' m1 else m1, was_unhealthy))"

definition mark_unhealthy :: "instant \<Rightarrow> string \<Rightarrow> group_member \<Rightarrow> group_member \<times> bool" where
  "mark_unhealthy now reason m =
     (let was_healthy = gm_healthy m;
          m1 = m\<lparr>gm_healthy := False, gm_consecutive_failures := gm_consecutive_failures m + 1,
                 gm_total_health_failures := gm_total_health_failures m + 1\<rparr>
      in (if was_healthy then record_health_event now False reason m1 else m1, was_healthy))"

definition set_tunnel_healthy :: "instant \<Rightarrow> uuid \<Rightarrow> tunnel_core \<Rightarrow> tunnel_core \<times> bool" where
  "set_tunnel_healthy now tunnel_id c =
     (case with_member tunnel_id (mark_healthy now) c of
        (c1, None) \<Rightarrow> (c1, False)
      | (c1, Some transitioned) \<Rightarrow>
          (case dm_get (tunnel_index c1) tunnel_id of
             None \<Rightarrow> (c1, True)
           | Some key \<Rightarrow>
               let c2 = modify_group key (\<lambda>g. g\<lparr>tg_zero_healthy_alerted := False\<rparr>) c1
               in case group_for_tunnel tunnel_id c2 of
                    None \<Rightarrow> (c2, True)
                  | Some grp \<Rightarrow>
                      (if transitioned then broadcast_group_event tunnel_id grp True ''recovered'' c2 else c2,
                       True)))"

definition set_tunnel_unhealthy :: "instant \<Rightarrow> uuid \<Rightarrow> string \<Rightarrow> tunnel_core \<Rightarrow> tunnel_core \<times> bool" where
  "set_tunnel_unhealthy now tunnel_id reason c =
     (case with_member tunnel_id (mark_unhealthy now reason) c of
        (c1, None) \<Rightarrow> (c1, False)
      | (c1, Some transitioned) \<Rightarrow>
          (if transitioned
           then (case group_for_tunnel tunnel_id c1 of
                   None \<Rightarrow> c1
                 | Some grp \<Rightarrow> broadcast_group_event tunnel_id grp False reason c1)
           else c1,
           True))"

text \<open>Unique webhook URLs of the members, in order of first occurrence.\<close>

definition push_unique :: "string list \<Rightarrow> uuid \<times> group_member \<Rightarrow> string list" where
  "push_unique urls tm =
     (case Option.bind (gm_health_spec (snd tm)) hc_alert_webhook_url of
        None \<Rightarrow> urls
      | Some url \<Rightarrow> if list_ex (\<lambda>u. u = url) urls then urls else urls @ [url])"

definition pop_zero_healthy_alert ::
  "uuid \<Rightarrow> string \<Rightarrow> tunnel_core \<Rightarrow> tunnel_core \<times> zero_healthy_alert option" where
  "pop_zero_healthy_alert tunnel_id region_id c =
     (case group_for_tunnel tunnel_id c of
        None \<Rightarrow> (c, None)
      | Some grp \<Rightarrow>
          if tg_key_hash grp = None then (c, None)
          else if healthy_count grp \<noteq> 0 then (c, None)
          else if tg_zero_healthy_alerted grp then (c, None)
          else (case dm_get (tunnel_index c) tunnel_id of
                  None \<Rightarrow> (c, None)
                | Some key \<Rightarrow>
                    (modify_group key (\<lambda>g. g\<lparr>tg_zero_healthy_alerted := True\<rparr>) c,
                     case key_label key of
                       None \<Rightarrow> None
                     | Some (prot, label) \<Rightarrow>
                         Some \<lparr>za_payload =
                                 \<lparr>ga_region_id = region_id, ga_protocol = prot, ga_label = label,
                                  ga_group_name = tg_name grp,
                                  ga_key_hash_short = (case tg_key_hash grp of
                                      None \<Rightarrow> [] | Some kh \<Rightarrow> take_chars 8 kh),
                                  ga_member_count = length (tg_members grp)\<rparr>,
                               za_tenant_webhook_urls = foldl push_unique [] (tg_members grp)\<rparr>)))"

section \<open>Dispatch\<close>

text \<open>\<open>IteratorRandom::choose\<close>: some element of a non-empty sequence, selected by the random
  argument.\<close>

definition choose_one :: "nat \<Rightarrow> 'a list \<Rightarrow> 'a option" where
  "choose_one pick xs = (if xs = [] then None else Some (xs ! (pick mod length xs)))"

definition bump_request_count :: "group_member \<Rightarrow> group_member" where
  "bump_request_count m = m\<lparr>gm_info := (gm_info m)\<lparr>ti_request_count := ti_request_count (gm_info m) + 1\<rparr>\<rparr>"

text \<open>The group is the one stored under \<open>key\<close>; the counter that is bumped is shared between the
  returned view and the member in the table.\<close>

definition dispatch_member ::
  "nat \<Rightarrow> tunnel_key \<Rightarrow> tunnel_group \<Rightarrow> tunnel_core \<Rightarrow> tunnel_core \<times> (tunnel_info \<times> nat) option" where
  "dispatch_member pick key grp c =
     (case choose_one pick (map (\<lambda>(_, m). gm_info m) (filter (\<lambda>(_, m). gm_healthy m) (tg_members grp))) of
        None \<Rightarrow> (c, None)
      | Some info \<Rightarrow>
          (case dm_get (sessions c) (ti_session_id info) of
             None \<Rightarrow> (c, None)
           | Some s \<Rightarrow>
               (modify_group key (modify_member (ti_tunnel_id info) bump_request_count) c,
                Some (info\<lparr>ti_request_count := ti_request_count info + 1\<rparr>, si_control_tx s))))"

definition resolve_http :: "nat \<Rightarrow> string \<Rightarrow> tunnel_core \<Rightarrow> tunnel_core \<times> (tunnel_info \<times> nat) option" where
  "resolve_http pick subdomain c =
     (case dm_get (http_routes c) subdomain of
        None \<Rightarrow> (c, None) | Some grp \<Rightarrow> dispatch_member pick (KHttp subdomain) grp c)"

definition has_http_route :: "string \<Rightarrow> tunnel_core \<Rightarrow> bool" where
  "has_http_route subdomain c = dm_contains (http_routes c) subdomain"

definition resolve_tcp :: "nat \<Rightarrow> u16 \<Rightarrow> tunnel_core \<Rightarrow> tunnel_core \<times> (tunnel_info \<times> nat) option" where
  "resolve_tcp pick port c =
     (case dm_get (tcp_routes c) port of
        None \<Rightarrow> (c, None) | Some grp \<Rightarrow> dispatch_member pick (KTcp port) grp c)"

definition resolve_udp :: "nat \<Rightarrow> u16 \<Rightarrow> tunnel_core \<Rightarrow> tunnel_core \<times> (tunnel_info \<times> nat) option" where
  "resolve_udp pick port c =
     (case dm_get (udp_routes c) port of
        None \<Rightarrow> (c, None) | Some grp \<Rightarrow> dispatch_member pick (KUdp port) grp c)"

text \<open>\<open>TunnelInfo::add_transfer\<close> on the counters of a live tunnel, through the meter an edge task holds.\<close>

definition record_transfer :: "uuid \<Rightarrow> u64 \<Rightarrow> u64 \<Rightarrow> tunnel_core \<Rightarrow> tunnel_core" where
  "record_transfer tunnel_id inbound outbound c =
     (case dm_get (tunnel_index c) tunnel_id of
        None \<Rightarrow> c
      | Some (KP2p name) \<Rightarrow> c\<lparr>p2p_tunnels := dm_modify name
          (\<lambda>p. p\<lparr>pp_tunnel_info := add_transfer inbound outbound (pp_tunnel_info p)\<rparr>) (p2p_tunnels c)\<rparr>
      | Some key \<Rightarrow> modify_group key (modify_member tunnel_id
          (\<lambda>m. m\<lparr>gm_info := add_transfer inbound outbound (gm_info m)\<rparr>)) c)"

end
