(* ===== verification/RouterInv.thy ===== *)
theory RouterInv
  imports RouterHealth
begin

text \<open>
  The consistency of the routing tables.  The three tables of load-balancing groups share the
  contract of the locale \<open>route_table\<close>: a tunnel id is indexed under a key iff it is a member of the
  group stored there, and no stored group is empty.  The port pools, the TCP group
  index, the P2P table and the sessions each get their own predicate; \<open>tables_inv\<close> collects the tables and \<open>core_inv\<close>
  adds the sessions.
\<close>

section \<open>Groups and route tables\<close>

definition group_ok :: "tunnel_group \<Rightarrow> bool" where
  "group_ok g \<longleftrightarrow> dm_wf (tg_members g) \<and> tg_members g \<noteq> [] \<and>
     (\<forall>t m. dm_get (tg_members g) t = Some m \<longrightarrow>
        ti_tunnel_id (gm_info m) = t \<and> length (gm_health_events m) \<le> HEALTH_EVENT_RING_SIZE) \<and>
     (tg_key_hash g = None \<longrightarrow> length (tg_members g) = 1)"

definition members_of :: "('k, tunnel_group) dashmap \<Rightarrow> 'k \<Rightarrow> uuid set" where
  "members_of routes k =
     (case dm_get routes k of None \<Rightarrow> {} | Some g \<Rightarrow> dom (dm_get (tg_members g)))"

definition routes_ok ::
  "('k \<Rightarrow> tunnel_key) \<Rightarrow> ('k \<Rightarrow> tunnel_info \<Rightarrow> bool) \<Rightarrow> ('k, tunnel_group) dashmap \<Rightarrow>
   (uuid, tunnel_key) dashmap \<Rightarrow> bool" where
  "routes_ok K J routes idx \<longleftrightarrow> dm_wf routes \<and>
     (\<forall>k g. dm_get routes k = Some g \<longrightarrow> group_ok g \<and>
        (\<forall>t m. dm_get (tg_members g) t = Some m \<longrightarrow> J k (gm_info m))) \<and>
     (\<forall>k t. t \<in> members_of routes k \<longleftrightarrow> dm_get idx t = Some (K k))"

definition table_info :: "('k, tunnel_group) dashmap \<Rightarrow> 'k \<Rightarrow> uuid \<Rightarrow> tunnel_info option" where
  "table_info routes k t =
     Option.bind (dm_get routes k) (\<lambda>g. map_option gm_info (dm_get (tg_members g) t))"

text \<open>A member update that keeps what routing relies on.\<close>

definition keeps_member :: "('k \<Rightarrow> tunnel_info \<Rightarrow> bool) \<Rightarrow> (group_member \<Rightarrow> group_member) \<Rightarrow> bool" where
  "keeps_member J f \<longleftrightarrow> (\<forall>m k. ti_tunnel_id (gm_info (f m)) = ti_tunnel_id (gm_info m) \<and>
     ti_session_id (gm_info (f m)) = ti_session_id (gm_info m) \<and>
     (J k (gm_info m) \<longrightarrow> J k (gm_info (f m))) \<and>
     (length (gm_health_events m) \<le> HEALTH_EVENT_RING_SIZE \<longrightarrow>
      length (gm_health_events (f m)) \<le> HEALTH_EVENT_RING_SIZE))"

lemma routes_ok_group:
  "routes_ok K J R idx \<Longrightarrow> dm_get R k = Some g \<Longrightarrow>
   dm_get idx t = Some (K k) \<longleftrightarrow> (\<exists>m. dm_get (tg_members g) t = Some m)"
  by (auto simp: routes_ok_def members_of_def dom_def split: option.splits
      dest: spec[of _ k] spec2[of _ k t]) 

lemma members_of_insert [simp]:
  "members_of (dm_insert k g R) k' = (if k' = k then dom (dm_get (tg_members g)) else members_of R k')"
  by (simp add: members_of_def)

lemma members_of_remove [simp]:
  "members_of (dm_remove k R) k' = (if k' = k then {} else members_of R k')"
  by (simp add: members_of_def)

lemma group_ok_solo: "ti_tunnel_id i = t \<Longrightarrow> group_ok (new_solo n i)"
  by (simp add: group_ok_def dm_wf_def)

lemma group_ok_with_member:
  "ti_tunnel_id i = t \<Longrightarrow> group_ok (new_with_member n kh (with_health_spec now i sp))"
  by (simp add: group_ok_def dm_wf_def HEALTH_EVENT_RING_SIZE_def)

lemma group_ok_join:
  assumes "group_ok g" and "tg_key_hash g \<noteq> None" and "ti_tunnel_id i = t"
  shows "group_ok (join_group t (with_health_spec now i sp) g)"
  using assms by (auto simp: group_ok_def join_group_def HEALTH_EVENT_RING_SIZE_def)

lemma group_ok_leave:
  assumes "group_ok g" and "dm_remove t (tg_members g) \<noteq> []"
  shows "group_ok (g\<lparr>tg_members := dm_remove t (tg_members g)\<rparr>)"
proof -
  have "length (dm_remove t (tg_members g)) \<le> length (tg_members g)" by (rule length_delete_le)
  moreover have "0 < length (dm_remove t (tg_members g))" using assms(2) by simp
  ultimately have "length (tg_members g) = 1 \<Longrightarrow> length (dm_remove t (tg_members g)) = 1" by linarith
  then show ?thesis using assms by (auto simp: group_ok_def)
qed

locale route_table =
  fixes K :: "'k \<Rightarrow> tunnel_key" and J :: "'k \<Rightarrow> tunnel_info \<Rightarrow> bool"
  assumes K_inj: "K k = K k' \<longleftrightarrow> k = k'"
begin

lemma ok_create:
  assumes "routes_ok K J R idx" and "dm_get R k = None" and "dm_get idx t = None"
    and "group_ok g" and "tg_members g = [(t, m)]" and "J k (gm_info m)"
  shows "routes_ok K J (dm_insert k g R) (dm_insert t (K k) idx)"
proof -
  have "t \<notin> members_of R k'" for k' using assms(1,3) by (auto simp: routes_ok_def)
  moreover have "members_of R k = {}" using assms(2) by (simp add: members_of_def)
  ultimately show ?thesis using assms by (auto simp: routes_ok_def K_inj split: if_splits)
qed

lemma ok_join:
  assumes "routes_ok K J R idx" and "dm_get R k = Some g" and "tg_key_hash g \<noteq> None"
    and "dm_get idx t = None" and "ti_tunnel_id i = t" and "J k i"
  shows "routes_ok K J (dm_insert k (join_group t (with_health_spec now i sp) g) R)
           (dm_insert t (K k) idx)"
proof -
  have "group_ok (join_group t (with_health_spec now i sp) g)"
    using assms group_ok_join by (auto simp: routes_ok_def)
  moreover have "t \<notin> members_of R k'" for k' using assms(1,4) by (auto simp: routes_ok_def)
  ultimately show ?thesis
    using assms routes_ok_group[OF assms(1,2)]
    by (auto simp: routes_ok_def K_inj join_group_def split: if_splits)
qed

lemma ok_leave:
  assumes ok: "routes_ok K J R idx" and t: "dm_get idx t = Some (K k)"
  shows "routes_ok K J (fst (leave_group k t R)) (dm_remove t idx)"
    and "snd (leave_group k t R) \<longleftrightarrow> members_of R k = {t}"
    and "dom (dm_get (fst (leave_group k t R))) =
         (if members_of R k = {t} then dom (dm_get R) - {k} else dom (dm_get R))"
proof -
  obtain g m where g: "dm_get R k = Some g" and m: "dm_get (tg_members g) t = Some m"
    using ok t by (force simp: routes_ok_def members_of_def split: option.splits)
  have gok: "group_ok g" using ok g by (auto simp: routes_ok_def)
  have emp: "dm_remove t (tg_members g) = [] \<longleftrightarrow> members_of R k = {t}"
    using m by (auto simp: dm_remove_Nil_iff members_of_def g)
  have lv: "leave_group k t R =
      (if members_of R k = {t} then (dm_remove k R, True)
       else (dm_insert k (g\<lparr>tg_members := dm_remove t (tg_members g)\<rparr>) R, False))"
    using emp by (simp add: leave_group_def g Let_def)
  show "snd (leave_group k t R) \<longleftrightarrow> members_of R k = {t}" by (simp add: lv)
  show "dom (dm_get (fst (leave_group k t R))) =
        (if members_of R k = {t} then dom (dm_get R) - {k} else dom (dm_get R))"
    using g by (auto simp: lv split: if_splits)
  have other: "k' = k \<or> t \<notin> members_of R k'" for k'
    using ok t by (auto simp: routes_ok_def K_inj)
  show "routes_ok K J (fst (leave_group k t R)) (dm_remove t idx)"
  proof (cases "members_of R k = {t}")
    case True
    then show ?thesis using ok other
      by (auto simp: lv routes_ok_def K_inj split: if_splits)
  next
    case False
    have "group_ok (g\<lparr>tg_members := dm_remove t (tg_members g)\<rparr>)"
      using group_ok_leave[OF gok] emp False by blast
    then show ?thesis using ok g other False routes_ok_group[OF ok g]
      by (auto simp: lv routes_ok_def K_inj split: if_splits)
  qed
qed

lemma ok_frame_insert:
  "routes_ok K J R idx \<Longrightarrow> dm_get idx t = None \<Longrightarrow> (\<And>k. key \<noteq> K k) \<Longrightarrow>
   routes_ok K J R (dm_insert t key idx)"
  by (auto simp: routes_ok_def split: if_splits)

lemma ok_frame_remove:
  "routes_ok K J R idx \<Longrightarrow> dm_get idx t = Some key \<Longrightarrow> (\<And>k. key \<noteq> K k) \<Longrightarrow>
   routes_ok K J R (dm_remove t idx)"
  by (auto simp: routes_ok_def split: if_splits)

lemma ok_modify:
  assumes ok: "routes_ok K J R idx"
    and keep: "\<And>g. dm_get R k = Some g \<Longrightarrow> group_ok (f g) \<and>
      dom (dm_get (tg_members (f g))) = dom (dm_get (tg_members g)) \<and>
      (\<forall>t m. dm_get (tg_members (f g)) t = Some m \<longrightarrow> J k (gm_info m))"
  shows "routes_ok K J (dm_modify k f R) idx"
proof -
  have "members_of (dm_modify k f R) k' = members_of R k'" for k'
    using keep by (auto simp: members_of_def split: option.splits)
  then show ?thesis using ok keep by (auto simp: routes_ok_def)
qed

lemma ok_modify_member:
  assumes ok: "routes_ok K J R idx" and keep: "keeps_member J f"
  shows "routes_ok K J (dm_modify k (modify_member t f) R) idx"
proof (rule ok_modify[OF ok])
  fix g assume g: "dm_get R k = Some g"
  have "group_ok g" and J: "\<forall>t m. dm_get (tg_members g) t = Some m \<longrightarrow> J k (gm_info m)"
    using ok g by (auto simp: routes_ok_def)
  moreover have "length (dm_modify t f (tg_members g)) = length (tg_members g)"
  proof (cases "dm_get (tg_members g) t")
    case (Some m)
    then have "map fst (dm_insert t (f m) (tg_members g)) = map fst (tg_members g)"
      by (force simp: update_keys dest: map_of_SomeD)
    then show ?thesis using Some by (metis dm_modify_def length_map option.simps(5))
  qed (simp add: dm_modify_def)
  ultimately show "group_ok (modify_member t f g) \<and>
      dom (dm_get (tg_members (modify_member t f g))) = dom (dm_get (tg_members g)) \<and>
      (\<forall>t' m. dm_get (tg_members (modify_member t f g)) t' = Some m \<longrightarrow> J k (gm_info m))"
    using keep by (auto simp: group_ok_def modify_member_def keeps_member_def split: if_splits)
qed

end

section \<open>What a table knows of a tunnel\<close>

lemma table_info_insert:
  "table_info (dm_insert k g R) k' t =
     (if k' = k then map_option gm_info (dm_get (tg_members g) t) else table_info R k' t)"
  by (simp add: table_info_def)

lemma table_info_leave:
  assumes "t' \<noteq> t"
  shows "table_info (fst (leave_group k t R)) k' t' = table_info R k' t'"
proof (cases "dm_get R k")
  case (Some g)
  show ?thesis
  proof (cases "dm_remove t (tg_members g) = []")
    case True
    then have "dm_get (tg_members g) t' = None" using assms by (auto simp: dm_remove_Nil_iff)
    then show ?thesis using True Some by (auto simp: leave_group_def table_info_def Let_def)
  qed (use assms Some in \<open>auto simp: leave_group_def table_info_def Let_def\<close>)
qed (auto simp: leave_group_def table_info_def)

lemma table_info_modify_member:
  "table_info (dm_modify k (modify_member t f) R) k' t' =
     (if k' = k \<and> t' = t
      then Option.bind (dm_get R k) (\<lambda>g. map_option (\<lambda>m. gm_info (f m)) (dm_get (tg_members g) t))
      else table_info R k' t')"
  by (cases "dm_get R k") (auto simp: table_info_def modify_member_def option.map_comp comp_def)

lemma tunnel_info_at_table:
  "tunnel_info_at t c =
     (case dm_get (tunnel_index c) t of
        Some (KHttp s) \<Rightarrow> table_info (http_routes c) s t
      | Some (KTcp p) \<Rightarrow> table_info (tcp_routes c) p t
      | Some (KUdp p) \<Rightarrow> table_info (udp_routes c) p t
      | Some (KP2p n) \<Rightarrow> map_option pp_tunnel_info (dm_get (p2p_tunnels c) n)
      | None \<Rightarrow> None)"
  by (simp add: tunnel_info_at_def table_info_def split: option.split tunnel_key.split)

section \<open>The invariant of the router\<close>

definition http_info_ok :: "string \<Rightarrow> tunnel_info \<Rightarrow> bool" where
  "http_info_ok s i \<longleftrightarrow> ti_subdomain i = Some s"

definition tcp_info_ok :: "u16 \<Rightarrow> tunnel_info \<Rightarrow> bool" where
  "tcp_info_ok p i \<longleftrightarrow> ti_protocol i = Tcp \<and> ti_assigned_port i = Some p"

definition udp_info_ok :: "u16 \<Rightarrow> tunnel_info \<Rightarrow> bool" where
  "udp_info_ok p i \<longleftrightarrow> ti_protocol i = Udp \<and> ti_assigned_port i = Some p"

interpretation http_rt: route_table KHttp http_info_ok
  by unfold_locales simp

interpretation tcp_rt: route_table KTcp tcp_info_ok
  by unfold_locales simp

interpretation udp_rt: route_table KUdp udp_info_ok
  by unfold_locales simp

definition group_uniform :: "tunnel_group \<Rightarrow> bool" where
  "group_uniform g \<longleftrightarrow>
     (\<exists>prot. \<forall>t m. dm_get (tg_members g) t = Some m \<longrightarrow> ti_protocol (gm_info m) = prot)"

definition http_uniform :: "(string, tunnel_group) dashmap \<Rightarrow> bool" where
  "http_uniform R \<longleftrightarrow> (\<forall>s g. dm_get R s = Some g \<longrightarrow> group_uniform g)"

lemma http_uniform_insert:
  "http_uniform R \<Longrightarrow> group_uniform g \<Longrightarrow> http_uniform (dm_insert s g R)"
  by (simp add: http_uniform_def)

lemma group_uniform_single: "tg_members g = [(t, m)] \<Longrightarrow> group_uniform g"
  by (simp add: group_uniform_def)

lemma group_uniform_join:
  assumes "group_uniform g" and "tg_members g = (t0, m0) # rest"
    and "ti_protocol (gm_info m0) = ti_protocol (gm_info m)"
  shows "group_uniform (join_group t m g)"
proof -
  obtain prot where prot: "\<And>t1 m1. dm_get (tg_members g) t1 = Some m1 \<Longrightarrow> ti_protocol (gm_info m1) = prot"
    using assms(1) by (auto simp: group_uniform_def)
  have "dm_get (tg_members g) t0 = Some m0" using assms(2) by simp
  then have "ti_protocol (gm_info m) = prot" using prot assms(3) by metis
  then show ?thesis using prot by (auto simp: group_uniform_def join_group_def)
qed

lemma http_uniform_leave: "http_uniform R \<Longrightarrow> http_uniform (fst (leave_group k t R))"
  by (auto simp: http_uniform_def leave_group_def Let_def group_uniform_def split: option.splits if_splits)
    blast

definition p2p_ok :: "(string, p2p_publisher) dashmap \<Rightarrow> (uuid, tunnel_key) dashmap \<Rightarrow> bool" where
  "p2p_ok P idx \<longleftrightarrow> dm_wf P \<and>
     (\<forall>n p. dm_get P n = Some p \<longrightarrow>
        pp_name p = n \<and> dm_get idx (ti_tunnel_id (pp_tunnel_info p)) = Some (KP2p n)) \<and>
     (\<forall>n t. dm_get idx t = Some (KP2p n) \<longrightarrow>
        (\<exists>p. dm_get P n = Some p \<and> ti_tunnel_id (pp_tunnel_info p) = t))"

definition ports_ok :: "u16 set \<Rightarrow> u16 list \<Rightarrow> (u16, tunnel_group) dashmap \<Rightarrow> bool" where
  "ports_ok rng free R \<longleftrightarrow> distinct free \<and> set free \<inter> dom (dm_get R) = {} \<and>
     set free \<union> dom (dm_get R) = rng"

definition tcp_index_ok ::
  "(string \<times> string, u16) dashmap \<Rightarrow> (u16, tunnel_group) dashmap \<Rightarrow> bool" where
  "tcp_index_ok gi R \<longleftrightarrow> dm_wf gi \<and>
     (\<forall>n h p. dm_get gi (n, h) = Some p \<longrightarrow>
        (\<exists>g. dm_get R p = Some g \<and> tg_name g = n \<and> tg_key_hash g = Some h)) \<and>
     (\<forall>p g h. dm_get R p = Some g \<longrightarrow> tg_key_hash g = Some h \<longrightarrow>
        dm_get gi (tg_name g, h) = Some p)"

definition owner :: "tunnel_core \<Rightarrow> uuid \<Rightarrow> uuid option" where
  "owner c t = map_option ti_session_id (tunnel_info_at t c)"

definition sessions_ok :: "tunnel_core \<Rightarrow> bool" where
  "sessions_ok c \<longleftrightarrow> dm_wf (sessions c) \<and>
     (\<forall>t s. owner c t = Some s \<longrightarrow>
        (\<exists>si. dm_get (sessions c) s = Some si \<and> t \<in> set (si_tunnels si))) \<and>
     (\<forall>s si. dm_get (sessions c) s = Some si \<longrightarrow>
        distinct (si_tunnels si) \<and> length (si_tunnels si) \<le> max_tunnels_per_session c) \<and>
     (\<forall>s si s' si' t. dm_get (sessions c) s = Some si \<longrightarrow> dm_get (sessions c) s' = Some si' \<longrightarrow>
        t \<in> set (si_tunnels si) \<longrightarrow> t \<in> set (si_tunnels si') \<longrightarrow> s = s')"

definition tables_inv :: "u16 set \<Rightarrow> u16 set \<Rightarrow> tunnel_core \<Rightarrow> bool" where
  "tables_inv tcp_range udp_range c \<longleftrightarrow>
     dm_wf (tunnel_index c) \<and>
     routes_ok KHttp http_info_ok (http_routes c) (tunnel_index c) \<and>
     routes_ok KTcp tcp_info_ok (tcp_routes c) (tunnel_index c) \<and>
     routes_ok KUdp udp_info_ok (udp_routes c) (tunnel_index c) \<and>
     p2p_ok (p2p_tunnels c) (tunnel_index c) \<and>
     ports_ok tcp_range (available_tcp_ports c) (tcp_routes c) \<and>
     ports_ok udp_range (available_udp_ports c) (udp_routes c) \<and>
     tcp_index_ok (tcp_group_index c) (tcp_routes c) \<and>
     http_uniform (http_routes c)"

definition core_inv :: "u16 set \<Rightarrow> u16 set \<Rightarrow> tunnel_core \<Rightarrow> bool" where
  "core_inv tcp_range udp_range c \<longleftrightarrow> tables_inv tcp_range udp_range c \<and> sessions_ok c"

lemmas core_inv_defs = core_inv_def tables_inv_def

text \<open>Freshness of a random identifier: it names no live tunnel and none any session ever opened.\<close>

definition fresh_tunnel_id :: "uuid \<Rightarrow> tunnel_core \<Rightarrow> bool" where
  "fresh_tunnel_id t c \<longleftrightarrow> dm_get (tunnel_index c) t = None \<and>
     list_all (\<lambda>(s, si). t \<notin> set (si_tunnels si)) (sessions c)"

subsection \<open>Ports\<close>

lemma vec_pop_Some: "vec_pop xs = Some (x, rest) \<longleftrightarrow> xs = rest @ [x]"
  by (auto simp: vec_pop_def)

lemma vec_pop_None: "vec_pop xs = None \<longleftrightarrow> xs = []"
  by (simp add: vec_pop_def)

lemma ports_ok_alloc:
  assumes "ports_ok r free R" and "vec_pop free = Some (p, rest)"
  shows "dm_get R p = None" and "ports_ok r rest (dm_insert p g R)"
proof -
  have free: "free = rest @ [p]" using assms(2) by (simp add: vec_pop_Some)
  have "p \<notin> dom (dm_get R)" using assms(1) free by (auto simp: ports_ok_def)
  then show "dm_get R p = None" by (simp add: domIff)
  have "dom (dm_get (dm_insert p g R)) = insert p (dom (dm_get R))" by simp
  then show "ports_ok r rest (dm_insert p g R)"
    using assms(1) free by (auto simp: ports_ok_def simp del: dm_get_insert split: if_splits)
qed

lemma ports_ok_same_dom: "ports_ok r free R \<Longrightarrow> dom (dm_get R') = dom (dm_get R) \<Longrightarrow> ports_ok r free R'"
  by (simp add: ports_ok_def)

lemma ports_ok_release:
  assumes "ports_ok r free R" and "p \<in> dom (dm_get R)" and "dom (dm_get R') = dom (dm_get R) - {p}"
  shows "ports_ok r (free @ [p]) R'"
  using assms by (auto simp: ports_ok_def)

subsection \<open>Registrations and the sessions\<close>

lemma add_tunnel_sel [simp]:
  "http_routes (add_tunnel_to_session s t c) = http_routes c"
  "tcp_routes (add_tunnel_to_session s t c) = tcp_routes c"
  "udp_routes (add_tunnel_to_session s t c) = udp_routes c"
  "tcp_group_index (add_tunnel_to_session s t c) = tcp_group_index c"
  "p2p_tunnels (add_tunnel_to_session s t c) = p2p_tunnels c"
  "tunnel_index (add_tunnel_to_session s t c) = tunnel_index c"
  "available_tcp_ports (add_tunnel_to_session s t c) = available_tcp_ports c"
  "available_udp_ports (add_tunnel_to_session s t c) = available_udp_ports c"
  "max_tunnels_per_session (add_tunnel_to_session s t c) = max_tunnels_per_session c"
  "tcp_events (add_tunnel_to_session s t c) = tcp_events c"
  "udp_events (add_tunnel_to_session s t c) = udp_events c"
  "group_events (add_tunnel_to_session s t c) = group_events c"
  "tunnel_info_at t' (add_tunnel_to_session s t c) = tunnel_info_at t' c"
  by (simp_all add: add_tunnel_to_session_def tunnel_info_at_table split: option.split tunnel_key.split)

lemma check_session_limit_Inr:
  "check_session_limit s c = Inr u \<longleftrightarrow>
     (\<exists>si. dm_get (sessions c) s = Some si \<and> length (si_tunnels si) < max_tunnels_per_session c)"
  by (auto simp: check_session_limit_def split: option.splits)

text \<open>Adding a fresh tunnel keeps the session part of the invariant.\<close>

lemma sessions_ok_add:
  assumes ok: "sessions_ok c" and fresh: "fresh_tunnel_id t c"
    and lim: "check_session_limit s c = Inr u"
    and ses: "sessions c' = dm_modify s (\<lambda>si. si\<lparr>si_tunnels := si_tunnels si @ [t]\<rparr>) (sessions c)"
    and mx: "max_tunnels_per_session c' = max_tunnels_per_session c"
    and own: "\<And>t'. owner c' t' = (if t' = t then Some s else owner c t')"
  shows "sessions_ok c'"
proof -
  obtain si where si: "dm_get (sessions c) s = Some si" "length (si_tunnels si) < max_tunnels_per_session c"
    using lim by (auto simp: check_session_limit_Inr)
  have tn: "\<And>s' si'. dm_get (sessions c) s' = Some si' \<Longrightarrow> t \<notin> set (si_tunnels si')"
    using fresh by (fastforce simp: fresh_tunnel_id_def list_all_iff dest: map_of_SomeD)
  have get: "dm_get (sessions c') s' =
      (if s' = s then Some (si\<lparr>si_tunnels := si_tunnels si @ [t]\<rparr>) else dm_get (sessions c) s')" for s'
    using si by (simp add: ses)
  have "dm_wf (sessions c')" using ok by (simp add: ses sessions_ok_def)
  moreover have "\<exists>si. dm_get (sessions c') s' = Some si \<and> t' \<in> set (si_tunnels si)"
    if "owner c' t' = Some s'" for t' s'
    using that ok si by (fastforce simp: own get sessions_ok_def split: if_splits)
  moreover have "distinct (si_tunnels si') \<and> length (si_tunnels si') \<le> max_tunnels_per_session c'"
    if "dm_get (sessions c') s' = Some si'" for s' si'
    using that ok si tn[OF si(1)] by (auto simp: get mx sessions_ok_def split: if_splits)
  moreover have "s1 = s2" if "dm_get (sessions c') s1 = Some x" "dm_get (sessions c') s2 = Some y"
      "t' \<in> set (si_tunnels x)" "t' \<in> set (si_tunnels y)" for s1 s2 x y t'
    using that ok si tn by (auto simp: get sessions_ok_def split: if_splits) 
  ultimately show ?thesis unfolding sessions_ok_def by blast
qed

end
