(* ===== verification/RouterSteps.thy ===== *)
theory RouterSteps
  imports RouterInv
begin

text \<open>
  Every operation of the router preserves \<open>core_inv\<close>, one lemma per operation, with the exact effect
  of each on the abstract view: which tunnel ids are live, under which key and for which session.
\<close>

section \<open>The abstract view\<close>

text \<open>The contract of the router: a finite map from live tunnel ids to the owning session and the
  public key of the tunnel.\<close>

definition abs_core :: "tunnel_core \<Rightarrow> uuid \<Rightarrow> (uuid \<times> tunnel_key) option" where
  "abs_core c t =
     (case dm_get (tunnel_index c) t of
        None \<Rightarrow> None
      | Some k \<Rightarrow> map_option (\<lambda>i. (ti_session_id i, k)) (tunnel_info_at t c))"

lemma owner_abs: "owner c t = map_option fst (abs_core c t)"
  by (cases "dm_get (tunnel_index c) t")
    (auto simp: owner_def abs_core_def tunnel_info_at_table option.map_comp comp_def)

lemma tunnel_info_at_None: "dm_get (tunnel_index c) t = None \<Longrightarrow> tunnel_info_at t c = None"
  by (simp add: tunnel_info_at_table)

lemma table_info_live:
  assumes "routes_ok K J R idx" and "dm_get idx t = Some (K x)"
  shows "table_info R x t \<noteq> None"
proof -
  have "t \<in> members_of R x" using assms by (simp add: routes_ok_def)
  then show ?thesis by (auto simp: table_info_def members_of_def split: option.splits)
qed

lemma index_live:
  assumes "tables_inv TR UR c" and "dm_get (tunnel_index c) t = Some k"
  shows "tunnel_info_at t c \<noteq> None"
proof -
  have r: "routes_ok KHttp http_info_ok (http_routes c) (tunnel_index c)"
    "routes_ok KTcp tcp_info_ok (tcp_routes c) (tunnel_index c)"
    "routes_ok KUdp udp_info_ok (udp_routes c) (tunnel_index c)"
    "p2p_ok (p2p_tunnels c) (tunnel_index c)"
    using assms(1) by (simp_all add: core_inv_defs)
  have "\<exists>p. dm_get (p2p_tunnels c) n = Some p" if "k = KP2p n" for n
    using r(4) assms(2) that unfolding p2p_ok_def by blast
  then show ?thesis
    using assms(2) table_info_live[OF r(1)] table_info_live[OF r(2)] table_info_live[OF r(3)]
    by (cases k) (auto simp: tunnel_info_at_table)
qed

section \<open>Registration\<close>

lemma http_entry_ok:
  assumes ok: "routes_ok KHttp http_info_ok R idx" and un: "http_uniform R"
    and fresh: "dm_get idx t = None"
    and info: "ti_tunnel_id info = t" "ti_subdomain info = Some s" "ti_protocol info = prot"
    and ent: "http_entry now s prot info grp R = Inr R'"
  shows "routes_ok KHttp http_info_ok R' (dm_insert t (KHttp s) idx)"
    and "http_uniform R'"
    and "table_info R' k t' = (if k = s \<and> t' = t then Some info else table_info R k t')"
proof -
  have J: "http_info_ok s info" using info by (simp add: http_info_ok_def)
  consider (solo) "dm_get R s = None" "grp = None" "R' = dm_insert s (new_solo s info) R"
    | (create) sp where "dm_get R s = None" "grp = Some sp"
        "R' = dm_insert s (new_with_member (gs_group_name sp) (Some (gs_key_hash sp))
                (with_health_spec now info (gs_health_check sp))) R"
    | (join) sp g m0 t0 rest where "dm_get R s = Some g" "grp = Some sp" "tg_key_hash g \<noteq> None"
        "tg_members g = (t0, m0) # rest" "ti_protocol (gm_info m0) = prot"
        "R' = dm_insert s (join_group t (with_health_spec now info (gs_health_check sp)) g) R"
  proof (cases "dm_get R s")
    case None
    then show ?thesis using ent that(1,2) by (cases grp) (auto simp: http_entry_def)
  next
    case (Some g)
    obtain sp where sp: "grp = Some sp" using ent Some by (cases grp) (auto simp: http_entry_def)
    have kh: "tg_key_hash g = Some (gs_key_hash sp)"
      using ent Some sp by (simp add: http_entry_def Let_def split: if_splits)
    obtain t0 m0 rest where mem: "tg_members g = (t0, m0) # rest" "ti_protocol (gm_info m0) = prot"
      using ent Some sp kh by (auto simp: http_entry_def Let_def split: if_splits list.splits)
    have "R' = dm_insert s (join_group t (with_health_spec now info (gs_health_check sp)) g) R"
      using ent by (simp add: http_entry_def Some sp kh mem info(1))
    then show ?thesis using that(3)[OF Some sp _ mem] kh by simp
  qed
  then have "routes_ok KHttp http_info_ok R' (dm_insert t (KHttp s) idx) \<and> http_uniform R' \<and>
    (\<forall>k t'. table_info R' k t' = (if k = s \<and> t' = t then Some info else table_info R k t'))"
  proof cases
    case solo
    have "routes_ok KHttp http_info_ok R' (dm_insert t (KHttp s) idx)" unfolding solo(3)
      by (rule http_rt.ok_create[OF ok solo(1) fresh]) (use info J in \<open>auto intro: group_ok_solo\<close>)
    moreover have "http_uniform R'" unfolding solo(3)
      by (intro http_uniform_insert un group_uniform_single) simp
    ultimately show ?thesis using solo info by (auto simp: table_info_def)
  next
    case create
    have "routes_ok KHttp http_info_ok R' (dm_insert t (KHttp s) idx)" unfolding create(3)
      by (rule http_rt.ok_create[OF ok create(1) fresh]) (use info J in \<open>auto intro: group_ok_with_member\<close>)
    moreover have "http_uniform R'" unfolding create(3)
      by (intro http_uniform_insert un group_uniform_single) simp
    ultimately show ?thesis using create info by (auto simp: table_info_def)
  next
    case join
    have "routes_ok KHttp http_info_ok R' (dm_insert t (KHttp s) idx)" unfolding join(6)
      by (rule http_rt.ok_join[OF ok join(1,3) fresh info(1) J])
    moreover have "http_uniform R'" unfolding join(6)
      by (intro http_uniform_insert un group_uniform_join[OF _ join(4)])
        (use un join(1,5) info in \<open>auto simp: http_uniform_def\<close>)
    ultimately show ?thesis using join by (auto simp: table_info_def join_group_def)
  qed
  then show "routes_ok KHttp http_info_ok R' (dm_insert t (KHttp s) idx)" "http_uniform R'"
    "table_info R' k t' = (if k = s \<and> t' = t then Some info else table_info R k t')" by auto
qed

lemma p2p_ok_frame_insert:
  "p2p_ok P idx \<Longrightarrow> dm_get idx t = None \<Longrightarrow> key \<notin> range KP2p \<Longrightarrow> p2p_ok P (dm_insert t key idx)"
  by (auto simp: p2p_ok_def split: if_splits)

lemma p2p_ok_frame_remove:
  "p2p_ok P idx \<Longrightarrow> dm_get idx t = Some key \<Longrightarrow> key \<notin> range KP2p \<Longrightarrow> p2p_ok P (dm_remove t idx)"
  by (auto simp: p2p_ok_def split: if_splits)

lemmas frame_inserts = http_rt.ok_frame_insert tcp_rt.ok_frame_insert udp_rt.ok_frame_insert
  p2p_ok_frame_insert

lemmas frame_removes = http_rt.ok_frame_remove tcp_rt.ok_frame_remove udp_rt.ok_frame_remove
  p2p_ok_frame_remove

text \<open>How a success of \<open>register_http_tunnel\<close> comes about.\<close>

lemma register_http_cases:
  assumes "register_http_tunnel now rnd t s sd prot grp c = (c', r)"
  obtains (error) e where "r = Inl e" "c' = c"
  | (ok) sub R' u where "r = Inr (t, sub)" "check_session_limit s c = Inr u"
      "http_entry now sub prot
         (tunnel_info_new now s t prot (Some sub) None (max_connections_per_tunnel c)) grp
         (http_routes c) = Inr R'"
      "c' = add_tunnel_to_session s t
         (c\<lparr>http_routes := R', tunnel_index := dm_insert t (KHttp sub) (tunnel_index c)\<rparr>)"
      "sd = None \<longrightarrow> sub = random_subdomain rnd"
      "\<And>x. sd = Some x \<Longrightarrow> x = sub \<and> validate_subdomain x = Inr ()"
proof (cases "check_session_limit s c")
  case (Inr u)
  define chosen where "chosen = (case sd of
      Some x \<Rightarrow> (case validate_subdomain x of Inl e \<Rightarrow> Inl e | Inr _ \<Rightarrow> Inr x)
    | None \<Rightarrow> Inr (random_subdomain rnd))"
  show thesis
  proof (cases chosen)
    case (Inl e)
    then show thesis using assms Inr error
      by (auto simp: register_http_tunnel_def chosen_def[symmetric])
  next
    case sub: (Inr sub)
    let ?ent = "http_entry now sub prot
      (tunnel_info_new now s t prot (Some sub) None (max_connections_per_tunnel c)) grp (http_routes c)"
    have sd: "sd = None \<longrightarrow> sub = random_subdomain rnd"
      "\<And>x. sd = Some x \<Longrightarrow> x = sub \<and> validate_subdomain x = Inr ()"
      using sub by (auto simp: chosen_def split: sum.splits option.splits)
    show thesis
    proof (cases ?ent)
      case (Inl e)
      then show thesis using assms Inr sub error
        by (auto simp: register_http_tunnel_def chosen_def[symmetric])
    next
      case ent: (Inr R')
      show thesis using assms Inr sub ent
        by (intro ok[OF _ Inr ent _ sd]) (simp_all add: register_http_tunnel_def chosen_def[symmetric])
    qed
  qed
qed (use assms error in \<open>auto simp: register_http_tunnel_def\<close>)

lemma register_http_inv:
  assumes inv: "core_inv TR UR c" and fresh: "fresh_tunnel_id t c"
    and reg: "register_http_tunnel now rnd t s sd prot grp c = (c', r)"
  shows "core_inv TR UR c' \<and>
    abs_core c' = (case r of Inl _ \<Rightarrow> abs_core c | Inr (_, sub) \<Rightarrow> (abs_core c)(t \<mapsto> (s, KHttp sub)))"
  using reg
proof (cases rule: register_http_cases)
  case (ok sub R' u)
  let ?info = "tunnel_info_new now s t prot (Some sub) None (max_connections_per_tunnel c)"
  have fr: "dm_get (tunnel_index c) t = None" using fresh by (simp add: fresh_tunnel_id_def)
  note ent = http_entry_ok[OF _ _ fr _ _ _ ok(3)]
  have ent': "routes_ok KHttp http_info_ok R' (dm_insert t (KHttp sub) (tunnel_index c))"
    "http_uniform R'"
    "\<And>k t'. table_info R' k t' = (if k = sub \<and> t' = t then Some ?info else table_info (http_routes c) k t')"
    using ent inv by (auto simp: core_inv_defs)
  have idx: "tunnel_index c' = dm_insert t (KHttp sub) (tunnel_index c)" using ok(4) by simp
  have info: "tunnel_info_at t' c' = (if t' = t then Some ?info else tunnel_info_at t' c)" for t'
    using ok(4) ent'(3) by (auto simp: tunnel_info_at_table split: option.splits tunnel_key.splits)
  have abs: "abs_core c' = (abs_core c)(t \<mapsto> (s, KHttp sub))"
    by (auto simp: abs_core_def fun_eq_iff info idx split: option.split)
  have own: "owner c' t' = (if t' = t then Some s else owner c t')" for t'
    by (simp add: owner_abs abs)
  have "sessions_ok c'"
    by (rule sessions_ok_add[OF _ fresh ok(2) _ _ own])
      (use inv ok(4) in \<open>simp_all add: core_inv_defs add_tunnel_to_session_def\<close>)
  then have "core_inv TR UR c'"
    using inv ok(4) ent' fr by (auto simp: core_inv_defs intro!: frame_inserts)
  then show ?thesis using abs ok(1) by simp
qed (use inv in simp)

text \<open>A success of \<open>register_tcp_tunnel\<close> either allocates a port for a new group or joins the group the
  index points to.\<close>

abbreviation tcp_info :: "instant \<Rightarrow> uuid \<Rightarrow> uuid \<Rightarrow> u16 \<Rightarrow> tunnel_core \<Rightarrow> tunnel_info" where
  "tcp_info now s t port c \<equiv>
     tunnel_info_new now s t Tcp None (Some port) (max_connections_per_tunnel c)"

definition index_group ::
  "tunnel_group \<Rightarrow> u16 \<Rightarrow> (string \<times> string, u16) dashmap \<Rightarrow> (string \<times> string, u16) dashmap" where
  "index_group g port gi =
     (case tg_key_hash g of None \<Rightarrow> gi | Some h \<Rightarrow> dm_insert (tg_name g, h) port gi)"

lemma register_tcp_cases:
  assumes "register_tcp_tunnel now t s grp c = (c', r)"
  obtains (error) e where "r = Inl e" "c' = c"
  | (alloc) port rest g m u where "r = Inr (t, port)" "check_session_limit s c = Inr u"
      "vec_pop (available_tcp_ports c) = Some (port, rest)"
      "tg_members g = [(t, m)]" "gm_info m = tcp_info now s t port c" "group_ok g"
      "\<And>h. tg_key_hash g = Some h \<Longrightarrow> dm_get (tcp_group_index c) (tg_name g, h) = None"
      "c' = (add_tunnel_to_session s t
         (c\<lparr>available_tcp_ports := rest, tcp_routes := dm_insert port g (tcp_routes c),
            tcp_group_index := index_group g port (tcp_group_index c),
            tunnel_index := dm_insert t (KTcp port) (tunnel_index c)\<rparr>))
         \<lparr>tcp_events := tcp_events c @ [TcpRegistered t port]\<rparr>"
  | (join) port g and sp :: group_spec and u where "r = Inr (t, port)" "check_session_limit s c = Inr u"
      "dm_get (tcp_group_index c) (gs_group_name sp, gs_key_hash sp) = Some port"
      "dm_get (tcp_routes c) port = Some g"
      "c' = add_tunnel_to_session s t
         (c\<lparr>tcp_routes := dm_insert port
              (join_group t (with_health_spec now (tcp_info now s t port c) (gs_health_check sp)) g)
              (tcp_routes c),
            tunnel_index := dm_insert t (KTcp port) (tunnel_index c)\<rparr>)"
proof (cases "check_session_limit s c")
  case (Inr u)
  show thesis
  proof (cases grp)
    case None
    show thesis
    proof (cases "vec_pop (available_tcp_ports c)")
      case (Some pr)
      obtain port rest where pr: "pr = (port, rest)" by (cases pr)
      let ?g = "new_solo (dec_string (unat port)) (tcp_info now s t port c)"
      show thesis
        by (rule alloc[of port u rest ?g "healthy_with (tcp_info now s t port c)"])
          (use assms Inr None Some pr in \<open>auto simp: register_tcp_tunnel_def Let_def
             index_group_def intro: group_ok_solo\<close>)
    qed (use assms Inr None error in \<open>auto simp: register_tcp_tunnel_def\<close>)
  next
    case grp: (Some sp)
    show thesis
    proof (cases "dm_get (tcp_group_index c) (gs_group_name sp, gs_key_hash sp)")
      case None
      show thesis
      proof (cases "vec_pop (available_tcp_ports c)")
        case (Some pr)
        obtain port rest where pr: "pr = (port, rest)" by (cases pr)
        let ?m = "with_health_spec now (tcp_info now s t port c) (gs_health_check sp)"
        let ?g = "new_with_member (gs_group_name sp) (Some (gs_key_hash sp)) ?m"
        show thesis
          by (rule alloc[of port u rest ?g ?m])
            (use assms Inr grp None Some pr in \<open>auto simp: register_tcp_tunnel_def Let_def
               index_group_def intro: group_ok_with_member\<close>)
      qed (use assms Inr grp None error in \<open>auto simp: register_tcp_tunnel_def\<close>)
    next
      case idx: (Some port)
      show thesis
      proof (cases "dm_get (tcp_routes c) port")
        case (Some g)
        show thesis
          by (rule join[OF _ Inr idx Some])
            (use assms Inr grp idx Some in \<open>auto simp: register_tcp_tunnel_def\<close>)
      qed (use assms Inr grp idx error in \<open>auto simp: register_tcp_tunnel_def\<close>)
    qed
  qed
qed (use assms error in \<open>auto simp: register_tcp_tunnel_def\<close>)

lemma tcp_index_ok_alloc:
  assumes ok: "tcp_index_ok gi R" and vac: "dm_get R p = None"
    and new: "\<And>h. tg_key_hash g = Some h \<Longrightarrow> dm_get gi (tg_name g, h) = None"
  shows "tcp_index_ok (index_group g p gi) (dm_insert p g R)"
proof -
  have "dm_get gi (n, h) \<noteq> Some p" for n h using ok vac by (fastforce simp: tcp_index_ok_def)
  then show ?thesis using ok new
    by (force simp: tcp_index_ok_def index_group_def split: option.splits if_splits)
qed

lemma tcp_index_ok_same:
  assumes "tcp_index_ok gi R" and "dm_get R p = Some g" and "tg_name g' = tg_name g"
    and "tg_key_hash g' = tg_key_hash g"
  shows "tcp_index_ok gi (dm_insert p g' R)"
  using assms by (force simp: tcp_index_ok_def split: if_splits)

lemma register_tcp_inv:
  assumes inv: "core_inv TR UR c" and fresh: "fresh_tunnel_id t c"
    and reg: "register_tcp_tunnel now t s grp c = (c', r)"
  shows "core_inv TR UR c' \<and>
    abs_core c' = (case r of Inl _ \<Rightarrow> abs_core c | Inr (_, port) \<Rightarrow> (abs_core c)(t \<mapsto> (s, KTcp port)))"
proof -
  have fr: "dm_get (tunnel_index c) t = None" using fresh by (simp add: fresh_tunnel_id_def)
  have abs: "abs_core c' = (abs_core c)(t \<mapsto> (s, KTcp port)) \<and> sessions_ok c'"
    if idx: "tunnel_index c' = dm_insert t (KTcp port) (tunnel_index c)"
      and tab: "\<And>k t'. table_info (tcp_routes c') k t' =
            (if k = port \<and> t' = t then Some (tcp_info now s t port c) else table_info (tcp_routes c) k t')"
      and same: "http_routes c' = http_routes c" "udp_routes c' = udp_routes c"
        "p2p_tunnels c' = p2p_tunnels c" "max_tunnels_per_session c' = max_tunnels_per_session c"
      and ses: "sessions c' = dm_modify s (\<lambda>si. si\<lparr>si_tunnels := si_tunnels si @ [t]\<rparr>) (sessions c)"
      and lim: "check_session_limit s c = Inr u" for port u
  proof -
    have info: "tunnel_info_at t' c' = (if t' = t then Some (tcp_info now s t port c) else tunnel_info_at t' c)" for t'
      using idx tab same by (auto simp: tunnel_info_at_table split: option.splits tunnel_key.splits)
    have abs: "abs_core c' = (abs_core c)(t \<mapsto> (s, KTcp port))"
      by (auto simp: abs_core_def fun_eq_iff info idx split: option.split)
    moreover have "sessions_ok c'"
      by (rule sessions_ok_add[OF _ fresh lim ses same(4)])
        (use inv in \<open>simp_all add: core_inv_defs owner_abs abs\<close>)
    ultimately show ?thesis by simp
  qed
  from reg show ?thesis
  proof (cases rule: register_tcp_cases)
    case (alloc port rest g m u)
    have vac: "dm_get (tcp_routes c) port = None"
      and ports: "ports_ok TR rest (dm_insert port g (tcp_routes c))"
      using ports_ok_alloc[OF _ alloc(3)] inv by (auto simp: core_inv_defs)
    have "routes_ok KTcp tcp_info_ok (dm_insert port g (tcp_routes c)) (dm_insert t (KTcp port) (tunnel_index c))"
      by (rule tcp_rt.ok_create[OF _ vac fr alloc(6,4)])
        (use inv alloc(5) in \<open>simp_all add: core_inv_defs tcp_info_ok_def\<close>)
    moreover have "tcp_index_ok (index_group g port (tcp_group_index c)) (dm_insert port g (tcp_routes c))"
      using tcp_index_ok_alloc[OF _ vac alloc(7)] inv by (simp add: core_inv_defs)
    moreover have "abs_core c' = (abs_core c)(t \<mapsto> (s, KTcp port)) \<and> sessions_ok c'"
      by (rule abs[OF _ _ _ _ _ _ _ alloc(2)])
        (use alloc(4,5,8) vac in \<open>auto simp: add_tunnel_to_session_def table_info_def\<close>)
    ultimately show ?thesis using inv alloc(1,8) ports fr
      by (auto simp: core_inv_defs intro!: frame_inserts)
  next
    case (join port g sp u)
    let ?m = "with_health_spec now (tcp_info now s t port c) (gs_health_check sp)"
    have kh: "tg_key_hash g \<noteq> None"
      using inv join(3,4) by (fastforce simp: core_inv_defs tcp_index_ok_def)
    have "routes_ok KTcp tcp_info_ok (dm_insert port (join_group t ?m g) (tcp_routes c))
            (dm_insert t (KTcp port) (tunnel_index c))"
      by (rule tcp_rt.ok_join[OF _ join(4) kh fr])
        (use inv in \<open>simp_all add: core_inv_defs tcp_info_ok_def\<close>)
    moreover have "tcp_index_ok (tcp_group_index c) (dm_insert port (join_group t ?m g) (tcp_routes c))"
      by (rule tcp_index_ok_same[OF _ join(4)]) (use inv in \<open>simp_all add: core_inv_defs join_group_def\<close>)
    moreover have "ports_ok TR (available_tcp_ports c) (dm_insert port (join_group t ?m g) (tcp_routes c))"
      by (rule ports_ok_same_dom[of _ _ "tcp_routes c"]) (use inv join(4) in \<open>auto simp: core_inv_defs\<close>)
    moreover have "abs_core c' = (abs_core c)(t \<mapsto> (s, KTcp port)) \<and> sessions_ok c'"
      by (rule abs[OF _ _ _ _ _ _ _ join(2)])
        (use join(4,5) in \<open>auto simp: add_tunnel_to_session_def table_info_def join_group_def\<close>)
    ultimately show ?thesis using inv join(1,5) fr
      by (auto simp: core_inv_defs intro!: frame_inserts)
  qed (use inv in simp)
qed

lemma register_udp_cases:
  assumes "register_udp_tunnel now t s c = (c', r)"
  obtains (error) e where "r = Inl e" "c' = c"
  | (alloc) port rest u where "r = Inr (t, port)" "check_session_limit s c = Inr u"
      "vec_pop (available_udp_ports c) = Some (port, rest)"
      "c' = (add_tunnel_to_session s t
         (c\<lparr>available_udp_ports := rest,
            udp_routes := dm_insert port (new_solo (dec_string (unat port))
              (tunnel_info_new now s t Udp None (Some port) (max_connections_per_tunnel c))) (udp_routes c),
            tunnel_index := dm_insert t (KUdp port) (tunnel_index c)\<rparr>))
         \<lparr>udp_events := udp_events c @ [UdpRegistered t port]\<rparr>"
proof (cases "check_session_limit s c")
  case (Inr u)
  show thesis
  proof (cases "vec_pop (available_udp_ports c)")
    case (Some pr)
    obtain port rest where pr: "pr = (port, rest)" by (cases pr)
    show thesis
      by (rule alloc[OF _ Inr]) (use assms Inr Some pr in \<open>auto simp: register_udp_tunnel_def Let_def\<close>)
  qed (use assms Inr error in \<open>auto simp: register_udp_tunnel_def\<close>)
qed (use assms error in \<open>auto simp: register_udp_tunnel_def\<close>)

lemma register_udp_inv:
  assumes inv: "core_inv TR UR c" and fresh: "fresh_tunnel_id t c"
    and reg: "register_udp_tunnel now t s c = (c', r)"
  shows "core_inv TR UR c' \<and>
    abs_core c' = (case r of Inl _ \<Rightarrow> abs_core c | Inr (_, port) \<Rightarrow> (abs_core c)(t \<mapsto> (s, KUdp port)))"
  using reg
proof (cases rule: register_udp_cases)
  case (alloc port rest u)
  let ?info = "tunnel_info_new now s t Udp None (Some port) (max_connections_per_tunnel c)"
  let ?g = "new_solo (dec_string (unat port)) ?info"
  have fr: "dm_get (tunnel_index c) t = None" using fresh by (simp add: fresh_tunnel_id_def)
  have vac: "dm_get (udp_routes c) port = None"
    and ports: "ports_ok UR rest (dm_insert port ?g (udp_routes c))"
    using ports_ok_alloc[OF _ alloc(3)] inv by (auto simp: core_inv_defs)
  have rt: "routes_ok KUdp udp_info_ok (dm_insert port ?g (udp_routes c)) (dm_insert t (KUdp port) (tunnel_index c))"
    by (rule udp_rt.ok_create[OF _ vac fr])
      (use inv in \<open>auto simp: core_inv_defs udp_info_ok_def intro: group_ok_solo\<close>)
  have idx: "tunnel_index c' = dm_insert t (KUdp port) (tunnel_index c)" using alloc(4) by simp
  have info: "tunnel_info_at t' c' = (if t' = t then Some ?info else tunnel_info_at t' c)" for t'
    using alloc(4) vac by (auto simp: tunnel_info_at_table table_info_def split: option.splits tunnel_key.splits)
  have abs: "abs_core c' = (abs_core c)(t \<mapsto> (s, KUdp port))"
    by (auto simp: abs_core_def fun_eq_iff info idx split: option.split)
  have own: "owner c' t' = (if t' = t then Some s else owner c t')" for t'
    by (simp add: owner_abs abs)
  have "sessions_ok c'"
    by (rule sessions_ok_add[OF _ fresh alloc(2) _ _ own])
      (use inv alloc(4) in \<open>simp_all add: core_inv_defs add_tunnel_to_session_def\<close>)
  then show ?thesis using inv alloc(1,4) rt ports fr abs
    by (auto simp: core_inv_defs intro!: frame_inserts)
qed (use inv in simp)

lemma register_p2p_cases:
  assumes "register_p2p_tunnel now t s name sh c = (c', r)"
  obtains (error) e where "r = Inl e" "c' = c"
  | (ok) u where "r = Inr (t, name)" "check_session_limit s c = Inr u"
      "dm_get (p2p_tunnels c) name = None"
      "c' = add_tunnel_to_session s t
         (c\<lparr>p2p_tunnels := dm_insert name
              \<lparr>pp_tunnel_info = tunnel_info_new now s t P2p None None (max_connections_per_tunnel c),
               pp_secret_hash = sh, pp_name = name, pp_nat_type = None, pp_mapped_addrs = []\<rparr>
              (p2p_tunnels c),
            tunnel_index := dm_insert t (KP2p name) (tunnel_index c)\<rparr>)"
proof (cases "check_session_limit s c")
  case (Inr u)
  show thesis
  proof (cases "dm_contains (p2p_tunnels c) name")
    case False
    show thesis
      by (rule ok[OF _ Inr])
        (use assms Inr False in \<open>auto simp: register_p2p_tunnel_def Let_def dm_contains_def\<close>)
  qed (use assms Inr error in \<open>auto simp: register_p2p_tunnel_def\<close>)
qed (use assms error in \<open>auto simp: register_p2p_tunnel_def\<close>)

lemma register_p2p_inv:
  assumes inv: "core_inv TR UR c" and fresh: "fresh_tunnel_id t c"
    and reg: "register_p2p_tunnel now t s name sh c = (c', r)"
  shows "core_inv TR UR c' \<and>
    abs_core c' = (case r of Inl _ \<Rightarrow> abs_core c | Inr (_, n) \<Rightarrow> (abs_core c)(t \<mapsto> (s, KP2p n)))"
  using reg
proof (cases rule: register_p2p_cases)
  case (ok u)
  let ?info = "tunnel_info_new now s t P2p None None (max_connections_per_tunnel c)"
  have fr: "dm_get (tunnel_index c) t = None" using fresh by (simp add: fresh_tunnel_id_def)
  have p2p: "p2p_ok (p2p_tunnels c) (tunnel_index c)" using inv by (simp add: core_inv_defs)
  have vac: "dm_get (tunnel_index c) t' \<noteq> Some (KP2p name)" for t'
    using p2p ok(3) unfolding p2p_ok_def by force
  have p2p': "p2p_ok (p2p_tunnels c') (tunnel_index c')"
    using p2p fr vac by (auto simp: ok(4) p2p_ok_def split: if_splits)
  have idx: "tunnel_index c' = dm_insert t (KP2p name) (tunnel_index c)" using ok(4) by simp
  have info: "tunnel_info_at t' c' = (if t' = t then Some ?info else tunnel_info_at t' c)" for t'
    using ok(4) vac by (auto simp: tunnel_info_at_table split: option.splits tunnel_key.splits)
  have abs: "abs_core c' = (abs_core c)(t \<mapsto> (s, KP2p name))"
    by (auto simp: abs_core_def fun_eq_iff info idx split: option.split)
  have own: "owner c' t' = (if t' = t then Some s else owner c t')" for t'
    by (simp add: owner_abs abs)
  have "sessions_ok c'"
    by (rule sessions_ok_add[OF _ fresh ok(2) _ _ own])
      (use inv ok(4) in \<open>simp_all add: core_inv_defs add_tunnel_to_session_def\<close>)
  then show ?thesis using inv ok(1,4) p2p' fr abs
    by (auto simp: core_inv_defs intro!: frame_inserts)
qed (use inv in simp)

section \<open>Removal\<close>

lemma sessions_ok_owner:
  "sessions_ok c \<Longrightarrow> owner c t = Some s \<Longrightarrow>
   \<exists>si. dm_get (sessions c) s = Some si \<and> t \<in> set (si_tunnels si)"
  by (simp add: sessions_ok_def)

lemma sessions_ok_unique:
  assumes ok: "sessions_ok c" and own: "owner c t = Some s'" and s: "dm_get (sessions c) s = Some si"
  shows "t \<in> set (si_tunnels si) \<longleftrightarrow> s' = s"
proof -
  obtain si' where si': "dm_get (sessions c) s' = Some si'" "t \<in> set (si_tunnels si')"
    using sessions_ok_owner[OF ok own] by blast
  have uniq: "t \<in> set (si_tunnels si) \<Longrightarrow> t \<in> set (si_tunnels si') \<Longrightarrow> s = s'"
    using ok s si'(1) unfolding sessions_ok_def by blast
  show ?thesis using uniq si' s by auto
qed

lemma sessions_ok_fewer:
  assumes "sessions_ok c" and "sessions c' = sessions c"
    and "max_tunnels_per_session c' = max_tunnels_per_session c"
    and "\<And>t s. owner c' t = Some s \<Longrightarrow> owner c t = Some s"
  shows "sessions_ok c'"
  using assms by (auto simp: sessions_ok_def)

lemma tcp_index_ok_release:
  assumes ok: "tcp_index_ok gi R" and g: "dm_get R p = Some g"
  shows "tcp_index_ok (case tg_key_hash g of None \<Rightarrow> gi | Some h \<Rightarrow> dm_remove (tg_name g, h) gi)
           (dm_remove p R)"
proof -
  have gi: "dm_get gi (n, h) = Some q \<Longrightarrow> \<exists>g. dm_get R q = Some g \<and> tg_name g = n \<and> tg_key_hash g = Some h"
    and rg: "dm_get R q = Some g' \<Longrightarrow> tg_key_hash g' = Some h \<Longrightarrow> dm_get gi (tg_name g', h) = Some q"
    for n h q g' using ok by (auto simp: tcp_index_ok_def)
  have wf: "dm_wf gi" using ok by (simp add: tcp_index_ok_def)
  show ?thesis
  proof (cases "tg_key_hash g")
    case None
    have "q \<noteq> p" if "dm_get gi (n, h) = Some q" for n h q using gi[OF that] g None by auto
    then show ?thesis using gi rg wf None by (auto simp: tcp_index_ok_def)
  next
    case (Some h)
    have p: "dm_get gi (tg_name g, h) = Some p" using rg[OF g Some] .
    have "q \<noteq> p" if "dm_get gi (n, h') = Some q" "(n, h') \<noteq> (tg_name g, h)" for n h' q
      using gi[OF that(1)] that(2) g Some by auto
    moreover have "(tg_name g', h') \<noteq> (tg_name g, h)"
      if "dm_get R q = Some g'" "tg_key_hash g' = Some h'" "q \<noteq> p" for q g' h'
      using rg[OF that(1,2)] that(3) p by auto
    ultimately show ?thesis using gi rg wf Some by (simp add: tcp_index_ok_def) blast
  qed
qed

text \<open>Removal, arm by arm.\<close>

lemma leave_group_tcp_index:
  assumes rt: "routes_ok KTcp tcp_info_ok R idx" and t: "dm_get idx t = Some (KTcp p)"
    and ok: "tcp_index_ok gi R" and g: "dm_get R p = Some g"
  shows "tcp_index_ok
     (if snd (leave_group p t R)
      then case tg_key_hash g of None \<Rightarrow> gi | Some h \<Rightarrow> dm_remove (tg_name g, h) gi else gi)
     (fst (leave_group p t R))"
  using tcp_index_ok_release[OF ok g] tcp_index_ok_same[OF ok g]
  by (simp add: leave_group_def g Let_def)

lemma ports_ok_leave:
  assumes po: "ports_ok r free R" and p: "dm_get R p = Some g"
    and emp: "b \<longleftrightarrow> members_of R p = {t}"
    and dm: "dom (dm_get R') = (if members_of R p = {t} then dom (dm_get R) - {p} else dom (dm_get R))"
  shows "ports_ok r (if b then free @ [p] else free) R'"
proof (cases b)
  case True
  then show ?thesis using ports_ok_release[OF po, of p R'] p emp dm by (simp add: domI)
next
  case False
  then show ?thesis using ports_ok_same_dom[OF po, of R'] emp dm by simp
qed

lemma p2p_ok_remove:
  assumes ok: "p2p_ok P idx" and t: "dm_get idx t = Some (KP2p n)"
  shows "p2p_ok (dm_remove n P) (dm_remove t idx)"
proof -
  have fwd: "dm_get P n' = Some p \<Longrightarrow> pp_name p = n' \<and> dm_get idx (ti_tunnel_id (pp_tunnel_info p)) = Some (KP2p n')"
    and bwd: "dm_get idx t' = Some (KP2p n') \<Longrightarrow> \<exists>p. dm_get P n' = Some p \<and> ti_tunnel_id (pp_tunnel_info p) = t'"
    for n' p t' using ok unfolding p2p_ok_def by blast+
  have wf: "dm_wf P" using ok by (simp add: p2p_ok_def)
  have "ti_tunnel_id (pp_tunnel_info p) \<noteq> t" if "dm_get P n' = Some p" "n' \<noteq> n" for n' p
    using fwd[OF that(1)] that(2) t by auto
  moreover have "n' \<noteq> n" if "dm_get idx t' = Some (KP2p n')" "t' \<noteq> t" for t' n'
    using bwd[OF that(1)] bwd[OF t] that(2) by auto
  ultimately show ?thesis using fwd bwd wf unfolding p2p_ok_def by simp blast
qed

lemma remove_tunnel_tcp:
  assumes "dm_get (tunnel_index c) t = Some (KTcp p)" and "dm_get (tcp_routes c) p = Some g"
  shows "remove_tunnel t c =
    (let c1 = c\<lparr>tunnel_index := dm_remove t (tunnel_index c),
               tcp_routes := fst (leave_group p t (tcp_routes c))\<rparr>
     in if snd (leave_group p t (tcp_routes c))
        then c1\<lparr>tcp_group_index := (case tg_key_hash g of
                   None \<Rightarrow> tcp_group_index c | Some h \<Rightarrow> dm_remove (tg_name g, h) (tcp_group_index c)),
                available_tcp_ports := available_tcp_ports c @ [p],
                tcp_events := tcp_events c @ [TcpUnregistered p]\<rparr>
        else c1)"
  using assms by (simp add: remove_tunnel_def Let_def split_beta split: option.split)

lemma remove_tunnel_tables:
  "tunnel_index (remove_tunnel t c) = dm_remove t (tunnel_index c)"
  "sessions (remove_tunnel t c) = sessions c"
  "max_tunnels_per_session (remove_tunnel t c) = max_tunnels_per_session c"
  by (auto simp: remove_tunnel_def Let_def split_beta split: option.splits tunnel_key.splits)
    (simp add: dom_map_of_conv_image_fst[symmetric] domIff)

lemma remove_tunnel_info:
  assumes inv: "tables_inv TR UR c"
  shows "tunnel_info_at t' (remove_tunnel t c) = (if t' = t then None else tunnel_info_at t' c)"
proof (cases "t' = t")
  case True
  then show ?thesis by (simp add: tunnel_info_at_table remove_tunnel_tables)
next
  case False
  have p2p: "dm_get (tunnel_index c) t' = Some (KP2p n) \<Longrightarrow> dm_get (tunnel_index c) t \<noteq> Some (KP2p n)" for n
    using inv False unfolding core_inv_defs p2p_ok_def by (metis option.inject)
  show ?thesis
    using False p2p
    by (auto simp: tunnel_info_at_table remove_tunnel_def Let_def split_beta table_info_leave[OF False]
        split: option.splits tunnel_key.splits)
qed

lemma remove_tunnel_inv:
  assumes inv: "tables_inv TR UR c"
  shows "tables_inv TR UR (remove_tunnel t c)" and "abs_core (remove_tunnel t c) = (abs_core c)(t := None)"
proof -
  show "abs_core (remove_tunnel t c) = (abs_core c)(t := None)"
    by (auto simp: abs_core_def fun_eq_iff remove_tunnel_tables remove_tunnel_info[OF inv]
        split: option.split)
  show "tables_inv TR UR (remove_tunnel t c)"
  proof (cases "dm_get (tunnel_index c) t")
    case None
    then show ?thesis using inv by (simp add: remove_tunnel_def)
  next
    case (Some key)
    show ?thesis
    proof (cases key)
      case (KHttp s)
      have "routes_ok KHttp http_info_ok (fst (leave_group s t (http_routes c))) (dm_remove t (tunnel_index c))"
        by (rule http_rt.ok_leave) (use inv Some KHttp in \<open>auto simp: core_inv_defs\<close>)
      then show ?thesis using inv Some KHttp
        by (auto simp: core_inv_defs remove_tunnel_def intro!: frame_removes http_uniform_leave)
    next
      case (KTcp p)
      have rt: "routes_ok KTcp tcp_info_ok (tcp_routes c) (tunnel_index c)"
        and ti: "tcp_index_ok (tcp_group_index c) (tcp_routes c)"
        and po: "ports_ok TR (available_tcp_ports c) (tcp_routes c)"
        using inv by (auto simp: core_inv_defs)
      have t: "dm_get (tunnel_index c) t = Some (KTcp p)" using Some KTcp by simp
      obtain g where g: "dm_get (tcp_routes c) p = Some g"
        using table_info_live[OF rt t] by (cases "dm_get (tcp_routes c) p") (auto simp: table_info_def)
      note lv = tcp_rt.ok_leave[OF rt t]
      have "ports_ok TR (if snd (leave_group p t (tcp_routes c)) then available_tcp_ports c @ [p]
               else available_tcp_ports c) (fst (leave_group p t (tcp_routes c)))"
        by (rule ports_ok_leave[OF po g lv(2,3)])
      then show ?thesis using inv lv(1) leave_group_tcp_index[OF rt t ti g] t
        by (auto simp: core_inv_defs remove_tunnel_tcp[OF t g] Let_def intro!: frame_removes)
    next
      case (KUdp p)
      have rt: "routes_ok KUdp udp_info_ok (udp_routes c) (tunnel_index c)"
        and po: "ports_ok UR (available_udp_ports c) (udp_routes c)"
        using inv by (auto simp: core_inv_defs)
      have t: "dm_get (tunnel_index c) t = Some (KUdp p)" using Some KUdp by simp
      obtain g where g: "dm_get (udp_routes c) p = Some g"
        using table_info_live[OF rt t] by (cases "dm_get (udp_routes c) p") (auto simp: table_info_def)
      note lv = udp_rt.ok_leave[OF rt t]
      have "ports_ok UR (if snd (leave_group p t (udp_routes c)) then available_udp_ports c @ [p]
               else available_udp_ports c) (fst (leave_group p t (udp_routes c)))"
        by (rule ports_ok_leave[OF po g lv(2,3)])
      then show ?thesis using inv lv(1) t
        by (auto simp: core_inv_defs remove_tunnel_def Let_def split_beta intro!: frame_removes)
    next
      case (KP2p n)
      have p2p: "p2p_ok (p2p_tunnels c) (tunnel_index c)" using inv by (simp add: core_inv_defs)
      have "p2p_ok (dm_remove n (p2p_tunnels c)) (dm_remove t (tunnel_index c))"
        using p2p_ok_remove[OF p2p] Some KP2p by simp
      then show ?thesis using inv Some KP2p
        by (auto simp: core_inv_defs remove_tunnel_def intro!: frame_removes)
    qed
  qed
qed

lemma remove_tunnel_core_inv:
  assumes inv: "core_inv TR UR c"
  shows "core_inv TR UR (remove_tunnel t c)"
proof -
  have tab: "tables_inv TR UR c" using inv by (simp add: core_inv_def)
  have "owner c t' = Some s" if "owner (remove_tunnel t c) t' = Some s" for t' s
    using that by (simp add: owner_abs remove_tunnel_inv(2)[OF tab] split: if_splits)
  then have "sessions_ok (remove_tunnel t c)"
    using inv sessions_ok_fewer[of c "remove_tunnel t c"] by (simp add: core_inv_def remove_tunnel_tables)
  then show ?thesis using remove_tunnel_inv(1)[OF tab] by (simp add: core_inv_def)
qed

lemma remove_tunnels_fold:
  "tables_inv TR UR c \<Longrightarrow>
   tables_inv TR UR (fold remove_tunnel ts c) \<and>
   abs_core (fold remove_tunnel ts c) = abs_core c |` (- set ts) \<and>
   sessions (fold remove_tunnel ts c) = sessions c \<and>
   max_tunnels_per_session (fold remove_tunnel ts c) = max_tunnels_per_session c"
proof (induction ts arbitrary: c)
  case (Cons t ts)
  then show ?case
    using Cons.IH[OF remove_tunnel_inv(1)[OF Cons.prems]] remove_tunnel_inv(2)[OF Cons.prems]
    by (auto simp: remove_tunnel_tables restrict_map_def fun_eq_iff)
qed (simp add: restrict_map_def)

lemma abs_core_sessions: "abs_core (c\<lparr>sessions := S\<rparr>) = abs_core c"
  by (auto simp: abs_core_def tunnel_info_at_table fun_eq_iff split: option.split tunnel_key.split)

lemma tables_inv_sessions [simp]: "tables_inv TR UR (c\<lparr>sessions := S\<rparr>) = tables_inv TR UR c"
  by (simp add: tables_inv_def)

text \<open>Closing a session removes exactly its own tunnels.\<close>

lemma remove_session_inv:
  assumes inv: "core_inv TR UR c"
  shows "core_inv TR UR (remove_session s c)"
    and "abs_core (remove_session s c) t =
          (if owner c t = Some s then None else abs_core c t)"
proof -
  have tab: "tables_inv TR UR c" and ok: "sessions_ok c" using inv by (simp_all add: core_inv_def)
  have "core_inv TR UR (remove_session s c) \<and>
        (\<forall>t. abs_core (remove_session s c) t = (if owner c t = Some s then None else abs_core c t))"
  proof (cases "dm_get (sessions c) s")
    case None
    have "owner c t \<noteq> Some s" for t using sessions_ok_owner[OF ok, of t s] None by auto
    then show ?thesis using inv None by (simp add: remove_session_def)
  next
    case (Some si)
    let ?c = "fold remove_tunnel (si_tunnels si) (c\<lparr>sessions := dm_remove s (sessions c)\<rparr>)"
    have rs: "remove_session s c = ?c" using Some by (simp add: remove_session_def)
    have fold: "tables_inv TR UR ?c" "abs_core ?c = abs_core c |` (- set (si_tunnels si))"
      "sessions ?c = dm_remove s (sessions c)" "max_tunnels_per_session ?c = max_tunnels_per_session c"
      using remove_tunnels_fold[of TR UR "c\<lparr>sessions := dm_remove s (sessions c)\<rparr>" "si_tunnels si"] tab
      by (simp_all add: abs_core_sessions)
    have own: "owner c t = Some s' \<Longrightarrow> t \<in> set (si_tunnels si) \<longleftrightarrow> s' = s" for t s'
      using sessions_ok_unique[OF ok _ Some] by blast
    have abs: "abs_core ?c t = (if owner c t = Some s then None else abs_core c t)" for t
    proof (cases "owner c t")
      case None
      then show ?thesis by (simp add: fold(2) restrict_map_def owner_abs)
    next
      case (Some s')
      then show ?thesis using own[OF Some] by (simp add: fold(2) restrict_map_def)
    qed
    have "owner ?c t = Some s' \<Longrightarrow> s' \<noteq> s \<and> owner c t = Some s'" for t s'
      by (auto simp: owner_abs abs split: if_splits)
    then have "sessions_ok ?c" using ok unfolding sessions_ok_def fold(3,4) by (simp add: dm_wf_remove)
    then show ?thesis using fold(1) abs rs by (simp add: core_inv_def)
  qed
  then show "core_inv TR UR (remove_session s c)"
    "abs_core (remove_session s c) t = (if owner c t = Some s then None else abs_core c t)" by auto
qed

end
