(* ===== verification/RouterReach.thy ===== *)
theory RouterReach
  imports RouterSteps
begin

text \<open>
  The remaining operations of the router keep the tables and the abstract view; the reachable states of
  the server are those its operations produce from a fresh \<open>TunnelCore\<close>, and all of them satisfy
  \<open>core_inv\<close>.
\<close>

section \<open>Updates in place\<close>

text \<open>Health reports, counters and the alert flag only change what routing never looks at.\<close>

definition same_member :: "group_member \<Rightarrow> group_member \<Rightarrow> bool" where
  "same_member m m' \<longleftrightarrow>
     ti_tunnel_id (gm_info m') = ti_tunnel_id (gm_info m) \<and>
     ti_session_id (gm_info m') = ti_session_id (gm_info m) \<and>
     ti_protocol (gm_info m') = ti_protocol (gm_info m) \<and>
     ti_subdomain (gm_info m') = ti_subdomain (gm_info m) \<and>
     ti_assigned_port (gm_info m') = ti_assigned_port (gm_info m) \<and>
     (length (gm_health_events m) \<le> HEALTH_EVENT_RING_SIZE \<longrightarrow>
      length (gm_health_events m') \<le> HEALTH_EVENT_RING_SIZE)"

definition same_group :: "tunnel_group \<Rightarrow> tunnel_group \<Rightarrow> bool" where
  "same_group g g' \<longleftrightarrow> tg_name g' = tg_name g \<and> tg_key_hash g' = tg_key_hash g \<and>
     map fst (tg_members g') = map fst (tg_members g) \<and>
     (\<forall>t. rel_option same_member (dm_get (tg_members g) t) (dm_get (tg_members g') t))"

lemma same_member_refl [simp]: "same_member m m"
  by (simp add: same_member_def)

lemma dm_modify_keys: "map fst (dm_modify k f m) = map fst m"
proof (cases "dm_get m k")
  case (Some v)
  then have "k \<in> set (map fst m)" by (force dest: map_of_SomeD)
  then show ?thesis using Some by (simp add: dm_modify_def update_keys)
qed (simp add: dm_modify_def)

lemma same_group_modify_member:
  assumes "\<And>m. same_member m (f m)"
  shows "same_group g (modify_member t f g)"
proof -
  have "rel_option same_member (dm_get (tg_members g) t') (dm_get (tg_members (modify_member t f g)) t')" for t'
    using assms by (cases "dm_get (tg_members g) t'") (auto simp: modify_member_def)
  then show ?thesis by (simp add: same_group_def modify_member_def dm_modify_keys)
qed

lemma same_group_alerted: "same_group g (g\<lparr>tg_zero_healthy_alerted := b\<rparr>)"
  by (simp add: same_group_def option.rel_refl)

lemma same_group_Some:
  assumes "same_group g g'"
  shows "dm_get (tg_members g') t = Some m' \<Longrightarrow>
           \<exists>m. dm_get (tg_members g) t = Some m \<and> same_member m m'"
    and "dm_get (tg_members g) t = Some m \<Longrightarrow> \<exists>m'. dm_get (tg_members g') t = Some m' \<and> same_member m m'"
  using assms unfolding same_group_def by (metis option.rel_cases option.distinct(1) option.inject)+

lemma same_group_dom: "same_group g g' \<Longrightarrow> dom (dm_get (tg_members g')) = dom (dm_get (tg_members g))"
  using same_group_Some by fastforce

lemma group_ok_same:
  assumes ok: "group_ok g" and same: "same_group g g'"
  shows "group_ok g'"
proof -
  have keys: "map fst (tg_members g') = map fst (tg_members g)" and kh: "tg_key_hash g' = tg_key_hash g"
    using same by (simp_all add: same_group_def)
  have len: "length (tg_members g') = length (tg_members g)" using keys by (metis length_map)
  have "ti_tunnel_id (gm_info m') = t \<and> length (gm_health_events m') \<le> HEALTH_EVENT_RING_SIZE"
    if m': "dm_get (tg_members g') t = Some m'" for t m'
  proof -
    obtain m where m: "dm_get (tg_members g) t = Some m" "same_member m m'"
      using same_group_Some(1)[OF same m'] by blast
    have "ti_tunnel_id (gm_info m) = t \<and> length (gm_health_events m) \<le> HEALTH_EVENT_RING_SIZE"
      using ok m(1) by (simp add: group_ok_def)
    then show ?thesis using m(2) by (simp add: same_member_def)
  qed
  then show ?thesis using ok kh keys len by (auto simp: group_ok_def dm_wf_def)
qed

lemma routes_ok_same_key:
  assumes J: "\<And>m m' k. same_member m m' \<Longrightarrow> J k (gm_info m) \<Longrightarrow> J k (gm_info m')"
    and same: "\<And>g. same_group g (f g)" and ok: "routes_ok K J R idx"
    and rt: "route_table K"
  shows "routes_ok K J (dm_modify k f R) idx"
proof (rule route_table.ok_modify[OF rt ok])
  fix g assume g: "dm_get R k = Some g"
  have "group_ok g" and Jg: "\<And>t m. dm_get (tg_members g) t = Some m \<Longrightarrow> J k (gm_info m)"
    using ok g by (auto simp: routes_ok_def)
  then show "group_ok (f g) \<and> dom (dm_get (tg_members (f g))) = dom (dm_get (tg_members g)) \<and>
      (\<forall>t m. dm_get (tg_members (f g)) t = Some m \<longrightarrow> J k (gm_info m))"
    using group_ok_same[OF _ same] same_group_dom[OF same] same_group_Some(1)[OF same] J by blast
qed

lemma http_uniform_modify:
  assumes "http_uniform R" and same: "\<And>g. same_group g (f g)"
  shows "http_uniform (dm_modify k f R)"
proof -
  have "group_uniform (f g)" if g: "group_uniform g" for g
  proof -
    obtain prot where prot: "\<And>t m. dm_get (tg_members g) t = Some m \<Longrightarrow> ti_protocol (gm_info m) = prot"
      using g by (auto simp: group_uniform_def)
    have "ti_protocol (gm_info m') = prot" if "dm_get (tg_members (f g)) t = Some m'" for t m'
      using same_group_Some(1)[OF same that] prot by (auto simp: same_member_def)
    then show ?thesis by (auto simp: group_uniform_def)
  qed
  then show ?thesis using assms(1) by (auto simp: http_uniform_def)
qed

lemma tcp_index_ok_modify:
  assumes "tcp_index_ok gi R" and same: "\<And>g. same_group g (f g)"
  shows "tcp_index_ok gi (dm_modify k f R)"
proof (cases "dm_get R k")
  case (Some g)
  have "tg_name (f g) = tg_name g" "tg_key_hash (f g) = tg_key_hash g"
    using same by (simp_all add: same_group_def)
  then show ?thesis using tcp_index_ok_same[OF assms(1) Some] Some by (simp add: dm_modify_def)
qed (use assms(1) in \<open>simp add: dm_modify_def\<close>)

lemma ports_ok_modify: "ports_ok r free R \<Longrightarrow> ports_ok r free (dm_modify k f R)"
  by (rule ports_ok_same_dom) (auto split: if_splits)

lemma table_info_modify_same:
  assumes same: "\<And>g. same_group g (f g)"
  shows "map_option ti_session_id (table_info (dm_modify k f R) k' t) =
         map_option ti_session_id (table_info R k' t)"
proof (cases "k' = k")
  case True
  show ?thesis
  proof (cases "dm_get R k")
    case (Some g)
    have "map_option ti_session_id (map_option gm_info (dm_get (tg_members (f g)) t)) =
          map_option ti_session_id (map_option gm_info (dm_get (tg_members g) t))"
    proof (cases "dm_get (tg_members g) t")
      case None
      then have "t \<notin> dom (dm_get (tg_members (f g)))" using same_group_dom[OF same] by (auto simp: domIff)
      then show ?thesis using None by (simp add: domIff)
    next
      case (Some m)
      then show ?thesis using same_group_Some(2)[OF same Some] by (auto simp: same_member_def)
    qed
    then show ?thesis using Some True by (simp add: table_info_def)
  qed (use True in \<open>simp add: table_info_def\<close>)
qed (simp add: table_info_def)

lemma modify_group_tables:
  "tunnel_index (modify_group k f c) = tunnel_index c"
  "sessions (modify_group k f c) = sessions c"
  "max_tunnels_per_session (modify_group k f c) = max_tunnels_per_session c"
  "p2p_tunnels (modify_group k f c) = p2p_tunnels c"
  "tcp_events (modify_group k f c) = tcp_events c"
  "udp_events (modify_group k f c) = udp_events c"
  "group_events (modify_group k f c) = group_events c"
  by (simp_all add: modify_group_def split: tunnel_key.split)

lemma modify_group_inv:
  assumes inv: "core_inv TR UR c" and same: "\<And>g. same_group g (f g)"
  shows "core_inv TR UR (modify_group k f c) \<and> abs_core (modify_group k f c) = abs_core c"
proof -
  have own: "map_option ti_session_id (tunnel_info_at t (modify_group k f c)) =
      map_option ti_session_id (tunnel_info_at t c)" for t
    by (simp add: tunnel_info_at_table modify_group_tables modify_group_def table_info_modify_same[OF same]
        split: option.split tunnel_key.split)
  have abs: "abs_core (modify_group k f c) = abs_core c"
  proof
    fix t
    have "map_option (\<lambda>i. (ti_session_id i, x)) (tunnel_info_at t (modify_group k f c)) =
          map_option (\<lambda>i. (ti_session_id i, x)) (tunnel_info_at t c)" for x :: tunnel_key
      using arg_cong[OF own[of t], of "map_option (\<lambda>s. (s, x))"] by (simp add: option.map_comp comp_def)
    then show "abs_core (modify_group k f c) t = abs_core c t"
      by (simp add: abs_core_def modify_group_tables split: option.split)
  qed
  have ses: "sessions_ok (modify_group k f c)"
    using inv sessions_ok_fewer[of c "modify_group k f c"]
    by (simp add: core_inv_def modify_group_tables owner_abs abs)
  have J: "same_member m m' \<Longrightarrow> http_info_ok s (gm_info m) \<Longrightarrow> http_info_ok s (gm_info m')"
    "same_member m m' \<Longrightarrow> tcp_info_ok p (gm_info m) \<Longrightarrow> tcp_info_ok p (gm_info m')"
    "same_member m m' \<Longrightarrow> udp_info_ok p (gm_info m) \<Longrightarrow> udp_info_ok p (gm_info m')" for m m' s p
    by (simp_all add: same_member_def http_info_ok_def tcp_info_ok_def udp_info_ok_def)
  have "tables_inv TR UR (modify_group k f c)"
    using inv routes_ok_same_key[where J = http_info_ok, OF J(1) same _ http_rt.route_table_axioms]
      routes_ok_same_key[where J = tcp_info_ok, OF J(2) same _ tcp_rt.route_table_axioms]
      routes_ok_same_key[where J = udp_info_ok, OF J(3) same _ udp_rt.route_table_axioms]
      http_uniform_modify[OF _ same] tcp_index_ok_modify[OF _ same] ports_ok_modify
    by (simp add: core_inv_defs modify_group_def split: tunnel_key.split)
  then show ?thesis using ses abs by (simp add: core_inv_def)
qed

section \<open>Health, dispatch and counters\<close>

lemma record_health_event_bound:
  "length (gm_health_events m) \<le> HEALTH_EVENT_RING_SIZE \<Longrightarrow>
   length (gm_health_events (record_health_event now h r m)) \<le> HEALTH_EVENT_RING_SIZE"
  using health_ring.push_bounded[of m "(now, h, r)"] by simp

lemma same_member_marks:
  "same_member m (fst (mark_healthy now m))" "same_member m (fst (mark_unhealthy now reason m))"
  "same_member m (bump_request_count m)"
  "same_member m (m\<lparr>gm_info := add_transfer i out (gm_info m)\<rparr>)"
  by (auto simp: same_member_def mark_healthy_def mark_unhealthy_def bump_request_count_def Let_def
      intro!: record_health_event_bound)

lemma with_member_inv:
  assumes "core_inv TR UR c" and "\<And>m. same_member m (fst (f m))" and "with_member t f c = (c', r)"
  shows "core_inv TR UR c' \<and> abs_core c' = abs_core c"
  using assms modify_group_inv[OF assms(1) same_group_modify_member[of "\<lambda>m. fst (f m)"]]
  by (auto simp: with_member_def split: option.splits)

lemma core_inv_irrelevant:
  "tables_inv TR UR (c\<lparr>group_events := ge\<rparr>) = tables_inv TR UR c"
  "abs_core (c\<lparr>group_events := ge\<rparr>) = abs_core c"
  "tables_inv TR UR (c\<lparr>pending_conns := pc\<rparr>) = tables_inv TR UR c"
  "abs_core (c\<lparr>pending_conns := pc\<rparr>) = abs_core c"
  by (auto simp: tables_inv_def abs_core_def tunnel_info_at_table fun_eq_iff
      split: option.split tunnel_key.split)

lemma core_inv_events:
  "core_inv TR UR (c\<lparr>group_events := ge\<rparr>) = core_inv TR UR c"
  "core_inv TR UR (c\<lparr>pending_conns := pc\<rparr>) = core_inv TR UR c"
  by (simp_all add: core_inv_def core_inv_irrelevant sessions_ok_def owner_abs)

lemma broadcast_inv:
  "core_inv TR UR (broadcast_group_event t g h r c) = core_inv TR UR c"
  "abs_core (broadcast_group_event t g h r c) = abs_core c"
  by (simp_all add: broadcast_group_event_def core_inv_events core_inv_irrelevant
      split: option.split prod.split)

lemma set_tunnel_healthy_inv:
  assumes inv: "core_inv TR UR c" and step: "set_tunnel_healthy now t c = (c', r)"
  shows "core_inv TR UR c' \<and> abs_core c' = abs_core c"
proof -
  obtain c1 x where wm: "with_member t (mark_healthy now) c = (c1, x)" by fastforce
  have c1: "core_inv TR UR c1 \<and> abs_core c1 = abs_core c"
    using with_member_inv[OF inv _ wm] same_member_marks(1) by blast
  have c2: "core_inv TR UR (modify_group k (\<lambda>g. g\<lparr>tg_zero_healthy_alerted := False\<rparr>) c1) \<and>
      abs_core (modify_group k (\<lambda>g. g\<lparr>tg_zero_healthy_alerted := False\<rparr>) c1) = abs_core c" for k
    using modify_group_inv[of TR UR c1 "\<lambda>g. g\<lparr>tg_zero_healthy_alerted := False\<rparr>" k] same_group_alerted c1
    by simp
  show ?thesis using step wm c1 c2
    by (auto simp: set_tunnel_healthy_def Let_def broadcast_inv split: option.splits if_splits)
qed

lemma set_tunnel_unhealthy_inv:
  assumes inv: "core_inv TR UR c" and step: "set_tunnel_unhealthy now t reason c = (c', r)"
  shows "core_inv TR UR c' \<and> abs_core c' = abs_core c"
proof -
  obtain c1 x where wm: "with_member t (mark_unhealthy now reason) c = (c1, x)" by fastforce
  have c1: "core_inv TR UR c1 \<and> abs_core c1 = abs_core c"
    using with_member_inv[OF inv _ wm] same_member_marks(2) by blast
  show ?thesis using step wm c1
    by (auto simp: set_tunnel_unhealthy_def broadcast_inv split: option.splits if_splits)
qed

lemma pop_alert_inv:
  assumes inv: "core_inv TR UR c" and step: "pop_zero_healthy_alert t region c = (c', r)"
  shows "core_inv TR UR c' \<and> abs_core c' = abs_core c"
proof -
  have "core_inv TR UR (modify_group k (\<lambda>g. g\<lparr>tg_zero_healthy_alerted := True\<rparr>) c) \<and>
      abs_core (modify_group k (\<lambda>g. g\<lparr>tg_zero_healthy_alerted := True\<rparr>) c) = abs_core c" for k
    using modify_group_inv[OF inv, of "\<lambda>g. g\<lparr>tg_zero_healthy_alerted := True\<rparr>" k] same_group_alerted
    by simp
  then show ?thesis using inv step
    by (auto simp: pop_zero_healthy_alert_def split: option.splits if_splits)
qed

lemma dispatch_inv:
  assumes inv: "core_inv TR UR c" and step: "dispatch_member pick k g c = (c', r)"
  shows "core_inv TR UR c' \<and> abs_core c' = abs_core c"
proof -
  have "core_inv TR UR (modify_group k (modify_member t bump_request_count) c) \<and>
      abs_core (modify_group k (modify_member t bump_request_count) c) = abs_core c" for t
    by (rule modify_group_inv[OF inv same_group_modify_member]) (rule same_member_marks)
  then show ?thesis using inv step by (auto simp: dispatch_member_def split: option.splits)
qed

lemma resolve_inv:
  assumes inv: "core_inv TR UR c"
  shows "resolve_http pick s c = (c', r) \<Longrightarrow> core_inv TR UR c' \<and> abs_core c' = abs_core c"
    and "resolve_tcp pick p c = (c', r) \<Longrightarrow> core_inv TR UR c' \<and> abs_core c' = abs_core c"
    and "resolve_udp pick p c = (c', r) \<Longrightarrow> core_inv TR UR c' \<and> abs_core c' = abs_core c"
  using inv dispatch_inv[OF inv]
  by (auto simp: resolve_http_def resolve_tcp_def resolve_udp_def split: option.splits)

text \<open>Changes to a P2P publisher that keep its identity.\<close>

lemma p2p_update_inv:
  assumes inv: "core_inv TR UR c"
    and f: "\<And>p. pp_name (f p) = pp_name p \<and>
        ti_tunnel_id (pp_tunnel_info (f p)) = ti_tunnel_id (pp_tunnel_info p) \<and>
        ti_session_id (pp_tunnel_info (f p)) = ti_session_id (pp_tunnel_info p)"
  shows "core_inv TR UR (c\<lparr>p2p_tunnels := dm_modify n f (p2p_tunnels c)\<rparr>) \<and>
         abs_core (c\<lparr>p2p_tunnels := dm_modify n f (p2p_tunnels c)\<rparr>) = abs_core c"
proof -
  let ?c = "c\<lparr>p2p_tunnels := dm_modify n f (p2p_tunnels c)\<rparr>"
  have ok: "p2p_ok (p2p_tunnels c) (tunnel_index c)" using inv by (simp add: core_inv_defs)
  have p2p: "p2p_ok (dm_modify n f (p2p_tunnels c)) (tunnel_index c)"
    unfolding p2p_ok_def
  proof (intro conjI allI impI)
    show "dm_wf (dm_modify n f (p2p_tunnels c))" using ok by (simp add: p2p_ok_def)
    show "pp_name p = n'" "dm_get (tunnel_index c) (ti_tunnel_id (pp_tunnel_info p)) = Some (KP2p n')"
      if "dm_get (dm_modify n f (p2p_tunnels c)) n' = Some p" for n' p
      using that ok f by (auto simp: p2p_ok_def split: if_splits)
    show "\<exists>p. dm_get (dm_modify n f (p2p_tunnels c)) n' = Some p \<and> ti_tunnel_id (pp_tunnel_info p) = t"
      if idx: "dm_get (tunnel_index c) t = Some (KP2p n')" for n' t
    proof -
      obtain p where "dm_get (p2p_tunnels c) n' = Some p" "ti_tunnel_id (pp_tunnel_info p) = t"
        using ok idx unfolding p2p_ok_def by blast
      then show ?thesis using f by auto
    qed
  qed
  have abs: "abs_core ?c = abs_core c"
    using f by (auto simp: abs_core_def tunnel_info_at_table fun_eq_iff option.map_comp comp_def
        split: option.split tunnel_key.split)
  have "sessions_ok ?c" using inv sessions_ok_fewer[of c ?c] by (simp add: core_inv_def owner_abs abs)
  then show ?thesis using p2p inv abs by (simp add: core_inv_defs)
qed

lemma resolve_p2p_inv:
  assumes inv: "core_inv TR UR c" and step: "resolve_p2p n c = (c', r)"
  shows "core_inv TR UR c' \<and> abs_core c' = abs_core c"
proof -
  let ?f = "\<lambda>p. p\<lparr>pp_tunnel_info := (pp_tunnel_info p)\<lparr>ti_request_count := ti_request_count (pp_tunnel_info p) + 1\<rparr>\<rparr>"
  have "core_inv TR UR (c\<lparr>p2p_tunnels := dm_modify n ?f (p2p_tunnels c)\<rparr>) \<and>
        abs_core (c\<lparr>p2p_tunnels := dm_modify n ?f (p2p_tunnels c)\<rparr>) = abs_core c"
    by (rule p2p_update_inv[OF inv]) simp
  then show ?thesis using inv step
    by (auto simp: resolve_p2p_def Let_def dm_modify_def split: option.splits)
qed

lemma update_nat_inv:
  assumes inv: "core_inv TR UR c"
  shows "core_inv TR UR (update_p2p_nat_info t nt addrs c) \<and>
         abs_core (update_p2p_nat_info t nt addrs c) = abs_core c"
  using inv p2p_update_inv[OF inv, of "\<lambda>p. p\<lparr>pp_nat_type := Some nt, pp_mapped_addrs := addrs\<rparr>"]
  by (simp add: update_p2p_nat_info_def split: option.split tunnel_key.split)

lemma record_transfer_inv:
  assumes inv: "core_inv TR UR c"
  shows "core_inv TR UR (record_transfer t i out c) \<and> abs_core (record_transfer t i out c) = abs_core c"
proof -
  have "core_inv TR UR (modify_group k (modify_member t (\<lambda>m. m\<lparr>gm_info := add_transfer i out (gm_info m)\<rparr>)) c) \<and>
        abs_core (modify_group k (modify_member t (\<lambda>m. m\<lparr>gm_info := add_transfer i out (gm_info m)\<rparr>)) c) =
          abs_core c" for k
    by (rule modify_group_inv[OF inv same_group_modify_member]) (rule same_member_marks)
  then show ?thesis
    using inv p2p_update_inv[OF inv, of "\<lambda>p. p\<lparr>pp_tunnel_info := add_transfer i out (pp_tunnel_info p)\<rparr>"]
    by (simp add: record_transfer_def split: option.split tunnel_key.split)
qed

section \<open>Sessions\<close>

lemma register_session_inv:
  assumes inv: "core_inv TR UR c" and fresh: "dm_get (sessions c) s = None"
    and step: "register_session now s addr tok db user tx c = (c', r)"
  shows "core_inv TR UR c' \<and> abs_core c' = abs_core c"
proof -
  have c': "c' = c\<lparr>sessions := dm_insert s (session_info_new now addr tok db user tx) (sessions c)\<rparr>"
    using step by (auto simp: register_session_def)
  have ok: "sessions_ok c" using inv by (simp add: core_inv_def)
  have own: "owner c' t = owner c t" for t by (simp add: owner_abs c' abs_core_sessions)
  have ne: "owner c t = Some s' \<Longrightarrow> s' \<noteq> s" for t s'
    using sessions_ok_owner[OF ok, of t s'] fresh by auto
  have "sessions_ok c'"
    using ok ne unfolding sessions_ok_def own
    by (simp add: c' session_info_new_def dm_wf_insert) 
  then show ?thesis using inv by (simp add: c' core_inv_def abs_core_sessions)
qed

lemma modify_session_inv:
  assumes inv: "core_inv TR UR c" and f: "\<And>si. si_tunnels (f si) = si_tunnels si"
  shows "core_inv TR UR (c\<lparr>sessions := dm_modify s f (sessions c)\<rparr>) \<and>
         abs_core (c\<lparr>sessions := dm_modify s f (sessions c)\<rparr>) = abs_core c"
proof -
  let ?c = "c\<lparr>sessions := dm_modify s f (sessions c)\<rparr>"
  have ok: "sessions_ok c" using inv by (simp add: core_inv_def)
  have own: "owner ?c t = owner c t" for t by (simp add: owner_abs abs_core_sessions)
  have get: "map_option si_tunnels (dm_get (sessions ?c) s') = map_option si_tunnels (dm_get (sessions c) s')" for s'
    using f by (cases "dm_get (sessions c) s'") auto
  have bwd: "\<exists>si0. dm_get (sessions c) s' = Some si0 \<and> si_tunnels si = si_tunnels si0"
    if "dm_get (sessions ?c) s' = Some si" for s' si
    using get[of s'] that by (cases "dm_get (sessions c) s'") auto
  have fwd: "\<exists>si. dm_get (sessions ?c) s' = Some si \<and> si_tunnels si = si_tunnels si0"
    if "dm_get (sessions c) s' = Some si0" for s' si0
    using that f by auto
  have "sessions_ok ?c"
    unfolding sessions_ok_def
  proof (intro conjI allI impI)
    show "dm_wf (sessions ?c)" using ok by (simp add: sessions_ok_def)
    show "\<exists>si. dm_get (sessions ?c) s' = Some si \<and> t \<in> set (si_tunnels si)" if "owner ?c t = Some s'" for t s'
      using sessions_ok_owner[OF ok, of t s'] that fwd unfolding own by metis
    show "distinct (si_tunnels si)" if "dm_get (sessions ?c) s' = Some si" for s' si
      using bwd[OF that] ok by (auto simp: sessions_ok_def)
    show "length (si_tunnels si) \<le> max_tunnels_per_session ?c" if "dm_get (sessions ?c) s' = Some si" for s' si
      using bwd[OF that] ok by (auto simp: sessions_ok_def)
    show "s1 = s2" if st: "dm_get (sessions ?c) s1 = Some x" "dm_get (sessions ?c) s2 = Some y"
      "t \<in> set (si_tunnels x)" "t \<in> set (si_tunnels y)" for s1 x s2 y t
    proof -
      obtain x0 y0 where "dm_get (sessions c) s1 = Some x0" "si_tunnels x = si_tunnels x0"
        "dm_get (sessions c) s2 = Some y0" "si_tunnels y = si_tunnels y0"
        using bwd[OF st(1)] bwd[OF st(2)] by blast
      then show ?thesis using ok st(3,4) unfolding sessions_ok_def by auto
    qed
  qed
  then show ?thesis using inv by (simp add: core_inv_def abs_core_sessions)
qed

section \<open>Reachable states\<close>

text \<open>One call of a router operation, with the random values and the clock reading it uses.\<close>

datatype core_op =
    OpRegisterSession instant uuid socket_addr string "string option" "uuid option" nat
  | OpRemoveSession uuid
  | OpRegisterHttp instant uuid uuid uuid "string option" tunnel_protocol "group_spec option"
  | OpRegisterTcp instant uuid uuid "group_spec option"
  | OpRegisterUdp instant uuid uuid
  | OpRegisterP2p instant uuid uuid string string
  | OpRemoveTunnel uuid
  | OpSetHealthy instant uuid
  | OpSetUnhealthy instant uuid string
  | OpPopAlert uuid string
  | OpResolveHttp nat string
  | OpResolveTcp nat u16
  | OpResolveUdp nat u16
  | OpResolveP2p string
  | OpNatInfo uuid string "string list"
  | OpTransfer uuid u64 u64
  | OpRegisterPending uuid
  | OpResolvePending uuid
  | OpCancelPending uuid
  | OpSetDataPipe uuid nat
  | OpTakeDataPipe uuid

fun exec_op :: "core_op \<Rightarrow> tunnel_core \<Rightarrow> tunnel_core" where
  "exec_op (OpRegisterSession now s addr tok db user tx) c = fst (register_session now s addr tok db user tx c)"
| "exec_op (OpRemoveSession s) c = remove_session s c"
| "exec_op (OpRegisterHttp now rnd t s sd prot grp) c = fst (register_http_tunnel now rnd t s sd prot grp c)"
| "exec_op (OpRegisterTcp now t s grp) c = fst (register_tcp_tunnel now t s grp c)"
| "exec_op (OpRegisterUdp now t s) c = fst (register_udp_tunnel now t s c)"
| "exec_op (OpRegisterP2p now t s n sh) c = fst (register_p2p_tunnel now t s n sh c)"
| "exec_op (OpRemoveTunnel t) c = remove_tunnel t c"
| "exec_op (OpSetHealthy now t) c = fst (set_tunnel_healthy now t c)"
| "exec_op (OpSetUnhealthy now t r) c = fst (set_tunnel_unhealthy now t r c)"
| "exec_op (OpPopAlert t region) c = fst (pop_zero_healthy_alert t region c)"
| "exec_op (OpResolveHttp pick s) c = fst (resolve_http pick s c)"
| "exec_op (OpResolveTcp pick p) c = fst (resolve_tcp pick p c)"
| "exec_op (OpResolveUdp pick p) c = fst (resolve_udp pick p c)"
| "exec_op (OpResolveP2p n) c = fst (resolve_p2p n c)"
| "exec_op (OpNatInfo t nt addrs) c = update_p2p_nat_info t nt addrs c"
| "exec_op (OpTransfer t i out) c = record_transfer t i out c"
| "exec_op (OpRegisterPending conn) c = register_pending_conn conn c"
| "exec_op (OpResolvePending conn) c = fst (resolve_pending_conn conn c)"
| "exec_op (OpCancelPending conn) c = cancel_pending_conn conn c"
| "exec_op (OpSetDataPipe s pipe) c = set_data_pipe s pipe c"
| "exec_op (OpTakeDataPipe s) c = fst (take_data_pipe s c)"

text \<open>The only assumption on the operations: identifiers drawn by \<open>Uuid::new_v4\<close> are fresh.\<close>

fun op_fresh :: "core_op \<Rightarrow> tunnel_core \<Rightarrow> bool" where
  "op_fresh (OpRegisterSession now s addr tok db user tx) c = (dm_get (sessions c) s = None)"
| "op_fresh (OpRegisterHttp now rnd t s sd prot grp) c = fresh_tunnel_id t c"
| "op_fresh (OpRegisterTcp now t s grp) c = fresh_tunnel_id t c"
| "op_fresh (OpRegisterUdp now t s) c = fresh_tunnel_id t c"
| "op_fresh (OpRegisterP2p now t s n sh) c = fresh_tunnel_id t c"
| "op_fresh _ c = True"

inductive reachable :: "tunnel_core \<Rightarrow> tunnel_core \<Rightarrow> bool" for c0 :: tunnel_core where
  start: "reachable c0 c0"
| step: "reachable c0 c \<Longrightarrow> op_fresh op c \<Longrightarrow> reachable c0 (exec_op op c)"

lemma exec_op_inv:
  assumes inv: "core_inv TR UR c" and fresh: "op_fresh op c"
  shows "core_inv TR UR (exec_op op c)"
proof (cases op)
  case (OpRegisterSession now s addr tok db user tx)
  then show ?thesis using register_session_inv[OF inv] fresh by (metis exec_op.simps(1) op_fresh.simps(1) prod.collapse)
next
  case (OpRegisterHttp now rnd t s sd prot grp)
  then show ?thesis using register_http_inv[OF inv] fresh by (metis exec_op.simps(3) op_fresh.simps(2) prod.collapse)
next
  case (OpRegisterTcp now t s grp)
  then show ?thesis using register_tcp_inv[OF inv] fresh by (metis exec_op.simps(4) op_fresh.simps(3) prod.collapse)
next
  case (OpRegisterUdp now t s)
  then show ?thesis using register_udp_inv[OF inv] fresh by (metis exec_op.simps(5) op_fresh.simps(4) prod.collapse)
next
  case (OpRegisterP2p now t s n sh)
  then show ?thesis using register_p2p_inv[OF inv] fresh by (metis exec_op.simps(6) op_fresh.simps(5) prod.collapse)
next
  case (OpSetHealthy now t)
  then show ?thesis using set_tunnel_healthy_inv[OF inv] by (metis exec_op.simps(8) prod.collapse)
next
  case (OpSetUnhealthy now t r)
  then show ?thesis using set_tunnel_unhealthy_inv[OF inv] by (metis exec_op.simps(9) prod.collapse)
next
  case (OpPopAlert t region)
  then show ?thesis using pop_alert_inv[OF inv] by (metis exec_op.simps(10) prod.collapse)
next
  case (OpResolveHttp pick s)
  then show ?thesis using resolve_inv(1)[OF inv] by (metis exec_op.simps(11) prod.collapse)
next
  case (OpResolveTcp pick p)
  then show ?thesis using resolve_inv(2)[OF inv] by (metis exec_op.simps(12) prod.collapse)
next
  case (OpResolveUdp pick p)
  then show ?thesis using resolve_inv(3)[OF inv] by (metis exec_op.simps(13) prod.collapse)
next
  case (OpResolveP2p n)
  then show ?thesis using resolve_p2p_inv[OF inv] by (metis exec_op.simps(14) prod.collapse)
next
  case (OpSetDataPipe s pipe)
  then show ?thesis using modify_session_inv[OF inv, of "\<lambda>si. si\<lparr>si_data_pipe := Some pipe\<rparr>" s]
    by (simp add: set_data_pipe_def)
next
  case (OpTakeDataPipe s)
  then show ?thesis using modify_session_inv[OF inv, of "\<lambda>si. si\<lparr>si_data_pipe := None\<rparr>" s]
    by (simp add: take_data_pipe_def)
qed (use inv remove_session_inv(1)[OF inv] remove_tunnel_core_inv[OF inv] update_nat_inv[OF inv]
       record_transfer_inv[OF inv] in
     \<open>auto simp: register_pending_conn_def resolve_pending_conn_def cancel_pending_conn_def
        core_inv_events split: option.split\<close>)

lemma distinct_port_range: "distinct (port_range lo hi)"
proof -
  have "inj_on (of_nat :: nat \<Rightarrow> u16) {unat lo..<Suc (unat hi)}"
  proof (rule inj_onI)
    fix x y assume xy: "x \<in> {unat lo..<Suc (unat hi)}" "y \<in> {unat lo..<Suc (unat hi)}"
      "(of_nat x :: u16) = of_nat y"
    have "unat hi < 2 ^ 16" using unsigned_less[of hi, where 'a = nat] by simp
    then have "unat (of_nat x :: u16) = x" "unat (of_nat y :: u16) = y"
      using xy(1,2) by (simp_all add: unat_of_nat)
    then show "x = y" using xy(3) by metis
  qed
  then show ?thesis unfolding port_range_def distinct_map set_upt by (intro conjI distinct_upt)
qed

lemma core_inv_new:
  "core_inv (set (port_range tcl tch)) (if ul = 0 \<and> uh = 0 then {} else set (port_range ul uh))
     (tunnel_core_new (tcl, tch) (ul, uh) mt mc rps mfa)"
  using distinct_port_range
  by (auto simp: core_inv_defs tunnel_core_new_def routes_ok_def members_of_def p2p_ok_def ports_ok_def
      tcp_index_ok_def http_uniform_def sessions_ok_def owner_def tunnel_info_at_def)

lemma reachable_inv:
  "reachable c0 c \<Longrightarrow> core_inv TR UR c0 \<Longrightarrow> core_inv TR UR c"
  by (induction rule: reachable.induct) (auto intro: exec_op_inv)

end
