(* ===== verification/RouterProps.thy ===== *)
theory RouterProps
  imports RouterReach "HOL-Library.Multiset"
begin

text \<open>
  The properties of the router that the rest of the server relies on, for every reachable state:
  consistency of the tables, conservation of ports, what registration and removal do to the set of
  live tunnels, who receives a public connection, and when the zero-healthy alert fires.
\<close>

section \<open>Members of a group in a consistent state\<close>

lemma routes_ok_member:
  assumes "routes_ok K J R idx" and "dm_get R k = Some g" and "dm_get (tg_members g) t = Some m"
  shows "dm_get idx t = Some (K k)" and "ti_tunnel_id (gm_info m) = t"
    and "table_info R k t = Some (gm_info m)" and "dm_wf (tg_members g)"
  using routes_ok_group[OF assms(1,2), of t] assms
  by (auto simp: routes_ok_def group_ok_def table_info_def)

lemma member_info_at:
  assumes inv: "core_inv TR UR c" and g: "group_at k c = Some g" and m: "dm_get (tg_members g) t = Some m"
  shows "dm_get (tunnel_index c) t = Some k" and "tunnel_info_at t c = Some (gm_info m)"
    and "ti_tunnel_id (gm_info m) = t" and "dm_wf (tg_members g)"
    and "\<exists>si. dm_get (sessions c) (ti_session_id (gm_info m)) = Some si"
proof -
  have h: "routes_ok KHttp http_info_ok (http_routes c) (tunnel_index c)"
    and tc: "routes_ok KTcp tcp_info_ok (tcp_routes c) (tunnel_index c)"
    and u: "routes_ok KUdp udp_info_ok (udp_routes c) (tunnel_index c)"
    using inv by (auto simp: core_inv_defs)
  have "dm_get (tunnel_index c) t = Some k \<and> tunnel_info_at t c = Some (gm_info m) \<and>
        ti_tunnel_id (gm_info m) = t \<and> dm_wf (tg_members g)"
    using g m routes_ok_member[OF h, of _ g t m] routes_ok_member[OF tc, of _ g t m]
      routes_ok_member[OF u, of _ g t m]
    by (cases k) (auto simp: group_at_def tunnel_info_at_table)
  then show *: "dm_get (tunnel_index c) t = Some k" "tunnel_info_at t c = Some (gm_info m)"
    "ti_tunnel_id (gm_info m) = t" "dm_wf (tg_members g)" by auto
  have "owner c t = Some (ti_session_id (gm_info m))" using * by (simp add: owner_def)
  then show "\<exists>si. dm_get (sessions c) (ti_session_id (gm_info m)) = Some si"
    using sessions_ok_owner inv by (fastforce simp: core_inv_def)
qed

section \<open>Consistency\<close>

text \<open>C1. Every state the server can reach by router operations satisfies the invariant of the tables: a
  tunnel is indexed under a key iff it is a member of the group (or the publisher) stored there, no
  empty group survives, solo groups have one member, the members of an HTTP group agree on the protocol,
  the TCP group index and the TCP routes mirror each other, every live tunnel belongs to a
  live session that lists it, and no session exceeds its limit.\<close>

theorem router_invariant:
  assumes "reachable (tunnel_core_new (tcl, tch) (ul, uh) mt mc rps mfa) c"
  shows "core_inv (set (port_range tcl tch)) (if ul = 0 \<and> uh = 0 then {} else set (port_range ul uh)) c"
  using reachable_inv[OF assms core_inv_new] .

definition example_core :: tunnel_core where
  "example_core = exec_op (OpRegisterTcp 1 11 7 (Some \<lparr>gs_group_name = ''ssh'', gs_key_hash = ''k'', gs_health_check = None\<rparr>))
     (exec_op (OpRegisterHttp 1 0 10 7 (Some ''app'') Http None)
       (exec_op (OpRegisterSession 0 7 (IpV4 1, 2) ''tok'' None None 3)
         (tunnel_core_new (100, 102) (0, 0) 5 10 0 0)))"

lemma example_reachable: "reachable (tunnel_core_new (100, 102) (0, 0) 5 10 0 0) example_core"
  unfolding example_core_def
  by (intro reachable.intros) (code_simp+)

theorem router_invariant_witness:
  "core_inv (set (port_range 100 102)) {} example_core"
  using router_invariant[OF example_reachable] by simp

text \<open>C2. Ports are conserved: at any time the free TCP ports together with the ports of the TCP routes
  are exactly the configured range, each once, and likewise for UDP.\<close>

theorem ports_conserved:
  assumes "reachable (tunnel_core_new (tcl, tch) (ul, uh) mt mc rps mfa) c"
  shows "mset (available_tcp_ports c) + mset (map fst (tcp_routes c)) = mset (port_range tcl tch) \<and>
         mset (available_udp_ports c) + mset (map fst (udp_routes c)) =
           mset (if ul = 0 \<and> uh = 0 then [] else port_range ul uh)"
proof -
  have inv: "core_inv (set (port_range tcl tch)) (if ul = 0 \<and> uh = 0 then {} else set (port_range ul uh)) c"
    using reachable_inv[OF assms core_inv_new] .
  have cons: "mset free + mset (map fst R) = mset range"
    if "ports_ok (set range) free R" "dm_wf R" "distinct range" for free range and R :: "(u16, tunnel_group) dashmap"
  proof -
    have "distinct (free @ map fst R)" "set (free @ map fst R) = set range"
      using that by (auto simp: ports_ok_def dm_wf_def dm_keys[symmetric])
    then show ?thesis using set_eq_iff_mset_eq_distinct[of "free @ map fst R" range] that(3) by simp
  qed
  have tcp: "ports_ok (set (port_range tcl tch)) (available_tcp_ports c) (tcp_routes c)" "dm_wf (tcp_routes c)"
    and udp: "ports_ok (set (if ul = 0 \<and> uh = 0 then [] else port_range ul uh)) (available_udp_ports c)
      (udp_routes c)" "dm_wf (udp_routes c)"
    using inv by (auto simp: core_inv_defs routes_ok_def)
  show ?thesis using cons[OF tcp distinct_port_range] cons[OF udp] distinct_port_range by simp
qed

theorem ports_conserved_witness:
  "mset (available_tcp_ports example_core) + mset (map fst (tcp_routes example_core)) =
   mset (port_range 100 102)"
  using ports_conserved[OF example_reachable] by simp

section \<open>Registration\<close>

text \<open>When an HTTP registration may use a subdomain: it is free, or the request names a group whose key
  hash and protocol are those of the group that holds it.\<close>

definition http_admissible ::
  "string \<Rightarrow> tunnel_protocol \<Rightarrow> group_spec option \<Rightarrow> (string, tunnel_group) dashmap \<Rightarrow> bool" where
  "http_admissible sub prot grp R =
     (case dm_get R sub of
        None \<Rightarrow> True
      | Some g \<Rightarrow> (case grp of
           None \<Rightarrow> False
         | Some spec \<Rightarrow> tg_key_hash g = Some (gs_key_hash spec) \<and>
             list_all (\<lambda>(_, m). ti_protocol (gm_info m) = prot) (tg_members g)))"

lemma http_entry_admissible:
  assumes ok: "routes_ok KHttp http_info_ok R idx" and un: "http_uniform R"
  shows "(\<exists>R'. http_entry now sub prot info grp R = Inr R') \<longleftrightarrow> http_admissible sub prot grp R"
proof (cases "dm_get R sub")
  case None
  then show ?thesis by (simp add: http_entry_def http_admissible_def)
next
  case (Some g)
  have gok: "group_ok g" and gun: "group_uniform g" using ok un Some by (auto simp: routes_ok_def http_uniform_def)
  obtain t0 m0 rest where mem: "tg_members g = (t0, m0) # rest"
    using gok by (cases "tg_members g") (auto simp: group_ok_def)
  have "list_all (\<lambda>(_, m). ti_protocol (gm_info m) = prot) (tg_members g) \<longleftrightarrow> ti_protocol (gm_info m0) = prot"
  proof
    assume p0: "ti_protocol (gm_info m0) = prot"
    obtain q where q: "\<And>t m. dm_get (tg_members g) t = Some m \<Longrightarrow> ti_protocol (gm_info m) = q"
      using gun by (auto simp: group_uniform_def)
    have "q = prot" using q[of t0 m0] p0 mem by simp
    then show "list_all (\<lambda>(_, m). ti_protocol (gm_info m) = prot) (tg_members g)"
      using q gok by (auto simp: list_all_iff group_ok_def dm_set_iff)
  qed (simp add: mem)
  then show ?thesis using Some mem
    by (cases grp) (auto simp: http_entry_def http_admissible_def Let_def)
qed

lemma register_http_branches:
  assumes inv: "core_inv TR UR c" and fresh: "fresh_tunnel_id t c"
    and reg: "register_http_tunnel now rnd t s sd prot grp c = (c', r)"
  shows "(\<exists>y. r = Inr y) \<longleftrightarrow>
      check_session_limit s c = Inr () \<and>
      (\<forall>x. sd = Some x \<longrightarrow> validate_subdomain x = Inr ()) \<and>
      http_admissible (case sd of Some x \<Rightarrow> x | None \<Rightarrow> random_subdomain rnd) prot grp (http_routes c)"
    and "case r of
        Inl _ \<Rightarrow> c' = c
      | Inr (t', sub) \<Rightarrow> t' = t \<and> sub = (case sd of Some x \<Rightarrow> x | None \<Rightarrow> random_subdomain rnd) \<and>
          abs_core c' = (abs_core c)(t \<mapsto> (s, KHttp sub))"
proof -
  have ok: "routes_ok KHttp http_info_ok (http_routes c) (tunnel_index c)" and un: "http_uniform (http_routes c)"
    using inv by (simp_all add: core_inv_defs)
  let ?sub = "case sd of Some x \<Rightarrow> x | None \<Rightarrow> random_subdomain rnd"
  let ?info = "tunnel_info_new now s t prot (Some ?sub) None (max_connections_per_tunnel c)"
  note adm = http_entry_admissible[OF ok un, of now ?sub prot ?info grp]
  show "case r of
        Inl _ \<Rightarrow> c' = c
      | Inr (t', sub) \<Rightarrow> t' = t \<and> sub = (case sd of Some x \<Rightarrow> x | None \<Rightarrow> random_subdomain rnd) \<and>
          abs_core c' = (abs_core c)(t \<mapsto> (s, KHttp sub))"
    using reg
  proof (cases rule: register_http_cases)
    case (ok sub R' u)
    then show ?thesis using register_http_inv[OF inv fresh reg] by (cases sd) auto
  qed simp
  show "(\<exists>y. r = Inr y) \<longleftrightarrow>
      check_session_limit s c = Inr () \<and>
      (\<forall>x. sd = Some x \<longrightarrow> validate_subdomain x = Inr ()) \<and>
      http_admissible ?sub prot grp (http_routes c)" (is "?lhs \<longleftrightarrow> ?rhs")
  proof
    assume ?lhs
    from reg show ?rhs
    proof (cases rule: register_http_cases)
      case (ok sub R' u)
      then have "?sub = sub" by (cases sd) auto
      then show ?thesis using ok adm by auto
    qed (use \<open>?lhs\<close> in simp)
  next
    assume rhs: ?rhs
    then obtain R' where "http_entry now ?sub prot ?info grp (http_routes c) = Inr R'" using adm by auto
    then show ?lhs using reg rhs by (cases sd) (auto simp: register_http_tunnel_def)
  qed
qed

text \<open>C5. HTTP registration, on every branch: it succeeds iff the session exists and is below its limit, a
  requested subdomain is well formed, and the subdomain is free or held by a group with the same key
  hash and protocol.  On success exactly the new tunnel is added to the live tunnels, for the
  calling session and under the requested (or the generated) subdomain; on failure the router is
  unchanged.  In particular no registration can take over a subdomain held with another key.\<close>

theorem register_http_exact:
  assumes "core_inv TR UR c" and "fresh_tunnel_id t c"
    and "register_http_tunnel now rnd t s sd prot grp c = (c', r)"
  shows "((\<exists>y. r = Inr y) \<longleftrightarrow>
      check_session_limit s c = Inr () \<and>
      (\<forall>x. sd = Some x \<longrightarrow> validate_subdomain x = Inr ()) \<and>
      http_admissible (case sd of Some x \<Rightarrow> x | None \<Rightarrow> random_subdomain rnd) prot grp (http_routes c)) \<and>
    (case r of
        Inl _ \<Rightarrow> c' = c
      | Inr (t', sub) \<Rightarrow> t' = t \<and> sub = (case sd of Some x \<Rightarrow> x | None \<Rightarrow> random_subdomain rnd) \<and>
          abs_core c' = (abs_core c)(t \<mapsto> (s, KHttp sub)))"
  using register_http_branches[OF assms] by (rule conjI)

theorem register_http_exact_witness:
  "core_inv (set (port_range 100 102)) {} example_core \<and> fresh_tunnel_id 12 example_core \<and>
   (\<forall>y. snd (register_http_tunnel 2 0 12 7 (Some ''app'') Http None example_core) \<noteq> Inr y)"
proof -
  have inv: "core_inv (set (port_range 100 102)) {} example_core"
    using reachable_inv[OF example_reachable core_inv_new] by simp
  have fresh: "fresh_tunnel_id 12 example_core" by code_simp
  have "\<not> http_admissible ''app'' Http None (http_routes example_core)" by code_simp
  then show ?thesis
    using inv fresh register_http_exact[OF inv fresh, of 2 0 7 "Some ''app''" Http None
      "fst (register_http_tunnel 2 0 12 7 (Some ''app'') Http None example_core)"
      "snd (register_http_tunnel 2 0 12 7 (Some ''app'') Http None example_core)"] by simp
qed

text \<open>What the port of a TCP registration is: the one of the group with this name and key hash if there is
  one, otherwise the last free port.\<close>

definition tcp_target :: "group_spec option \<Rightarrow> tunnel_core \<Rightarrow> u16 option" where
  "tcp_target grp c =
     (case Option.bind grp (\<lambda>spec. dm_get (tcp_group_index c) (gs_group_name spec, gs_key_hash spec)) of
        Some port \<Rightarrow> Some port
      | None \<Rightarrow> map_option fst (vec_pop (available_tcp_ports c)))"

text \<open>TCP registration, on every branch: it succeeds iff the session exists and is below its limit and
  there is a port to use; the members of one group (same name and key hash) all get the port of
  the first, everybody else a port that was free.  On success exactly the new tunnel becomes live
  under that port and the edge is told to listen iff the port was newly allocated; on failure the
  router is unchanged.\<close>

theorem register_tcp_exact:
  assumes inv: "core_inv TR UR c" and fresh: "fresh_tunnel_id t c"
    and reg: "register_tcp_tunnel now t s grp c = (c', r)"
  shows "case r of
      Inl _ \<Rightarrow> c' = c \<and> (check_session_limit s c \<noteq> Inr () \<or> tcp_target grp c = None)
    | Inr (t', port) \<Rightarrow> t' = t \<and> check_session_limit s c = Inr () \<and> tcp_target grp c = Some port \<and>
        abs_core c' = (abs_core c)(t \<mapsto> (s, KTcp port)) \<and>
        tcp_events c' = tcp_events c @
          (if dm_get (tcp_routes c) port = None then [TcpRegistered t port] else [])"
proof (cases r)
  case (Inl e)
  have c': "c' = c" using reg by (cases rule: register_tcp_cases) (use Inl in auto)
  have stale: "\<exists>g. dm_get (tcp_routes c) port = Some g"
    if "dm_get (tcp_group_index c) (gs_group_name sp, gs_key_hash sp) = Some port" for port and sp :: group_spec
    using inv that by (fastforce simp: core_inv_defs tcp_index_ok_def)
  have "\<exists>y. r = Inr y" if lim: "check_session_limit s c = Inr ()" and tgt: "tcp_target grp c \<noteq> None"
  proof (cases "Option.bind grp (\<lambda>sp. dm_get (tcp_group_index c) (gs_group_name sp, gs_key_hash sp))")
    case None
    then obtain p rest where pop: "vec_pop (available_tcp_ports c) = Some (p, rest)"
      using tgt by (auto simp: tcp_target_def)
    then show ?thesis using reg lim None by (cases grp) (auto simp: register_tcp_tunnel_def Let_def)
  next
    case (Some port)
    then obtain sp where sp: "grp = Some sp"
      "dm_get (tcp_group_index c) (gs_group_name sp, gs_key_hash sp) = Some port" by (cases grp) auto
    obtain g where "dm_get (tcp_routes c) port = Some g" using stale[OF sp(2)] by blast
    then show ?thesis using reg lim sp by (auto simp: register_tcp_tunnel_def Let_def)
  qed
  then show ?thesis using Inl c' by (cases "tcp_target grp c") auto
next
  case (Inr y)
  have ports: "ports_ok TR (available_tcp_ports c) (tcp_routes c)" using inv by (simp add: core_inv_defs)
  show ?thesis using reg
  proof (cases rule: register_tcp_cases)
    case (alloc port rest g m u)
    have "tcp_target grp c = Some port"
      using reg Inr alloc(2,3) alloc(1)
      by (auto simp: register_tcp_tunnel_def tcp_target_def Let_def split: option.splits)
    then show ?thesis
      using register_tcp_inv[OF inv fresh reg] alloc ports_ok_alloc(1)[OF ports alloc(3)] by simp
  next
    case (join port g sp u)
    have "tcp_target grp c = Some port"
      using reg Inr join(1,2) 
      by (auto simp: register_tcp_tunnel_def tcp_target_def Let_def split: option.splits)
    then show ?thesis using register_tcp_inv[OF inv fresh reg] join by simp
  qed (use Inr in simp)
qed

theorem register_tcp_exact_witness:
  "snd (register_tcp_tunnel 3 12 7 (Some \<lparr>gs_group_name = ''ssh'', gs_key_hash = ''k'', gs_health_check = None\<rparr>)
      example_core) = Inr (12, 102) \<and>
   abs_core (fst (register_tcp_tunnel 3 12 7
      (Some \<lparr>gs_group_name = ''ssh'', gs_key_hash = ''k'', gs_health_check = None\<rparr>) example_core)) 12 =
   Some (7, KTcp 102)"
proof -
  let ?reg = "register_tcp_tunnel 3 12 7
    (Some \<lparr>gs_group_name = ''ssh'', gs_key_hash = ''k'', gs_health_check = None\<rparr>) example_core"
  have inv: "core_inv (set (port_range 100 102)) {} example_core"
    using reachable_inv[OF example_reachable core_inv_new] by simp
  have fresh: "fresh_tunnel_id 12 example_core" by code_simp
  have r: "snd ?reg = Inr (12, 102)" by code_simp
  have "abs_core (fst ?reg) = (abs_core example_core)(12 \<mapsto> (7, KTcp 102))"
    using register_tcp_exact[OF inv fresh surjective_pairing, of 3 7 "Some \<lparr>gs_group_name = ''ssh'',
      gs_key_hash = ''k'', gs_health_check = None\<rparr>"] r by simp
  then have "abs_core (fst ?reg) 12 = Some (7, KTcp 102)" by (rule trans[OF fun_cong]) simp
  then show ?thesis using r by simp
qed

section \<open>Removal\<close>

text \<open>Removing a tunnel removes exactly that tunnel from the live tunnels and nothing else; its TCP
  port returns to the pool, and the edge is told to stop listening, iff it was the last member of
  its group.\<close>

theorem remove_tunnel_exact:
  assumes inv: "core_inv TR UR c"
  shows "abs_core (remove_tunnel t c) = (abs_core c)(t := None) \<and>
    (\<forall>port. dm_get (tunnel_index c) t = Some (KTcp port) \<longrightarrow>
       (if members_of (tcp_routes c) port = {t}
        then available_tcp_ports (remove_tunnel t c) = available_tcp_ports c @ [port] \<and>
             tcp_events (remove_tunnel t c) = tcp_events c @ [TcpUnregistered port] \<and>
             dm_get (tcp_routes (remove_tunnel t c)) port = None
        else available_tcp_ports (remove_tunnel t c) = available_tcp_ports c \<and>
             tcp_events (remove_tunnel t c) = tcp_events c \<and>
             members_of (tcp_routes (remove_tunnel t c)) port = members_of (tcp_routes c) port - {t}))"
proof -
  have tab: "tables_inv TR UR c" using inv by (simp add: core_inv_def)
  have rt: "routes_ok KTcp tcp_info_ok (tcp_routes c) (tunnel_index c)" using tab by (simp add: tables_inv_def)
  show ?thesis
  proof (intro conjI allI impI remove_tunnel_inv(2)[OF tab])
    fix port assume t: "dm_get (tunnel_index c) t = Some (KTcp port)"
    obtain g where g: "dm_get (tcp_routes c) port = Some g"
      using table_info_live[OF rt t] by (cases "dm_get (tcp_routes c) port") (auto simp: table_info_def)
    note lv = tcp_rt.ok_leave[OF rt t]
    have mem: "members_of (tcp_routes c) port = dom (dm_get (tg_members g))" by (simp add: members_of_def g)
    have "members_of (fst (leave_group port t (tcp_routes c))) port =
        members_of (tcp_routes c) port - {t}" if "\<not> snd (leave_group port t (tcp_routes c))"
      using that by (auto simp: leave_group_def g Let_def mem split: if_splits)
    moreover have "dm_get (fst (leave_group port t (tcp_routes c))) port = None"
      if "snd (leave_group port t (tcp_routes c))"
      using that by (auto simp: leave_group_def g Let_def split: if_splits)
    ultimately show "if members_of (tcp_routes c) port = {t}
        then available_tcp_ports (remove_tunnel t c) = available_tcp_ports c @ [port] \<and>
             tcp_events (remove_tunnel t c) = tcp_events c @ [TcpUnregistered port] \<and>
             dm_get (tcp_routes (remove_tunnel t c)) port = None
        else available_tcp_ports (remove_tunnel t c) = available_tcp_ports c \<and>
             tcp_events (remove_tunnel t c) = tcp_events c \<and>
             members_of (tcp_routes (remove_tunnel t c)) port = members_of (tcp_routes c) port - {t}"
      using lv(2) by (simp add: remove_tunnel_tcp[OF t g] Let_def)
  qed
qed

theorem remove_tunnel_exact_witness:
  "abs_core (remove_tunnel 11 example_core) = (abs_core example_core)(11 := None)"
proof -
  have "core_inv (set (port_range 100 102)) {} example_core"
    using reachable_inv[OF example_reachable core_inv_new] by simp
  from remove_tunnel_exact[OF this, of 11] show ?thesis by simp
qed



end
