(* ===== verification/RouterDispatch.thy ===== *)
theory RouterDispatch
  imports RouterProps
begin

text \<open>
  Who receives a public connection, how health reports change that, when the zero-healthy alert
  fires, and which subdomains can exist.
\<close>

section \<open>Updates of one member\<close>

lemma group_at_modify:
  "group_at k (modify_group k' f c) = (if k' = k then map_option f (group_at k c) else group_at k c)"
  by (cases k; cases k') (auto simp: group_at_def modify_group_def)

lemma tunnel_info_at_modify_member:
  assumes inv: "core_inv TR UR c" and g: "group_at k c = Some g" and m: "dm_get (tg_members g) t = Some m"
  shows "tunnel_info_at t' (modify_group k (modify_member t f) c) =
         (if t' = t then Some (gm_info (f m)) else tunnel_info_at t' c)"
proof -
  have idx: "dm_get (tunnel_index c) t = Some k" using member_info_at(1)[OF inv g m] .
  show ?thesis using g m idx
    by (cases k) (auto simp: tunnel_info_at_table modify_group_def table_info_modify_member group_at_def
        split: option.split tunnel_key.split)
qed

definition member_at :: "uuid \<Rightarrow> tunnel_core \<Rightarrow> group_member option" where
  "member_at t c = Option.bind (group_for_tunnel t c) (\<lambda>g. dm_get (tg_members g) t)"

lemma member_at_modify_member:
  assumes idx: "dm_get (tunnel_index c) t = Some k"
  shows "member_at t' (modify_group k (modify_member t f) c) =
         (if t' = t then map_option f (member_at t c) else member_at t' c)"
proof (cases "dm_get (tunnel_index c) t'")
  case None
  then show ?thesis using idx by (auto simp: member_at_def group_for_tunnel_def modify_group_tables)
next
  case (Some k')
  show ?thesis
  proof (cases "group_at k' c")
    case None
    then show ?thesis using Some idx
      by (auto simp: member_at_def group_for_tunnel_def modify_group_tables group_at_modify)
  next
    case (Some g)
    then show ?thesis using \<open>dm_get (tunnel_index c) t' = Some k'\<close> idx
      by (auto simp: member_at_def group_for_tunnel_def modify_group_tables group_at_modify modify_member_def)
  qed
qed

section \<open>Dispatch\<close>

lemma choose_one_Some: "choose_one pick xs = Some x \<Longrightarrow> x \<in> set xs"
  by (auto simp: choose_one_def split: if_splits)

lemma choose_one_None: "choose_one pick xs = None \<longleftrightarrow> xs = []"
  by (simp add: choose_one_def)

lemma choose_one_any: "x \<in> set xs \<Longrightarrow> \<exists>pick. choose_one pick xs = Some x"
  by (auto simp: choose_one_def in_set_conv_nth intro: exI[where P = "\<lambda>p. (_ ! (p mod _)) = _"])
    (metis mod_less)

abbreviation candidates :: "tunnel_group \<Rightarrow> tunnel_info list" where
  "candidates g \<equiv> map (\<lambda>(_, m). gm_info m) (filter (\<lambda>(_, m). gm_healthy m) (tg_members g))"

lemma candidates_Nil: "candidates g = [] \<longleftrightarrow> healthy_count g = 0"
  by (simp add: healthy_count_def)

lemma candidate_member:
  assumes inv: "core_inv TR UR c" and g: "group_at k c = Some g" and i: "info \<in> set (candidates g)"
  obtains m where "dm_get (tg_members g) (ti_tunnel_id info) = Some m" "gm_healthy m" "gm_info m = info"
proof -
  obtain t m where tm: "(t, m) \<in> set (tg_members g)" "gm_healthy m" "info = gm_info m"
    using i by auto
  then have "tg_members g \<noteq> []" by auto
  then obtain t1 m1 rest where "tg_members g = (t1, m1) # rest" by (cases "tg_members g") auto
  then have "dm_get (tg_members g) t1 = Some m1" by simp
  then have "dm_wf (tg_members g)" using member_info_at(4)[OF inv g] by blast
  then have m: "dm_get (tg_members g) t = Some m" using tm(1) by (simp add: dm_set_iff)
  then have "ti_tunnel_id info = t" using member_info_at(3)[OF inv g m] tm(3) by simp
  then show thesis using that m tm by simp
qed



section \<open>Health reports\<close>

lemma with_member_index:
  "with_member t f c = (c', r) \<Longrightarrow> tunnel_index c' = tunnel_index c \<and> sessions c' = sessions c"
  by (auto simp: with_member_def modify_group_tables split: option.splits)

lemma with_member_Some:
  assumes "member_at t c = Some m"
  obtains k g where "dm_get (tunnel_index c) t = Some k" "group_at k c = Some g"
    "dm_get (tg_members g) t = Some m"
    "with_member t f c = (modify_group k (modify_member t (\<lambda>m. fst (f m))) c, Some (snd (f m)))"
proof -
  obtain k where k: "dm_get (tunnel_index c) t = Some k"
    using assms by (cases "dm_get (tunnel_index c) t") (auto simp: member_at_def group_for_tunnel_def)
  obtain g where g: "group_at k c = Some g"
    using assms k by (cases "group_at k c") (auto simp: member_at_def group_for_tunnel_def)
  have m: "dm_get (tg_members g) t = Some m"
    using assms k g by (simp add: member_at_def group_for_tunnel_def)
  show thesis using that[OF k g m] k g m by (simp add: with_member_def)
qed

lemma with_member_None: "member_at t c = None \<Longrightarrow> with_member t f c = (c, None)"
  by (cases "dm_get (tunnel_index c) t")
    (auto simp: member_at_def group_for_tunnel_def with_member_def split: option.splits)

lemma broadcast_frame:
  "group_at k (broadcast_group_event t' g h r c) = group_at k c"
  "tunnel_index (broadcast_group_event t' g h r c) = tunnel_index c"
  by (auto simp: group_at_def broadcast_group_event_def split: option.split prod.split tunnel_key.split)

lemma member_at_irrelevant: "member_at t (broadcast_group_event t' g h r c) = member_at t c"
  by (simp add: member_at_def group_for_tunnel_def broadcast_frame)

lemma member_at_alerted:
  "member_at t (modify_group k (\<lambda>g. g\<lparr>tg_zero_healthy_alerted := b\<rparr>) c) = member_at t c"
proof (cases "dm_get (tunnel_index c) t")
  case (Some k')
  then show ?thesis
    by (cases "group_at k' c") (auto simp: member_at_def group_for_tunnel_def modify_group_tables group_at_modify)
qed (simp add: member_at_def group_for_tunnel_def modify_group_tables)

lemma member_at_reports:
  "member_at t' (fst (set_tunnel_unhealthy now t reason c)) =
     (if t' = t then map_option (\<lambda>m. fst (mark_unhealthy now reason m)) (member_at t c) else member_at t' c) \<and>
   member_at t' (fst (set_tunnel_healthy now t c)) =
     (if t' = t then map_option (\<lambda>m. fst (mark_healthy now m)) (member_at t c) else member_at t' c) \<and>
   (snd (set_tunnel_unhealthy now t reason c) \<longleftrightarrow> member_at t c \<noteq> None) \<and>
   (snd (set_tunnel_healthy now t c) \<longleftrightarrow> member_at t c \<noteq> None)"
proof (cases "member_at t c")
  case None
  then show ?thesis by (simp add: set_tunnel_unhealthy_def set_tunnel_healthy_def with_member_None)
next
  case (Some m)
  obtain k g where k: "dm_get (tunnel_index c) t = Some k" and g: "group_at k c = Some g"
    and wm: "\<And>f :: group_member \<Rightarrow> group_member \<times> bool. with_member t f c =
      (modify_group k (modify_member t (\<lambda>m. fst (f m))) c, Some (snd (f m)))"
    using with_member_Some[OF Some] by (metis option.inject)
  show ?thesis
    using Some k wm[of "mark_unhealthy now reason"] wm[of "mark_healthy now"]
    by (simp add: set_tunnel_unhealthy_def set_tunnel_healthy_def Let_def modify_group_tables
        member_at_irrelevant member_at_alerted member_at_modify_member[OF k] split: option.split)
qed

text \<open>A health report changes exactly the member it is about.  \<open>TunnelUnhealthy\<close> clears its health bit
  and counts the failure, \<open>TunnelHealthy\<close> sets the bit and resets the failure streak; each adds one
  entry to the timeline iff the bit really flipped; every other member is untouched; and a report
  for a tunnel that is not a group member changes nothing and returns false.\<close>

theorem health_report_exact:
  "member_at t' (fst (set_tunnel_unhealthy now t reason c)) =
     (if t' = t then map_option (\<lambda>m. fst (mark_unhealthy now reason m)) (member_at t c) else member_at t' c) \<and>
   member_at t' (fst (set_tunnel_healthy now t c)) =
     (if t' = t then map_option (\<lambda>m. fst (mark_healthy now m)) (member_at t c) else member_at t' c) \<and>
   (snd (set_tunnel_unhealthy now t reason c) \<longleftrightarrow> member_at t c \<noteq> None) \<and>
   (snd (set_tunnel_healthy now t c) \<longleftrightarrow> member_at t c \<noteq> None)"
  by (rule member_at_reports)

text \<open>The health timeline of a member is bounded: however many transitions are recorded, it holds the
  last \<open>HEALTH_EVENT_RING_SIZE\<close> of them, oldest first.\<close>

theorem health_timeline_last:
  assumes "length (gm_health_events m) \<le> HEALTH_EVENT_RING_SIZE"
  shows "map (\<lambda>e. (he_at e, he_healthy e, he_reason e))
      (gm_health_events (fold (\<lambda>(now, healthy, reason). record_health_event now healthy reason) evs m)) =
    last_n HEALTH_EVENT_RING_SIZE
      (map (\<lambda>e. (he_at e, he_healthy e, he_reason e)) (gm_health_events m) @ evs)"
  using health_ring.pushes_contents[of m evs] assms by simp

theorem health_timeline_last_witness:
  "map (\<lambda>e. (he_at e, he_healthy e, he_reason e))
      (gm_health_events (fold (\<lambda>(now, healthy, reason). record_health_event now healthy reason)
         [(1, True, ''recovered''), (2, False, ''timeout'')]
         (healthy_with (tunnel_info_new 0 1 2 Http None None 3)))) =
   [(1, True, ''recovered''), (2, False, ''timeout'')]"
  using health_timeline_last[of "healthy_with (tunnel_info_new 0 1 2 Http None None 3)"
    "[(1, True, ''recovered''), (2, False, ''timeout'')]"]
  by (simp add: HEALTH_EVENT_RING_SIZE_def last_n_def)

section \<open>The zero-healthy alert\<close>

lemma set_unhealthy_keeps_alert:
  "map_option tg_zero_healthy_alerted (group_at k (fst (set_tunnel_unhealthy now t r c))) =
   map_option tg_zero_healthy_alerted (group_at k c) \<and>
   tunnel_index (fst (set_tunnel_unhealthy now t r c)) = tunnel_index c"
proof -
  obtain c1 x where wm: "with_member t (mark_unhealthy now r) c = (c1, x)" by fastforce
  have "map_option tg_zero_healthy_alerted (group_at k c1) = map_option tg_zero_healthy_alerted (group_at k c)"
    using wm by (auto simp: with_member_def group_at_modify modify_member_def option.map_comp comp_def
        split: option.splits)
  then show ?thesis using wm with_member_index[OF wm]
    by (auto simp: set_tunnel_unhealthy_def broadcast_frame split: option.split)
qed

lemma set_unhealthys_keep_alert:
  "map_option tg_zero_healthy_alerted (group_at k (fold (\<lambda>(now, t, r) c. fst (set_tunnel_unhealthy now t r c)) us c)) =
   map_option tg_zero_healthy_alerted (group_at k c) \<and>
   tunnel_index (fold (\<lambda>(now, t, r) c. fst (set_tunnel_unhealthy now t r c)) us c) = tunnel_index c"
  using set_unhealthy_keeps_alert by (induction us arbitrary: c) auto

lemma pop_alert_alerted:
  assumes "dm_get (tunnel_index c) t = Some k"
    and "map_option tg_zero_healthy_alerted (group_at k c) = Some True"
  shows "pop_zero_healthy_alert t region c = (c, None)"
  using assms by (auto simp: pop_zero_healthy_alert_def group_for_tunnel_def)

lemma push_unique_fold:
  "distinct acc \<Longrightarrow>
   distinct (foldl push_unique acc ms) \<and>
   set (foldl push_unique acc ms) =
     set acc \<union> {u. \<exists>t m. (t, m) \<in> set ms \<and> Option.bind (gm_health_spec m) hc_alert_webhook_url = Some u}"
proof (induction ms arbitrary: acc)
  case (Cons tm ms)
  have acc: "distinct (push_unique acc tm) \<and> set (push_unique acc tm) =
      set acc \<union> {u. Option.bind (gm_health_spec (snd tm)) hc_alert_webhook_url = Some u}"
    using Cons.prems by (auto simp: push_unique_def list_ex_iff split: option.splits)
  show ?case using Cons.IH[of "push_unique acc tm"] acc by (cases tm) auto
qed simp

text \<open>The alert for a group without healthy members is fired only for a keyed group all of whose members
  are unhealthy, with the list of the members' webhook URLs free of duplicates; and it is fired once:
  after it, whatever further unhealthy reports arrive, no member of the group triggers it again (only a
  \<open>TunnelHealthy\<close> re-arms it).\<close>

theorem zero_healthy_alert_once:
  assumes pop: "pop_zero_healthy_alert t region c = (c1, Some a)"
  shows "(\<exists>k g. dm_get (tunnel_index c) t = Some k \<and> group_at k c = Some g \<and> tg_key_hash g \<noteq> None \<and>
       healthy_count g = 0 \<and> \<not> tg_zero_healthy_alerted g \<and> distinct (za_tenant_webhook_urls a) \<and>
       set (za_tenant_webhook_urls a) =
         {u. \<exists>t' m. (t', m) \<in> set (tg_members g) \<and> Option.bind (gm_health_spec m) hc_alert_webhook_url = Some u} \<and>
       (\<forall>t' region' us. dm_get (tunnel_index c) t' = Some k \<longrightarrow>
          snd (pop_zero_healthy_alert t' region'
            (fold (\<lambda>(now, t, r) c. fst (set_tunnel_unhealthy now t r c)) us c1)) = None))"
proof -
  obtain k where k: "dm_get (tunnel_index c) t = Some k"
    using pop by (cases "dm_get (tunnel_index c) t") (auto simp: pop_zero_healthy_alert_def group_for_tunnel_def)
  obtain g where g: "group_at k c = Some g"
    using pop k by (cases "group_at k c") (auto simp: pop_zero_healthy_alert_def group_for_tunnel_def)
  have gr: "group_for_tunnel t c = Some g" using k g by (simp add: group_for_tunnel_def)
  have cond: "tg_key_hash g \<noteq> None" "healthy_count g = 0" "\<not> tg_zero_healthy_alerted g"
    using pop gr by (auto simp: pop_zero_healthy_alert_def split: if_splits)
  have c1: "c1 = modify_group k (\<lambda>g. g\<lparr>tg_zero_healthy_alerted := True\<rparr>) c"
    and urls: "za_tenant_webhook_urls a = foldl push_unique [] (tg_members g)"
    using pop gr k cond by (auto simp: pop_zero_healthy_alert_def split: option.splits)
  have flag: "map_option tg_zero_healthy_alerted (group_at k c1) = Some True"
    using g by (simp add: c1 group_at_modify)
  have idx: "tunnel_index c1 = tunnel_index c" by (simp add: c1 modify_group_tables)
  have "snd (pop_zero_healthy_alert t' region'
      (fold (\<lambda>(now, t, r) c. fst (set_tunnel_unhealthy now t r c)) us c1)) = None"
    if "dm_get (tunnel_index c) t' = Some k" for t' region' us
    using pop_alert_alerted[of _ t' k region'] set_unhealthys_keep_alert[of k us c1] flag idx that by simp
  then show ?thesis using k g cond push_unique_fold[of "[]" "tg_members g"] urls by auto
qed

definition alert_core :: tunnel_core where
  "alert_core = exec_op (OpRegisterTcp 1 20 7 (Some \<lparr>gs_group_name = ''db'', gs_key_hash = ''0123456789'',
       gs_health_check = Some \<lparr>hc_kind = HcTcp, hc_interval_secs = 5, hc_timeout_secs = 1, hc_max_failed = 2,
         hc_http_path = None, hc_http_expect_2xx = True, hc_alert_webhook_url = Some ''u''\<rparr>\<rparr>)) example_core"

theorem zero_healthy_alert_once_witness:
  "map_option za_tenant_webhook_urls (snd (pop_zero_healthy_alert 20 ''eu'' alert_core)) = Some [''u''] \<and>
   snd (pop_zero_healthy_alert 20 ''eu'' (fst (pop_zero_healthy_alert 20 ''eu'' alert_core))) = None"
proof -
  define a where "a = the (snd (pop_zero_healthy_alert 20 ''eu'' alert_core))"
  define c1 where "c1 = fst (pop_zero_healthy_alert 20 ''eu'' alert_core)"
  have urls: "map_option za_tenant_webhook_urls (snd (pop_zero_healthy_alert 20 ''eu'' alert_core)) = Some [''u'']"
    by code_simp
  then have pop: "pop_zero_healthy_alert 20 ''eu'' alert_core = (c1, Some a)"
    unfolding a_def c1_def by (cases "pop_zero_healthy_alert 20 ''eu'' alert_core") auto
  obtain k where k: "dm_get (tunnel_index alert_core) 20 = Some k"
    "\<And>t' region' us. dm_get (tunnel_index alert_core) t' = Some k \<Longrightarrow> snd (pop_zero_healthy_alert t' region'
      (fold (\<lambda>(now, t, r) c. fst (set_tunnel_unhealthy now t r c)) us c1)) = None"
    using zero_healthy_alert_once[OF pop] by blast
  show ?thesis using urls k(2)[OF k(1), of "''eu''" "[]"] by (simp add: c1_def)
qed

section \<open>Subdomains\<close>

lemma starts_with_char: "starts_with [x] s \<longleftrightarrow> s \<noteq> [] \<and> hd s = x"
  by (cases s) (auto simp: starts_with_def)

lemma ends_with_char: "ends_with [x] s \<longleftrightarrow> s \<noteq> [] \<and> last s = x"
  by (cases s rule: rev_cases) (auto simp: ends_with_def)

lemma hex_digit_alnum: "d < 16 \<Longrightarrow> is_ascii_alphanumeric (hex_digit d)"
  by (auto simp: hex_digit_def is_ascii_alphanumeric_def is_ascii_digit_def is_ascii_alphabetic_def)

lemma alnum_not_hyphen: "is_ascii_alphanumeric ch \<Longrightarrow> ch \<noteq> CHR ''-''"
  by (auto simp: is_ascii_alphanumeric_def is_ascii_digit_def is_ascii_alphabetic_def)

lemma validate_subdomain_iff:
  "validate_subdomain s = Inr () \<longleftrightarrow>
      3 \<le> length s \<and> length s \<le> 63 \<and> hd s \<noteq> CHR ''-'' \<and> last s \<noteq> CHR ''-'' \<and>
      (\<forall>ch \<in> set s. is_ascii_alphanumeric ch \<or> ch = CHR ''-'')"
  by (auto simp: validate_subdomain_def starts_with_char ends_with_char list_all_iff)

text \<open>A requested subdomain is accepted iff it has 3 to 63 characters, all ASCII letters, digits or
  hyphens, with no hyphen at either end; and a generated subdomain always satisfies the same rule.\<close>

theorem subdomain_rule:
  "(validate_subdomain s = Inr () \<longleftrightarrow>
      3 \<le> length s \<and> length s \<le> 63 \<and> hd s \<noteq> CHR ''-'' \<and> last s \<noteq> CHR ''-'' \<and>
      (\<forall>ch \<in> set s. is_ascii_alphanumeric ch \<or> ch = CHR ''-'')) \<and>
   validate_subdomain (random_subdomain u) = Inr ()"
proof -
  have "\<forall>ch \<in> set (random_subdomain u). is_ascii_alphanumeric ch"
    by (auto simp: random_subdomain_def hex_byte_def hex_digit_alnum)
  moreover have "length (random_subdomain u) = 8" by (simp add: random_subdomain_def hex_byte_def)
  moreover from this have "hd (random_subdomain u) \<in> set (random_subdomain u)"
    "last (random_subdomain u) \<in> set (random_subdomain u)"
    by (metis hd_in_set last_in_set list.size(3) zero_neq_numeral)+
  ultimately have "validate_subdomain (random_subdomain u) = Inr ()"
    using alnum_not_hyphen by (auto simp: validate_subdomain_iff)
  then show ?thesis using validate_subdomain_iff by simp
qed

text \<open>The bound of the quantifier above is met by every character of an accepted name, for instance
  here.\<close>

theorem subdomain_rule_witness:
  "validate_subdomain ''my-app1'' = Inr () \<and> validate_subdomain ''-app'' \<noteq> Inr ()"
proof -
  have "is_ascii_alphanumeric (CHR ''m'') \<and> is_ascii_alphanumeric (CHR ''y'') \<and>
    is_ascii_alphanumeric (CHR ''a'') \<and> is_ascii_alphanumeric (CHR ''p'') \<and>
    is_ascii_alphanumeric (CHR ''1'')" by code_simp
  then show ?thesis using subdomain_rule[of "''my-app1''"] subdomain_rule[of "''-app''"] by simp
qed

end
