(* ===== verification/EdgeListeners.thy ===== *)
theory EdgeListeners
  imports RouterReach
begin

text \<open>
  The listener managers of \<open>edge/tcp.rs\<close> and \<open>edge/udp.rs\<close>: they follow the router's registration
  events and keep one listener task per routed port, resynchronising from the routing table when the
  broadcast channel lagged.  Both follow the same protocol; the locale \<open>port_events\<close> states what
  they need of the router, and it is interpreted for the TCP and for the UDP tables.
\<close>

section \<open>Listener tasks\<close>

text \<open>A spawned task is known by a number; \<open>es_tasks\<close> are the tasks of the \<open>JoinSet\<close> that have not
  been aborted, with the port each listens on.\<close>

record edge_state =
  es_handles :: "(u16, nat) dashmap"
  es_tasks :: "(nat \<times> u16) list"
  es_next :: nat

definition edge_empty :: edge_state where
  "edge_empty = \<lparr>es_handles = [], es_tasks = [], es_next = 0\<rparr>"

definition spawn_port_listener :: "u16 \<Rightarrow> edge_state \<Rightarrow> edge_state \<times> nat" where
  "spawn_port_listener port e =
     (e\<lparr>es_tasks := es_tasks e @ [(es_next e, port)], es_next := Suc (es_next e)\<rparr>, es_next e)"

definition abort_task :: "nat \<Rightarrow> edge_state \<Rightarrow> edge_state" where
  "abort_task h e = e\<lparr>es_tasks := filter (\<lambda>(i, _). i \<noteq> h) (es_tasks e)\<rparr>"

text \<open>Spawn a listener and store its handle; on an event, also abort the listener the port had
  (\<open>if let Some(old) = handles.insert(port, handle)\<close>).\<close>

definition add_listener :: "u16 \<Rightarrow> edge_state \<Rightarrow> edge_state" where
  "add_listener port e =
     (let (e1, handle) = spawn_port_listener port e
      in e1\<lparr>es_handles := dm_insert port handle (es_handles e1)\<rparr>)"

definition start_listener :: "u16 \<Rightarrow> edge_state \<Rightarrow> edge_state" where
  "start_listener port e =
     (let (e1, handle) = spawn_port_listener port e;
          e2 = e1\<lparr>es_handles := dm_insert port handle (es_handles e1)\<rparr>
      in case dm_get (es_handles e1) port of None \<Rightarrow> e2 | Some old \<Rightarrow> abort_task old e2)"

definition stop_listener :: "u16 \<Rightarrow> edge_state \<Rightarrow> edge_state" where
  "stop_listener port e =
     (case dm_get (es_handles e) port of
        None \<Rightarrow> e
      | Some handle \<Rightarrow> abort_task handle (e\<lparr>es_handles := dm_remove port (es_handles e)\<rparr>))"

text \<open>The two arms of the event loop, and the bootstrap before it.\<close>

definition tcp_edge_event :: "tcp_tunnel_event \<Rightarrow> edge_state \<Rightarrow> edge_state" where
  "tcp_edge_event ev e = (case ev of
       TcpRegistered tunnel_id port \<Rightarrow> start_listener port e
     | TcpUnregistered port \<Rightarrow> stop_listener port e)"

definition udp_edge_event :: "udp_tunnel_event \<Rightarrow> edge_state \<Rightarrow> edge_state" where
  "udp_edge_event ev e = (case ev of
       UdpRegistered tunnel_id port \<Rightarrow> start_listener port e
     | UdpUnregistered port \<Rightarrow> stop_listener port e)"

definition tcp_edge_start :: "tunnel_core \<Rightarrow> edge_state" where
  "tcp_edge_start c = fold add_listener (map fst (tcp_routes c)) edge_empty"

definition udp_edge_start :: "tunnel_core \<Rightarrow> edge_state" where
  "udp_edge_start c = fold add_listener (map fst (udp_routes c)) edge_empty"

text \<open>\<open>resync_listeners\<close>: stop what is no longer routed, start what is missing.\<close>

definition resync_ports :: "u16 list \<Rightarrow> edge_state \<Rightarrow> edge_state" where
  "resync_ports active e =
     (let stale = filter (\<lambda>(p, _). p \<notin> set active) (es_handles e);
          e1 = fold (\<lambda>(_, h). abort_task h) stale
                 (e\<lparr>es_handles := dm_retain (\<lambda>p _. p \<in> set active) (es_handles e)\<rparr>)
      in fold (\<lambda>p e. if dm_contains (es_handles e) p then e else add_listener p e) active e1)"

definition tcp_resync_listeners :: "tunnel_core \<Rightarrow> edge_state \<Rightarrow> edge_state" where
  "tcp_resync_listeners c e = resync_ports (map fst (tcp_routes c)) e"

definition udp_resync_listeners :: "tunnel_core \<Rightarrow> edge_state \<Rightarrow> edge_state" where
  "udp_resync_listeners c e = resync_ports (map fst (udp_routes c)) e"

section \<open>No leaked and no missing task\<close>

text \<open>The live tasks are exactly those the handle map names, one per port.\<close>

definition edge_ok :: "edge_state \<Rightarrow> bool" where
  "edge_ok e \<longleftrightarrow> dm_wf (es_handles e) \<and> distinct (map fst (es_tasks e)) \<and>
     set (es_tasks e) = {(i, p). dm_get (es_handles e) p = Some i} \<and>
     (\<forall>i \<in> fst ` set (es_tasks e). i < es_next e)"

definition listening :: "edge_state \<Rightarrow> u16 set" where
  "listening e = dom (dm_get (es_handles e))"

lemma edge_ok_empty: "edge_ok edge_empty" "listening edge_empty = {}"
  by (simp_all add: edge_ok_def edge_empty_def listening_def)

lemma edge_ok_tasks: "edge_ok e \<Longrightarrow> set (es_tasks e) = {(i, p). dm_get (es_handles e) p = Some i}"
  by (simp add: edge_ok_def)

lemma if_eq_Some:
  "(if P then None else x) = Some v \<longleftrightarrow> \<not> P \<and> x = Some v"
  "(if P then Some w else x) = Some v \<longleftrightarrow> (P \<and> w = v) \<or> (\<not> P \<and> x = Some v)"
  by auto

lemma edge_okD:
  assumes "edge_ok e" and "dm_get (es_handles e) p = Some i"
  shows "(i, p) \<in> set (es_tasks e)" and "i < es_next e"
    and "dm_get (es_handles e) q = Some i \<Longrightarrow> q = p"
proof -
  show ip: "(i, p) \<in> set (es_tasks e)" using assms by (simp add: edge_ok_def)
  then have "i \<in> fst ` set (es_tasks e)" by force
  then show "i < es_next e" using assms(1) unfolding edge_ok_def by blast
  assume "dm_get (es_handles e) q = Some i"
  then have "(i, q) \<in> set (es_tasks e)" using assms(1) by (simp add: edge_ok_def)
  then show "q = p" using ip assms(1) unfolding edge_ok_def by (meson eq_key_imp_eq_value)
qed

lemma abort_tasks:
  "es_handles (abort_task h e) = es_handles e" "es_next (abort_task h e) = es_next e"
  "set (es_tasks (abort_task h e)) = {(i, p) \<in> set (es_tasks e). i \<noteq> h}"
  "distinct (map fst (es_tasks e)) \<Longrightarrow> distinct (map fst (es_tasks (abort_task h e)))"
  by (auto simp: abort_task_def distinct_map_filter)

lemma start_listener_ok:
  assumes ok: "edge_ok e"
  shows "edge_ok (start_listener p e)" and "listening (start_listener p e) = insert p (listening e)"
proof -
  show "listening (start_listener p e) = insert p (listening e)"
    by (simp add: start_listener_def spawn_port_listener_def listening_def abort_task_def Let_def
        split: option.split)
  have fresh: "es_next e \<notin> fst ` set (es_tasks e)" using ok unfolding edge_ok_def by fastforce
  let ?e2 = "e\<lparr>es_tasks := es_tasks e @ [(es_next e, p)], es_next := Suc (es_next e),
               es_handles := dm_insert p (es_next e) (es_handles e)\<rparr>"
  have d: "distinct (map fst (es_tasks ?e2))" using ok fresh by (simp add: edge_ok_def)
  show "edge_ok (start_listener p e)"
  proof (cases "dm_get (es_handles e) p")
    case None
    then have "start_listener p e = ?e2" by (simp add: start_listener_def spawn_port_listener_def)
    moreover have "set (es_tasks ?e2) = {(i, q). dm_get (es_handles ?e2) q = Some i}"
      using ok None by (auto simp: edge_ok_def)
    moreover have "\<forall>i \<in> fst ` set (es_tasks ?e2). i < es_next ?e2"
      using ok unfolding edge_ok_def by (auto simp: less_Suc_eq)
    ultimately show ?thesis using ok d by (simp add: edge_ok_def)
  next
    case (Some old)
    note old = edge_okD[OF ok Some]
    have key: "dm_get (es_handles e) q = Some i \<Longrightarrow> i = old \<longleftrightarrow> q = p" for q i
      using Some old(3) by (metis option.inject)
    have st: "start_listener p e = abort_task old ?e2"
      using Some by (simp add: start_listener_def spawn_port_listener_def)
    have "set (es_tasks (start_listener p e)) = {(i, q). dm_get (es_handles (start_listener p e)) q = Some i}"
      using key old(2) by (simp add: st abort_tasks edge_ok_tasks[OF ok] if_eq_Some) blast
    moreover have "\<forall>i \<in> fst ` set (es_tasks (start_listener p e)). i < es_next (start_listener p e)"
      using edge_okD(2)[OF ok] by (auto simp: st abort_tasks edge_ok_tasks[OF ok] less_Suc_eq)
    ultimately show ?thesis using ok d unfolding edge_ok_def by (simp add: st abort_tasks)
  qed
qed

lemma stop_handle_ok:
  assumes ok: "edge_ok e" and h: "dm_get (es_handles e) p = Some h"
  shows "edge_ok (abort_task h (e\<lparr>es_handles := dm_remove p (es_handles e)\<rparr>))"
proof -
  let ?e = "abort_task h (e\<lparr>es_handles := dm_remove p (es_handles e)\<rparr>)"
  have key: "dm_get (es_handles e) q = Some i \<Longrightarrow> i = h \<longleftrightarrow> q = p" for q i
    using h edge_okD(3)[OF ok h] by (metis option.inject)
  have "set (es_tasks ?e) = {(i, q). dm_get (es_handles ?e) q = Some i}"
    using key by (simp add: abort_tasks edge_ok_tasks[OF ok] if_eq_Some) blast
  moreover have "\<forall>i \<in> fst ` set (es_tasks ?e). i < es_next ?e"
    using edge_okD(2)[OF ok] by (auto simp: abort_tasks edge_ok_tasks[OF ok])
  ultimately show ?thesis using ok by (simp add: edge_ok_def abort_tasks)
qed

lemma stop_listener_ok:
  assumes ok: "edge_ok e"
  shows "edge_ok (stop_listener p e)" and "listening (stop_listener p e) = listening e - {p}"
  using ok stop_handle_ok[OF ok]
  by (auto simp: stop_listener_def listening_def abort_tasks split: option.split)

lemma add_listener_new: "dm_get (es_handles e) p = None \<Longrightarrow> add_listener p e = start_listener p e"
  by (simp add: add_listener_def start_listener_def Let_def split_beta spawn_port_listener_def)

lemma add_listeners_ok:
  "edge_ok e \<Longrightarrow> distinct ps \<Longrightarrow> set ps \<inter> listening e = {} \<Longrightarrow>
   edge_ok (fold add_listener ps e) \<and> listening (fold add_listener ps e) = set ps \<union> listening e"
proof (induction ps arbitrary: e)
  case (Cons p ps)
  have "add_listener p e = start_listener p e"
    using Cons.prems(3) by (intro add_listener_new) (auto simp: listening_def domIff)
  then show ?case using Cons.IH[OF start_listener_ok(1)] Cons.prems start_listener_ok(2) by auto
qed simp

text \<open>Resynchronisation: first drop the stale handles, then add the missing ones.\<close>

lemma fold_abort:
  "es_handles (fold (\<lambda>(_, h). abort_task h) hs e) = es_handles e \<and>
   es_next (fold (\<lambda>(_, h). abort_task h) hs e) = es_next e \<and>
   es_tasks (fold (\<lambda>(_, h). abort_task h) hs e) = filter (\<lambda>x. fst x \<notin> snd ` set hs) (es_tasks e)"
  by (induction hs arbitrary: e)
    (simp_all add: abort_task_def split_beta conj_commute filter_id_conv)

lemma drop_stale_ok:
  fixes active :: "u16 list"
  assumes ok: "edge_ok e"
  defines "e1 \<equiv> fold (\<lambda>(_, h). abort_task h) (filter (\<lambda>(p, _). p \<notin> set active) (es_handles e))
                   (e\<lparr>es_handles := dm_retain (\<lambda>p _. p \<in> set active) (es_handles e)\<rparr>)"
  shows "edge_ok e1" and "listening e1 = listening e \<inter> set active"
proof -
  have wf: "dm_wf (es_handles e)" using ok by (simp add: edge_ok_def)
  have e1: "es_handles e1 = dm_retain (\<lambda>p _. p \<in> set active) (es_handles e)" "es_next e1 = es_next e"
    "es_tasks e1 = filter (\<lambda>x. fst x \<notin> snd ` set (filter (\<lambda>(p, _). p \<notin> set active) (es_handles e))) (es_tasks e)"
    by (simp_all add: e1_def fold_abort)
  have get: "dm_get (es_handles e1) q = Some i \<longleftrightarrow> dm_get (es_handles e) q = Some i \<and> q \<in> set active" for q i
    by (auto simp: e1 dm_get_retain[OF wf] split: option.split)
  have stale: "i \<in> snd ` set (filter (\<lambda>(p, _). p \<notin> set active) (es_handles e)) \<longleftrightarrow> q \<notin> set active"
    if q: "dm_get (es_handles e) q = Some i" for q i
  proof -
    have "i \<in> snd ` set (filter (\<lambda>(p, _). p \<notin> set active) (es_handles e)) \<longleftrightarrow>
        (\<exists>p. dm_get (es_handles e) p = Some i \<and> p \<notin> set active)"
      by (force simp: dm_set_iff[OF wf, symmetric])
    then show ?thesis using edge_okD(3)[OF ok q] q by metis
  qed
  have "set (es_tasks e1) = {(i, q). dm_get (es_handles e1) q = Some i}"
  proof -
    have "set (es_tasks e1) = {(i, q). (i, q) \<in> set (es_tasks e) \<and>
        i \<notin> snd ` set (filter (\<lambda>(p, _). p \<notin> set active) (es_handles e))}"
      unfolding e1(3) by force
    also have "\<dots> = {(i, q). dm_get (es_handles e) q = Some i \<and> q \<in> set active}"
      unfolding edge_ok_tasks[OF ok] using stale by blast
    finally show ?thesis by (simp add: get)
  qed
  moreover have "\<forall>i \<in> fst ` set (es_tasks e1). i < es_next e1"
    using edge_okD(2)[OF ok] by (auto simp: e1 edge_ok_tasks[OF ok])
  ultimately show "edge_ok e1" using ok wf by (simp add: edge_ok_def e1 distinct_map_filter)
  show "listening e1 = listening e \<inter> set active" using get by (auto simp: listening_def)
qed

lemma add_missing_ok:
  "edge_ok e \<Longrightarrow>
   edge_ok (fold (\<lambda>p e. if dm_contains (es_handles e) p then e else add_listener p e) ps e) \<and>
   listening (fold (\<lambda>p e. if dm_contains (es_handles e) p then e else add_listener p e) ps e) =
     set ps \<union> listening e"
proof (induction ps arbitrary: e)
  case (Cons p ps)
  then show ?case
  proof (cases "dm_contains (es_handles e) p")
    case True
    then have "p \<in> listening e" by (auto simp: dm_contains_def listening_def)
    then show ?thesis using True Cons by auto
  next
    case False
    then have "add_listener p e = start_listener p e" by (simp add: dm_contains_def add_listener_new)
    then show ?thesis using False Cons.IH[OF start_listener_ok(1)] start_listener_ok(2) Cons.prems by simp
  qed
qed simp

lemma resync_ok:
  assumes "edge_ok e"
  shows "edge_ok (resync_ports active e)" and "listening (resync_ports active e) = set active"
  using add_missing_ok[OF drop_stale_ok(1)[OF assms, of active], of active]
    drop_stale_ok(2)[OF assms, of active]
  by (auto simp: resync_ports_def Let_def)

section \<open>Following the router\<close>

text \<open>What a list of port events does to the set of routed ports.\<close>

definition apply_action :: "u16 \<times> bool \<Rightarrow> u16 set \<Rightarrow> u16 set" where
  "apply_action a S = (if snd a then insert (fst a) S else S - {fst a})"

lemma apply_actions_mem:
  "p \<in> fold apply_action as S \<longleftrightarrow>
     (case find (\<lambda>a. fst a = p) (rev as) of Some a \<Rightarrow> snd a | None \<Rightarrow> p \<in> S)"
  by (induction as rule: rev_induct) (auto simp: apply_action_def)

lemma find_append_Some: "find P xs = Some x \<Longrightarrow> find P (xs @ ys) = Some x"
  by (induction xs) (auto split: if_splits)

text \<open>Only the last event of a port counts, so that replaying a suffix changes nothing.\<close>

lemma replay_suffix:
  "fold apply_action suf (fold apply_action (pre @ suf) S) = fold apply_action (pre @ suf) S"
proof (rule set_eqI)
  fix p
  show "p \<in> fold apply_action suf (fold apply_action (pre @ suf) S) \<longleftrightarrow> p \<in> fold apply_action (pre @ suf) S"
  proof (cases "find (\<lambda>a. fst a = p) (rev suf)")
    case (Some a)
    then have "find (\<lambda>a. fst a = p) (rev suf @ rev pre) = Some a"
      by (rule find_append_Some)
    then show ?thesis using Some by (simp add: apply_actions_mem del: fold_append)
  qed (simp add: apply_actions_mem[of _ suf])
qed

text \<open>
  The interface between the router and a listener manager: a routing table that names the routed
  ports, the event log of the table and the manager's handler.  Every router operation appends to
  the log exactly the events that account for its change of the table.
\<close>

locale port_events =
  fixes action :: "'ev \<Rightarrow> u16 \<times> bool"
    and handler :: "'ev \<Rightarrow> edge_state \<Rightarrow> edge_state"
    and ports :: "tunnel_core \<Rightarrow> u16 list"
    and log :: "tunnel_core \<Rightarrow> 'ev list"
  assumes handler_law: "handler ev e =
      (if snd (action ev) then start_listener (fst (action ev)) e else stop_listener (fst (action ev)) e)"
    and step_law: "\<exists>es. log (exec_op op c) = log c @ es \<and>
      set (ports (exec_op op c)) = fold apply_action (map action es) (set (ports c))"
begin

lemma handlers_ok:
  "edge_ok e \<Longrightarrow> edge_ok (fold handler es e) \<and>
     listening (fold handler es e) = fold apply_action (map action es) (listening e)"
  by (induction es arbitrary: e)
    (auto simp: handler_law start_listener_ok stop_listener_ok apply_action_def)

lemma log_grows:
  "reachable c0 c \<Longrightarrow> \<exists>es. log c = log c0 @ es \<and>
     set (ports c) = fold apply_action (map action es) (set (ports c0))"
proof (induction rule: reachable.induct)
  case (step c op)
  then show ?case using step_law[of op c] by (metis append.assoc fold_append comp_apply map_append)
qed simp

lemma follow:
  assumes "edge_ok e" and "listening e = set (ports c)" and "reachable c c'"
  shows "edge_ok (fold handler (drop (length (log c)) (log c')) e)"
    and "listening (fold handler (drop (length (log c)) (log c')) e) = set (ports c')"
  using log_grows[OF assms(3)] handlers_ok[OF assms(1)] assms(2) by auto

lemma lag:
  assumes start: "log c0 = []" and c1: "reachable c0 c1" and c2: "reachable c1 c2"
    and e: "edge_ok e" and n: "n \<le> length (log c1)"
  shows "edge_ok (fold handler (drop n (log c2)) (resync_ports (ports c1) e))"
    and "listening (fold handler (drop n (log c2)) (resync_ports (ports c1) e)) = set (ports c2)"
proof -
  let ?A = "\<lambda>es. fold apply_action (map action es)"
  obtain es where es: "log c2 = log c1 @ es" "set (ports c2) = ?A es (set (ports c1))"
    using log_grows[OF c2] by blast
  have p1: "set (ports c1) = ?A (log c1) (set (ports c0))" using log_grows[OF c1] start by auto
  have "?A (drop n (log c1)) (set (ports c1)) = set (ports c1)"
    unfolding p1 using replay_suffix[of "map action (drop n (log c1))" "map action (take n (log c1))"]
    by (metis append_take_drop_id map_append)
  then have "?A (drop n (log c2)) (set (ports c1)) = set (ports c2)" using es n by simp
  then show "edge_ok (fold handler (drop n (log c2)) (resync_ports (ports c1) e))"
    and "listening (fold handler (drop n (log c2)) (resync_ports (ports c1) e)) = set (ports c2)"
    using handlers_ok[OF resync_ok(1)[OF e]] resync_ok(2)[OF e] by auto
qed

end

section \<open>The two tables\<close>

text \<open>Operations other than the registrations and removals of the protocol leave its ports alone.\<close>

lemma dom_dm_modify [simp]: "dom (dm_get (dm_modify k f m)) = dom (dm_get m)"
  by (auto split: if_splits)

definition tcp_view :: "tunnel_core \<Rightarrow> u16 set \<times> tcp_tunnel_event list" where
  "tcp_view c = (dom (dm_get (tcp_routes c)), tcp_events c)"

definition udp_view :: "tunnel_core \<Rightarrow> u16 set \<times> udp_tunnel_event list" where
  "udp_view c = (dom (dm_get (udp_routes c)), udp_events c)"

lemma views_modify_group [simp]:
  "tcp_view (modify_group k f c) = tcp_view c" "udp_view (modify_group k f c) = udp_view c"
  by (auto simp: modify_group_def tcp_view_def udp_view_def simp del: dm_get_modify split: tunnel_key.split)

lemma views_irrelevant [simp]:
  "tcp_view (c\<lparr>group_events := a\<rparr>) = tcp_view c" "udp_view (c\<lparr>group_events := a\<rparr>) = udp_view c"
  "tcp_view (c\<lparr>sessions := s\<rparr>) = tcp_view c" "udp_view (c\<lparr>sessions := s\<rparr>) = udp_view c"
  "tcp_view (c\<lparr>pending_conns := pc\<rparr>) = tcp_view c" "udp_view (c\<lparr>pending_conns := pc\<rparr>) = udp_view c"
  "tcp_view (c\<lparr>p2p_tunnels := p\<rparr>) = tcp_view c" "udp_view (c\<lparr>p2p_tunnels := p\<rparr>) = udp_view c"
  "tcp_view (c\<lparr>http_routes := h\<rparr>) = tcp_view c" "udp_view (c\<lparr>http_routes := h\<rparr>) = udp_view c"
  "tcp_view (c\<lparr>tunnel_index := i\<rparr>) = tcp_view c" "udp_view (c\<lparr>tunnel_index := i\<rparr>) = udp_view c"
  by (simp_all add: tcp_view_def udp_view_def)

lemma views_add_tunnel [simp]:
  "tcp_view (add_tunnel_to_session s t c) = tcp_view c" "udp_view (add_tunnel_to_session s t c) = udp_view c"
  by (simp_all add: add_tunnel_to_session_def)

lemma views_with_member:
  "with_member t f c = (c', r) \<Longrightarrow> tcp_view c' = tcp_view c \<and> udp_view c' = udp_view c"
  by (auto simp: with_member_def split: option.splits)

lemma views_broadcast [simp]:
  "tcp_view (broadcast_group_event t g h r c) = tcp_view c"
  "udp_view (broadcast_group_event t g h r c) = udp_view c"
  by (simp_all add: broadcast_group_event_def split: option.split prod.split)

lemma views_set_healthy:
  "tcp_view (fst (set_tunnel_healthy now t c)) = tcp_view c"
  "udp_view (fst (set_tunnel_healthy now t c)) = udp_view c"
  "tcp_view (fst (set_tunnel_unhealthy now t r c)) = tcp_view c"
  "udp_view (fst (set_tunnel_unhealthy now t r c)) = udp_view c"
  using views_with_member[of t "mark_healthy now" c] views_with_member[of t "mark_unhealthy now r" c]
  by (auto simp: set_tunnel_healthy_def set_tunnel_unhealthy_def Let_def split: prod.split option.split)

lemma views_dispatch:
  "tcp_view (fst (dispatch_member pick k g c)) = tcp_view c"
  "udp_view (fst (dispatch_member pick k g c)) = udp_view c"
  by (simp_all add: dispatch_member_def split: option.split)

lemma views_other:
  "tcp_view (fst (register_session now s addr tok db user tx c)) = tcp_view c"
  "udp_view (fst (register_session now s addr tok db user tx c)) = udp_view c"
  "tcp_view (fst (register_http_tunnel now rnd t s sd prot grp c)) = tcp_view c"
  "udp_view (fst (register_http_tunnel now rnd t s sd prot grp c)) = udp_view c"
  "tcp_view (fst (register_p2p_tunnel now t s n sh c)) = tcp_view c"
  "udp_view (fst (register_p2p_tunnel now t s n sh c)) = udp_view c"
  "tcp_view (fst (pop_zero_healthy_alert t region c)) = tcp_view c"
  "udp_view (fst (pop_zero_healthy_alert t region c)) = udp_view c"
  "tcp_view (fst (resolve_p2p n c)) = tcp_view c"
  "udp_view (fst (resolve_p2p n c)) = udp_view c"
  "tcp_view (update_p2p_nat_info t n' addrs c) = tcp_view c"
  "udp_view (update_p2p_nat_info t n' addrs c) = udp_view c"
  "tcp_view (record_transfer t i out c) = tcp_view c"
  "udp_view (record_transfer t i out c) = udp_view c"
  by (simp_all add: register_session_def register_http_tunnel_def register_p2p_tunnel_def Let_def
      pop_zero_healthy_alert_def resolve_p2p_def update_p2p_nat_info_def record_transfer_def
      split: option.split sum.split tunnel_key.split)

lemmas views_ops = views_set_healthy views_dispatch views_other

definition tcp_action :: "tcp_tunnel_event \<Rightarrow> u16 \<times> bool" where
  "tcp_action ev = (case ev of TcpRegistered _ p \<Rightarrow> (p, True) | TcpUnregistered p \<Rightarrow> (p, False))"

definition udp_action :: "udp_tunnel_event \<Rightarrow> u16 \<times> bool" where
  "udp_action ev = (case ev of UdpRegistered _ p \<Rightarrow> (p, True) | UdpUnregistered p \<Rightarrow> (p, False))"

text \<open>One view grows into another by the events that explain the change of the ports.\<close>

definition grows :: "('ev \<Rightarrow> u16 \<times> bool) \<Rightarrow> u16 set \<times> 'ev list \<Rightarrow> u16 set \<times> 'ev list \<Rightarrow> bool" where
  "grows act v v' \<longleftrightarrow> (\<exists>es. snd v' = snd v @ es \<and> fst v' = fold apply_action (map act es) (fst v))"

lemma grows_refl [simp]: "grows act v v"
  by (auto simp: grows_def intro: exI[of _ "[]"])

lemma grows_trans: "grows act u v \<Longrightarrow> grows act v w \<Longrightarrow> grows act u w"
  by (auto simp: grows_def)

lemma grows_one: "S' = apply_action (act ev) S \<Longrightarrow> grows act (S, evs) (S', evs @ [ev])"
  by (auto simp: grows_def intro: exI[of _ "[ev]"])

lemma dom_leave_group:
  "dom (dm_get (fst (leave_group k t R))) =
     (if snd (leave_group k t R) then dom (dm_get R) - {k} else dom (dm_get R))"
  by (auto simp: leave_group_def Let_def split: option.splits if_splits)

lemma tcp_view_remove_tunnel: "grows tcp_action (tcp_view c) (tcp_view (remove_tunnel t c))"
proof (cases "dm_get (tunnel_index c) t")
  case (Some key)
  show ?thesis
  proof (cases key)
    case (KTcp p)
    have "tcp_view (remove_tunnel t c) =
        (if snd (leave_group p t (tcp_routes c))
         then (dom (dm_get (tcp_routes c)) - {p}, tcp_events c @ [TcpUnregistered p]) else tcp_view c)"
      using Some KTcp by (simp add: remove_tunnel_def Let_def split_beta tcp_view_def dom_leave_group)
    then show ?thesis by (auto simp: tcp_view_def tcp_action_def apply_action_def intro!: grows_one)
  qed (use Some in \<open>auto simp: remove_tunnel_def Let_def split_beta tcp_view_def\<close>)
qed (simp add: remove_tunnel_def)

lemma udp_view_remove_tunnel: "grows udp_action (udp_view c) (udp_view (remove_tunnel t c))"
proof (cases "dm_get (tunnel_index c) t")
  case (Some key)
  show ?thesis
  proof (cases key)
    case (KUdp p)
    have "udp_view (remove_tunnel t c) =
        (if snd (leave_group p t (udp_routes c))
         then (dom (dm_get (udp_routes c)) - {p}, udp_events c @ [UdpUnregistered p]) else udp_view c)"
      using Some KUdp by (simp add: remove_tunnel_def Let_def split_beta udp_view_def dom_leave_group)
    then show ?thesis by (auto simp: udp_view_def udp_action_def apply_action_def intro!: grows_one)
  qed (use Some in \<open>auto simp: remove_tunnel_def Let_def split_beta udp_view_def\<close>)
qed (simp add: remove_tunnel_def)

lemma views_remove_tunnels:
  "grows tcp_action (tcp_view c) (tcp_view (fold remove_tunnel ts c))"
  "grows udp_action (udp_view c) (udp_view (fold remove_tunnel ts c))"
  by (induction ts arbitrary: c)
    (auto intro: grows_trans[OF tcp_view_remove_tunnel] grows_trans[OF udp_view_remove_tunnel])

lemma views_remove_session:
  "grows tcp_action (tcp_view c) (tcp_view (remove_session s c))"
  "grows udp_action (udp_view c) (udp_view (remove_session s c))"
  using views_remove_tunnels[of "c\<lparr>sessions := S\<rparr>" for S]
  by (auto simp: remove_session_def split: option.split)

lemma views_register_tcp:
  "grows tcp_action (tcp_view c) (tcp_view (fst (register_tcp_tunnel now t s grp c)))"
  "udp_view (fst (register_tcp_tunnel now t s grp c)) = udp_view c"
proof -
  have "grows tcp_action (tcp_view c) (tcp_view c') \<and> udp_view c' = udp_view c"
    if "register_tcp_tunnel now t s grp c = (c', r)" for c' r
    using that
  proof (cases rule: register_tcp_cases)
    case (alloc port rest g m u)
    have "tcp_view c' = (insert port (dom (dm_get (tcp_routes c))), tcp_events c @ [TcpRegistered t port])"
      unfolding alloc(8) by (simp add: tcp_view_def)
    moreover have "udp_view c' = udp_view c" unfolding alloc(8) by (simp add: udp_view_def)
    ultimately show ?thesis
      by (simp add: tcp_view_def[of c] tcp_action_def apply_action_def grows_one)
  next
    case (join port g sp u)
    then have "tcp_view c' = tcp_view c" "udp_view c' = udp_view c"
      by (simp_all add: tcp_view_def udp_view_def insert_absorb domI)
    then show ?thesis by simp
  qed simp
  from this[of "fst (register_tcp_tunnel now t s grp c)"]
  show "grows tcp_action (tcp_view c) (tcp_view (fst (register_tcp_tunnel now t s grp c)))"
    "udp_view (fst (register_tcp_tunnel now t s grp c)) = udp_view c"
    by (metis prod.collapse)+
qed

lemma views_register_udp:
  "grows udp_action (udp_view c) (udp_view (fst (register_udp_tunnel now t s c)))"
  "tcp_view (fst (register_udp_tunnel now t s c)) = tcp_view c"
proof -
  have "grows udp_action (udp_view c) (udp_view c') \<and> tcp_view c' = tcp_view c"
    if "register_udp_tunnel now t s c = (c', r)" for c' r
    using that
  proof (cases rule: register_udp_cases)
    case (alloc port rest u)
    have "udp_view c' = (insert port (dom (dm_get (udp_routes c))), udp_events c @ [UdpRegistered t port])"
      unfolding alloc(4) by (simp add: udp_view_def)
    moreover have "tcp_view c' = tcp_view c" unfolding alloc(4) by (simp add: tcp_view_def)
    ultimately show ?thesis
      by (simp add: udp_view_def[of c] udp_action_def apply_action_def grows_one)
  qed simp
  from this[of "fst (register_udp_tunnel now t s c)"]
  show "grows udp_action (udp_view c) (udp_view (fst (register_udp_tunnel now t s c)))"
    "tcp_view (fst (register_udp_tunnel now t s c)) = tcp_view c"
    by (metis prod.collapse)+
qed

lemma views_exec_op:
  "grows tcp_action (tcp_view c) (tcp_view (exec_op op c))"
  "grows udp_action (udp_view c) (udp_view (exec_op op c))"
  by (cases op; simp add: views_ops views_register_tcp views_register_udp views_remove_session
      tcp_view_remove_tunnel udp_view_remove_tunnel resolve_http_def resolve_tcp_def resolve_udp_def
      register_pending_conn_def resolve_pending_conn_def cancel_pending_conn_def set_data_pipe_def
      take_data_pipe_def split: option.split)+

interpretation tcp_edge: port_events tcp_action tcp_edge_event "\<lambda>c. map fst (tcp_routes c)" tcp_events
proof
  show "tcp_edge_event ev e = (if snd (tcp_action ev) then start_listener (fst (tcp_action ev)) e
      else stop_listener (fst (tcp_action ev)) e)" for ev e
    by (simp add: tcp_edge_event_def tcp_action_def split: tcp_tunnel_event.split)
  show "\<exists>es. tcp_events (exec_op op c) = tcp_events c @ es \<and>
      set (map fst (tcp_routes (exec_op op c))) =
        fold apply_action (map tcp_action es) (set (map fst (tcp_routes c)))" for op c
    using views_exec_op(1)[of c op] by (simp add: grows_def tcp_view_def dom_map_of_conv_image_fst)
qed

interpretation udp_edge: port_events udp_action udp_edge_event "\<lambda>c. map fst (udp_routes c)" udp_events
proof
  show "udp_edge_event ev e = (if snd (udp_action ev) then start_listener (fst (udp_action ev)) e
      else stop_listener (fst (udp_action ev)) e)" for ev e
    by (simp add: udp_edge_event_def udp_action_def split: udp_tunnel_event.split)
  show "\<exists>es. udp_events (exec_op op c) = udp_events c @ es \<and>
      set (map fst (udp_routes (exec_op op c))) =
        fold apply_action (map udp_action es) (set (map fst (udp_routes c)))" for op c
    using views_exec_op(2)[of c op] by (simp add: grows_def udp_view_def dom_map_of_conv_image_fst)
qed

section \<open>The listener managers never lose or leak a listener\<close>


definition listener_core :: tunnel_core where
  "listener_core = exec_op (OpRegisterUdp 5 9 1) (exec_op (OpRemoveTunnel 8) (exec_op (OpRegisterTcp 3 8 1 None)
     (exec_op (OpRegisterTcp 2 7 1 None)
       (exec_op (OpRegisterSession 0 1 (IpV4 0, 0) ''t'' None None 0)
         (tunnel_core_new (100, 102) (200, 201) 5 10 0 0)))))"

lemma listener_core_reachable: "reachable (tunnel_core_new (100, 102) (200, 201) 5 10 0 0) listener_core"
  unfolding listener_core_def
  by (intro reachable.step reachable.start) (code_simp)+


text \<open>When the broadcast receiver lagged, the manager resynchronises from the current table and then
  receives events from some earlier point of the log again; whatever it was listening on before, and
  however many events were lost or are replayed, it ends with exactly one listener per routed port.\<close>

theorem lag_resync_converges:
  assumes c0: "tcp_events c0 = []" "udp_events c0 = []" and "reachable c0 c1" and "reachable c1 c2"
    and "edge_ok te" and "edge_ok ue" and "n \<le> length (tcp_events c1)" and "m \<le> length (udp_events c1)"
  shows "let te' = fold tcp_edge_event (drop n (tcp_events c2)) (tcp_resync_listeners c1 te);
             ue' = fold udp_edge_event (drop m (udp_events c2)) (udp_resync_listeners c1 ue)
         in edge_ok te' \<and> listening te' = dom (dm_get (tcp_routes c2)) \<and>
            edge_ok ue' \<and> listening ue' = dom (dm_get (udp_routes c2))"
  using tcp_edge.lag[OF c0(1) assms(3,4,5,7)] udp_edge.lag[OF c0(2) assms(3,4,6,8)]
  by (simp add: tcp_resync_listeners_def udp_resync_listeners_def Let_def dom_map_of_conv_image_fst)

text \<open>A manager that missed every event and still listens on a port that was never routed.\<close>

theorem lag_resync_converges_witness:
  "let stale = start_listener 77 edge_empty; c = listener_core;
       te = fold tcp_edge_event (drop 1 (tcp_events c)) (tcp_resync_listeners c stale);
       ue = fold udp_edge_event (drop 0 (udp_events c)) (udp_resync_listeners c stale)
   in edge_ok te \<and> listening te = {102} \<and> edge_ok ue \<and> listening ue = {201}"
proof -
  have "map fst (tcp_routes listener_core) = [102] \<and> map fst (udp_routes listener_core) = [201] \<and>
      1 \<le> length (tcp_events listener_core)" by code_simp
  moreover have "edge_ok (start_listener 77 edge_empty)" by (simp add: start_listener_ok edge_ok_empty)
  ultimately show ?thesis
    using lag_resync_converges[OF _ _ listener_core_reachable reachable.start, of
        "start_listener 77 edge_empty" "start_listener 77 edge_empty" 1 0]
    by (simp add: Let_def dom_map_of_conv_image_fst tunnel_core_new_def) (metis list.set(1,2) list.set_map)
qed

end
