(* ===== verification/EdgeProxy.thy ===== *)
theory EdgeProxy
  imports EdgeListeners
begin

text \<open>
  The connection tasks of the edges: \<open>proxy_request\<close> of \<open>edge/http.rs\<close>, \<open>proxy_tcp_connection\<close> of
  \<open>edge/tcp.rs\<close> and the UDP session task of \<open>edge/udp.rs\<close>.  Each resolves a tunnel, takes a permit of
  its semaphore, registers a pending connection, notifies the client over the control channel, waits
  for the client's data stream and copies bytes.  A task is split at its \<open>await\<close> points, so that any
  number of tasks interleave with each other and with the router's operations.
\<close>

section \<open>Tasks\<close>

datatype edge_kind = HttpEdge | TcpEdge | UdpEdge

datatype conn_phase = Notifying | AwaitingStream | Streaming

text \<open>A live task owns one permit of the semaphore of \<open>pt_tunnel\<close>; \<open>pt_stream\<close> tells whether its oneshot
  channel has received the data stream.\<close>

record proxy_task =
  pt_kind :: edge_kind
  pt_conn :: uuid
  pt_tunnel :: uuid
  pt_phase :: conn_phase
  pt_stream :: bool

record edge_sys =
  sys_core :: tunnel_core
  sys_tasks :: "proxy_task list"

definition permits_held :: "uuid \<Rightarrow> edge_sys \<Rightarrow> nat" where
  "permits_held t s = length (filter (\<lambda>p. pt_tunnel p = t) (sys_tasks s))"

definition find_task :: "uuid \<Rightarrow> edge_sys \<Rightarrow> proxy_task option" where
  "find_task conn s = find (\<lambda>p. pt_conn p = conn) (sys_tasks s)"

definition update_task :: "uuid \<Rightarrow> (proxy_task \<Rightarrow> proxy_task) \<Rightarrow> edge_sys \<Rightarrow> edge_sys" where
  "update_task conn f s = s\<lparr>sys_tasks := map (\<lambda>p. if pt_conn p = conn then f p else p) (sys_tasks s)\<rparr>"

definition end_task :: "uuid \<Rightarrow> edge_sys \<Rightarrow> edge_sys" where
  "end_task conn s = s\<lparr>sys_tasks := filter (\<lambda>p. pt_conn p \<noteq> conn) (sys_tasks s)\<rparr>"

text \<open>\<open>conn_semaphore.clone().try_acquire_owned()\<close>, then \<open>register_pending_conn\<close>.\<close>

definition start_task :: "edge_kind \<Rightarrow> uuid \<Rightarrow> tunnel_info \<Rightarrow> edge_sys \<Rightarrow> edge_sys option" where
  "start_task kind conn_id info s =
     (if permits_held (ti_tunnel_id info) s \<ge> ti_conn_semaphore info then None
      else Some (s\<lparr>sys_core := register_pending_conn conn_id (sys_core s),
                   sys_tasks := sys_tasks s @
                     [\<lparr>pt_kind = kind, pt_conn = conn_id, pt_tunnel = ti_tunnel_id info,
                       pt_phase = Notifying, pt_stream = False\<rparr>]\<rparr>))"

definition proxy_tcp_open :: "nat \<Rightarrow> u16 \<Rightarrow> uuid \<Rightarrow> edge_sys \<Rightarrow> edge_sys \<times> (server_error + unit)" where
  "proxy_tcp_open pick port conn_id s =
     (case resolve_tcp pick port (sys_core s) of
        (c, None) \<Rightarrow> (s\<lparr>sys_core := c\<rparr>, Inl (Tunnel (''no TCP tunnel on port '' @ dec_string (unat port))))
      | (c, Some (info, _)) \<Rightarrow>
          (case start_task TcpEdge conn_id info (s\<lparr>sys_core := c\<rparr>) of
             None \<Rightarrow> (s\<lparr>sys_core := c\<rparr>, Inl (Tunnel (''too many concurrent connections on port '' @
                       dec_string (unat port))))
           | Some s' \<Rightarrow> (s', Inr ())))"

definition udp_session_open :: "nat \<Rightarrow> u16 \<Rightarrow> uuid \<Rightarrow> edge_sys \<Rightarrow> edge_sys \<times> bool" where
  "udp_session_open pick port conn_id s =
     (case resolve_udp pick port (sys_core s) of
        (c, None) \<Rightarrow> (s\<lparr>sys_core := c\<rparr>, False)
      | (c, Some (info, _)) \<Rightarrow>
          (case start_task UdpEdge conn_id info (s\<lparr>sys_core := c\<rparr>) of
             None \<Rightarrow> (s\<lparr>sys_core := c\<rparr>, False)
           | Some s' \<Rightarrow> (s', True)))"

text \<open>Steps 2 to 3 of \<open>proxy_request\<close>; the result is the status and message of the early response.\<close>

definition proxy_request_open ::
  "(rat \<Rightarrow> rat) \<Rightarrow> instant \<Rightarrow> u32 \<Rightarrow> nat \<Rightarrow> nat \<Rightarrow> string \<Rightarrow> nat option \<Rightarrow> uuid \<Rightarrow> edge_sys \<Rightarrow>
   edge_sys \<times> (nat \<times> string + unit)" where
  "proxy_request_open rnd now rate_limit_rps body_max pick subdomain content_length conn_id s =
     (case resolve_http pick subdomain (sys_core s) of
        (c, None) \<Rightarrow> (s\<lparr>sys_core := c\<rparr>, Inl (502, ''No tunnel is registered for '' @ subdomain))
      | (c, Some (info, _)) \<Rightarrow>
          let (limiter, allowed) = check_rate_limit rnd now (ti_tunnel_id info) rate_limit_rps
                (core_rate_limiter c);
              s1 = s\<lparr>sys_core := c\<lparr>core_rate_limiter := limiter\<rparr>\<rparr>
          in if \<not> allowed then (s1, Inl (429, ''Tunnel rate limit exceeded''))
             else if (case content_length of None \<Rightarrow> False | Some n \<Rightarrow> n > body_max)
             then (s1, Inl (413, ''Request body too large''))
             else case start_task HttpEdge conn_id info s1 of
                    None \<Rightarrow> (s1, Inl (503, ''Too many concurrent connections''))
                  | Some s' \<Rightarrow> (s', Inr ()))"

text \<open>Dropping the receiver of a oneshot channel: a sender still in the map can no longer deliver.\<close>

definition drop_receiver :: "uuid \<Rightarrow> tunnel_core \<Rightarrow> tunnel_core" where
  "drop_receiver conn_id c = c\<lparr>pending_conns := dm_modify conn_id (\<lambda>_. False) (pending_conns c)\<rparr>"

text \<open>The error exits of the notification and of the wait: HTTP and UDP cancel the pending connection, the
  TCP task returns through \<open>?\<close> or \<open>return Err\<close> without doing so.\<close>

definition give_up :: "uuid \<Rightarrow> edge_sys \<Rightarrow> edge_sys" where
  "give_up conn_id s =
     (case find_task conn_id s of
        None \<Rightarrow> s
      | Some p \<Rightarrow>
          let cleanup = (case pt_kind p of
                HttpEdge \<Rightarrow> cancel_pending_conn conn_id
              | TcpEdge \<Rightarrow> drop_receiver conn_id
              | UdpEdge \<Rightarrow> cancel_pending_conn conn_id)
          in end_task conn_id (s\<lparr>sys_core := cleanup (sys_core s)\<rparr>))"

definition conn_notified :: "uuid \<Rightarrow> bool \<Rightarrow> edge_sys \<Rightarrow> edge_sys" where
  "conn_notified conn_id sent s =
     (case find_task conn_id s of
        Some p \<Rightarrow>
          if pt_phase p = Notifying
          then (if sent then update_task conn_id (\<lambda>p. p\<lparr>pt_phase := AwaitingStream\<rparr>) s else give_up conn_id s)
          else s
      | None \<Rightarrow> s)"

text \<open>The data connection hands a stream to the pending connection (\<open>resolve_pending_conn\<close>).\<close>

definition stream_opened :: "uuid \<Rightarrow> edge_sys \<Rightarrow> edge_sys" where
  "stream_opened conn_id s =
     (case resolve_pending_conn conn_id (sys_core s) of
        (c, delivered) \<Rightarrow>
          if delivered then update_task conn_id (\<lambda>p. p\<lparr>pt_stream := True\<rparr>) (s\<lparr>sys_core := c\<rparr>)
          else s\<lparr>sys_core := c\<rparr>)"

text \<open>\<open>timeout(STREAM_TIMEOUT, stream_rx)\<close>: the channel is polled before the timer.\<close>

definition conn_wait :: "uuid \<Rightarrow> bool \<Rightarrow> edge_sys \<Rightarrow> edge_sys" where
  "conn_wait conn_id timer_fired s =
     (case find_task conn_id s of
        Some p \<Rightarrow>
          if pt_phase p = AwaitingStream
          then (if pt_stream p then update_task conn_id (\<lambda>p. p\<lparr>pt_phase := Streaming\<rparr>) s
                else if timer_fired then give_up conn_id s else s)
          else s
      | None \<Rightarrow> s)"

text \<open>The end of the copy.  TCP accounts for the bytes when \<open>copy_bidirectional\<close> succeeded, UDP always,
  HTTP meters bytes while they cross the stream.\<close>

definition conn_finished :: "uuid \<Rightarrow> bool \<Rightarrow> u64 \<Rightarrow> u64 \<Rightarrow> edge_sys \<Rightarrow> edge_sys" where
  "conn_finished conn_id copy_ok up down s =
     (case find_task conn_id s of
        Some p \<Rightarrow>
          if pt_phase p = Streaming
          then let c = sys_core s;
                   c' = (case pt_kind p of
                           HttpEdge \<Rightarrow> c
                         | TcpEdge \<Rightarrow> if copy_ok then record_transfer (pt_tunnel p) up down c else c
                         | UdpEdge \<Rightarrow> record_transfer (pt_tunnel p) up down c)
               in end_task conn_id (s\<lparr>sys_core := c'\<rparr>)
          else s
      | None \<Rightarrow> s)"

section \<open>Interleavings\<close>

datatype edge_act =
    ActRouter core_op
  | ActTcpOpen nat u16 uuid
  | ActUdpOpen nat u16 uuid
  | ActHttpOpen instant u32 nat nat string "nat option" uuid
  | ActNotified uuid bool
  | ActStream uuid
  | ActWait uuid bool
  | ActFinished uuid bool u64 u64

fun edge_exec :: "(rat \<Rightarrow> rat) \<Rightarrow> edge_act \<Rightarrow> edge_sys \<Rightarrow> edge_sys" where
  "edge_exec rnd (ActRouter op) s = s\<lparr>sys_core := exec_op op (sys_core s)\<rparr>"
| "edge_exec rnd (ActTcpOpen pick port conn) s = fst (proxy_tcp_open pick port conn s)"
| "edge_exec rnd (ActUdpOpen pick port conn) s = fst (udp_session_open pick port conn s)"
| "edge_exec rnd (ActHttpOpen now rps mx pick sub cl conn) s =
     fst (proxy_request_open rnd now rps mx pick sub cl conn s)"
| "edge_exec rnd (ActNotified conn sent) s = conn_notified conn sent s"
| "edge_exec rnd (ActStream conn) s = stream_opened conn s"
| "edge_exec rnd (ActWait conn fired) s = conn_wait conn fired s"
| "edge_exec rnd (ActFinished conn ok up down) s = conn_finished conn ok up down s"

definition edge_run :: "(rat \<Rightarrow> rat) \<Rightarrow> edge_act list \<Rightarrow> edge_sys \<Rightarrow> edge_sys" where
  "edge_run rnd acts s = fold (edge_exec rnd) acts s"

end
