(* ===== verification/EdgeProxyProps.thy ===== *)
theory EdgeProxyProps
  imports EdgeProxy
begin

text \<open>
  Properties of the interleaved connection tasks: the per-tunnel connection limit holds whatever the
  interleaving, and the pending-connection map holds exactly the connections still waiting for their
  stream, apart from those of failed TCP tasks.
\<close>

section \<open>Every tunnel has the configured number of permits\<close>

definition group_caps :: "nat \<Rightarrow> tunnel_group \<Rightarrow> bool" where
  "group_caps n g \<longleftrightarrow> (\<forall>(t, m) \<in> set (tg_members g). ti_conn_semaphore (gm_info m) = n)"

definition table_caps :: "nat \<Rightarrow> ('k, tunnel_group) dashmap \<Rightarrow> bool" where
  "table_caps n R \<longleftrightarrow> (\<forall>(k, g) \<in> set R. group_caps n g)"

definition caps_ok :: "nat \<Rightarrow> tunnel_core \<Rightarrow> bool" where
  "caps_ok n c \<longleftrightarrow> max_connections_per_tunnel c = n \<and>
     table_caps n (http_routes c) \<and> table_caps n (tcp_routes c) \<and> table_caps n (udp_routes c)"

lemma set_update_subset: "set (dm_insert k v m) \<subseteq> insert (k, v) (set m)"
  by (induction m) auto

lemma set_delete_subset: "set (dm_remove k m) \<subseteq> set m"
  by (auto simp: AList.delete_eq)

lemma group_caps_members [simp]:
  "group_caps n g \<Longrightarrow> ti_conn_semaphore (gm_info m) = n \<Longrightarrow>
     group_caps n (g\<lparr>tg_members := dm_insert t m (tg_members g)\<rparr>)"
  "group_caps n g \<Longrightarrow> group_caps n (g\<lparr>tg_members := dm_remove t (tg_members g)\<rparr>)"
  "group_caps n (g\<lparr>tg_zero_healthy_alerted := b\<rparr>) = group_caps n g"
  using set_update_subset[of t m "tg_members g"] set_delete_subset[of t "tg_members g"]
  by (fastforce simp: group_caps_def)+

lemma group_caps_modify_member:
  assumes "group_caps n g" and "\<And>m. ti_conn_semaphore (gm_info (f m)) = ti_conn_semaphore (gm_info m)"
  shows "group_caps n (modify_member t f g)"
proof (cases "dm_get (tg_members g) t")
  case (Some m)
  then have "ti_conn_semaphore (gm_info m) = n" using assms(1) by (auto simp: group_caps_def dest: map_of_SomeD)
  then show ?thesis using Some assms by (simp add: modify_member_def dm_modify_def)
qed (use assms in \<open>simp add: modify_member_def dm_modify_def\<close>)

lemma table_caps_update:
  "table_caps n R \<Longrightarrow> group_caps n g \<Longrightarrow> table_caps n (dm_insert k g R)"
  "table_caps n R \<Longrightarrow> table_caps n (dm_remove k R)"
  using set_update_subset[of k g R] set_delete_subset[of k R] by (fastforce simp: table_caps_def)+

lemma table_caps_get: "table_caps n R \<Longrightarrow> dm_get R k = Some g \<Longrightarrow> group_caps n g"
  by (auto simp: table_caps_def dest: map_of_SomeD)

lemma table_caps_leave: "table_caps n R \<Longrightarrow> table_caps n (fst (leave_group k t R))"
  using table_caps_get[of n R k]
  by (auto simp: leave_group_def Let_def intro!: table_caps_update split: option.split)

lemma table_caps_modify:
  assumes "table_caps n R" and "\<And>g. group_caps n g \<Longrightarrow> group_caps n (f g)"
  shows "table_caps n (dm_modify k f R)"
  using assms table_caps_get[OF assms(1), of k]
  by (auto simp: dm_modify_def intro!: table_caps_update split: option.split)

lemma caps_modify_group:
  "caps_ok n c \<Longrightarrow> (\<And>g. group_caps n g \<Longrightarrow> group_caps n (f g)) \<Longrightarrow> caps_ok n (modify_group k f c)"
  by (auto simp: caps_ok_def modify_group_def intro: table_caps_modify split: tunnel_key.split)

lemma caps_irrelevant [simp]:
  "caps_ok n (c\<lparr>group_events := a\<rparr>) = caps_ok n c" "caps_ok n (c\<lparr>sessions := b\<rparr>) = caps_ok n c"
  "caps_ok n (c\<lparr>pending_conns := d\<rparr>) = caps_ok n c" "caps_ok n (c\<lparr>p2p_tunnels := e\<rparr>) = caps_ok n c"
  "caps_ok n (c\<lparr>tunnel_index := i\<rparr>) = caps_ok n c" "caps_ok n (c\<lparr>core_rate_limiter := l\<rparr>) = caps_ok n c"
  "caps_ok n (c\<lparr>tcp_events := te\<rparr>) = caps_ok n c" "caps_ok n (c\<lparr>udp_events := ue\<rparr>) = caps_ok n c"
  "caps_ok n (add_tunnel_to_session s t c) = caps_ok n c"
  by (simp_all add: caps_ok_def add_tunnel_to_session_def)

lemma caps_with_member:
  assumes "caps_ok n c" and "\<And>m. ti_conn_semaphore (gm_info (fst (f m))) = ti_conn_semaphore (gm_info m)"
    and "with_member t f c = (c', r)"
  shows "caps_ok n c'"
  using assms(1,3) caps_modify_group[OF assms(1) group_caps_modify_member[where f = "\<lambda>m. fst (f m)"]] assms(2)
  by (auto simp: with_member_def split: option.splits)

lemma caps_broadcast [simp]: "caps_ok n (broadcast_group_event t g h r c) = caps_ok n c"
  by (simp add: broadcast_group_event_def split: option.split prod.split)

lemma marks_semaphore [simp]:
  "gm_info (fst (mark_healthy now m)) = gm_info m" "gm_info (fst (mark_unhealthy now r m)) = gm_info m"
  "ti_conn_semaphore (gm_info (bump_request_count m)) = ti_conn_semaphore (gm_info m)"
  "ti_conn_semaphore (add_transfer i out ti) = ti_conn_semaphore ti"
  by (simp_all add: mark_healthy_def mark_unhealthy_def bump_request_count_def add_transfer_def Let_def)

lemma caps_health:
  assumes "caps_ok n c"
  shows "caps_ok n (fst (set_tunnel_healthy now t c))" "caps_ok n (fst (set_tunnel_unhealthy now t r c))"
    "caps_ok n (fst (pop_zero_healthy_alert t region c))"
  using caps_with_member[OF assms, of "mark_healthy now" t] caps_with_member[OF assms, of "mark_unhealthy now r" t]
    assms
  by (auto simp: set_tunnel_healthy_def set_tunnel_unhealthy_def pop_zero_healthy_alert_def Let_def
      intro!: caps_modify_group split: prod.split option.split)

lemma caps_dispatch: "caps_ok n c \<Longrightarrow> caps_ok n (fst (dispatch_member pick k g c))"
  by (auto simp: dispatch_member_def intro!: caps_modify_group group_caps_modify_member split: option.split)

lemma caps_resolve:
  assumes "caps_ok n c"
  shows "caps_ok n (fst (resolve_http pick s c))" "caps_ok n (fst (resolve_tcp pick p c))"
    "caps_ok n (fst (resolve_udp pick p c))"
  using assms caps_dispatch[OF assms]
  by (auto simp: resolve_http_def resolve_tcp_def resolve_udp_def split: option.split)

lemma caps_transfer: "caps_ok n c \<Longrightarrow> caps_ok n (record_transfer t i out c)"
  by (auto simp: record_transfer_def intro!: caps_modify_group group_caps_modify_member
      split: option.split tunnel_key.split)

lemma group_caps_new [simp]:
  "group_caps n (new_solo x i) \<longleftrightarrow> ti_conn_semaphore i = n"
  "group_caps n (new_with_member x kh m) \<longleftrightarrow> ti_conn_semaphore (gm_info m) = n"
  by (simp_all add: group_caps_def)

lemma info_new_semaphore [simp]: "ti_conn_semaphore (tunnel_info_new now s t p sd port mx) = mx"
  by (simp add: tunnel_info_new_def)

lemma group_caps_join:
  "group_caps n g \<Longrightarrow> ti_conn_semaphore (gm_info m) = n \<Longrightarrow> group_caps n (join_group t m g)"
  by (simp add: join_group_def)

lemma caps_http_entry:
  assumes "table_caps n R" and "ti_conn_semaphore info = n" and "http_entry now sd prot info grp R = Inr R'"
  shows "table_caps n R'"
  using assms table_caps_get[OF assms(1), of sd]
  by (auto simp: http_entry_def Let_def intro!: table_caps_update group_caps_join
      split: option.splits if_splits)

lemma caps_register:
  assumes ok: "caps_ok n c"
  shows "caps_ok n (fst (register_http_tunnel now rnd t s sd prot grp c))"
    and "caps_ok n (fst (register_tcp_tunnel now t s grp c))"
    and "caps_ok n (fst (register_udp_tunnel now t s c))"
    and "caps_ok n (fst (register_p2p_tunnel now t s nm sh c))"
proof -
  have "caps_ok n (c\<lparr>http_routes := R, tunnel_index := ix\<rparr>)"
    if "http_entry now sd' prot info grp (http_routes c) = Inr R" "ti_conn_semaphore info = n" for R ix sd' info
    using ok caps_http_entry[OF _ that(2,1)] by (simp add: caps_ok_def)
  then show "caps_ok n (fst (register_http_tunnel now rnd t s sd prot grp c))"
    using ok by (auto simp: register_http_tunnel_def Let_def caps_ok_def[of n c] split: option.split sum.split)
  have "caps_ok n c'" if "register_tcp_tunnel now t s grp c = (c', r)" for c' r
    using that
  proof (cases rule: register_tcp_cases)
    case (alloc port rest g m u)
    have "group_caps n g" using alloc(4,5) ok by (simp add: group_caps_def caps_ok_def)
    then show ?thesis unfolding alloc(8) using ok
      by (simp add: caps_ok_def table_caps_update add_tunnel_to_session_def)
  next
    case (join port g sp u)
    have "group_caps n g" using table_caps_get join(4) ok by (auto simp: caps_ok_def)
    then show ?thesis unfolding join(5) using ok
      by (simp add: caps_ok_def table_caps_update group_caps_join add_tunnel_to_session_def)
  qed (use ok in simp)
  then show "caps_ok n (fst (register_tcp_tunnel now t s grp c))" by (metis prod.collapse)
  have "caps_ok n c'" if "register_udp_tunnel now t s c = (c', r)" for c' r
    using that
  proof (cases rule: register_udp_cases)
    case (alloc port rest u)
    then show ?thesis using ok by (simp add: caps_ok_def table_caps_update add_tunnel_to_session_def)
  qed (use ok in simp)
  then show "caps_ok n (fst (register_udp_tunnel now t s c))" by (metis prod.collapse)
  show "caps_ok n (fst (register_p2p_tunnel now t s nm sh c))"
    using ok by (simp add: register_p2p_tunnel_def Let_def split: sum.split)
qed

lemma caps_remove_tunnel: "caps_ok n c \<Longrightarrow> caps_ok n (remove_tunnel t c)"
  by (auto simp: remove_tunnel_def Let_def split_beta caps_ok_def intro!: table_caps_leave
      split: option.split tunnel_key.split)

lemma caps_remove_session: "caps_ok n c \<Longrightarrow> caps_ok n (remove_session s c)"
proof -
  have "caps_ok n c \<Longrightarrow> caps_ok n (fold remove_tunnel ts c)" for ts c
    by (induction ts arbitrary: c) (auto simp: caps_remove_tunnel)
  then show "caps_ok n c \<Longrightarrow> ?thesis" by (simp add: remove_session_def split: option.split)
qed

lemma caps_exec_op: "caps_ok n c \<Longrightarrow> caps_ok n (exec_op op c)"
  by (cases op; simp add: caps_health caps_resolve caps_register caps_remove_tunnel caps_remove_session
      caps_transfer register_session_def resolve_p2p_def update_p2p_nat_info_def register_pending_conn_def
      resolve_pending_conn_def cancel_pending_conn_def set_data_pipe_def take_data_pipe_def Let_def
      split: option.split tunnel_key.split)

lemma caps_new: "caps_ok mc (tunnel_core_new tr ur mt mc rps mfa)"
  by (simp add: caps_ok_def tunnel_core_new_def table_caps_def)

lemma dispatch_semaphore:
  assumes "dispatch_member pick k g c = (c', Some (info, tx))" and "group_caps n g"
  shows "ti_conn_semaphore info = n"
proof -
  obtain i where i: "choose_one pick (map (\<lambda>(_, m). gm_info m) (filter (\<lambda>(_, m). gm_healthy m) (tg_members g))) =
      Some i" "ti_conn_semaphore info = ti_conn_semaphore i"
    using assms(1) by (auto simp: dispatch_member_def split: option.splits)
  let ?xs = "map (\<lambda>(_, m). gm_info m) (filter (\<lambda>(_, m). gm_healthy m) (tg_members g))"
  have "i \<in> set ?xs" using i(1) nth_mem[of "pick mod length ?xs" ?xs] by (auto simp: choose_one_def split: if_splits)
  then show ?thesis using i(2) assms(2) by (auto simp: group_caps_def)
qed

lemma resolve_semaphore:
  assumes "caps_ok n c"
  shows "resolve_http pick s c = (c', Some (info, tx)) \<Longrightarrow> ti_conn_semaphore info = n"
    and "resolve_tcp pick p c = (c', Some (info, tx)) \<Longrightarrow> ti_conn_semaphore info = n"
    and "resolve_udp pick p c = (c', Some (info, tx)) \<Longrightarrow> ti_conn_semaphore info = n"
  using assms
  by (auto simp: resolve_http_def resolve_tcp_def resolve_udp_def caps_ok_def split: option.splits
      intro: dispatch_semaphore table_caps_get)

section \<open>The connection limit\<close>

definition limit_ok :: "nat \<Rightarrow> edge_sys \<Rightarrow> bool" where
  "limit_ok n s \<longleftrightarrow> caps_ok n (sys_core s) \<and> (\<forall>t. permits_held t s \<le> n)"

lemma limit_start_task:
  "limit_ok n s \<Longrightarrow> ti_conn_semaphore info = n \<Longrightarrow> start_task k conn info s = Some s' \<Longrightarrow> limit_ok n s'"
  by (auto simp: limit_ok_def start_task_def permits_held_def register_pending_conn_def split: if_splits)

lemma limit_core: "limit_ok n s \<Longrightarrow> caps_ok n c \<Longrightarrow> limit_ok n (s\<lparr>sys_core := c\<rparr>)"
  by (simp add: limit_ok_def permits_held_def)

lemma limit_caps: "limit_ok n s \<Longrightarrow> caps_ok n (sys_core s)"
  by (simp add: limit_ok_def)

lemma length_filter_filter: "length (filter P (filter Q xs)) \<le> length (filter P xs)"
  by (induction xs) auto

lemma limit_end_task: "limit_ok n s \<Longrightarrow> limit_ok n (end_task conn s)"
proof -
  have "permits_held t (end_task conn s) \<le> permits_held t s" for t
    using length_filter_filter by (simp add: permits_held_def end_task_def del: filter_filter)
  then show "limit_ok n s \<Longrightarrow> ?thesis" using order_trans by (fastforce simp: limit_ok_def end_task_def)
qed

lemma limit_update_task:
  assumes "\<And>p. pt_tunnel (f p) = pt_tunnel p"
  shows "limit_ok n s \<Longrightarrow> limit_ok n (update_task conn f s)"
proof -
  have "filter (\<lambda>p. pt_tunnel p = t) (map (\<lambda>p. if pt_conn p = conn then f p else p) ps) =
      map (\<lambda>p. if pt_conn p = conn then f p else p) (filter (\<lambda>p. pt_tunnel p = t) ps)" for t ps
    using assms by (induction ps) auto
  then show "limit_ok n s \<Longrightarrow> ?thesis" by (simp add: limit_ok_def update_task_def permits_held_def)
qed

lemma limit_give_up: "limit_ok n s \<Longrightarrow> limit_ok n (give_up conn s)"
  by (auto simp: give_up_def Let_def cancel_pending_conn_def drop_receiver_def limit_caps
      intro!: limit_end_task limit_core split: option.split edge_kind.split)

lemma limit_opens:
  assumes ok: "limit_ok n s"
  shows "limit_ok n (fst (proxy_tcp_open pick port conn s))"
    and "limit_ok n (fst (udp_session_open pick port conn s))"
    and "limit_ok n (fst (proxy_request_open rnd now rps mx pick sub cl conn s))"
proof -
  note caps = limit_caps[OF ok]
  obtain c r where t: "resolve_tcp pick port (sys_core s) = (c, r)" by fastforce
  have "limit_ok n (s\<lparr>sys_core := c\<rparr>)" using limit_core[OF ok] caps_resolve(2)[OF caps] t by (metis fst_conv)
  then show "limit_ok n (fst (proxy_tcp_open pick port conn s))"
    using t by (auto intro: limit_start_task resolve_semaphore(2)[OF caps] simp: proxy_tcp_open_def split: option.splits prod.split)
  obtain c r where u: "resolve_udp pick port (sys_core s) = (c, r)" by fastforce
  have "limit_ok n (s\<lparr>sys_core := c\<rparr>)" using limit_core[OF ok] caps_resolve(3)[OF caps] u by (metis fst_conv)
  then show "limit_ok n (fst (udp_session_open pick port conn s))"
    using u by (auto intro: limit_start_task resolve_semaphore(3)[OF caps] simp: udp_session_open_def split: option.splits prod.split)
  obtain c r where h: "resolve_http pick sub (sys_core s) = (c, r)" by fastforce
  have c: "caps_ok n c" using caps_resolve(1)[OF caps] h by (metis fst_conv)
  have "limit_ok n (s\<lparr>sys_core := c\<lparr>core_rate_limiter := l\<rparr>\<rparr>)" for l
    using limit_core[OF ok] c by simp
  moreover have "limit_ok n (s\<lparr>sys_core := c\<rparr>)" using limit_core[OF ok c] .
  ultimately show "limit_ok n (fst (proxy_request_open rnd now rps mx pick sub cl conn s))"
    using h by (auto intro: limit_start_task resolve_semaphore(1)[OF caps] simp: proxy_request_open_def Let_def split: option.splits prod.split if_splits)
qed

lemma limit_exec: "limit_ok n s \<Longrightarrow> limit_ok n (edge_exec rnd a s)"
proof (cases a)
  case (ActStream conn)
  assume ok: "limit_ok n s"
  obtain c d where r: "resolve_pending_conn conn (sys_core s) = (c, d)" by fastforce
  then have "caps_ok n c" using limit_caps[OF ok] by (auto simp: resolve_pending_conn_def split: option.splits)
  then show ?thesis using ActStream r ok
    by (auto simp: stream_opened_def intro!: limit_update_task limit_core)
qed (auto simp: limit_core limit_caps caps_exec_op limit_opens conn_notified_def conn_wait_def conn_finished_def
    Let_def intro!: limit_update_task limit_give_up limit_end_task limit_core caps_transfer
    split: option.split edge_kind.split)


section \<open>Pending connections\<close>

fun pending_op :: "core_op \<Rightarrow> bool" where
  "pending_op (OpRegisterPending _) = True"
| "pending_op (OpResolvePending _) = True"
| "pending_op (OpCancelPending _) = True"
| "pending_op _ = False"

lemma pending_frame [simp]:
  "pending_conns (modify_group k f c) = pending_conns c"
  "pending_conns (add_tunnel_to_session s t c) = pending_conns c"
  "pending_conns (broadcast_group_event t g h r c) = pending_conns c"
  "pending_conns (record_transfer t i out c) = pending_conns c"
  "pending_conns (fst (dispatch_member pick k g c)) = pending_conns c"
  by (simp_all add: modify_group_def add_tunnel_to_session_def broadcast_group_event_def record_transfer_def
      dispatch_member_def split: tunnel_key.split option.split prod.split)

lemma pending_resolve [simp]:
  "pending_conns (fst (resolve_http pick sd c)) = pending_conns c"
  "pending_conns (fst (resolve_tcp pick p c)) = pending_conns c"
  "pending_conns (fst (resolve_udp pick p c)) = pending_conns c"
  by (simp_all add: resolve_http_def resolve_tcp_def resolve_udp_def split: option.split)

lemma pending_with_member: "with_member t f c = (c', r) \<Longrightarrow> pending_conns c' = pending_conns c"
  by (auto simp: with_member_def split: option.splits)

lemma pending_health [simp]:
  "pending_conns (fst (set_tunnel_healthy now t c)) = pending_conns c"
  "pending_conns (fst (set_tunnel_unhealthy now t r c)) = pending_conns c"
  using pending_with_member[of t "mark_healthy now" c] pending_with_member[of t "mark_unhealthy now r" c]
  by (auto simp: set_tunnel_healthy_def set_tunnel_unhealthy_def Let_def split: prod.split option.split)

lemma pending_remove [simp]:
  "pending_conns (remove_tunnel t c) = pending_conns c"
  "pending_conns (remove_session s c) = pending_conns c"
proof -
  show r: "pending_conns (remove_tunnel t c) = pending_conns c" for t c
    by (simp add: remove_tunnel_def Let_def split_beta split: option.split tunnel_key.split)
  have "pending_conns (fold remove_tunnel ts c) = pending_conns c" for ts c
    by (induction ts arbitrary: c) (simp_all add: r)
  then show "pending_conns (remove_session s c) = pending_conns c"
    by (simp add: remove_session_def split: option.split)
qed

lemma pending_exec_op: "\<not> pending_op op \<Longrightarrow> pending_conns (exec_op op c) = pending_conns c"
  by (cases op; simp add: register_session_def register_http_tunnel_def register_tcp_tunnel_def
      register_udp_tunnel_def register_p2p_tunnel_def pop_zero_healthy_alert_def resolve_p2p_def
      update_p2p_nat_info_def set_data_pipe_def take_data_pipe_def Let_def split_beta
      split: option.split sum.split tunnel_key.split)

text \<open>Which connections wait for a stream.\<close>

definition wait_list :: "proxy_task list \<Rightarrow> uuid list" where
  "wait_list ps = map pt_conn (filter (\<lambda>p. \<not> pt_stream p) ps)"

definition waiting :: "edge_sys \<Rightarrow> uuid set" where
  "waiting s = set (wait_list (sys_tasks s))"

definition left_behind :: "edge_sys \<Rightarrow> uuid set" where
  "left_behind s = {conn. dm_get (pending_conns (sys_core s)) conn = Some False}"

definition deliverable :: "edge_sys \<Rightarrow> uuid set" where
  "deliverable s = {conn. dm_get (pending_conns (sys_core s)) conn = Some True}"

definition conns :: "edge_sys \<Rightarrow> uuid set" where
  "conns s = set (map pt_conn (sys_tasks s))"

definition tasks_ok :: "edge_sys \<Rightarrow> bool" where
  "tasks_ok s \<longleftrightarrow> distinct (map pt_conn (sys_tasks s)) \<and>
     list_all (\<lambda>p. pt_phase p = Streaming \<longrightarrow> pt_stream p) (sys_tasks s) \<and>
     deliverable s = waiting s \<and> left_behind s \<inter> conns s = {}"

text \<open>Connection ids are fresh random values; the router's own pending operations go through the tasks.\<close>

definition fresh_conn :: "uuid \<Rightarrow> edge_sys \<Rightarrow> bool" where
  "fresh_conn conn s \<longleftrightarrow> dm_get (pending_conns (sys_core s)) conn = None \<and>
     list_all (\<lambda>p. pt_conn p \<noteq> conn) (sys_tasks s)"

fun act_ok :: "edge_act \<Rightarrow> edge_sys \<Rightarrow> bool" where
  "act_ok (ActRouter op) s = (\<not> pending_op op)"
| "act_ok (ActTcpOpen pick port conn) s = fresh_conn conn s"
| "act_ok (ActUdpOpen pick port conn) s = fresh_conn conn s"
| "act_ok (ActHttpOpen now rps mx pick sub cl conn) s = fresh_conn conn s"
| "act_ok _ s = True"

inductive edge_reachable :: "(rat \<Rightarrow> rat) \<Rightarrow> edge_sys \<Rightarrow> edge_sys \<Rightarrow> bool" for rnd s0 where
  edge_start: "edge_reachable rnd s0 s0"
| edge_step: "edge_reachable rnd s0 s \<Longrightarrow> act_ok a s \<Longrightarrow> edge_reachable rnd s0 (edge_exec rnd a s)"

lemma find_task_conns: "find_task conn s = Some p \<Longrightarrow> conn \<in> conns s"
  by (auto simp: find_task_def find_Some_iff conns_def)

lemma waiting_map:
  "set (wait_list (map (\<lambda>p. if pt_conn p = conn then p\<lparr>pt_stream := True\<rparr> else p) ps)) =
   set (wait_list ps) - {conn}"
  "set (wait_list (map (\<lambda>p. if pt_conn p = conn then p\<lparr>pt_phase := ph\<rparr> else p) ps)) = set (wait_list ps)"
  "set (wait_list (filter (\<lambda>p. pt_conn p \<noteq> conn) ps)) = set (wait_list ps) - {conn}"
  "set (wait_list (ps @ [p])) = (if pt_stream p then set (wait_list ps) else insert (pt_conn p) (set (wait_list ps)))"
  by (induction ps) (auto simp: wait_list_def)

lemma wait_list_stream: "p \<in> set ps \<Longrightarrow> \<not> pt_stream p \<Longrightarrow> pt_conn p \<in> set (wait_list ps)"
  "conn \<in> set (wait_list ps) \<Longrightarrow> \<exists>p \<in> set ps. pt_conn p = conn \<and> \<not> pt_stream p"
  by (auto simp: wait_list_def)

lemma conns_map:
  "(\<And>p. pt_conn (f p) = pt_conn p) \<Longrightarrow>
   map pt_conn (map (\<lambda>p. if pt_conn p = conn then f p else p) ps) = map pt_conn ps"
  by (induction ps) auto

text \<open>What the primitive steps do to the sets of connections.\<close>

lemma sets_start:
  assumes "fresh_conn conn s" and "start_task k conn info s = Some s'"
  shows "deliverable s' = insert conn (deliverable s)" "waiting s' = insert conn (waiting s)"
    "left_behind s' = left_behind s" "conns s' = insert conn (conns s)" "conn \<notin> conns s" "conn \<notin> left_behind s"
    "map pt_conn (sys_tasks s') = map pt_conn (sys_tasks s) @ [conn]"
  using assms
  by (auto simp: start_task_def fresh_conn_def deliverable_def waiting_def left_behind_def conns_def
      register_pending_conn_def list_all_iff waiting_map split: if_splits)

lemma sets_cancel:
  fixes s :: edge_sys and conn :: uuid
  defines "s' \<equiv> end_task conn (s\<lparr>sys_core := cancel_pending_conn conn (sys_core s)\<rparr>)"
  shows "deliverable s' = deliverable s - {conn}" "waiting s' = waiting s - {conn}"
    "left_behind s' = left_behind s - {conn}" "conns s' = conns s - {conn}"
  by (auto simp: s'_def end_task_def cancel_pending_conn_def deliverable_def waiting_def left_behind_def conns_def
      waiting_map split: if_splits)

lemma sets_abandon:
  fixes s :: edge_sys and conn :: uuid
  defines "s' \<equiv> end_task conn (s\<lparr>sys_core := drop_receiver conn (sys_core s)\<rparr>)"
  shows "deliverable s' = deliverable s - {conn}" "waiting s' = waiting s - {conn}"
    "left_behind s' = left_behind s \<union> (deliverable s \<inter> {conn})" "conns s' = conns s - {conn}"
  by (auto simp: s'_def end_task_def drop_receiver_def deliverable_def waiting_def left_behind_def conns_def
      waiting_map split: if_splits)

lemma sets_stream:
  "deliverable (stream_opened conn s) = deliverable s - {conn}"
  "left_behind (stream_opened conn s) = left_behind s - {conn}"
  "waiting (stream_opened conn s) = (if conn \<in> deliverable s then waiting s - {conn} else waiting s)"
  "conns (stream_opened conn s) = conns s"
proof -
  show "deliverable (stream_opened conn s) = deliverable s - {conn}"
    "left_behind (stream_opened conn s) = left_behind s - {conn}"
    by (auto simp: stream_opened_def resolve_pending_conn_def update_task_def deliverable_def left_behind_def
        split: option.splits if_splits)
  show "waiting (stream_opened conn s) = (if conn \<in> deliverable s then waiting s - {conn} else waiting s)"
    unfolding waiting_def stream_opened_def resolve_pending_conn_def update_task_def deliverable_def
    by (simp add: waiting_map split: option.split)
  show "conns (stream_opened conn s) = conns s"
    using conns_map[of "\<lambda>p. p\<lparr>pt_stream := True\<rparr>" conn "sys_tasks s"]
    by (auto simp: conns_def stream_opened_def resolve_pending_conn_def update_task_def
        simp del: map_map set_map split: option.split)
qed

lemma conns_distinct:
  "distinct (map pt_conn (sys_tasks s)) \<Longrightarrow> distinct (map pt_conn (sys_tasks (end_task conn s)))"
  "(\<And>p. pt_conn (f p) = pt_conn p) \<Longrightarrow> map pt_conn (sys_tasks (update_task conn f s)) = map pt_conn (sys_tasks s)"
  by (auto simp: end_task_def update_task_def distinct_map_filter)

lemma sets_phase:
  fixes s :: edge_sys and conn :: uuid and ph :: conn_phase
  defines "s' \<equiv> update_task conn (\<lambda>p. p\<lparr>pt_phase := ph\<rparr>) s"
  shows "deliverable s' = deliverable s" "waiting s' = waiting s" "left_behind s' = left_behind s"
    "conns s' = conns s"
  by (simp_all add: s'_def update_task_def deliverable_def waiting_def left_behind_def conns_def
      waiting_map conns_map del: map_map)

lemma streaming_frame:
  "list_all (\<lambda>p. pt_phase p = Streaming \<longrightarrow> pt_stream p) (sys_tasks s) \<Longrightarrow>
     list_all (\<lambda>p. pt_phase p = Streaming \<longrightarrow> pt_stream p) (sys_tasks (end_task conn s))"
  "list_all (\<lambda>p. pt_phase p = Streaming \<longrightarrow> pt_stream p) (sys_tasks s) \<Longrightarrow>
     list_all (\<lambda>p. pt_phase p = Streaming \<longrightarrow> pt_stream p) (sys_tasks (stream_opened conn s))"
  by (auto simp: list_all_iff end_task_def stream_opened_def update_task_def resolve_pending_conn_def
      split: option.split)

lemma find_task_unique:
  assumes "tasks_ok s" and "find_task conn s = Some p" and "q \<in> set (sys_tasks s)" and "pt_conn q = conn"
  shows "q = p"
proof -
  have "p \<in> set (sys_tasks s)" "pt_conn p = conn" using assms(2) by (auto simp: find_task_def find_Some_iff)
  then show ?thesis using assms(1,3,4) by (auto simp: tasks_ok_def distinct_map inj_on_def)
qed

text \<open>The set a step may leave behind.\<close>

definition tcp_give_ups :: "edge_sys \<Rightarrow> uuid set" where
  "tcp_give_ups s = {conn. \<exists>p. find_task conn s = Some p \<and> pt_kind p = TcpEdge \<and> \<not> pt_stream p}"

definition good_step :: "uuid set \<Rightarrow> edge_sys \<Rightarrow> edge_sys \<Rightarrow> bool" where
  "good_step X s s' \<longleftrightarrow> tasks_ok s' \<and> left_behind s' \<subseteq> left_behind s \<union> tcp_give_ups s \<and>
     left_behind s - X \<subseteq> left_behind s'"

fun streamed :: "edge_act \<Rightarrow> uuid set" where
  "streamed (ActStream conn) = {conn}"
| "streamed _ = {}"

lemma good_refl: "tasks_ok s \<Longrightarrow> good_step {} s s"
  by (simp add: good_step_def)

lemma good_core:
  "tasks_ok s \<Longrightarrow> pending_conns c = pending_conns (sys_core s) \<Longrightarrow> good_step {} s (s\<lparr>sys_core := c\<rparr>)"
  by (simp add: good_step_def tasks_ok_def waiting_def left_behind_def deliverable_def conns_def)

lemma fresh_core: "pending_conns c = pending_conns (sys_core s) \<Longrightarrow>
    fresh_conn conn (s\<lparr>sys_core := c\<rparr>) = fresh_conn conn s"
  by (simp add: fresh_conn_def)

lemma good_start:
  assumes ok: "tasks_ok s" and fresh: "fresh_conn conn s"
    and c: "pending_conns c = pending_conns (sys_core s)"
    and st: "start_task k conn info (s\<lparr>sys_core := c\<rparr>) = Some s'"
  shows "good_step {} s s'"
proof -
  let ?s = "s\<lparr>sys_core := c\<rparr>"
  have ok': "tasks_ok ?s" and l: "left_behind ?s = left_behind s"
    using good_core[OF ok c] c by (simp_all add: good_step_def left_behind_def)
  note sets = sets_start[OF fresh_core[OF c, THEN iffD2, OF fresh] st]
  have "list_all (\<lambda>p. pt_phase p = Streaming \<longrightarrow> pt_stream p) (sys_tasks s')"
    using ok st by (auto simp: tasks_ok_def start_task_def split: if_splits)
  moreover have "distinct (map pt_conn (sys_tasks s'))"
    using ok' sets(5,7) by (auto simp: tasks_ok_def conns_def)
  ultimately show ?thesis using ok' sets l by (auto simp: good_step_def tasks_ok_def)
qed

lemma good_give_up:
  assumes ok: "tasks_ok s" and p: "find_task conn s = Some p"
  shows "good_step {} s (give_up conn s)"
proof -
  let ?s = "\<lambda>f. end_task conn (s\<lparr>sys_core := f conn (sys_core s)\<rparr>)"
  have d: "distinct (map pt_conn (sys_tasks (?s f)))"
    "list_all (\<lambda>p. pt_phase p = Streaming \<longrightarrow> pt_stream p) (sys_tasks (?s f))" for f
    using ok conns_distinct(1)[of "s\<lparr>sys_core := f conn (sys_core s)\<rparr>" conn]
      streaming_frame(1)[of "s\<lparr>sys_core := f conn (sys_core s)\<rparr>" conn]
    by (simp_all add: tasks_ok_def)
  have "tasks_ok (?s cancel_pending_conn)" and "tasks_ok (?s drop_receiver)"
    unfolding tasks_ok_def sets_cancel sets_abandon using ok d by (auto simp: tasks_ok_def)
  moreover have "\<not> pt_stream p" if "conn \<in> deliverable s"
    using that ok find_task_unique[OF ok p] by (auto simp: tasks_ok_def waiting_def dest!: wait_list_stream(2))
  moreover have "conn \<notin> left_behind s" using find_task_conns[OF p] ok by (auto simp: tasks_ok_def)
  ultimately show ?thesis using p
    by (auto simp: give_up_def Let_def good_step_def sets_cancel sets_abandon tcp_give_ups_def
        split: edge_kind.split)
qed

lemma good_finish:
  assumes ok: "tasks_ok s" and p: "find_task conn s = Some p" and str: "pt_stream p"
    and c: "pending_conns c = pending_conns (sys_core s)"
  shows "good_step {} s (end_task conn (s\<lparr>sys_core := c\<rparr>))"
proof -
  have "conn \<notin> waiting s" using find_task_unique[OF ok p] str by (auto simp: waiting_def dest: wait_list_stream(2))
  then have "waiting (end_task conn (s\<lparr>sys_core := c\<rparr>)) = waiting s"
    by (auto simp: waiting_def end_task_def waiting_map)
  moreover have "deliverable (end_task conn (s\<lparr>sys_core := c\<rparr>)) = deliverable s"
    "left_behind (end_task conn (s\<lparr>sys_core := c\<rparr>)) = left_behind s"
    "conns (end_task conn (s\<lparr>sys_core := c\<rparr>)) = conns s - {conn}"
    using c by (auto simp: deliverable_def left_behind_def conns_def end_task_def)
  moreover have "distinct (map pt_conn (sys_tasks (end_task conn (s\<lparr>sys_core := c\<rparr>))))"
    "list_all (\<lambda>p. pt_phase p = Streaming \<longrightarrow> pt_stream p) (sys_tasks (end_task conn (s\<lparr>sys_core := c\<rparr>)))"
    using ok conns_distinct(1)[of "s\<lparr>sys_core := c\<rparr>" conn] streaming_frame(1)[of "s\<lparr>sys_core := c\<rparr>" conn]
    by (simp_all add: tasks_ok_def)
  ultimately show ?thesis using ok unfolding good_step_def tasks_ok_def by blast
qed

lemma good_phase:
  assumes ok: "tasks_ok s" and "ph = Streaming \<Longrightarrow> \<forall>p \<in> set (sys_tasks s). pt_conn p = conn \<longrightarrow> pt_stream p"
  shows "good_step {} s (update_task conn (\<lambda>p. p\<lparr>pt_phase := ph\<rparr>) s)"
proof -
  have "list_all (\<lambda>p. pt_phase p = Streaming \<longrightarrow> pt_stream p) (sys_tasks (update_task conn (\<lambda>p. p\<lparr>pt_phase := ph\<rparr>) s))"
    using ok assms(2) by (cases "ph = Streaming") (auto simp: tasks_ok_def list_all_iff update_task_def)
  then show ?thesis using ok by (simp add: good_step_def tasks_ok_def sets_phase conns_distinct(2))
qed

lemma good_stream:
  assumes ok: "tasks_ok s"
  shows "good_step {conn} s (stream_opened conn s)"
proof -
  have m: "map pt_conn (sys_tasks (stream_opened conn s)) = map pt_conn (sys_tasks s)"
    by (auto simp: stream_opened_def conns_distinct(2) split: prod.split)
  have d: "deliverable s - {conn} = (if conn \<in> deliverable s then waiting s - {conn} else waiting s)"
    and l: "(left_behind s - {conn}) \<inter> conns s = {}"
    using ok unfolding tasks_ok_def by auto
  have "tasks_ok (stream_opened conn s)"
    unfolding tasks_ok_def sets_stream m using ok d l streaming_frame(2) by (simp add: tasks_ok_def)
  then show ?thesis by (auto simp: good_step_def sets_stream)
qed

lemma good_exec:
  assumes ok: "tasks_ok s" and act: "act_ok a s"
  shows "good_step (streamed a) s (edge_exec rnd a s)"
proof (cases a)
  case (ActRouter op)
  then show ?thesis using good_core[OF ok pending_exec_op] act by simp
next
  case (ActTcpOpen pick port conn)
  obtain c r where t: "resolve_tcp pick port (sys_core s) = (c, r)" by fastforce
  then have c: "pending_conns c = pending_conns (sys_core s)" using pending_resolve(2) by (metis fst_conv)
  show ?thesis using ActTcpOpen act t good_core[OF ok c] good_start[OF ok _ c]
    by (auto simp: proxy_tcp_open_def split: option.split)
next
  case (ActUdpOpen pick port conn)
  obtain c r where t: "resolve_udp pick port (sys_core s) = (c, r)" by fastforce
  then have c: "pending_conns c = pending_conns (sys_core s)" using pending_resolve(3) by (metis fst_conv)
  show ?thesis using ActUdpOpen act t good_core[OF ok c] good_start[OF ok _ c]
    by (auto simp: udp_session_open_def split: option.split)
next
  case (ActHttpOpen now rps mx pick sub cl conn)
  obtain c r where t: "resolve_http pick sub (sys_core s) = (c, r)" by fastforce
  then have c: "pending_conns c = pending_conns (sys_core s)" using pending_resolve(1) by (metis fst_conv)
  have c': "pending_conns (c\<lparr>core_rate_limiter := l\<rparr>) = pending_conns (sys_core s)" for l using c by simp
  show ?thesis using ActHttpOpen act t good_core[OF ok c] good_core[OF ok c'] good_start[OF ok _ c']
    by (auto simp: proxy_request_open_def Let_def split: option.split prod.split)
next
  case (ActNotified conn sent)
  then show ?thesis using good_refl[OF ok] good_give_up[OF ok] good_phase[OF ok, of AwaitingStream conn]
    by (auto simp: conn_notified_def split: option.split)
next
  case (ActStream conn)
  then show ?thesis using good_stream[OF ok] by simp
next
  case (ActWait conn fired)
  have "good_step {} s (update_task conn (\<lambda>p. p\<lparr>pt_phase := Streaming\<rparr>) s)"
    if p: "find_task conn s = Some p" and str: "pt_stream p" for p
    using good_phase[OF ok, of Streaming conn] find_task_unique[OF ok p] str by blast
  then show ?thesis using ActWait good_refl[OF ok] good_give_up[OF ok]
    by (auto simp: conn_wait_def split: option.split)
next
  case (ActFinished conn okc up down)
  have "good_step {} s (conn_finished conn okc up down s)"
  proof (cases "find_task conn s")
    case (Some p)
    have "pt_phase p = Streaming \<Longrightarrow> pt_stream p"
      using ok Some by (auto simp: tasks_ok_def list_all_iff find_task_def find_Some_iff)
    then show ?thesis using Some good_refl[OF ok] good_finish[OF ok Some]
      by (auto simp: conn_finished_def Let_def split: edge_kind.split)
  qed (simp add: conn_finished_def good_refl[OF ok])
  then show ?thesis using ActFinished by simp
qed

abbreviation edge_init :: "u16 \<times> u16 \<Rightarrow> u16 \<times> u16 \<Rightarrow> nat \<Rightarrow> nat \<Rightarrow> u32 \<Rightarrow> u32 \<Rightarrow> edge_sys" where
  "edge_init tr ur mt mc rps mfa \<equiv> \<lparr>sys_core = tunnel_core_new tr ur mt mc rps mfa, sys_tasks = []\<rparr>"

lemma reachable_tasks_ok: "edge_reachable rnd (edge_init tr ur mt mc rps mfa) s \<Longrightarrow> tasks_ok s"
proof (induction rule: edge_reachable.induct)
  case edge_start
  show ?case by (simp add: tasks_ok_def deliverable_def waiting_def wait_list_def left_behind_def conns_def
        tunnel_core_new_def)
next
  case (edge_step s a)
  then show ?case using good_exec by (auto simp: good_step_def)
qed


definition edge_example :: "edge_act list \<Rightarrow> edge_sys" where
  "edge_example acts = edge_run (\<lambda>x. x)
     ([ActRouter (OpRegisterSession 0 1 (IpV4 0, 0) ''t'' None None 0),
       ActRouter (OpRegisterTcp 2 7 1 None), ActTcpOpen 0 102 55, ActNotified 55 True] @ acts)
     (edge_init (100, 102) (0, 0) 5 10 0 0)"

lemma edge_example_reachable: "edge_reachable (\<lambda>x. x) (edge_init (100, 102) (0, 0) 5 10 0 0) (edge_example [])"
  unfolding edge_example_def edge_run_def append_Nil2 fold.simps id_o o_apply id_apply
  by (intro edge_reachable.intros; (code_simp)?)


lemma length_filter_strict:
  assumes "x \<in> set xs" and "Q x" and "\<not> P x" and "\<And>y. P y \<Longrightarrow> Q y"
  shows "length (filter P xs) < length (filter Q xs)"
proof -
  have "filter P xs = filter P (filter Q xs)" using assms(4) by (auto intro: filter_cong)
  moreover have "length (filter P (filter Q xs)) < length (filter Q xs)"
    using assms by (intro length_filter_less[of x]) auto
  ultimately show ?thesis by simp
qed

text \<open>A TCP connection whose client never opens its stream: after the timeout its task is gone and its
  permit is free again, but its entry stays in the pending map, without a receiver, through every
  later step other than a stream opened for it.\<close>

theorem tcp_timeout_leaks_pending:
  assumes reach: "edge_reachable rnd (edge_init tr ur mt mc rps mfa) s"
    and p: "find_task conn s = Some p" "pt_kind p = TcpEdge" "pt_phase p = AwaitingStream" "\<not> pt_stream p"
  shows "let s' = conn_wait conn True s in
    find_task conn s' = None \<and> dm_get (pending_conns (sys_core s')) conn = Some False \<and>
    permits_held (pt_tunnel p) s' < permits_held (pt_tunnel p) s \<and>
    (\<forall>a. act_ok a s' \<and> a \<noteq> ActStream conn \<longrightarrow> conn \<in> left_behind (edge_exec rnd a s'))"
proof -
  have s': "conn_wait conn True s = end_task conn (s\<lparr>sys_core := drop_receiver conn (sys_core s)\<rparr>)"
    using p by (simp add: conn_wait_def give_up_def)
  have mem: "p \<in> set (sys_tasks s)" "pt_conn p = conn" using p(1) by (auto simp: find_task_def find_Some_iff)
  then have "conn \<in> deliverable s"
    using reachable_tasks_ok[OF reach] p(4) wait_list_stream(1) by (auto simp: tasks_ok_def waiting_def)
  then have left: "conn \<in> left_behind (conn_wait conn True s)" by (simp add: s' sets_abandon)
  have "length (filter (\<lambda>q. pt_tunnel q = pt_tunnel p \<and> pt_conn q \<noteq> conn) (sys_tasks s)) <
      length (filter (\<lambda>q. pt_tunnel q = pt_tunnel p) (sys_tasks s))"
    using mem by (intro length_filter_strict[of p]) auto
  then have "permits_held (pt_tunnel p) (conn_wait conn True s) < permits_held (pt_tunnel p) s"
    by (simp add: s' permits_held_def end_task_def conj_commute)
  moreover have "find_task conn (conn_wait conn True s) = None"
    by (auto simp: s' find_task_def end_task_def find_None_iff)
  moreover have "conn \<in> left_behind (edge_exec rnd a (conn_wait conn True s))"
    if "act_ok a (conn_wait conn True s)" "a \<noteq> ActStream conn" for a
  proof -
    have "edge_reachable rnd (edge_init tr ur mt mc rps mfa) (conn_wait conn True s)"
      using edge_reachable.edge_step[OF reach, of "ActWait conn True"] by simp
    from good_exec[OF reachable_tasks_ok[OF this] that(1), of rnd] left that(2)
    show ?thesis by (cases a) (auto simp: good_step_def)
  qed
  ultimately show ?thesis using left by (simp add: left_behind_def Let_def)
qed

theorem tcp_timeout_leaks_pending_witness:
  "let s' = conn_wait 55 True (edge_example []) in
     find_task 55 s' = None \<and> dm_get (pending_conns (sys_core s')) 55 = Some False \<and>
     permits_held 7 s' < permits_held 7 (edge_example []) \<and>
     55 \<in> left_behind (edge_exec (\<lambda>x. x) (ActRouter (OpRemoveSession 1)) s')"
proof -
  define p where "p = \<lparr>pt_kind = TcpEdge, pt_conn = 55, pt_tunnel = 7, pt_phase = AwaitingStream, pt_stream = False\<rparr>"
  have "find_task 55 (edge_example []) =
      Some \<lparr>pt_kind = TcpEdge, pt_conn = 55, pt_tunnel = 7, pt_phase = AwaitingStream, pt_stream = False\<rparr>"
    by code_simp
  then have p: "find_task 55 (edge_example []) = Some p" "pt_kind p = TcpEdge" "pt_phase p = AwaitingStream"
      "\<not> pt_stream p" "pt_tunnel p = 7"
    by (simp_all add: p_def)
  show ?thesis using tcp_timeout_leaks_pending[OF edge_example_reachable p(1-4)] p(5)
    by (simp add: Let_def del: edge_exec.simps)
qed

end
