(* ===== verification/Datagrams.thy ===== *)
theory Datagrams
  imports EdgeProxy
begin

unbundle bit_operations_syntax

text \<open>
  UDP tunnelling: the length-prefixed framing both ends speak over a data stream
  (\<open>edge/udp.rs\<close> and the client's \<open>proxy.rs\<close>), the bridge loop of \<open>proxy_udp_session\<close>, and the
  listener's table of sessions by remote address.
\<close>

section \<open>Framing\<close>

definition MAX_DATAGRAM_SIZE :: nat where
  "MAX_DATAGRAM_SIZE = 65535"

datatype io_error = UnexpectedEof | InvalidData string

definition to_be_bytes :: "u32 \<Rightarrow> u8 list" where
  "to_be_bytes w = [ucast (drop_bit 24 w), ucast (drop_bit 16 w), ucast (drop_bit 8 w), ucast w]"

definition from_be_bytes :: "u8 list \<Rightarrow> u32" where
  "from_be_bytes bs = fold (\<lambda>b w. push_bit 8 w OR ucast b) bs 0"

text \<open>\<open>read_exact\<close> on the bytes a stream will still deliver.\<close>

definition read_exact :: "nat \<Rightarrow> u8 list \<Rightarrow> io_error + u8 list \<times> u8 list" where
  "read_exact n bs = (if length bs < n then Inl UnexpectedEof else Inr (take n bs, drop n bs))"

definition server_read_framed_datagram :: "u8 list \<Rightarrow> io_error + u8 list \<times> u8 list" where
  "server_read_framed_datagram stream =
     bind_result (read_exact 4 stream) (\<lambda>(len_bytes, rest).
       let len = unat (from_be_bytes len_bytes)
       in if len > MAX_DATAGRAM_SIZE then Inl (InvalidData ''datagram too large'')
          else read_exact len rest)"

definition client_read_framed_datagram :: "u8 list \<Rightarrow> io_error + u8 list \<times> u8 list" where
  "client_read_framed_datagram stream =
     bind_result (read_exact 4 stream) (\<lambda>(len_bytes, rest).
       let len = unat (from_be_bytes len_bytes)
       in if len > MAX_DATAGRAM_SIZE then Inl (InvalidData ''datagram too large'')
          else read_exact len rest)"

text \<open>The two writes of a bridge loop: \<open>(data.len() as u32).to_be_bytes()\<close>, then the payload.\<close>

definition server_write_framed :: "u8 list \<Rightarrow> u8 list" where
  "server_write_framed data = to_be_bytes (of_nat (length data)) @ data"

definition client_write_framed :: "u8 list \<Rightarrow> u8 list" where
  "client_write_framed data = to_be_bytes (of_nat (length data)) @ data"

text \<open>What each end needs of the other: frames decode to what was written, whatever follows, and a
  proper prefix of a frame is reported as incomplete.\<close>

locale datagram_codec =
  fixes wr :: "u8 list \<Rightarrow> u8 list"
    and rd :: "u8 list \<Rightarrow> io_error + u8 list \<times> u8 list"
  assumes read_write: "length d \<le> MAX_DATAGRAM_SIZE \<Longrightarrow> rd (wr d @ rest) = Inr (d, rest)"
    and read_partial: "length d \<le> MAX_DATAGRAM_SIZE \<Longrightarrow> n < length (wr d) \<Longrightarrow> rd (take n (wr d)) = Inl UnexpectedEof"
    and wr_nonempty: "wr d \<noteq> []"
begin

text \<open>The greedy decoder of a byte stream, with as much fuel as there are bytes.\<close>

fun decode :: "nat \<Rightarrow> u8 list \<Rightarrow> u8 list list \<times> u8 list" where
  "decode 0 bs = ([], bs)"
| "decode (Suc n) bs =
     (case rd bs of Inl _ \<Rightarrow> ([], bs) | Inr (d, rest) \<Rightarrow> let (ds, r) = decode n rest in (d # ds, r))"

lemma decode_frames:
  "\<forall>d \<in> set ds. length d \<le> MAX_DATAGRAM_SIZE \<Longrightarrow> length ds \<le> n \<Longrightarrow> rd rest = Inl e \<Longrightarrow>
   decode n (concat (map wr ds) @ rest) = (ds, rest)"
proof (induction ds arbitrary: n)
  case Nil
  then show ?case by (cases n) auto
next
  case (Cons d ds)
  then obtain m where m: "n = Suc m" by (cases n) auto
  then show ?case using Cons by (simp add: read_write Let_def)
qed

lemma frames_prefix:
  assumes "\<forall>d \<in> set ds. length d \<le> MAX_DATAGRAM_SIZE" and "concat (map wr ds) = xs @ ys"
  shows "\<exists>ds1 ds2 p. ds = ds1 @ ds2 \<and> xs = concat (map wr ds1) @ p \<and> p @ ys = concat (map wr ds2) \<and>
     rd p = Inl UnexpectedEof"
  using assms
proof (induction ds arbitrary: xs)
  case Nil
  have "rd (take 0 (wr [])) = Inl UnexpectedEof"
    using read_partial[of "[]" 0] wr_nonempty[of "[]"] by (simp add: MAX_DATAGRAM_SIZE_def)
  then show ?case using Nil by auto
next
  case (Cons d ds)
  show ?case
  proof (cases "length xs < length (wr d)")
    case True
    then have "xs = take (length xs) (wr d)"
      using Cons.prems(2) by (metis append_eq_append_conv_if concat.simps(2) less_imp_le list.simps(9) take_all_iff
          append_take_drop_id order_refl)
    then have "rd xs = Inl UnexpectedEof" using read_partial[of d "length xs"] True Cons.prems(1) by simp
    then show ?thesis using Cons.prems(2) by (intro exI[of _ "[]"] exI[of _ "d # ds"] exI[of _ xs]) simp
  next
    case False
    then obtain xs' where xs: "xs = wr d @ xs'" "concat (map wr ds) = xs' @ ys"
      using Cons.prems(2) by (auto simp: append_eq_append_conv2)
    from Cons.IH[OF _ xs(2)] Cons.prems(1) obtain ds1 ds2 p where
      "ds = ds1 @ ds2 \<and> xs' = concat (map wr ds1) @ p \<and> p @ ys = concat (map wr ds2) \<and> rd p = Inl UnexpectedEof"
      by auto
    then show ?thesis using xs(1) by (intro exI[of _ "d # ds1"] exI[of _ ds2] exI[of _ p]) simp
  qed
qed

end

lemma from_to_be_bytes: "from_be_bytes (to_be_bytes w) = w"
proof (rule bit_word_eqI)
  fix n assume "n < LENGTH(32)"
  consider "n < 8" | "8 \<le> n" "n < 16" | "16 \<le> n" "n < 24" | "24 \<le> n" by linarith
  then show "bit (from_be_bytes (to_be_bytes w)) n \<longleftrightarrow> bit w n"
    using \<open>n < LENGTH(32)\<close> by cases (auto simp: from_be_bytes_def to_be_bytes_def bit_simps)
qed

lemma length_to_be_bytes [simp]: "length (to_be_bytes w) = 4"
  by (simp add: to_be_bytes_def)

lemma framed_length:
  "length d \<le> MAX_DATAGRAM_SIZE \<Longrightarrow> unat (from_be_bytes (to_be_bytes (of_nat (length d)))) = length d"
  by (simp add: from_to_be_bytes MAX_DATAGRAM_SIZE_def unat_of_nat)

lemma read_exact_append: "n = length xs \<Longrightarrow> read_exact n (xs @ ys) = Inr (xs, ys)"
  by (simp add: read_exact_def)

lemma framed_read_write:
  assumes "length d \<le> MAX_DATAGRAM_SIZE"
  shows "bind_result (read_exact 4 ((to_be_bytes (of_nat (length d)) @ d) @ rest)) (\<lambda>(len_bytes, rest).
       let len = unat (from_be_bytes len_bytes)
       in if len > MAX_DATAGRAM_SIZE then Inl (InvalidData ''datagram too large'')
          else read_exact len rest) = Inr (d, rest)"
  using assms framed_length[OF assms] by (simp add: read_exact_append Let_def)

lemma framed_read_partial:
  assumes "length d \<le> MAX_DATAGRAM_SIZE" and "n < length (to_be_bytes (of_nat (length d)) @ d)"
  shows "bind_result (read_exact 4 (take n (to_be_bytes (of_nat (length d)) @ d))) (\<lambda>(len_bytes, rest).
       let len = unat (from_be_bytes len_bytes)
       in if len > MAX_DATAGRAM_SIZE then Inl (InvalidData ''datagram too large'')
          else read_exact len rest) = Inl UnexpectedEof"
proof (cases "n < 4")
  case True
  then show ?thesis by (simp add: read_exact_def)
next
  case False
  then have "take n (to_be_bytes (of_nat (length d)) @ d) = to_be_bytes (of_nat (length d)) @ take (n - 4) d"
    by simp
  moreover have "read_exact (length d) (take (n - 4) d) = Inl UnexpectedEof"
    using assms(2) False by (simp add: read_exact_def)
  ultimately show ?thesis using assms(1) framed_length[OF assms(1)] by (simp add: read_exact_append Let_def)
qed

interpretation to_client: datagram_codec server_write_framed client_read_framed_datagram
  by unfold_locales (simp_all only: server_write_framed_def client_read_framed_datagram_def
      framed_read_write framed_read_partial, simp add: to_be_bytes_def)

interpretation to_server: datagram_codec client_write_framed server_read_framed_datagram
  by unfold_locales (simp_all only: client_write_framed_def server_read_framed_datagram_def
      framed_read_write framed_read_partial, simp add: to_be_bytes_def)

section \<open>The bridge loop\<close>

text \<open>
  \<open>select!\<close> waits for a datagram of the public socket and for \<open>read_framed_datagram\<close> at once.  The bytes a
  pending read has already taken from the stream are local to its future (\<open>br_partial\<close>); when the
  other branch completes first the future is dropped, and they are lost with it.  \<open>BridgeEnd\<close> stands
  for the idle timeout, a closed datagram channel and a failed write.
\<close>

datatype bridge_event = FromStream "u8 list" | FromPublic "u8 list" | BridgeEnd

record bridge =
  br_partial :: "u8 list"
  br_delivered :: "u8 list list"
  br_upstream :: "u8 list"
  br_bytes_in :: u64
  br_bytes_out :: u64
  br_ended :: bool

definition bridge_new :: bridge where
  "bridge_new = \<lparr>br_partial = [], br_delivered = [], br_upstream = [], br_bytes_in = 0, br_bytes_out = 0,
     br_ended = False\<rparr>"

text \<open>Iterations of the loop on bytes that have arrived: every complete frame is sent to the peer; a frame
  that is too large ends the session.\<close>

fun bridge_read :: "nat \<Rightarrow> u8 list \<Rightarrow> bridge \<Rightarrow> bridge" where
  "bridge_read 0 bs b = b\<lparr>br_partial := bs\<rparr>"
| "bridge_read (Suc n) bs b =
     (case server_read_framed_datagram bs of
        Inl UnexpectedEof \<Rightarrow> b\<lparr>br_partial := bs\<rparr>
      | Inl (InvalidData _) \<Rightarrow> b\<lparr>br_partial := bs, br_ended := True\<rparr>
      | Inr (data, rest) \<Rightarrow>
          bridge_read n rest (b\<lparr>br_delivered := br_delivered b @ [data],
            br_bytes_out := br_bytes_out b + of_nat (length data)\<rparr>))"

fun bridge_step :: "bridge_event \<Rightarrow> bridge \<Rightarrow> bridge" where
  "bridge_step (FromStream bs) b =
     (if br_ended b then b else bridge_read (length (br_partial b @ bs)) (br_partial b @ bs) b)"
| "bridge_step (FromPublic data) b =
     (if br_ended b then b
      else b\<lparr>br_partial := [], br_upstream := br_upstream b @ server_write_framed data,
             br_bytes_in := br_bytes_in b + of_nat (length data)\<rparr>)"
| "bridge_step BridgeEnd b = b\<lparr>br_ended := True\<rparr>"

definition bridge_run :: "bridge_event list \<Rightarrow> bridge \<Rightarrow> bridge" where
  "bridge_run evs b = fold bridge_step evs b"

fun stream_bytes :: "bridge_event list \<Rightarrow> u8 list" where
  "stream_bytes [] = []"
| "stream_bytes (FromStream bs # evs) = bs @ stream_bytes evs"
| "stream_bytes (FromPublic _ # evs) = stream_bytes evs"
| "stream_bytes (BridgeEnd # evs) = stream_bytes evs"

fun public_datagrams :: "bridge_event list \<Rightarrow> u8 list list" where
  "public_datagrams [] = []"
| "public_datagrams (FromPublic d # evs) = d # public_datagrams evs"
| "public_datagrams (FromStream _ # evs) = public_datagrams evs"
| "public_datagrams (BridgeEnd # evs) = public_datagrams evs"

text \<open>The session goes on, and no public datagram arrives while a frame of the stream is incomplete.\<close>

fun calm :: "bridge_event list \<Rightarrow> bridge \<Rightarrow> bool" where
  "calm [] b = True"
| "calm (FromStream bs # evs) b = calm evs (bridge_step (FromStream bs) b)"
| "calm (FromPublic d # evs) b = (br_partial b = [] \<and> calm evs (bridge_step (FromPublic d) b))"
| "calm (BridgeEnd # evs) b = False"

section \<open>What the bridge delivers\<close>

lemmas bridge_eval = server_read_framed_datagram_def read_exact_def from_be_bytes_def client_write_framed_def
  server_write_framed_def to_be_bytes_def MAX_DATAGRAM_SIZE_def Let_def

lemma bridge_read_frames:
  assumes "\<forall>d \<in> set ds. length d \<le> MAX_DATAGRAM_SIZE" and "length ds \<le> n"
    and "server_read_framed_datagram rest = Inl UnexpectedEof"
  shows "bridge_read n (concat (map client_write_framed ds) @ rest) b =
    b\<lparr>br_partial := rest, br_delivered := br_delivered b @ ds,
       br_bytes_out := br_bytes_out b + of_nat (sum_list (map length ds))\<rparr>"
  using assms
proof (induction ds arbitrary: n b)
  case Nil
  then show ?case by (cases n) simp_all
next
  case (Cons d ds)
  then obtain m where m: "n = Suc m" by (cases n) auto
  have rd: "server_read_framed_datagram (client_write_framed d @ concat (map client_write_framed ds) @ rest) =
      Inr (d, concat (map client_write_framed ds) @ rest)"
    using to_server.read_write Cons.prems(1) by simp
  show ?case using Cons.IH[of m] Cons.prems m by (simp add: rd algebra_simps)
qed

lemma framed_length_le: "length ds \<le> length (concat (map client_write_framed ds))"
  by (induction ds) (auto simp: client_write_framed_def)

text \<open>The bytes received so far are the frames delivered and the partial one.\<close>

lemma bridge_run_calm:
  assumes "\<forall>d \<in> set ds. length d \<le> MAX_DATAGRAM_SIZE" and "calm evs b" and "\<not> br_ended b"
    and "server_read_framed_datagram (br_partial b) = Inl UnexpectedEof"
    and "br_partial b @ stream_bytes evs = concat (map client_write_framed ds)"
  shows "bridge_run evs b = b\<lparr>br_partial := [], br_delivered := br_delivered b @ ds,
      br_upstream := br_upstream b @ concat (map server_write_framed (public_datagrams evs)),
      br_bytes_in := br_bytes_in b + of_nat (sum_list (map length (public_datagrams evs))),
      br_bytes_out := br_bytes_out b + of_nat (sum_list (map length ds))\<rparr>"
  using assms
proof (induction evs arbitrary: b ds)
  case Nil
  have "ds = []"
  proof (cases ds)
    case (Cons d ds')
    then have "server_read_framed_datagram (br_partial b) = Inr (d, concat (map client_write_framed ds'))"
      using to_server.read_write[of d] Nil.prems(1,5) by simp
    then show ?thesis using Nil.prems(4) by simp
  qed
  then show ?case using Nil.prems(5) by (simp add: bridge_run_def)
next
  case (Cons ev evs)
  show ?case
  proof (cases ev)
    case (FromStream bs)
    obtain ds1 ds2 p where ds: "ds = ds1 @ ds2" and xs: "br_partial b @ bs = concat (map client_write_framed ds1) @ p"
      and ys: "p @ stream_bytes evs = concat (map client_write_framed ds2)"
      and p: "server_read_framed_datagram p = Inl UnexpectedEof"
      using to_server.frames_prefix[OF Cons.prems(1), of "br_partial b @ bs" "stream_bytes evs"]
        Cons.prems(5) FromStream by auto
    define b' where "b' = b\<lparr>br_partial := p, br_delivered := br_delivered b @ ds1,
       br_bytes_out := br_bytes_out b + of_nat (sum_list (map length ds1))\<rparr>"
    have step: "bridge_step (FromStream bs) b = b'"
      using bridge_read_frames[of ds1 "length (br_partial b @ bs)" p b] Cons.prems(1,3) ds xs p framed_length_le[of ds1]
      by (simp add: b'_def)
    have "bridge_run evs b' = b'\<lparr>br_partial := [], br_delivered := br_delivered b' @ ds2,
      br_upstream := br_upstream b' @ concat (map server_write_framed (public_datagrams evs)),
      br_bytes_in := br_bytes_in b' + of_nat (sum_list (map length (public_datagrams evs))),
      br_bytes_out := br_bytes_out b' + of_nat (sum_list (map length ds2))\<rparr>"
      using Cons.prems(1-3) ds step p ys FromStream by (intro Cons.IH) (simp_all add: b'_def)
    then show ?thesis using step by (simp add: bridge_run_def FromStream b'_def ds algebra_simps)
  next
    case (FromPublic d)
    then have "bridge_run evs (bridge_step ev b) = (bridge_step ev b)\<lparr>br_partial := [],
      br_delivered := br_delivered (bridge_step ev b) @ ds,
      br_upstream := br_upstream (bridge_step ev b) @ concat (map server_write_framed (public_datagrams evs)),
      br_bytes_in := br_bytes_in (bridge_step ev b) + of_nat (sum_list (map length (public_datagrams evs))),
      br_bytes_out := br_bytes_out (bridge_step ev b) + of_nat (sum_list (map length ds))\<rparr>"
      using Cons.prems by (intro Cons.IH) simp_all
    then show ?thesis using FromPublic Cons.prems(2,3) by (simp add: bridge_run_def algebra_simps)
  qed (use Cons.prems(2) in simp)
qed

text \<open>Whatever the chunks in which the bytes of the stream arrive, and however public datagrams are
  interleaved between the frames, the bridge delivers to the peer exactly the datagrams the client
  framed, in order, forwards the public datagrams as frames in order, and counts the payload bytes
  of both directions.\<close>

theorem bridge_delivers:
  assumes "\<forall>d \<in> set ds. length d \<le> MAX_DATAGRAM_SIZE" and "calm evs bridge_new"
    and "stream_bytes evs = concat (map client_write_framed ds)"
  shows "bridge_run evs bridge_new = \<lparr>br_partial = [], br_delivered = ds,
      br_upstream = concat (map server_write_framed (public_datagrams evs)),
      br_bytes_in = of_nat (sum_list (map length (public_datagrams evs))),
      br_bytes_out = of_nat (sum_list (map length ds)), br_ended = False\<rparr>"
  using bridge_run_calm[OF assms(1,2)] assms(3)
  by (simp add: bridge_new_def server_read_framed_datagram_def read_exact_def)

theorem bridge_delivers_witness:
  "let evs = [FromStream [0, 0, 0, 2, 7], FromStream [8, 0, 0], FromStream [0, 1, 9], FromPublic [5, 5],
              FromStream [0, 0, 0, 0]]
   in br_delivered (bridge_run evs bridge_new) = [[7, 8], [9], []] \<and>
      br_bytes_in (bridge_run evs bridge_new) = 2 \<and> br_bytes_out (bridge_run evs bridge_new) = 3"
proof -
  let ?evs = "[FromStream [0, 0, 0, 2, 7], FromStream [8, 0, 0], FromStream [0, 1, 9], FromPublic [5, 5],
              FromStream [0, 0, 0, 0]]"
  have "calm ?evs bridge_new \<and> stream_bytes ?evs = concat (map client_write_framed [[7, 8], [9], []])"
    by (simp add: bridge_new_def bridge_eval)
  then show ?thesis using bridge_delivers[of "[[7, 8], [9], []]" ?evs]
    by (simp add: MAX_DATAGRAM_SIZE_def Let_def)
qed

text \<open>The read is not cancellation safe: when a public datagram arrives after the bridge has taken the
  length prefix of a frame from the stream, the rest of the frame is read as a new frame, and a
  datagram the client never sent is delivered.\<close>

theorem bridge_cancel_desync:
  "let ds = [[0, 0, 0, 1, 7]];
       evs = [FromStream (take 4 (concat (map client_write_framed ds))), FromPublic [5],
              FromStream (drop 4 (concat (map client_write_framed ds)))]
   in stream_bytes evs = concat (map client_write_framed ds) \<and>
      br_delivered (bridge_run evs bridge_new) = [[7]]"
  by (simp add: bridge_run_def bridge_new_def bridge_eval)

text \<open>The tunnel-to-local direction of the client's \<open>proxy_udp_connection\<close>: the datagrams sent to the
  local service, and the bytes of an incomplete frame.\<close>

fun client_udp_receive :: "nat \<Rightarrow> u8 list \<Rightarrow> u8 list list \<times> u8 list" where
  "client_udp_receive 0 bs = ([], bs)"
| "client_udp_receive (Suc n) bs =
     (case client_read_framed_datagram bs of
        Inl _ \<Rightarrow> ([], bs)
      | Inr (data, rest) \<Rightarrow> let (ds, r) = client_udp_receive n rest in (data # ds, r))"

lemma client_udp_receive_decode: "client_udp_receive n bs = to_client.decode n bs"
  by (induction n arbitrary: bs) (auto split: sum.split prod.split)



section \<open>Sessions of a UDP port\<close>

definition MAX_BUFFERED_PACKETS :: nat where
  "MAX_BUFFERED_PACKETS = 64"

text \<open>A session: the datagrams buffered in its channel and whether the proxy task dropped the receiver.\<close>

record udp_session =
  us_conn :: uuid
  us_queue :: "u8 list list"
  us_closed :: bool

type_synonym udp_port = "edge_sys \<times> (socket_addr, udp_session) dashmap"

definition try_send :: "u8 list \<Rightarrow> udp_session \<Rightarrow> udp_session" where
  "try_send data us =
     (if us_closed us \<or> length (us_queue us) \<ge> MAX_BUFFERED_PACKETS then us
      else us\<lparr>us_queue := us_queue us @ [data]\<rparr>)"

text \<open>One iteration of the loop of \<open>port_listener\<close>.\<close>

definition udp_port_recv ::
  "instant \<Rightarrow> nat \<Rightarrow> u16 \<Rightarrow> uuid \<Rightarrow> socket_addr \<Rightarrow> u8 list \<Rightarrow> udp_port \<Rightarrow> udp_port" where
  "udp_port_recv now pick port conn_id peer data st =
     (case st of (s, ss) \<Rightarrow>
        let (limiter, allowed) = ip_check now (fst peer) (core_ip_limiter (sys_core s));
            s1 = s\<lparr>sys_core := (sys_core s)\<lparr>core_ip_limiter := limiter\<rparr>\<rparr>
        in if \<not> allowed then (s1, ss)
           else case dm_get ss peer of
                  Some us \<Rightarrow> (s1, dm_insert peer (try_send data us) ss)
                | None \<Rightarrow>
                    (case udp_session_open pick port conn_id s1 of
                       (s2, False) \<Rightarrow> (s2, ss)
                     | (s2, True) \<Rightarrow>
                         (s2, dm_insert peer (try_send data
                                \<lparr>us_conn = conn_id, us_queue = [], us_closed = False\<rparr>) ss)))"

text \<open>The proxy task takes a datagram from the channel; it drops the receiver when it returns, and the
  spawning task then removes the entry of the peer; the reaper drops closed sessions.\<close>

definition udp_take :: "uuid \<Rightarrow> udp_port \<Rightarrow> udp_port" where
  "udp_take conn_id st = (case st of (s, ss) \<Rightarrow>
     (s, map (\<lambda>(a, us). (a, if us_conn us = conn_id then us\<lparr>us_queue := tl (us_queue us)\<rparr> else us)) ss))"

definition udp_task_returned :: "uuid \<Rightarrow> udp_port \<Rightarrow> udp_port" where
  "udp_task_returned conn_id st = (case st of (s, ss) \<Rightarrow>
     (end_task conn_id s,
      map (\<lambda>(a, us). (a, if us_conn us = conn_id then us\<lparr>us_closed := True\<rparr> else us)) ss))"

definition udp_cleanup :: "socket_addr \<Rightarrow> udp_port \<Rightarrow> udp_port" where
  "udp_cleanup peer st = (case st of (s, ss) \<Rightarrow> (s, dm_remove peer ss))"

definition udp_reap :: "udp_port \<Rightarrow> udp_port" where
  "udp_reap st = (case st of (s, ss) \<Rightarrow> (s, dm_retain (\<lambda>_ us. \<not> us_closed us) ss))"

datatype udp_act =
    UdpRecv instant nat u16 uuid socket_addr "u8 list"
  | UdpTake uuid
  | UdpReturned uuid
  | UdpCleanup socket_addr
  | UdpReap

fun udp_exec :: "udp_act \<Rightarrow> udp_port \<Rightarrow> udp_port" where
  "udp_exec (UdpRecv now pick port conn peer data) st = udp_port_recv now pick port conn peer data st"
| "udp_exec (UdpTake conn) st = udp_take conn st"
| "udp_exec (UdpReturned conn) st = udp_task_returned conn st"
| "udp_exec (UdpCleanup peer) st = udp_cleanup peer st"
| "udp_exec UdpReap st = udp_reap st"

lemma udp_exec_wf: "dm_wf (snd st) \<Longrightarrow> dm_wf (snd (udp_exec a st))"
  by (cases a; cases st)
    (auto simp: udp_port_recv_def udp_take_def udp_task_returned_def udp_cleanup_def udp_reap_def Let_def split_beta
      dm_wf_def comp_def distinct_update distinct_delete split: option.split bool.split
      intro: dm_wf_retain[unfolded dm_wf_def])

definition queues_ok :: "(socket_addr, udp_session) dashmap \<Rightarrow> bool" where
  "queues_ok m \<longleftrightarrow> list_all (\<lambda>(_, us). length (us_queue us) \<le> MAX_BUFFERED_PACKETS) m"

lemma queues_ok_insert:
  assumes "queues_ok m" and "length (us_queue us) \<le> MAX_BUFFERED_PACKETS"
  shows "queues_ok (dm_insert a us m)"
  using assms by (induction m) (auto simp: queues_ok_def)

lemma try_send_bound:
  "length (us_queue us) \<le> MAX_BUFFERED_PACKETS \<Longrightarrow> length (us_queue (try_send d us)) \<le> MAX_BUFFERED_PACKETS"
  by (simp add: try_send_def)

lemma udp_exec_queues: "queues_ok (snd st) \<Longrightarrow> queues_ok (snd (udp_exec a st))"
proof (cases a)
  case (UdpRecv now pick port conn peer data)
  assume ok: "queues_ok (snd st)"
  have old: "length (us_queue us) \<le> MAX_BUFFERED_PACKETS" if "dm_get (snd st) peer = Some us" for us
    using ok map_of_SomeD[OF that] by (auto simp: queues_ok_def list_all_iff)
  have new: "length (us_queue (try_send data \<lparr>us_conn = conn, us_queue = [], us_closed = False\<rparr>)) \<le> MAX_BUFFERED_PACKETS"
    by (rule try_send_bound) simp
  show ?thesis unfolding UdpRecv using ok old new
    by (cases st) (auto simp: udp_port_recv_def Let_def split_beta intro!: queues_ok_insert try_send_bound
        split: option.split bool.split)
qed (auto simp: udp_take_def udp_task_returned_def udp_cleanup_def udp_reap_def queues_ok_def list_all_iff
    dm_retain_def AList.delete_eq split_beta le_diff_conv)

text \<open>A UDP port keeps at most one session per remote address, and a session never buffers more than
  \<open>MAX_BUFFERED_PACKETS\<close> datagrams, whatever arrives and however slow its proxy task is.\<close>

theorem udp_sessions_bounded:
  "dm_wf (snd (fold udp_exec acts (s, []))) \<and> queues_ok (snd (fold udp_exec acts (s, [])))"
proof -
  have "dm_wf (snd st) \<Longrightarrow> queues_ok (snd st) \<Longrightarrow>
      dm_wf (snd (fold udp_exec acts st)) \<and> queues_ok (snd (fold udp_exec acts st))" for st
  proof (induction acts arbitrary: st)
    case (Cons a acts)
    show ?case using Cons.IH[OF udp_exec_wf[OF Cons.prems(1)] udp_exec_queues[OF Cons.prems(2)]] by simp
  qed simp
  then show ?thesis by (simp add: queues_ok_def)
qed

text \<open>The cleanup of an ended session removes whatever session its peer has by then: when the reaper runs
  between the return of the task and its cleanup and the peer sends again, the entry of the new
  session is removed, and the next datagram starts a second session of the same peer beside it.\<close>

theorem udp_cleanup_race:
  "let s = edge_run (\<lambda>x. x) [ActRouter (OpRegisterSession 0 1 (IpV4 0, 0) ''t'' None None 0),
             ActRouter (OpRegisterUdp 2 7 1)]
             \<lparr>sys_core = tunnel_core_new (100, 101) (200, 201) 5 10 0 0, sys_tasks = []\<rparr>;
       peer = (IpV4 9, 5353);
       st = fold udp_exec [UdpRecv 3 0 201 11 peer [1], UdpReturned 11, UdpReap, UdpRecv 4 0 201 12 peer [2],
                           UdpCleanup peer, UdpRecv 5 0 201 13 peer [3]] (s, [])
   in map pt_conn (sys_tasks (fst st)) = [12, 13] \<and> map (\<lambda>(a, us). (a, us_conn us)) (snd st) = [(peer, 13)]"
  by code_simp

end
