(* ===== verification/Billing.thy ===== *)
theory Billing
  imports TunnelModel
begin

text \<open>
  Hobby-plan limits (\<open>billing.rs\<close>) and the persistence of the tunnel counters
  (\<open>db/metering.rs\<close>, with the row inserts of \<open>db/mod.rs\<close>).  The \<open>tunnel_log\<close> table is the list of
  its rows; \<open>i32\<close>, \<open>i64\<close> and \<open>u128\<close> values are integers with saturation and conversions written out.
  The UTC month of a timestamp (PostgreSQL's \<open>date_trunc('month', ..)\<close>) is the argument \<open>month_of\<close>.
\<close>

section \<open>Plan limits\<close>

definition i64_max :: int where
  "i64_max = 2 ^ 63 - 1"

definition BYTES_PER_GB :: int where
  "BYTES_PER_GB = 1073741824"

definition BANDWIDTH_WARN_PERCENT :: int where
  "BANDWIDTH_WARN_PERCENT = 80"

datatype surface = Cli | Mcp

text \<open>\<open>trim\<close> (the Unicode white space of the standard library) is the argument \<open>trm\<close>.\<close>

definition surface_parse :: "(string \<Rightarrow> string) \<Rightarrow> string option \<Rightarrow> surface" where
  "surface_parse trm raw =
     (if map_option (\<lambda>s. map to_ascii_lowercase (trm s)) raw = Some ''mcp'' then Mcp else Cli)"

fun surface_as_str :: "surface \<Rightarrow> string" where
  "surface_as_str Cli = ''cli''"
| "surface_as_str Mcp = ''mcp''"

datatype hobby_reason = TunnelLimit int | CustomSubdomain | Bandwidth int int

fun reason_code :: "hobby_reason \<Rightarrow> string" where
  "reason_code (TunnelLimit _) = ''tunnel_limit''"
| "reason_code CustomSubdomain = ''custom_subdomain''"
| "reason_code (Bandwidth _ _) = ''bandwidth''"

fun utm_content :: "hobby_reason \<Rightarrow> string" where
  "utm_content (TunnelLimit _) = ''tunnel_limit''"
| "utm_content CustomSubdomain = ''subdomain''"
| "utm_content (Bandwidth _ _) = ''bandwidth''"

definition upgrade_url :: "hobby_reason \<Rightarrow> surface \<Rightarrow> string" where
  "upgrade_url r s =
     ''https://rustunnel.com/dashboard/billing?upgrade=1'' @ ''&utm_source='' @ surface_as_str s @
     ''&utm_campaign=hobby_limit&utm_content='' @ utm_content r"

definition int_string :: "int \<Rightarrow> string" where
  "int_string i = (if i < 0 then ''-'' @ dec_string (nat (- i)) else dec_string (nat i))"

fun reason_message :: "hobby_reason \<Rightarrow> surface \<Rightarrow> string" where
  "reason_message (TunnelLimit limit) s =
     ''Hobby plan limit: '' @ int_string limit @
     '' concurrent tunnels. Pay-as-you-go removes the cap ($3/mo min).'' @ [CHR 10] @ ''Upgrade: '' @
     upgrade_url (TunnelLimit limit) s"
| "reason_message CustomSubdomain s =
     ''Hobby plan limit: custom subdomains need Pay-as-you-go ($3/mo min, $0.10/GB).'' @ [CHR 10] @
     ''Upgrade: '' @ upgrade_url CustomSubdomain s"
| "reason_message (Bandwidth percent limit_gb) s =
     (if percent \<ge> 100
      then ''Hobby plan: '' @ int_string limit_gb @
           '' GB/mo included bandwidth used. Pay-as-you-go is $0.10/GB ($3/mo min).''
      else ''Hobby plan: '' @ int_string percent @ ''% of '' @ int_string limit_gb @
           '' GB/mo used. Pay-as-you-go is $0.10/GB ($3/mo min).'') @
     [CHR 10] @ ''Upgrade: '' @ upgrade_url (Bandwidth percent limit_gb) s"

record hobby_gate =
  hg_block :: "hobby_reason option"
  hg_notice :: "hobby_reason option"

definition hobby_gate_default :: hobby_gate where
  "hobby_gate_default = \<lparr>hg_block = None, hg_notice = None\<rparr>"

definition blocking_limit :: "int option \<Rightarrow> int \<Rightarrow> bool \<Rightarrow> string option \<Rightarrow> hobby_reason option" where
  "blocking_limit max_tunnels open_tunnels allow_custom_subdomains requested_subdomain =
     (case (case max_tunnels of
              Some limit \<Rightarrow> if open_tunnels \<ge> limit then Some (TunnelLimit limit) else None
            | None \<Rightarrow> None) of
        Some r \<Rightarrow> Some r
      | None \<Rightarrow>
          if \<not> allow_custom_subdomains \<and> (case requested_subdomain of None \<Rightarrow> False | Some s \<Rightarrow> s \<noteq> [])
          then Some CustomSubdomain else None)"

definition i64_saturating_mul :: "int \<Rightarrow> int \<Rightarrow> int" where
  "i64_saturating_mul a b = max (- i64_max - 1) (min i64_max (a * b))"

definition u128_saturating_mul :: "int \<Rightarrow> int \<Rightarrow> int" where
  "u128_saturating_mul a b = min (2 ^ 128 - 1) (a * b)"

definition bandwidth_warning :: "int \<Rightarrow> int option \<Rightarrow> hobby_reason option" where
  "bandwidth_warning used_bytes limit_gb =
     (case limit_gb of
        None \<Rightarrow> None
      | Some gb \<Rightarrow>
          if \<not> gb > 0 then None
          else if used_bytes \<le> 0 then None
          else let limit_bytes = i64_saturating_mul gb BYTES_PER_GB
               in if limit_bytes \<le> 0 then None
                  else let percent = u128_saturating_mul used_bytes 100 div limit_bytes
                       in if percent < BANDWIDTH_WARN_PERCENT then None
                          else Some (Bandwidth (if percent < 2 ^ 32 then percent else 2 ^ 32 - 1) gb))"

record plan =
  pl_max_tunnels :: "int option"
  pl_allow_custom_subdomains :: bool
  pl_bandwidth_limit_gb :: "int option"
  pl_billing_model :: string

definition gate_for_plan ::
  "string \<Rightarrow> int option \<Rightarrow> int \<Rightarrow> bool \<Rightarrow> string option \<Rightarrow> int \<Rightarrow> int option \<Rightarrow> hobby_gate" where
  "gate_for_plan billing_model max_tunnels open_tunnels allow_custom requested_subdomain used_bytes limit_gb =
     (if billing_model \<noteq> ''free'' then hobby_gate_default
      else let block = blocking_limit max_tunnels open_tunnels allow_custom requested_subdomain
           in if block \<noteq> None then \<lparr>hg_block = block, hg_notice = None\<rparr>
              else \<lparr>hg_block = None, hg_notice = bandwidth_warning used_bytes limit_gb\<rparr>)"

text \<open>The three queries of \<open>evaluate_hobby_limits\<close> as results: the newest active plan, the number of open
  tunnels, and the bytes of the month.  A failing byte sum counts as no usage; the other two
  failures end the evaluation.\<close>

definition evaluate_hobby_limits ::
  "server_error + plan option \<Rightarrow> server_error + int \<Rightarrow> server_error + int \<Rightarrow> string option \<Rightarrow>
   server_error + hobby_gate" where
  "evaluate_hobby_limits plan_query open_query bytes_query requested_subdomain =
     bind_result plan_query (\<lambda>pl.
       case pl of
         None \<Rightarrow> Inr hobby_gate_default
       | Some p \<Rightarrow>
           if pl_billing_model p \<noteq> ''free'' then Inr hobby_gate_default
           else bind_result open_query (\<lambda>open_tunnels.
                  let block = blocking_limit (pl_max_tunnels p) open_tunnels
                                (pl_allow_custom_subdomains p) requested_subdomain
                  in if block \<noteq> None then Inr \<lparr>hg_block = block, hg_notice = None\<rparr>
                     else let used_bytes = (if pl_bandwidth_limit_gb p \<noteq> None
                                then (case bytes_query of Inr used \<Rightarrow> used | Inl _ \<Rightarrow> 0) else 0)
                          in Inr (gate_for_plan (pl_billing_model p) (pl_max_tunnels p) open_tunnels
                                (pl_allow_custom_subdomains p) requested_subdomain used_bytes
                                (pl_bandwidth_limit_gb p))))"

section \<open>The tunnel log\<close>

record tunnel_log_row =
  tl_tunnel_id :: uuid
  tl_protocol :: string
  tl_label :: string
  tl_session_id :: uuid
  tl_token_id :: "string option"
  tl_registered_at :: instant
  tl_unregistered_at :: "instant option"
  tl_region_id :: "string option"
  tl_user_id :: "uuid option"
  tl_request_count :: int
  tl_bytes_in :: int
  tl_bytes_out :: int
  tl_bytes_proxied :: int

definition log_tunnel_registered ::
  "instant \<Rightarrow> uuid \<Rightarrow> string \<Rightarrow> string \<Rightarrow> uuid \<Rightarrow> string option \<Rightarrow> string \<Rightarrow> uuid option \<Rightarrow>
   tunnel_log_row list \<Rightarrow> tunnel_log_row list" where
  "log_tunnel_registered now tunnel_id prot label session_id token_id region_id user_id db =
     db @ [\<lparr>tl_tunnel_id = tunnel_id, tl_protocol = prot, tl_label = label, tl_session_id = session_id,
            tl_token_id = token_id, tl_registered_at = now, tl_unregistered_at = None,
            tl_region_id = Some region_id, tl_user_id = user_id, tl_request_count = 0, tl_bytes_in = 0,
            tl_bytes_out = 0, tl_bytes_proxied = 0\<rparr>]"

definition as_i64 :: "u64 \<Rightarrow> int" where
  "as_i64 v = (if uint v \<le> i64_max then uint v else i64_max)"

text \<open>The \<open>SET\<close> clause both statements share.\<close>

definition greatest_counters :: "live_tunnel_meter \<Rightarrow> tunnel_log_row \<Rightarrow> tunnel_log_row" where
  "greatest_counters m r = r\<lparr>
     tl_request_count := max (tl_request_count r) (as_i64 (lm_request_count m)),
     tl_bytes_in := max (tl_bytes_in r) (as_i64 (lm_bytes_in m)),
     tl_bytes_out := max (tl_bytes_out r) (as_i64 (lm_bytes_out m)),
     tl_bytes_proxied := max (tl_bytes_in r) (as_i64 (lm_bytes_in m)) +
                         max (tl_bytes_out r) (as_i64 (lm_bytes_out m))\<rparr>"

definition open_row :: "uuid \<Rightarrow> tunnel_log_row \<Rightarrow> bool" where
  "open_row t r = (tl_tunnel_id r = t \<and> tl_unregistered_at r = None)"

text \<open>A statement fails as a whole when the new sum of a row leaves the \<open>bigint\<close> range.\<close>

definition update_rows ::
  "(tunnel_log_row \<Rightarrow> bool) \<Rightarrow> (tunnel_log_row \<Rightarrow> tunnel_log_row) \<Rightarrow> tunnel_log_row list \<Rightarrow>
   server_error + tunnel_log_row list" where
  "update_rows sel f db =
     (if list_ex (\<lambda>r. sel r \<and> tl_bytes_proxied (f r) > i64_max) db
      then Inl (DbError ''bigint out of range'')
      else Inr (map (\<lambda>r. if sel r then f r else r) db))"

definition flush_tunnel_meters ::
  "live_tunnel_meter \<Rightarrow> tunnel_log_row list \<Rightarrow> server_error + tunnel_log_row list \<times> nat" where
  "flush_tunnel_meters m db =
     bind_result (update_rows (open_row (lm_tunnel_id m)) (greatest_counters m) db)
       (\<lambda>db'. Inr (db', length (filter (open_row (lm_tunnel_id m)) db)))"

definition log_tunnel_unregistered ::
  "instant \<Rightarrow> live_tunnel_meter \<Rightarrow> tunnel_log_row list \<Rightarrow> server_error + tunnel_log_row list" where
  "log_tunnel_unregistered now m db =
     update_rows (open_row (lm_tunnel_id m))
       (\<lambda>r. (greatest_counters m r)\<lparr>tl_unregistered_at := Some now\<rparr>) db"

text \<open>The loops over the live meters stop at the first error; what was written before it stays.\<close>

fun flush_live_meters ::
  "live_tunnel_meter list \<Rightarrow> tunnel_log_row list \<Rightarrow> nat \<Rightarrow> tunnel_log_row list \<times> (server_error + nat)" where
  "flush_live_meters [] db n = (db, Inr n)"
| "flush_live_meters (m # ms) db n =
     (case flush_tunnel_meters m db of
        Inl e \<Rightarrow> (db, Inl e)
      | Inr (db', k) \<Rightarrow> flush_live_meters ms db' (n + k))"

fun flush_and_close_live_meters ::
  "instant \<Rightarrow> live_tunnel_meter list \<Rightarrow> tunnel_log_row list \<Rightarrow> nat \<Rightarrow>
   tunnel_log_row list \<times> (server_error + nat)" where
  "flush_and_close_live_meters now [] db n = (db, Inr n)"
| "flush_and_close_live_meters now (m # ms) db n =
     (case flush_tunnel_meters m db of
        Inl e \<Rightarrow> (db, Inl e)
      | Inr (db1, _) \<Rightarrow>
          (case log_tunnel_unregistered now m db1 of
             Inl e \<Rightarrow> (db1, Inl e)
           | Inr db2 \<Rightarrow> flush_and_close_live_meters now ms db2 (n + 1)))"

definition close_stale_tunnels ::
  "instant \<Rightarrow> string \<Rightarrow> tunnel_log_row list \<Rightarrow> tunnel_log_row list \<times> nat" where
  "close_stale_tunnels now region_id db =
     (let sel = (\<lambda>r. tl_unregistered_at r = None \<and> tl_region_id r = Some region_id)
      in (map (\<lambda>r. if sel r then r\<lparr>tl_unregistered_at := Some now\<rparr> else r) db, length (filter sel db)))"

definition open_tunnel_count :: "uuid \<Rightarrow> tunnel_log_row list \<Rightarrow> int" where
  "open_tunnel_count user db =
     int (length (filter (\<lambda>r. tl_user_id r = Some user \<and> tl_unregistered_at r = None) db))"

definition counts_in_month :: "(instant \<Rightarrow> int) \<Rightarrow> uuid \<Rightarrow> instant \<Rightarrow> tunnel_log_row \<Rightarrow> bool" where
  "counts_in_month month_of user at r =
     (tl_user_id r = Some user \<and>
      (case tl_unregistered_at r of None \<Rightarrow> True | Some u \<Rightarrow> month_of u = month_of at))"

definition month_bytes_proxied_at :: "(instant \<Rightarrow> int) \<Rightarrow> uuid \<Rightarrow> instant \<Rightarrow> tunnel_log_row list \<Rightarrow> int" where
  "month_bytes_proxied_at month_of user at db =
     sum_list (map tl_bytes_proxied (filter (counts_in_month month_of user at) db))"

end
