(* ===== verification/BillingProps.thy ===== *)
theory BillingProps
  imports Billing "HOL-Library.Multiset"
begin

text \<open>
  Properties of the plan gate and of the metering: the gate decides exactly by the plan, the flushes are
  absolute and commute, and closed rows are final.
\<close>

section \<open>The plan gate\<close>

lemma bandwidth_warning_bounds:
  assumes "0 < gb" and "gb < 2 ^ 31" and "0 < used" and "used \<le> i64_max"
  shows "i64_saturating_mul gb BYTES_PER_GB = gb * 2 ^ 30"
    and "u128_saturating_mul used 100 = used * 100"
proof -
  have "gb * 2 ^ 30 < 2 ^ 31 * 2 ^ 30" using assms(2) by (intro mult_strict_right_mono) auto
  then have "gb * 2 ^ 30 \<le> i64_max" by (simp add: i64_max_def)
  moreover have "- i64_max - 1 \<le> gb * 2 ^ 30" using assms(1) by (simp add: i64_max_def)
  ultimately show "i64_saturating_mul gb BYTES_PER_GB = gb * 2 ^ 30"
    by (simp add: i64_saturating_mul_def BYTES_PER_GB_def)
  have "used * 100 \<le> 2 ^ 128 - 1" using assms(4) by (simp add: i64_max_def)
  then show "u128_saturating_mul used 100 = used * 100" by (simp add: u128_saturating_mul_def)
qed

lemma percent_iff:
  fixes used lim :: int
  assumes "0 < lim"
  shows "80 \<le> used * 100 div lim \<longleftrightarrow> 80 * lim \<le> used * 100"
proof
  assume "80 \<le> used * 100 div lim"
  then have "80 * lim \<le> (used * 100 div lim) * lim" using assms by (intro mult_right_mono) auto
  also have "\<dots> \<le> used * 100" using assms by (metis div_mult_mod_eq add_increasing2 order_refl pos_mod_sign)
  finally show "80 * lim \<le> used * 100" .
next
  assume "80 * lim \<le> used * 100"
  then show "80 \<le> used * 100 div lim" using zdiv_mono1[of "80 * lim" "used * 100" lim] assms by simp
qed

lemma bandwidth_warning_exact:
  assumes gb: "0 < gb" "gb < 2 ^ 31" and used: "0 \<le> used" "used \<le> i64_max"
  shows "bandwidth_warning used (Some gb) =
    (if 80 * (gb * 2 ^ 30) \<le> used * 100
     then Some (Bandwidth (min (used * 100 div (gb * 2 ^ 30)) (2 ^ 32 - 1)) gb) else None)"
proof (cases "used = 0")
  case False
  then have pos: "0 < used" using used by simp
  have lim: "0 < gb * 2 ^ 30" using gb by simp
  define q where "q = used * 100 div (gb * 2 ^ 30)"
  have "bandwidth_warning used (Some gb) =
      (if q < 80 then None else Some (Bandwidth (if q < 2 ^ 32 then q else 2 ^ 32 - 1) gb))"
    unfolding bandwidth_warning_def option.case bandwidth_warning_bounds[OF gb pos used(2)]
      BANDWIDTH_WARN_PERCENT_def Let_def q_def[symmetric] using gb pos lim by simp
  moreover have "q < 80 \<longleftrightarrow> \<not> 80 * (gb * 2 ^ 30) \<le> used * 100"
    using percent_iff[OF lim, of used] by (simp only: q_def not_le[symmetric])
  moreover have "(if q < 2 ^ 32 then q else 2 ^ 32 - 1) = min q (2 ^ 32 - 1)" by simp
  ultimately show ?thesis by (simp only: q_def if_not_P) (metis (mono_tags))
qed (use gb in \<open>simp add: bandwidth_warning_def\<close>)

text \<open>C12. The Hobby gate, when its queries succeed: only an active plan with billing model \<open>free\<close> gates
  anything; it blocks on the tunnel limit exactly when the open tunnels reach it, else on a custom
  subdomain the plan does not allow; bandwidth never blocks, and its notice appears exactly when
  the bytes of the month reach 80 percent of the cap.\<close>

theorem hobby_gate_exact:
  assumes gb: "\<And>gb. pl_bandwidth_limit_gb p = Some gb \<Longrightarrow> 0 < gb \<and> gb < 2 ^ 31"
    and used: "0 \<le> used" "used \<le> i64_max"
  shows "evaluate_hobby_limits (Inr (Some p)) (Inr opened) (Inr used) sub =
    Inr (if pl_billing_model p \<noteq> ''free'' then \<lparr>hg_block = None, hg_notice = None\<rparr>
         else if \<exists>limit. pl_max_tunnels p = Some limit \<and> limit \<le> opened
         then \<lparr>hg_block = map_option TunnelLimit (pl_max_tunnels p), hg_notice = None\<rparr>
         else if \<not> pl_allow_custom_subdomains p \<and> sub \<noteq> None \<and> sub \<noteq> Some []
         then \<lparr>hg_block = Some CustomSubdomain, hg_notice = None\<rparr>
         else \<lparr>hg_block = None, hg_notice = (case pl_bandwidth_limit_gb p of
                 Some gb \<Rightarrow> if 80 * (gb * 2 ^ 30) \<le> used * 100
                   then Some (Bandwidth (min (used * 100 div (gb * 2 ^ 30)) (2 ^ 32 - 1)) gb) else None
               | None \<Rightarrow> None)\<rparr>)"
proof -
  let ?w = "case pl_bandwidth_limit_gb p of
                 Some gb \<Rightarrow> if 80 * (gb * 2 ^ 30) \<le> used * 100
                   then Some (Bandwidth (min (used * 100 div (gb * 2 ^ 30)) (2 ^ 32 - 1)) gb) else None
               | None \<Rightarrow> None"
  have w: "bandwidth_warning (if pl_bandwidth_limit_gb p \<noteq> None then used else 0) (pl_bandwidth_limit_gb p) = ?w"
  proof (cases "pl_bandwidth_limit_gb p")
    case None
    then show ?thesis by (simp add: bandwidth_warning_def)
  next
    case (Some gb')
    then show ?thesis using gb used bandwidth_warning_exact[of gb' used] by simp
  qed
  define T where "T \<longleftrightarrow> (\<exists>limit. pl_max_tunnels p = Some limit \<and> limit \<le> opened)"
  define C where "C \<longleftrightarrow> \<not> pl_allow_custom_subdomains p \<and> sub \<noteq> None \<and> sub \<noteq> Some []"
  have b: "blocking_limit (pl_max_tunnels p) opened (pl_allow_custom_subdomains p) sub =
      (if T then map_option TunnelLimit (pl_max_tunnels p) else if C then Some CustomSubdomain else None)"
    by (auto simp: blocking_limit_def T_def C_def split: option.split)
  have e: "evaluate_hobby_limits (Inr (Some p)) (Inr opened) (Inr used) sub =
      Inr (let block = blocking_limit (pl_max_tunnels p) opened (pl_allow_custom_subdomains p) sub
           in if pl_billing_model p \<noteq> ''free'' then \<lparr>hg_block = None, hg_notice = None\<rparr>
              else if block \<noteq> None then \<lparr>hg_block = block, hg_notice = None\<rparr>
              else \<lparr>hg_block = None, hg_notice = bandwidth_warning
                (if pl_bandwidth_limit_gb p \<noteq> None then used else 0) (pl_bandwidth_limit_gb p)\<rparr>)"
    by (cases "blocking_limit (pl_max_tunnels p) opened (pl_allow_custom_subdomains p) sub";
        cases "pl_bandwidth_limit_gb p")
      (simp_all add: evaluate_hobby_limits_def gate_for_plan_def hobby_gate_default_def Let_def)
  have "T \<Longrightarrow> map_option TunnelLimit (pl_max_tunnels p) \<noteq> None" by (auto simp: T_def)
  then show ?thesis
    unfolding e b w T_def[symmetric] C_def[symmetric] Let_def by (cases T; cases C) (simp_all only: if_True if_False option.distinct simp_thms)
qed

theorem hobby_gate_exact_witness:
  "evaluate_hobby_limits (Inr (Some \<lparr>pl_max_tunnels = Some 3, pl_allow_custom_subdomains = False,
       pl_bandwidth_limit_gb = Some 1, pl_billing_model = ''free''\<rparr>)) (Inr 2) (Inr 912680550) None =
     Inr \<lparr>hg_block = None, hg_notice = Some (Bandwidth 84 1)\<rparr>"
  using hobby_gate_exact[of "\<lparr>pl_max_tunnels = Some 3, pl_allow_custom_subdomains = False,
       pl_bandwidth_limit_gb = Some 1, pl_billing_model = ''free''\<rparr>" 912680550 2 None]
  by (simp add: i64_max_def)

section \<open>Metering\<close>

definition flush_row :: "live_tunnel_meter \<Rightarrow> tunnel_log_row \<Rightarrow> tunnel_log_row" where
  "flush_row m r = (if open_row (lm_tunnel_id m) r then greatest_counters m r else r)"

definition row_ok :: "tunnel_log_row \<Rightarrow> bool" where
  "row_ok r \<longleftrightarrow> tl_bytes_proxied r = tl_bytes_in r + tl_bytes_out r \<and> 0 \<le> tl_bytes_in r \<and> 0 \<le> tl_bytes_out r"

lemma flush_row_frame [simp]:
  "tl_tunnel_id (flush_row m r) = tl_tunnel_id r" "tl_unregistered_at (flush_row m r) = tl_unregistered_at r"
  "tl_user_id (flush_row m r) = tl_user_id r"
  by (simp_all add: flush_row_def greatest_counters_def)

lemma flush_row_commute: "flush_row m (flush_row m' r) = flush_row m' (flush_row m r)"
proof -
  have swap: "max (max a x) y = max (max a y) x" for a x y :: int by linarith
  have gc: "greatest_counters m (greatest_counters m' r) = greatest_counters m' (greatest_counters m r)"
    by (rule tunnel_log_row.equality)
      (simp_all add: greatest_counters_def swap[of _ "as_i64 (lm_bytes_in m')" "as_i64 (lm_bytes_in m)"]
        swap[of _ "as_i64 (lm_bytes_out m')" "as_i64 (lm_bytes_out m)"]
        swap[of _ "as_i64 (lm_request_count m')" "as_i64 (lm_request_count m)"])
  have "open_row t (greatest_counters m'' r) = open_row t r" for t m''
    by (simp add: open_row_def greatest_counters_def)
  then show ?thesis using gc by (simp add: flush_row_def)
qed

lemma flush_row_idem: "flush_row m (flush_row m r) = flush_row m r"
  by (auto simp: flush_row_def open_row_def greatest_counters_def)

lemma flush_tunnel_meters_Inr:
  "flush_tunnel_meters m db = Inr (db', k) \<Longrightarrow> db' = map (flush_row m) db"
  by (auto simp: flush_tunnel_meters_def update_rows_def flush_row_def split: if_splits)

lemma flush_live_meters_map:
  "flush_live_meters ms db n = (db', Inr k) \<Longrightarrow> db' = map (\<lambda>r. fold flush_row ms r) db"
proof (induction ms arbitrary: db n)
  case (Cons m ms)
  then obtain db1 j where m: "flush_tunnel_meters m db = Inr (db1, j)" "flush_live_meters ms db1 (n + j) = (db', Inr k)"
    by (auto split: sum.splits)
  show ?case using Cons.IH[OF m(2)] flush_tunnel_meters_Inr[OF m(1)] by simp
qed simp

lemma fold_flush_closed: "tl_unregistered_at r = Some u \<Longrightarrow> fold flush_row ms r = r"
  by (induction ms) (auto simp: flush_row_def open_row_def)

abbreviation mine :: "uuid \<Rightarrow> live_tunnel_meter list \<Rightarrow> live_tunnel_meter list" where
  "mine t ms \<equiv> filter (\<lambda>m. lm_tunnel_id m = t) ms"

lemma fold_flush_frame [simp]:
  "tl_tunnel_id (fold flush_row ms r) = tl_tunnel_id r"
  "tl_unregistered_at (fold flush_row ms r) = tl_unregistered_at r"
  "tl_user_id (fold flush_row ms r) = tl_user_id r"
  by (induction ms arbitrary: r) simp_all

lemma fold_flush_max:
  assumes "tl_unregistered_at r = None"
  shows "tl_bytes_in (fold flush_row ms r) =
      Max (set (tl_bytes_in r # map (\<lambda>m. as_i64 (lm_bytes_in m)) (mine (tl_tunnel_id r) ms)))"
    and "tl_bytes_out (fold flush_row ms r) =
      Max (set (tl_bytes_out r # map (\<lambda>m. as_i64 (lm_bytes_out m)) (mine (tl_tunnel_id r) ms)))"
    and "tl_request_count (fold flush_row ms r) =
      Max (set (tl_request_count r # map (\<lambda>m. as_i64 (lm_request_count m)) (mine (tl_tunnel_id r) ms)))"
  using assms unfolding Max.set_eq_fold
  by (induction ms arbitrary: r) (auto simp: flush_row_def open_row_def greatest_counters_def max.commute)

lemma as_i64_nonneg: "0 \<le> as_i64 v"
  by (simp add: as_i64_def i64_max_def)

lemma flush_row_ok: "row_ok r \<Longrightarrow> row_ok (flush_row m r)"
  using as_i64_nonneg by (auto simp: row_ok_def flush_row_def greatest_counters_def max_def)

lemma fold_flush_ok: "row_ok r \<Longrightarrow> row_ok (fold flush_row ms r)"
  by (induction ms arbitrary: r) (simp_all add: flush_row_ok)

text \<open>C13. A successful flush leaves the rows of the log in place; in an open row every counter becomes the
  largest value any snapshot of its tunnel carried or the row already had, so stale, repeated and
  reordered snapshots change nothing, and the combined counter is the sum of the directions; a
  closed row is untouched.\<close>

theorem metering_absolute:
  assumes "flush_live_meters ms db n = (db', Inr k)" and "i < length db" and "row_ok (db ! i)"
  shows "length db' = length db \<and>
    (case tl_unregistered_at (db ! i) of
       Some _ \<Rightarrow> db' ! i = db ! i
     | None \<Rightarrow>
         row_ok (db' ! i) \<and> tl_unregistered_at (db' ! i) = None \<and>
         tl_bytes_in (db' ! i) = Max (set (tl_bytes_in (db ! i) #
           map (\<lambda>m. as_i64 (lm_bytes_in m)) (mine (tl_tunnel_id (db ! i)) ms))) \<and>
         tl_bytes_out (db' ! i) = Max (set (tl_bytes_out (db ! i) #
           map (\<lambda>m. as_i64 (lm_bytes_out m)) (mine (tl_tunnel_id (db ! i)) ms))) \<and>
         tl_request_count (db' ! i) = Max (set (tl_request_count (db ! i) #
           map (\<lambda>m. as_i64 (lm_request_count m)) (mine (tl_tunnel_id (db ! i)) ms))))"
proof -
  have "db' = map (\<lambda>r. fold flush_row ms r) db" using flush_live_meters_map[OF assms(1)] .
  then have db': "length db' = length db" "db' ! i = fold flush_row ms (db ! i)" using assms(2) by simp_all
  show ?thesis
  proof (cases "tl_unregistered_at (db ! i)")
    case None
    show ?thesis using db' None fold_flush_max[OF None, of ms] fold_flush_ok[OF assms(3), of ms] by simp
  qed (use db' fold_flush_closed in simp)
qed

definition example_row :: tunnel_log_row where
  "example_row = \<lparr>tl_tunnel_id = 7, tl_protocol = ''tcp'', tl_label = ''102'', tl_session_id = 1, tl_token_id = None,
     tl_registered_at = 0, tl_unregistered_at = None, tl_region_id = None, tl_user_id = None,
     tl_request_count = 1, tl_bytes_in = 10, tl_bytes_out = 5, tl_bytes_proxied = 15\<rparr>"

definition example_meters :: "live_tunnel_meter list" where
  "example_meters = [\<lparr>lm_tunnel_id = 7, lm_request_count = 4, lm_bytes_in = 30, lm_bytes_out = 6\<rparr>,
     \<lparr>lm_tunnel_id = 8, lm_request_count = 9, lm_bytes_in = 90, lm_bytes_out = 9\<rparr>,
     \<lparr>lm_tunnel_id = 7, lm_request_count = 2, lm_bytes_in = 20, lm_bytes_out = 5\<rparr>]"

lemma example_flush: "flush_live_meters example_meters [example_row] 0 =
    (fst (flush_live_meters example_meters [example_row] 0), Inr 2)"
  by (simp add: example_meters_def example_row_def flush_tunnel_meters_def update_rows_def open_row_def
      greatest_counters_def as_i64_def i64_max_def)

theorem metering_absolute_witness:
  "let r = fst (flush_live_meters example_meters [example_row] 0) ! 0
   in tl_bytes_in r = 30 \<and> tl_bytes_out r = 6 \<and> tl_request_count r = 4"
  using metering_absolute[OF example_flush, of 0]
  by (simp add: example_row_def row_ok_def example_meters_def as_i64_def i64_max_def)

text \<open>The order in which two flushes of the same snapshots reach the database does not matter, and
  repeating one changes nothing.\<close>

theorem metering_order_irrelevant:
  assumes "flush_live_meters ms db n = (db1, Inr k1)" and "flush_live_meters ms' db n' = (db2, Inr k2)"
    and "mset ms = mset ms'"
  shows "db1 = db2 \<and> (\<forall>db3 k3. flush_live_meters ms' db1 n = (db3, Inr k3) \<longrightarrow> db3 = db1)"
proof -
  have comm: "flush_row a \<circ> flush_row b = flush_row b \<circ> flush_row a" for a b
    using flush_row_commute by (auto simp: fun_eq_iff)
  have same: "fold flush_row ms = fold flush_row ms'"
    using fold_multiset_equiv[OF comm assms(3)] .
  have absorb: "m \<in> set xs \<Longrightarrow> flush_row m (fold flush_row xs r) = fold flush_row xs r" for m xs r
  proof (induction xs arbitrary: r)
    case (Cons x xs)
    have "flush_row m (fold flush_row xs (flush_row m r)) = fold flush_row xs (flush_row m r)"
      by (metis comm comp_apply fold_commute flush_row_idem)
    then show ?case using Cons by auto
  qed simp
  have "set ys \<subseteq> set xs \<Longrightarrow> fold flush_row ys (fold flush_row xs r) = fold flush_row xs r" for xs ys r
    by (induction ys) (simp_all add: absorb)
  then have "fold flush_row ms' (fold flush_row ms' r) = fold flush_row ms' r" for r by blast
  then show ?thesis using flush_live_meters_map[OF assms(1)] flush_live_meters_map[OF assms(2)]
      flush_live_meters_map same by fastforce
qed

theorem metering_order_irrelevant_witness:
  "fst (flush_live_meters example_meters [example_row] 0) =
   fst (flush_live_meters (rev example_meters) [example_row] 0)"
proof -
  have "flush_live_meters (rev example_meters) [example_row] 0 =
      (fst (flush_live_meters (rev example_meters) [example_row] 0), Inr 2)"
    by (simp add: example_meters_def example_row_def flush_tunnel_meters_def update_rows_def open_row_def
        greatest_counters_def as_i64_def i64_max_def)
  then show ?thesis using metering_order_irrelevant[OF example_flush, of "rev example_meters" 0 _ 2] by simp
qed

end
