(* ===== verification/Session.thy ===== *)
theory Session
  imports RouterHealth Billing
begin

text \<open>
  The control session of one client (\<open>control/session.rs\<close>): the authentication handshake, the
  dispatch of the client's frames, the main loop with its cleanup, and the heartbeat.  What the
  session touches is the record \<open>world\<close>: the router, the database tables, the frames sent, the messages
  put on control channels, audit events, webhook alerts and limit reports; what is put on the bounded audit,
  pong and control channels with \<open>try_send\<close> is recorded as handed over.  Code outside the source
  (the frame codec, SHA-256, UUID rendering, the subscription tables, channel liveness) is the record
  \<open>env\<close> of functions.
\<close>

section \<open>The session's surroundings\<close>

datatype audit_event =
    AuditAuthAttempt socket_addr bool "string option"
  | AuditTunnelRegistered uuid uuid string string
  | AuditTunnelRemoved uuid string
  | AuditTokenCreated string string bool
  | AuditTokenDeleted string bool
  | AuditAdminAction string string

record token =
  tk_id :: string
  tk_token_hash :: string
  tk_label :: string
  tk_created_at :: instant
  tk_last_used_at :: "instant option"
  tk_scope :: "string option"
  tk_user_id :: "uuid option"
  tk_expires_at :: "instant option"
  tk_tier :: "string option"
  tk_tunnel_limit :: "int option"
  tk_status :: string
  tk_unlimited :: bool

datatype ws_message = WsBinary string | WsOther string

record env =
  ev_hash :: "string \<Rightarrow> string"
  ev_decode :: "string \<Rightarrow> string + control_frame"
  ev_frame_debug :: "control_frame \<Rightarrow> string"
  ev_uuid :: "uuid \<Rightarrow> string"
  ev_trim :: "string \<Rightarrow> string"
  ev_addr :: "socket_addr \<Rightarrow> string"
  ev_plan :: "uuid \<Rightarrow> plan option"
  ev_month :: "instant \<Rightarrow> int"
  ev_channel_open :: "nat \<Rightarrow> bool"
  ev_version :: string

record server_config =
  cf_require_auth :: bool
  cf_admin_token :: string
  cf_lb_enabled :: bool
  cf_alert_webhook_url :: "string option"
  cf_domain :: string
  cf_region_id :: string
  cf_p2p_enabled :: bool
  cf_override_server_version :: "string option"

record world =
  w_core :: tunnel_core
  w_tokens :: "token list"
  w_log :: "tunnel_log_row list"
  w_db_up :: bool
  w_ws_up :: bool
  w_sent :: "control_frame list"
  w_control :: "(nat \<times> control_message) list"
  w_audit :: "audit_event list"
  w_alerts :: "(string \<times> group_alert_payload) list"
  w_reports :: "(uuid \<times> hobby_reason \<times> surface) list"
  w_relays :: "(uuid \<times> uuid \<times> uuid) list"
  w_pongs :: "u64 list"

definition db_failure :: server_error where
  "db_failure = DbError ''connection failed''"

definition send_frame :: "control_frame \<Rightarrow> world \<Rightarrow> world \<times> (server_error + unit)" where
  "send_frame f w =
     (if w_ws_up w then (w\<lparr>w_sent := w_sent w @ [f]\<rparr>, Inr ()) else (w, Inl (IoError ''broken pipe'')))"

definition audit :: "audit_event \<Rightarrow> world \<Rightarrow> world" where
  "audit e w = w\<lparr>w_audit := w_audit w @ [e]\<rparr>"

definition parse_binary :: "env \<Rightarrow> ws_message \<Rightarrow> server_error + control_frame" where
  "parse_binary ev msg =
     (case msg of
        WsBinary data \<Rightarrow> (case ev_decode ev data of Inl e \<Rightarrow> Inl (ProtocolError e) | Inr f \<Rightarrow> Inr f)
      | WsOther shown \<Rightarrow> Inl (IoError (''expected binary frame, got '' @ shown)))"

text \<open>\<open>verify_token\<close>: the token with the hash of the raw value, its use recorded.\<close>

definition verify_token :: "env \<Rightarrow> instant \<Rightarrow> string \<Rightarrow> world \<Rightarrow> world \<times> (server_error + token option)" where
  "verify_token ev now raw w =
     (if \<not> w_db_up w then (w, Inl db_failure)
      else case find (\<lambda>t. tk_token_hash t = ev_hash ev raw) (w_tokens w) of
             None \<Rightarrow> (w, Inr None)
           | Some t \<Rightarrow>
               (w\<lparr>w_tokens := map (\<lambda>t'. if tk_id t' = tk_id t then t'\<lparr>tk_last_used_at := Some now\<rparr> else t')
                   (w_tokens w)\<rparr>, Inr (Some t)))"

section \<open>Authentication\<close>

datatype auth_input = AuthTimedOut | AuthClosed | AuthWsError string | AuthMsg ws_message

text \<open>The decision on a token: whether it is accepted and the database token it belongs to.\<close>

definition resolve_auth ::
  "env \<Rightarrow> server_config \<Rightarrow> instant \<Rightarrow> string \<Rightarrow> world \<Rightarrow> world \<times> token option \<times> bool" where
  "resolve_auth ev cfg now tok w =
     (if \<not> cf_require_auth cfg
      then (case verify_token ev now tok w of
              (w', Inr t) \<Rightarrow> (w', t, True) | (w', Inl _) \<Rightarrow> (w', None, True))
      else if secret_eq (ev_hash ev) tok (cf_admin_token cfg) then (w, None, True)
      else case verify_token ev now tok w of
             (w', Inr (Some t)) \<Rightarrow> (w', Some t, True)
           | (w', _) \<Rightarrow> (w', None, False))"

definition auth_handshake ::
  "env \<Rightarrow> server_config \<Rightarrow> instant \<Rightarrow> uuid \<Rightarrow> socket_addr \<Rightarrow> nat \<Rightarrow> auth_input \<Rightarrow> world \<Rightarrow>
   world \<times> (server_error + uuid \<times> token option)" where
  "auth_handshake ev cfg now fresh_id peer ctrl_tx input w =
     (case input of
        AuthTimedOut \<Rightarrow> (w, Inl (AuthErr ''auth timeout''))
      | AuthClosed \<Rightarrow> (w, Inl (AuthErr ''connection closed before auth''))
      | AuthWsError e \<Rightarrow> (w, Inl (AuthErr e))
      | AuthMsg msg \<Rightarrow>
          (case parse_binary ev msg of
             Inl e \<Rightarrow> (w, Inl e)
           | Inr (Auth tok _) \<Rightarrow>
               let (limiter, limited) = is_limited now (fst peer) (core_auth_limiter (w_core w));
                   w1 = w\<lparr>w_core := (w_core w)\<lparr>core_auth_limiter := limiter\<rparr>\<rparr>
               in if limited
                  then (audit (AuditAuthAttempt peer False None)
                          (fst (send_frame (AuthError ''too many failed auth attempts'') w1)),
                        Inl (AuthErr ''auth throttled''))
                  else (case resolve_auth ev cfg now tok w1 of
                     (w2, db_token, authed) \<Rightarrow>
                       if \<not> authed
                       then let w3 = w2\<lparr>w_core := (w_core w2)\<lparr>core_auth_limiter :=
                                  record_failure now (fst peer) (core_auth_limiter (w_core w2))\<rparr>\<rparr>
                            in (audit (AuditAuthAttempt peer False None)
                                  (fst (send_frame (AuthError ''invalid token'') w3)),
                                Inl (AuthErr ''invalid token''))
                       else let (core, session_id) = register_session now fresh_id peer tok
                                  (map_option tk_id db_token) (Option.bind db_token tk_user_id) ctrl_tx (w_core w2);
                                w3 = audit (AuditAuthAttempt peer True (Some tok)) (w2\<lparr>w_core := core\<rparr>);
                                server_version = (case cf_override_server_version cfg of
                                   Some v \<Rightarrow> v | None \<Rightarrow> ev_version ev)
                            in case send_frame (AuthOk session_id server_version) w3 of
                                 (w4, Inl e) \<Rightarrow> (w4, Inl e)
                               | (w4, Inr _) \<Rightarrow> (w4, Inr (session_id, db_token)))
           | Inr other \<Rightarrow>
               (audit (AuditAuthAttempt peer False None)
                  (fst (send_frame (AuthError ''expected Auth frame'') w)),
                Inl (AuthErr (''unexpected frame: '' @ ev_frame_debug ev other)))))"

section \<open>Registration frames\<close>

record session_ctx =
  sc_session_id :: uuid
  sc_db_token :: "token option"

definition build_group_spec ::
  "server_config \<Rightarrow> string option \<Rightarrow> string option \<Rightarrow> health_check_spec option \<Rightarrow> group_spec option" where
  "build_group_spec cfg grp key_hash hc =
     (case (cf_lb_enabled cfg, grp, key_hash) of
        (True, Some name, Some h) \<Rightarrow> Some \<lparr>gs_group_name = name, gs_key_hash = h, gs_health_check = hc\<rparr>
      | _ \<Rightarrow> None)"

text \<open>Token limit enforcement: end the session with an error, answer with a rejection, or go on with an
  optional notice; the last two may report the limit to the platform.\<close>

datatype token_gate = GateFail server_error | GateReject string "hobby_reason option" | GatePass "hobby_reason option"

definition check_token ::
  "env \<Rightarrow> instant \<Rightarrow> token option \<Rightarrow> string option \<Rightarrow> surface \<Rightarrow> world \<Rightarrow> token_gate" where
  "check_token ev now db_token subdomain s w =
     (case db_token of
        None \<Rightarrow> GatePass None
      | Some t \<Rightarrow>
          if tk_status t \<noteq> ''active'' then GateReject ''token is suspended or revoked'' None
          else if tk_unlimited t then GatePass None
          else if (case tk_expires_at t of Some e \<Rightarrow> now > e | None \<Rightarrow> False)
          then GateReject ''token has expired'' None
          else case tk_user_id t of
                 None \<Rightarrow> GatePass None
               | Some user \<Rightarrow>
                   let q = (\<lambda>x. if w_db_up w then Inr x else Inl db_failure)
                   in case evaluate_hobby_limits (if w_db_up w then Inr (ev_plan ev user) else Inl db_failure)
                             (q (open_tunnel_count user (w_log w)))
                             (q (month_bytes_proxied_at (ev_month ev) user now (w_log w))) subdomain of
                        Inl e \<Rightarrow> GateFail e
                      | Inr gate \<Rightarrow>
                          (case hg_block gate of
                             Some block \<Rightarrow> GateReject (reason_message block s) (Some block)
                           | None \<Rightarrow> GatePass (hg_notice gate)))"

definition report_limit :: "token option \<Rightarrow> hobby_reason option \<Rightarrow> surface \<Rightarrow> world \<Rightarrow> world" where
  "report_limit db_token r s w =
     (case (Option.bind db_token tk_user_id, r) of
        (Some user, Some reason) \<Rightarrow> w\<lparr>w_reports := w_reports w @ [(user, reason, s)]\<rparr>
      | _ \<Rightarrow> w)"

text \<open>What a successful registration announces: tunnel id, protocol name, label, public URL, assigned port and
  P2P name.\<close>

type_synonym announcement = "uuid \<times> string \<times> string \<times> string \<times> u16 option \<times> string option"

definition register_by_protocol ::
  "server_config \<Rightarrow> instant \<Rightarrow> uuid \<Rightarrow> uuid \<Rightarrow> uuid \<Rightarrow> tunnel_protocol \<Rightarrow> string option \<Rightarrow> group_spec option \<Rightarrow>
   string option \<Rightarrow> string option \<Rightarrow> (server_error \<Rightarrow> string) \<Rightarrow> tunnel_core \<Rightarrow>
   tunnel_core \<times> (string + announcement)" where
  "register_by_protocol cfg now rand tid sid prot subdomain spec p2p_name secret show_err c =
     (let http = (\<lambda>_::unit. case register_http_tunnel now rand tid sid subdomain prot spec c of
            (c', Inl e) \<Rightarrow> (c', Inl (show_err e))
          | (c', Inr (t, sub)) \<Rightarrow>
              (c', Inr (t, map to_ascii_lowercase (protocol_debug prot), sub,
                 (if prot = Https then ''https'' else ''http'') @ ''://'' @ sub @ ''.'' @ cf_domain cfg, None, None)))
      in case prot of
           Http \<Rightarrow> http ()
         | Https \<Rightarrow> http ()
         | Udp \<Rightarrow>
             (case register_udp_tunnel now tid sid c of
                (c', Inl e) \<Rightarrow> (c', Inl (show_err e))
              | (c', Inr (t, port)) \<Rightarrow>
                  (c', Inr (t, ''udp'', dec_string (unat port),
                     ''udp://'' @ cf_domain cfg @ '':'' @ dec_string (unat port), Some port, None)))
         | Tcp \<Rightarrow>
             (case register_tcp_tunnel now tid sid spec c of
                (c', Inl e) \<Rightarrow> (c', Inl (show_err e))
              | (c', Inr (t, port)) \<Rightarrow>
                  (c', Inr (t, ''tcp'', dec_string (unat port),
                     ''tcp://'' @ cf_domain cfg @ '':'' @ dec_string (unat port), Some port, None)))
         | P2p \<Rightarrow>
             if \<not> cf_p2p_enabled cfg then (c, Inl ''P2P tunnels are not enabled on this server'')
             else (case p2p_name of
                     None \<Rightarrow> (c, Inl ''P2P tunnel requires a name (p2p_name)'')
                   | Some name \<Rightarrow>
                       (case secret of
                          None \<Rightarrow> (c, Inl ''P2P tunnel requires a secret hash (p2p_secret_hash)'')
                        | Some sh \<Rightarrow>
                            (case register_p2p_tunnel now tid sid name sh c of
                               (c', Inl e) \<Rightarrow> (c', Inl (show_err e))
                             | (c', Inr (t, n)) \<Rightarrow> (c', Inr (t, ''p2p'', n, ''p2p://'' @ n, None, Some n))))))"

definition register_frame ::
  "env \<Rightarrow> server_config \<Rightarrow> session_ctx \<Rightarrow> instant \<Rightarrow> uuid \<Rightarrow> uuid \<Rightarrow> string \<Rightarrow> tunnel_protocol \<Rightarrow> string option \<Rightarrow>
   string option \<Rightarrow> string option \<Rightarrow> string option \<Rightarrow> string option \<Rightarrow> health_check_spec option \<Rightarrow> string option \<Rightarrow>
   world \<Rightarrow> world \<times> (server_error + unit)" where
  "register_frame ev cfg ctx now rand tid request_id prot subdomain p2p_secret_hash p2p_name grp key_hash hc
      client_surface w =
     (let s = surface_parse (ev_trim ev) client_surface;
          spec = build_group_spec cfg grp key_hash hc;
          sid = sc_session_id ctx
      in case check_token ev now (sc_db_token ctx) subdomain s w of
           GateFail e \<Rightarrow> (w, Inl e)
         | GateReject msg r \<Rightarrow>
             send_frame (TunnelError request_id msg) (report_limit (sc_db_token ctx) r s w)
         | GatePass notice \<Rightarrow>
             let w1 = report_limit (sc_db_token ctx) notice s w
             in case register_by_protocol cfg now rand tid sid prot subdomain spec p2p_name p2p_secret_hash
                       (error_display (ev_uuid ev)) (w_core w1) of
                  (c, Inl msg) \<Rightarrow> send_frame (TunnelError request_id msg) (w1\<lparr>w_core := c\<rparr>)
                | (c, Inr (t, proto_str, label, url, port, name)) \<Rightarrow>
                    let w2 = audit (AuditTunnelRegistered sid t proto_str label) (w1\<lparr>w_core := c\<rparr>);
                        w3 = (if w_db_up w2
                              then w2\<lparr>w_log := log_tunnel_registered now t proto_str label sid
                                        (map_option tk_id (sc_db_token ctx)) (cf_region_id cfg)
                                        (Option.bind (sc_db_token ctx) tk_user_id) (w_log w2)\<rparr>
                              else w2)
                    in send_frame (TunnelRegistered request_id t url port name
                         (map_option (\<lambda>r. reason_message r s) notice)) w3)"

section \<open>The other frames\<close>

text \<open>Closing the row of a tunnel in the log; errors are ignored by the callers.\<close>

definition log_unregistered :: "instant \<Rightarrow> live_tunnel_meter \<Rightarrow> world \<Rightarrow> world" where
  "log_unregistered now m w =
     (if w_db_up w
      then (case log_tunnel_unregistered now m (w_log w) of Inr rows \<Rightarrow> w\<lparr>w_log := rows\<rparr> | Inl _ \<Rightarrow> w)
      else w)"

definition unregister_frame :: "instant \<Rightarrow> uuid \<Rightarrow> world \<Rightarrow> world" where
  "unregister_frame now tunnel_id w =
     (let w1 = audit (AuditTunnelRemoved tunnel_id []) w;
          w2 = log_unregistered now (tunnel_meter tunnel_id (w_core w1)) w1
      in w2\<lparr>w_core := remove_tunnel tunnel_id (w_core w2)\<rparr>)"

definition UNSPECIFIED_ADDR :: socket_addr where
  "UNSPECIFIED_ADDR = (IpV4 0, 0)"

text \<open>The relay set-up of a \<open>P2pConnect\<close>: both pending connections, the messages to both sessions and the
  relay task.  \<open>publisher_tx.send\<close> succeeds while the publisher's session holds the receiver.\<close>

definition p2p_start_relay ::
  "env \<Rightarrow> session_ctx \<Rightarrow> uuid \<Rightarrow> uuid \<Rightarrow> string \<Rightarrow> p2p_publisher \<Rightarrow> nat \<Rightarrow> world \<Rightarrow> world \<times> (server_error + unit)" where
  "p2p_start_relay ev ctx conn_id sub_conn_id request_id publisher publisher_tx w =
     (let w1 = w\<lparr>w_core := register_pending_conn conn_id (w_core w)\<rparr>
      in if \<not> ev_channel_open ev publisher_tx
         then send_frame (P2pError request_id ''publisher session is disconnected'')
                (w1\<lparr>w_core := cancel_pending_conn conn_id (w_core w1)\<rparr>)
         else
           let w2 = w1\<lparr>w_control := w_control w1 @ [(publisher_tx, CmNewConnection conn_id UNSPECIFIED_ADDR P2p)]\<rparr>;
               w3 = w2\<lparr>w_core := register_pending_conn sub_conn_id (w_core w2)\<rparr>
           in case send_frame (P2pConnected request_id sub_conn_id) w3 of
                (w4, Inl e) \<Rightarrow> (w4, Inl e)
              | (w4, Inr _) \<Rightarrow>
                  let w5 = (case dm_get (sessions (w_core w4)) (sc_session_id ctx) of
                         None \<Rightarrow> w4
                       | Some si \<Rightarrow> w4\<lparr>w_control := w_control w4 @
                           [(si_control_tx si, CmNewConnection sub_conn_id UNSPECIFIED_ADDR P2p)]\<rparr>)
                  in (w5\<lparr>w_relays := w_relays w5 @ [(conn_id, sub_conn_id, ti_tunnel_id (pp_tunnel_info publisher))]\<rparr>,
                      Inr ()))"

definition p2p_connect_frame ::
  "env \<Rightarrow> server_config \<Rightarrow> session_ctx \<Rightarrow> uuid \<Rightarrow> uuid \<Rightarrow> string \<Rightarrow> string \<Rightarrow> string \<Rightarrow> world \<Rightarrow>
   world \<times> (server_error + unit)" where
  "p2p_connect_frame ev cfg ctx conn_id sub_conn_id request_id target secret_hash w =
     (if \<not> cf_p2p_enabled cfg
      then send_frame (P2pError request_id ''P2P tunnels are not enabled on this server'') w
      else case resolve_p2p target (w_core w) of
             (c, None) \<Rightarrow>
               send_frame (P2pError request_id (''P2P tunnel '' @ quoted target @ '' not found'')) (w\<lparr>w_core := c\<rparr>)
           | (c, Some (publisher, publisher_tx)) \<Rightarrow>
               let w1 = w\<lparr>w_core := c\<rparr>
               in if pp_secret_hash publisher \<noteq> secret_hash
                  then send_frame (P2pError request_id ''invalid P2P secret'') w1
                  else
                    let pub_nat = pp_nat_type publisher;
                        sub_nat = (if pub_nat \<noteq> None then Some ''cone'' else None);
                        (strategy, attempt_direct) = classify_nat_pair pub_nat sub_nat
                    in case (if attempt_direct \<and> pp_mapped_addrs publisher \<noteq> []
                             then send_frame (P2pPunchInstructions conn_id (pp_mapped_addrs publisher) strategy 5000) w1
                             else (w1, Inr ())) of
                         (w2, Inl e) \<Rightarrow> (w2, Inl e)
                       | (w2, Inr _) \<Rightarrow>
                           p2p_start_relay ev ctx conn_id sub_conn_id request_id publisher publisher_tx w2)"

text \<open>The relay task spawned above, as the outcome of its two waits and of the copy.\<close>

definition p2p_relay :: "uuid \<times> uuid \<times> uuid \<Rightarrow> bool \<Rightarrow> bool \<Rightarrow> (u64 \<times> u64) option \<Rightarrow> tunnel_core \<Rightarrow> tunnel_core" where
  "p2p_relay relay pub_stream sub_stream copied c =
     (case relay of (pub_conn, sub_conn, tunnel_id) \<Rightarrow>
        if \<not> pub_stream then cancel_pending_conn sub_conn c
        else if \<not> sub_stream then c
        else case copied of Some (up, down) \<Rightarrow> record_transfer tunnel_id down up c | None \<Rightarrow> c)"

definition healthy_frame :: "session_ctx \<Rightarrow> instant \<Rightarrow> uuid \<Rightarrow> world \<Rightarrow> world" where
  "healthy_frame ctx now tunnel_id w =
     (case tunnel_session tunnel_id (w_core w) of
        Some owner' \<Rightarrow>
          if owner' = sc_session_id ctx
          then w\<lparr>w_core := fst (set_tunnel_healthy now tunnel_id (w_core w))\<rparr> else w
      | None \<Rightarrow> w)"

definition unhealthy_frame :: "server_config \<Rightarrow> session_ctx \<Rightarrow> instant \<Rightarrow> uuid \<Rightarrow> string \<Rightarrow> world \<Rightarrow> world" where
  "unhealthy_frame cfg ctx now tunnel_id reason w =
     (case tunnel_session tunnel_id (w_core w) of
        Some owner' \<Rightarrow>
          if owner' \<noteq> sc_session_id ctx then w
          else (case set_tunnel_unhealthy now tunnel_id reason (w_core w) of
                  (c, False) \<Rightarrow> w\<lparr>w_core := c\<rparr>
                | (c, True) \<Rightarrow>
                    (case pop_zero_healthy_alert tunnel_id (cf_region_id cfg) c of
                       (c', None) \<Rightarrow> w\<lparr>w_core := c'\<rparr>
                     | (c', Some alert) \<Rightarrow>
                         w\<lparr>w_core := c',
                           w_alerts := w_alerts w @
                             map (\<lambda>url. (url, za_payload alert))
                               ((case cf_alert_webhook_url cfg of Some url \<Rightarrow> [url] | None \<Rightarrow> []) @
                                za_tenant_webhook_urls alert)\<rparr>))
      | None \<Rightarrow> w)"

text \<open>\<open>handle_client_message\<close>; \<open>rand\<close>, \<open>tid\<close>, \<open>conn\<close> and \<open>sub_conn\<close> are the UUIDs a branch may draw.\<close>

definition handle_frame ::
  "env \<Rightarrow> server_config \<Rightarrow> session_ctx \<Rightarrow> instant \<Rightarrow> uuid \<times> uuid \<times> uuid \<times> uuid \<Rightarrow> control_frame \<Rightarrow> world \<Rightarrow>
   world \<times> (server_error + unit)" where
  "handle_frame ev cfg ctx now ids frame w =
     (case ids of (rand, tid, conn, sub_conn) \<Rightarrow>
      (case frame of
         RegisterTunnel request_id prot subdomain local_addr p2p_secret_hash p2p_name grp key_hash hc client_surface \<Rightarrow>
           register_frame ev cfg ctx now rand tid request_id prot subdomain p2p_secret_hash p2p_name grp key_hash hc
             client_surface w
       | UnregisterTunnel tunnel_id \<Rightarrow> (unregister_frame now tunnel_id w, Inr ())
       | P2pConnect request_id target secret_hash \<Rightarrow>
           p2p_connect_frame ev cfg ctx conn sub_conn request_id target secret_hash w
       | Ping timestamp \<Rightarrow> send_frame (Pong timestamp) w
       | Pong timestamp \<Rightarrow> (w\<lparr>w_pongs := w_pongs w @ [timestamp]\<rparr>, Inr ())
       | P2pNatInfo tunnel_id nat_type mapped_addrs local_addrs \<Rightarrow>
           (w\<lparr>w_core := update_p2p_nat_info tunnel_id nat_type mapped_addrs (w_core w)\<rparr>, Inr ())
       | TunnelHealthy tunnel_id \<Rightarrow> (healthy_frame ctx now tunnel_id w, Inr ())
       | TunnelUnhealthy tunnel_id reason \<Rightarrow> (unhealthy_frame cfg ctx now tunnel_id reason w, Inr ())
       | _ \<Rightarrow> (w, Inr ())))"

definition handle_client_message ::
  "env \<Rightarrow> server_config \<Rightarrow> session_ctx \<Rightarrow> instant \<Rightarrow> uuid \<times> uuid \<times> uuid \<times> uuid \<Rightarrow> ws_message \<Rightarrow> world \<Rightarrow>
   world \<times> (server_error + unit)" where
  "handle_client_message ev cfg ctx now ids msg w =
     (case parse_binary ev msg of Inl _ \<Rightarrow> (w, Inr ()) | Inr f \<Rightarrow> handle_frame ev cfg ctx now ids f w)"

section \<open>Main loop and cleanup\<close>

text \<open>The arms of the \<open>select!\<close>; \<open>driver_up\<close> tells whether the yamux driver still receives requests.\<close>

datatype loop_event =
    EvPingOut "u64 option"
  | EvWsClosed
  | EvWsError string
  | EvWsMessage instant "uuid \<times> uuid \<times> uuid \<times> uuid" ws_message
  | EvControl bool "control_message option"
  | EvDriverExit nat

definition main_step ::
  "env \<Rightarrow> server_config \<Rightarrow> session_ctx \<Rightarrow> loop_event \<Rightarrow> world \<Rightarrow> world \<times> (server_error + unit) option" where
  "main_step ev cfg ctx e w =
     (let continue = (\<lambda>(w', r). (w', case r of Inl err \<Rightarrow> Some (Inl err) | Inr _ \<Rightarrow> None))
      in case e of
           EvPingOut None \<Rightarrow> (w, Some (Inr ()))
         | EvPingOut (Some ts) \<Rightarrow> continue (send_frame (Ping ts) w)
         | EvWsClosed \<Rightarrow> (w, Some (Inr ()))
         | EvWsError msg \<Rightarrow> (w, Some (Inl (IoError msg)))
         | EvWsMessage now ids msg \<Rightarrow> continue (handle_client_message ev cfg ctx now ids msg w)
         | EvControl driver_up (Some (CmNewConnection conn_id addr prot)) \<Rightarrow>
             if \<not> driver_up then (w\<lparr>w_core := cancel_pending_conn conn_id (w_core w)\<rparr>, None)
             else continue (send_frame (NewConnection conn_id (ev_addr ev addr) prot) w)
         | EvControl _ _ \<Rightarrow> (w, Some (Inr ()))
         | EvDriverExit pipe \<Rightarrow> (w\<lparr>w_core := set_data_pipe (sc_session_id ctx) pipe (w_core w)\<rparr>, None))"

fun main_loop ::
  "env \<Rightarrow> server_config \<Rightarrow> session_ctx \<Rightarrow> loop_event list \<Rightarrow> world \<Rightarrow> world \<times> (server_error + unit) option" where
  "main_loop ev cfg ctx [] w = (w, None)"
| "main_loop ev cfg ctx (e # es) w =
     (case main_step ev cfg ctx e w of
        (w', Some r) \<Rightarrow> (w', Some r)
      | (w', None) \<Rightarrow> main_loop ev cfg ctx es w')"

definition session_cleanup :: "instant \<Rightarrow> uuid \<Rightarrow> world \<Rightarrow> world" where
  "session_cleanup now session_id w =
     (let remaining = (case dm_get (sessions (w_core w)) session_id of
            Some s \<Rightarrow> map (\<lambda>t. tunnel_meter t (w_core w)) (si_tunnels s) | None \<Rightarrow> []);
          w1 = fold (log_unregistered now) remaining w
      in w1\<lparr>w_core := remove_session session_id (w_core w1)\<rparr>)"

text \<open>A whole session; \<open>None\<close> is a session still in its main loop when the given events are used up.\<close>

definition run_session ::
  "env \<Rightarrow> server_config \<Rightarrow> instant \<Rightarrow> uuid \<Rightarrow> socket_addr \<Rightarrow> nat \<Rightarrow> nat \<Rightarrow> auth_input \<Rightarrow> loop_event list \<Rightarrow> instant \<Rightarrow>
   world \<Rightarrow> world \<times> (server_error + unit) option" where
  "run_session ev cfg now fresh_id peer ctrl_tx pipe input events end_time w =
     (case auth_handshake ev cfg now fresh_id peer ctrl_tx input w of
        (w1, Inl e) \<Rightarrow> (w1, Some (Inl e))
      | (w1, Inr (session_id, db_token)) \<Rightarrow>
          let w2 = w1\<lparr>w_core := set_data_pipe session_id pipe (w_core w1)\<rparr>
          in case main_loop ev cfg \<lparr>sc_session_id = session_id, sc_db_token = db_token\<rparr> events w2 of
               (w3, None) \<Rightarrow> (w3, None)
             | (w3, Some r) \<Rightarrow> (session_cleanup end_time session_id w3, Some r))"

section \<open>Heartbeat\<close>

definition PING_INTERVAL :: duration where
  "PING_INTERVAL = secs 30"

definition PONG_DEADLINE :: duration where
  "PONG_DEADLINE = secs 10"

datatype hb_event = HbTick instant bool | HbPong | HbPongClosed | HbStop

text \<open>The state is the send time of the unanswered ping; \<open>None\<close> as a result means the task ended, and the
  flag of a tick is whether the ping could be queued.\<close>

definition heartbeat_step :: "hb_event \<Rightarrow> instant option \<Rightarrow> instant option option" where
  "heartbeat_step e pending =
     (case e of
        HbTick now sent_ok \<Rightarrow>
          if (case pending of Some sent_at \<Rightarrow> now - sent_at > PONG_DEADLINE | None \<Rightarrow> False) then None
          else if \<not> sent_ok then None
          else Some (Some now)
      | HbPong \<Rightarrow> Some None
      | HbPongClosed \<Rightarrow> None
      | HbStop \<Rightarrow> None)"

fun heartbeat_task :: "hb_event list \<Rightarrow> instant option \<Rightarrow> instant option option" where
  "heartbeat_task [] pending = Some pending"
| "heartbeat_task (e # es) pending =
     (case heartbeat_step e pending of None \<Rightarrow> None | Some pending' \<Rightarrow> heartbeat_task es pending')"

end
