(* ===== verification/SessionProps.thy ===== *)
theory SessionProps
  imports Session RouterReach BillingProps
begin

text \<open>
  The control session: which frames change the router and how, the reply to a registration, the exact
  conditions of authentication, the cleanup at the end of a session and the heartbeat.
\<close>

section \<open>What the effects outside the router leave alone\<close>

lemma send_frame_sel [simp]:
  "w_core (fst (send_frame f w)) = w_core w" "w_log (fst (send_frame f w)) = w_log w"
  "w_tokens (fst (send_frame f w)) = w_tokens w" "w_audit (fst (send_frame f w)) = w_audit w"
  "w_db_up (fst (send_frame f w)) = w_db_up w" "w_ws_up (fst (send_frame f w)) = w_ws_up w"
  by (simp_all add: send_frame_def)

lemma send_frame_core:
  "send_frame f w = (w', r) \<Longrightarrow> w_core w' = w_core w"
  by (metis fst_conv send_frame_sel(1))

lemma audit_sel [simp]:
  "w_core (audit e w) = w_core w" "w_log (audit e w) = w_log w" "w_tokens (audit e w) = w_tokens w"
  "w_sent (audit e w) = w_sent w" "w_db_up (audit e w) = w_db_up w" "w_ws_up (audit e w) = w_ws_up w"
  "w_audit (audit e w) = w_audit w @ [e]"
  by (simp_all add: audit_def)

lemma report_limit_sel [simp]:
  "w_core (report_limit t r s w) = w_core w" "w_log (report_limit t r s w) = w_log w"
  "w_sent (report_limit t r s w) = w_sent w" "w_db_up (report_limit t r s w) = w_db_up w"
  "w_ws_up (report_limit t r s w) = w_ws_up w"
  by (simp_all add: report_limit_def split: option.split)

lemma log_unregistered_sel [simp]:
  "w_core (log_unregistered now m w) = w_core w" "w_db_up (log_unregistered now m w) = w_db_up w"
  "w_sent (log_unregistered now m w) = w_sent w"
  by (simp_all add: log_unregistered_def split: sum.split)

section \<open>Registration\<close>

text \<open>What is announced for a route: the protocol name, the label, the public URL, the port and the name.\<close>

fun announcement_for ::
  "server_config \<Rightarrow> tunnel_protocol \<Rightarrow> uuid \<Rightarrow> tunnel_key \<Rightarrow> announcement" where
  "announcement_for cfg prot t (KHttp sub) =
     (t, map to_ascii_lowercase (protocol_debug prot), sub,
      (if prot = Https then ''https'' else ''http'') @ ''://'' @ sub @ ''.'' @ cf_domain cfg, None, None)"
| "announcement_for cfg prot t (KTcp p) =
     (t, ''tcp'', dec_string (unat p), ''tcp://'' @ cf_domain cfg @ '':'' @ dec_string (unat p), Some p, None)"
| "announcement_for cfg prot t (KUdp p) =
     (t, ''udp'', dec_string (unat p), ''udp://'' @ cf_domain cfg @ '':'' @ dec_string (unat p), Some p, None)"
| "announcement_for cfg prot t (KP2p n) = (t, ''p2p'', n, ''p2p://'' @ n, None, Some n)"

text \<open>The routes a tunnel of a protocol may have; a subdomain has no colon, so a Host header can name it.\<close>

fun key_serves :: "tunnel_protocol \<Rightarrow> tunnel_key \<Rightarrow> bool" where
  "key_serves prot (KHttp sub) = ((prot = Http \<or> prot = Https) \<and> CHR '':'' \<notin> set sub)"
| "key_serves prot (KTcp _) = (prot = Tcp)"
| "key_serves prot (KUdp _) = (prot = Udp)"
| "key_serves prot (KP2p _) = (prot = P2p)"

text \<open>The outcome of a registration attempt: an error leaves the router as it was, a success adds exactly the
  announced route.\<close>

definition registered_as ::
  "u16 set \<Rightarrow> u16 set \<Rightarrow> server_config \<Rightarrow> tunnel_protocol \<Rightarrow> uuid \<Rightarrow> uuid \<Rightarrow> tunnel_core \<Rightarrow>
   tunnel_core \<times> (string + announcement) \<Rightarrow> bool" where
  "registered_as TR UR cfg prot t s c out \<longleftrightarrow>
     core_inv TR UR (fst out) \<and>
     (case snd out of
        Inl _ \<Rightarrow> fst out = c
      | Inr a \<Rightarrow> \<exists>k. key_serves prot k \<and> a = announcement_for cfg prot t k \<and>
                   abs_core (fst out) = (abs_core c)(t \<mapsto> (s, k)))"

lemma registered_as_Inl: "core_inv TR UR c \<Longrightarrow> registered_as TR UR cfg prot t s c (c, Inl e)"
  by (simp add: registered_as_def)

lemma registered_as_Inr:
  "core_inv TR UR c' \<Longrightarrow> key_serves prot k \<Longrightarrow> abs_core c' = (abs_core c)(t \<mapsto> (s, k)) \<Longrightarrow>
   a = announcement_for cfg prot t k \<Longrightarrow> registered_as TR UR cfg prot t s c (c', Inr a)"
  unfolding registered_as_def by auto

text \<open>A registration that fails without a change or adds a route of key \<open>K x\<close> announces what it did.\<close>

lemma registered_as_case:
  assumes inv: "core_inv TR UR c"
    and out: "(\<exists>e. r = Inl e \<and> c' = c) \<or> (\<exists>x. r = Inr (t, x))"
    and eff: "core_inv TR UR c' \<and>
      abs_core c' = (case r of Inl _ \<Rightarrow> abs_core c | Inr (_, x) \<Rightarrow> (abs_core c)(t \<mapsto> (s, K x)))"
    and K: "\<And>x. r = Inr (t, x) \<Longrightarrow> key_serves prot (K x)" and a: "\<And>x. ann (t, x) = announcement_for cfg prot t (K x)"
  shows "registered_as TR UR cfg prot t s c
           (case r of Inl e \<Rightarrow> (c', Inl (sh e)) | Inr tx \<Rightarrow> (c', Inr (ann tx)))"
  using out
proof (elim disjE exE)
  fix e assume "r = Inl e \<and> c' = c"
  then show ?thesis using inv by (simp add: registered_as_Inl)
next
  fix x assume r: "r = Inr (t, x)"
  then have "registered_as TR UR cfg prot t s c (c', Inr (ann (t, x)))"
    using eff by (intro registered_as_Inr[where k = "K x"] K[OF r] a) simp_all
  then show ?thesis by (simp add: r)
qed

lemma register_outcomes:
  "register_http_tunnel now rnd t s sd prot grp c = (c', r) \<Longrightarrow>
     (\<exists>e. r = Inl e \<and> c' = c) \<or> (\<exists>x. r = Inr (t, x))"
  "register_tcp_tunnel now t s grp c = (c', r2) \<Longrightarrow>
     (\<exists>e. r2 = Inl e \<and> c' = c) \<or> (\<exists>x. r2 = Inr (t, x))"
  "register_udp_tunnel now t s c = (c', r2) \<Longrightarrow>
     (\<exists>e. r2 = Inl e \<and> c' = c) \<or> (\<exists>x. r2 = Inr (t, x))"
  "register_p2p_tunnel now t s name sh c = (c', r) \<Longrightarrow>
     (\<exists>e. r = Inl e \<and> c' = c) \<or> (\<exists>x. r = Inr (t, x))"
  by (erule register_http_cases, blast, blast, erule register_tcp_cases, blast, blast, blast,
      erule register_udp_cases, blast, blast, erule register_p2p_cases, blast, blast)

lemma registered_subdomain:
  assumes "register_http_tunnel now rnd t s sd prot spec c = (c', Inr (t', sub))"
  shows "CHR '':'' \<notin> set sub"
  using assms
proof (cases rule: register_http_cases)
  case (ok sub' R' u)
  have hex: "CHR '':'' \<noteq> hex_digit d" if "d < 16" for d
  proof
    assume "CHR '':'' = hex_digit d"
    then have "byte_of (CHR '':'') = byte_of (hex_digit d)" by (rule arg_cong)
    moreover have "byte_of (hex_digit d) \<noteq> 58" using that by (simp add: hex_digit_def)
    ultimately show False by simp
  qed
  have "CHR '':'' \<notin> set (random_subdomain rnd)"
    by (auto simp: random_subdomain_def hex_byte_def hex)
  moreover have "CHR '':'' \<notin> set x" if "validate_subdomain x = Inr ()" for x
    using that by (auto simp: validate_subdomain_def list_all_iff is_ascii_alphanumeric_def is_ascii_digit_def
        is_ascii_alphabetic_def split: if_splits)
  ultimately show ?thesis using ok by (cases sd) auto
qed simp

text \<open>The HTTP arm, shared by the two HTTP protocols.\<close>

lemma register_http_arm:
  assumes inv: "core_inv TR UR c" and fresh: "fresh_tunnel_id t c" and p: "prot = Http \<or> prot = Https"
    and reg: "register_http_tunnel now rnd t s sd prot spec c = (c', r)"
  shows "registered_as TR UR cfg prot t s c
    (case r of Inl e \<Rightarrow> (c', Inl (sh e)) | Inr tx \<Rightarrow> (c', Inr (case tx of (t, sub) \<Rightarrow>
       (t, map to_ascii_lowercase (protocol_debug prot), sub,
        (if prot = Https then ''https'' else ''http'') @ ''://'' @ sub @ ''.'' @ cf_domain cfg, None, None))))"
  by (rule registered_as_case[OF inv register_outcomes(1)[OF reg] register_http_inv[OF inv fresh reg]])
    (use p registered_subdomain[of now rnd t s sd prot spec c c' t] reg in simp_all)

lemma register_by_protocol_outcome:
  assumes inv: "core_inv TR UR c" and fresh: "fresh_tunnel_id t c"
  shows "registered_as TR UR cfg prot t s c
           (register_by_protocol cfg now rnd t s prot sd spec name secret sh c)"
proof -
  have err: "registered_as TR UR cfg prot t s c (c, Inl e)" for e
    using inv by (rule registered_as_Inl)
  obtain ch rh where h: "register_http_tunnel now rnd t s sd prot spec c = (ch, rh)" by fastforce
  obtain ct rt where t: "register_tcp_tunnel now t s spec c = (ct, rt)" by fastforce
  obtain cu ru where u: "register_udp_tunnel now t s c = (cu, ru)" by fastforce
  show ?thesis
  proof (cases prot)
    case Http
    then show ?thesis using register_http_arm[OF inv fresh _ h, of cfg sh]
      by (simp add: register_by_protocol_def h[unfolded Http] split: sum.splits prod.splits)
  next
    case Https
    then show ?thesis using register_http_arm[OF inv fresh _ h, of cfg sh]
      by (simp add: register_by_protocol_def h[unfolded Https] split: sum.splits prod.splits)
  next
    case Tcp
    have "registered_as TR UR cfg prot t s c
       (case rt of Inl e \<Rightarrow> (ct, Inl (sh e)) | Inr tx \<Rightarrow> (ct, Inr (case tx of (t, port) \<Rightarrow>
         (t, ''tcp'', dec_string (unat port),
          ''tcp://'' @ cf_domain cfg @ '':'' @ dec_string (unat port), Some port, None))))"
      by (rule registered_as_case[OF inv register_outcomes(2)[OF t] register_tcp_inv[OF inv fresh t]])
        (simp_all add: Tcp)
    then show ?thesis
      by (simp add: register_by_protocol_def Tcp t split: sum.splits prod.splits)
  next
    case Udp
    have "registered_as TR UR cfg prot t s c
       (case ru of Inl e \<Rightarrow> (cu, Inl (sh e)) | Inr tx \<Rightarrow> (cu, Inr (case tx of (t, port) \<Rightarrow>
         (t, ''udp'', dec_string (unat port),
          ''udp://'' @ cf_domain cfg @ '':'' @ dec_string (unat port), Some port, None))))"
      by (rule registered_as_case[OF inv register_outcomes(3)[OF u] register_udp_inv[OF inv fresh u]])
        (simp_all add: Udp)
    then show ?thesis
      by (simp add: register_by_protocol_def Udp u split: sum.splits prod.splits)
  next
    case P2p
    have "registered_as TR UR cfg prot t s c
       (case register_p2p_tunnel now t s n x c of (c', Inl e) \<Rightarrow> (c', Inl (sh e))
        | (c', Inr (t, n)) \<Rightarrow> (c', Inr (t, ''p2p'', n, ''p2p://'' @ n, None, Some n)))" for n x
    proof -
      obtain cp rp where p: "register_p2p_tunnel now t s n x c = (cp, rp)" by fastforce
      have "registered_as TR UR cfg prot t s c
         (case rp of Inl e \<Rightarrow> (cp, Inl (sh e)) | Inr tx \<Rightarrow> (cp, Inr (case tx of (t, n) \<Rightarrow>
           (t, ''p2p'', n, ''p2p://'' @ n, None, Some n))))"
        by (rule registered_as_case[OF inv register_outcomes(4)[OF p] register_p2p_inv[OF inv fresh p]])
          (simp_all add: P2p)
      then show ?thesis by (simp add: p split: sum.splits prod.splits)
    qed
    then show ?thesis using err
      by (auto simp only: register_by_protocol_def P2p Let_def tunnel_protocol.case split: option.split if_split)
  qed
qed

text \<open>The token a registration may use: none, or an active one that is unlimited or not expired and whose
  plan does not block.\<close>

definition token_allows :: "env \<Rightarrow> instant \<Rightarrow> token option \<Rightarrow> string option \<Rightarrow> surface \<Rightarrow> world \<Rightarrow> bool" where
  "token_allows ev now db_token subdomain s w \<longleftrightarrow>
     (\<forall>t. db_token = Some t \<longrightarrow> tk_status t = ''active'' \<and>
        (tk_unlimited t \<or>
         (\<forall>e. tk_expires_at t = Some e \<longrightarrow> now \<le> e) \<and>
         (\<forall>user. tk_user_id t = Some user \<longrightarrow> w_db_up w \<and>
            (\<exists>gate. evaluate_hobby_limits (Inr (ev_plan ev user)) (Inr (open_tunnel_count user (w_log w)))
               (Inr (month_bytes_proxied_at (ev_month ev) user now (w_log w))) subdomain = Inr gate \<and>
               hg_block gate = None))))"

lemma evaluate_hobby_limits_up: "evaluate_hobby_limits (Inr p) (Inr n) (Inr b) sd \<noteq> Inl e"
  by (auto simp: evaluate_hobby_limits_def Let_def split: option.split)

lemma check_token_pass:
  "check_token ev now tok sd s w = GatePass n \<Longrightarrow> token_allows ev now tok sd s w"
  by (auto simp: check_token_def token_allows_def Let_def evaluate_hobby_limits_def
      split: option.splits if_splits sum.splits)

lemma check_token_fail:
  assumes "check_token ev now tok sd s w = GateFail e"
  shows "e = db_failure \<and> \<not> w_db_up w"
proof (cases "w_db_up w")
  case True
  then show ?thesis using assms evaluate_hobby_limits_up[of _ _ _ sd e]
    by (auto simp: check_token_def Let_def split: option.splits if_splits sum.splits)
next
  case False
  then show ?thesis using assms
    by (auto simp: check_token_def Let_def evaluate_hobby_limits_def split: option.splits if_splits sum.splits)
qed

text \<open>After the gate: announce the route, write the audit event and the log row.\<close>

definition announce ::
  "server_config \<Rightarrow> session_ctx \<Rightarrow> instant \<Rightarrow> announcement \<Rightarrow> world \<Rightarrow> world" where
  "announce cfg ctx now a w = (case a of (t, proto_str, label, _) \<Rightarrow>
     let w2 = audit (AuditTunnelRegistered (sc_session_id ctx) t proto_str label) w
     in if w_db_up w2
        then w2\<lparr>w_log := log_tunnel_registered now t proto_str label (sc_session_id ctx)
                  (map_option tk_id (sc_db_token ctx)) (cf_region_id cfg)
                  (Option.bind (sc_db_token ctx) tk_user_id) (w_log w2)\<rparr>
        else w2)"

lemma announce_sel:
  "w_core (announce cfg ctx now a w) = w_core w" "w_sent (announce cfg ctx now a w) = w_sent w"
  "w_ws_up (announce cfg ctx now a w) = w_ws_up w"
  "w_log (announce cfg ctx now (t, proto_str, label, rest) w) =
     (if w_db_up w then log_tunnel_registered now t proto_str label (sc_session_id ctx)
        (map_option tk_id (sc_db_token ctx)) (cf_region_id cfg)
        (Option.bind (sc_db_token ctx) tk_user_id) (w_log w) else w_log w)"
  by (simp_all add: announce_def Let_def split: prod.split)

lemma register_frame_passed:
  assumes "check_token ev now (sc_db_token ctx) sd (surface_parse (ev_trim ev) cs) w = GatePass n"
    and "register_by_protocol cfg now rnd tid (sc_session_id ctx) prot sd (build_group_spec cfg grp kh hc) name sh
           (error_display (ev_uuid ev)) (w_core w) = (c, out)"
  shows "register_frame ev cfg ctx now rnd tid req prot sd sh name grp kh hc cs w =
    (let w1 = (report_limit (sc_db_token ctx) n (surface_parse (ev_trim ev) cs) w)\<lparr>w_core := c\<rparr>
     in case out of
          Inl msg \<Rightarrow> send_frame (TunnelError req msg) w1
        | Inr (t, proto_str, label, url, port, name) \<Rightarrow>
            send_frame (TunnelRegistered req t url port name
                (map_option (\<lambda>r. reason_message r (surface_parse (ev_trim ev) cs)) n))
              (announce cfg ctx now (t, proto_str, label, url, port, name) w1))"
  using assms by (simp add: register_frame_def announce_def Let_def split: sum.split)

lemma register_frame_cases:
  assumes inv: "core_inv TR UR (w_core w)" and fresh: "fresh_tunnel_id tid (w_core w)"
    and reg: "register_frame ev cfg ctx now rnd tid req prot sd sh name grp kh hc cs w = (w', r)"
  obtains (failed) "r = Inl db_failure" "w' = w" "\<not> w_db_up w"
  | (refused) msg u where "send_frame (TunnelError req msg) u = (w', r)" "w_core u = w_core w"
      "w_log u = w_log w" "w_sent u = w_sent w" "w_ws_up u = w_ws_up w"
  | (accepted) k url port nm notice u proto_str label
    where "send_frame (TunnelRegistered req tid url port nm notice) u = (w', r)"
      "announcement_for cfg prot tid k = (tid, proto_str, label, url, port, nm)" "key_serves prot k"
      "core_inv TR UR (w_core u)" "abs_core (w_core u) = (abs_core (w_core w))(tid \<mapsto> (sc_session_id ctx, k))"
      "w_log u = (if w_db_up w
         then log_tunnel_registered now tid proto_str label (sc_session_id ctx)
                (map_option tk_id (sc_db_token ctx)) (cf_region_id cfg)
                (Option.bind (sc_db_token ctx) tk_user_id) (w_log w)
         else w_log w)"
      "w_sent u = w_sent w" "w_ws_up u = w_ws_up w"
      "token_allows ev now (sc_db_token ctx) sd (surface_parse (ev_trim ev) cs) w"
proof (cases "check_token ev now (sc_db_token ctx) sd (surface_parse (ev_trim ev) cs) w")
  case (GateFail e)
  then have "w' = w" "r = Inl e" using reg by (simp_all add: register_frame_def)
  then show ?thesis using check_token_fail[OF GateFail] failed by simp
next
  case (GateReject msg x)
  then have "send_frame (TunnelError req msg)
      (report_limit (sc_db_token ctx) x (surface_parse (ev_trim ev) cs) w) = (w', r)"
    using reg by (simp add: register_frame_def)
  then show ?thesis by (rule refused) simp_all
next
  case (GatePass n)
  obtain c out where out: "register_by_protocol cfg now rnd tid (sc_session_id ctx) prot sd
      (build_group_spec cfg grp kh hc) name sh (error_display (ev_uuid ev)) (w_core w) = (c, out)"
    by fastforce
  define w1 where "w1 = (report_limit (sc_db_token ctx) n (surface_parse (ev_trim ev) cs) w)\<lparr>w_core := c\<rparr>"
  have w1: "w_core w1 = c" "w_log w1 = w_log w" "w_sent w1 = w_sent w" "w_db_up w1 = w_db_up w"
    "w_ws_up w1 = w_ws_up w"
    by (simp_all add: w1_def)
  have ra: "registered_as TR UR cfg prot tid (sc_session_id ctx) (w_core w) (c, out)"
    using register_by_protocol_outcome[OF inv fresh] by (metis out)
  note step = reg[unfolded register_frame_passed[OF GatePass out] Let_def, folded w1_def]
  show ?thesis
  proof (cases out)
    case (Inl msg)
    then have "c = w_core w" using ra by (simp add: registered_as_def)
    then show ?thesis using refused[of msg w1] step Inl w1 by simp
  next
    case (Inr a)
    then obtain k where k: "key_serves prot k" "a = announcement_for cfg prot tid k"
        "core_inv TR UR c" "abs_core c = (abs_core (w_core w))(tid \<mapsto> (sc_session_id ctx, k))"
      using ra by (auto simp: registered_as_def)
    obtain proto_str label url port nm where a: "a = (tid, proto_str, label, url, port, nm)"
      using k(2) by (cases k) auto
    show ?thesis
      by (rule accepted[OF _ _ k(1), where u = "announce cfg ctx now a w1" and url = url and port = port
            and nm = nm and proto_str = proto_str and label = label])
        (use step Inr a k w1 check_token_pass[OF GatePass] in \<open>simp_all add: announce_sel\<close>)
  qed
qed

section \<open>The effect of a frame on the router\<close>

definition core_kept :: "u16 set \<Rightarrow> u16 set \<Rightarrow> tunnel_core \<Rightarrow> tunnel_core \<Rightarrow> bool" where
  "core_kept TR UR c c' \<longleftrightarrow> (core_inv TR UR c \<longrightarrow> core_inv TR UR c' \<and> abs_core c' = abs_core c)"

lemma core_kept_refl [simp]: "core_kept TR UR c c"
  by (simp add: core_kept_def)

lemma core_kept_trans: "core_kept TR UR c c' \<Longrightarrow> core_kept TR UR c' c'' \<Longrightarrow> core_kept TR UR c c''"
  by (simp add: core_kept_def)

lemma core_kept_pending [simp]:
  "core_kept TR UR c (register_pending_conn x c') = core_kept TR UR c c'"
  "core_kept TR UR c (cancel_pending_conn x c') = core_kept TR UR c c'"
  by (simp_all add: core_kept_def register_pending_conn_def cancel_pending_conn_def core_inv_events
      core_inv_irrelevant)

lemma core_kept_resolve_p2p: "resolve_p2p n c = (c', r) \<Longrightarrow> core_kept TR UR c c'"
  by (simp add: core_kept_def resolve_p2p_inv)

lemma send_frame_kept: "send_frame f w = (w', r) \<Longrightarrow> core_kept TR UR (w_core w) (w_core w')"
  by (metis core_kept_refl send_frame_core)

lemma p2p_start_relay_kept:
  assumes "p2p_start_relay ev ctx conn sub req pub tx w = (w', r)"
  shows "core_kept TR UR (w_core w) (w_core w')"
  using assms
  by (auto simp: p2p_start_relay_def Let_def send_frame_def split: if_splits option.splits)

lemma p2p_connect_kept:
  assumes step: "p2p_connect_frame ev cfg ctx conn sub req target sh w = (w', r)"
  shows "core_kept TR UR (w_core w) (w_core w')"
proof -
  obtain c x where res: "resolve_p2p target (w_core w) = (c, x)" by fastforce
  have k: "core_kept TR UR (w_core w) c" using res by (rule core_kept_resolve_p2p)
  have sent: "core_kept TR UR (w_core w) (w_core w')" if "send_frame f (w\<lparr>w_core := c\<rparr>) = (w', r)" for f
    using send_frame_core[OF that] k by simp
  have relay: "core_kept TR UR (w_core w) (w_core w')"
    if "p2p_start_relay ev ctx conn sub req pub tx u = (w', r)" "w_core u = c" for pub tx u
    using p2p_start_relay_kept[OF that(1), of TR UR] that(2) k core_kept_trans by simp
  show ?thesis
  proof (cases "cf_p2p_enabled cfg \<and> x \<noteq> None")
    case False
    then consider "\<not> cf_p2p_enabled cfg" | "cf_p2p_enabled cfg" "x = None" by blast
    then show ?thesis
      by cases (use step res sent send_frame_kept in \<open>simp_all add: p2p_connect_frame_def\<close>)
  next
    case True
    then obtain pub tx where x: "x = Some (pub, tx)" by auto
    define nat_pair where "nat_pair = classify_nat_pair (pp_nat_type pub)
      (if pp_nat_type pub \<noteq> None then Some ''cone'' else None)"
    obtain strategy direct where nat: "nat_pair = (strategy, direct)" by (cases nat_pair)
    define instr where "instr = P2pPunchInstructions conn (pp_mapped_addrs pub) strategy 5000"
    obtain u y where u: "(if direct \<and> pp_mapped_addrs pub \<noteq> [] then send_frame instr (w\<lparr>w_core := c\<rparr>)
        else (w\<lparr>w_core := c\<rparr>, Inr ())) = (u, y)" by fastforce
    have uc: "w_core u = c" using u by (auto dest: send_frame_core split: if_splits)
    have "p2p_connect_frame ev cfg ctx conn sub req target sh w =
      (if pp_secret_hash pub \<noteq> sh then send_frame (P2pError req ''invalid P2P secret'') (w\<lparr>w_core := c\<rparr>)
       else case y of Inl e \<Rightarrow> (u, Inl e) | Inr _ \<Rightarrow> p2p_start_relay ev ctx conn sub req pub tx u)"
      using True x res nat u unfolding p2p_connect_frame_def Let_def nat_pair_def instr_def
      by (auto split: if_split)
    then show ?thesis using step sent relay uc k by (auto split: if_splits sum.splits)
  qed
qed

lemma core_kept_health:
  "set_tunnel_healthy now t c = (c', r) \<Longrightarrow> core_kept TR UR c c'"
  "set_tunnel_unhealthy now t reason c = (c', r) \<Longrightarrow> core_kept TR UR c c'"
  "pop_zero_healthy_alert t region c = (c', a) \<Longrightarrow> core_kept TR UR c c'"
  unfolding core_kept_def
  by (rule impI, erule (1) set_tunnel_healthy_inv, rule impI, erule (1) set_tunnel_unhealthy_inv,
      rule impI, erule (1) pop_alert_inv)

lemma healthy_frame_kept: "core_kept TR UR (w_core w) (w_core (healthy_frame ctx now t w))"
proof -
  obtain c r where s: "set_tunnel_healthy now t (w_core w) = (c, r)" by fastforce
  show ?thesis using core_kept_health(1)[OF s] by (simp add: healthy_frame_def s split: option.split)
qed

lemma unhealthy_frame_kept: "core_kept TR UR (w_core w) (w_core (unhealthy_frame cfg ctx now t reason w))"
proof -
  obtain c b where u: "set_tunnel_unhealthy now t reason (w_core w) = (c, b)" by fastforce
  obtain c' a where p: "pop_zero_healthy_alert t (cf_region_id cfg) c = (c', a)" by fastforce
  have "core_kept TR UR (w_core w) c" by (rule core_kept_health(2)[OF u])
  moreover from this have "core_kept TR UR (w_core w) c'"
    using core_kept_health(3)[OF p] by (rule core_kept_trans)
  ultimately show ?thesis
    by (simp add: unhealthy_frame_def u p split: option.split bool.split)
qed

lemmas health_frames_kept = healthy_frame_kept unhealthy_frame_kept

text \<open>The contract of a frame on the table of live tunnels: a registration may add one tunnel of this session,
  an unregistration takes its tunnel out, every other frame changes nothing.\<close>

definition frame_effect ::
  "uuid \<Rightarrow> uuid \<Rightarrow> control_frame \<Rightarrow> (uuid \<rightharpoonup> uuid \<times> tunnel_key) \<Rightarrow> (uuid \<rightharpoonup> uuid \<times> tunnel_key) \<Rightarrow> bool" where
  "frame_effect sid tid frame A A' \<longleftrightarrow>
     (case frame of
        RegisterTunnel _ prot _ _ _ _ _ _ _ _ \<Rightarrow>
          A' = A \<or> (\<exists>k. key_serves prot k \<and> A' = A(tid \<mapsto> (sid, k)))
      | UnregisterTunnel t \<Rightarrow> A' = A(t := None)
      | _ \<Rightarrow> A' = A)"

lemma frame_effect_same:
  "(\<And>t. f \<noteq> UnregisterTunnel t) \<Longrightarrow> frame_effect sid tid f A A"
  by (cases f) (auto simp: frame_effect_def)

lemma nat_frame_kept: "core_kept TR UR c (update_p2p_nat_info t nt addrs c)"
  by (simp add: core_kept_def update_nat_inv)

text \<open>The two frames that open and close tunnels.\<close>

definition tunnel_frame :: "control_frame \<Rightarrow> bool" where
  "tunnel_frame f = (case f of RegisterTunnel _ _ _ _ _ _ _ _ _ _ \<Rightarrow> True | UnregisterTunnel _ \<Rightarrow> True | _ \<Rightarrow> False)"

lemma handle_frame_kept:
  assumes step: "handle_frame ev cfg ctx now ids frame w = (w', r)" and "\<not> tunnel_frame frame"
  shows "core_kept TR UR (w_core w) (w_core w')"
proof -
  obtain rnd tid conn sub where ids: "ids = (rnd, tid, conn, sub)" by (cases ids)
  note step' = step[unfolded handle_frame_def ids prod.case]
  consider (p2p) req target sh where "frame = P2pConnect req target sh" | (ping) ts where "frame = Ping ts"
    | (nat) t nt addrs la where "frame = P2pNatInfo t nt addrs la" | (healthy) t where "frame = TunnelHealthy t"
    | (unhealthy) t reason where "frame = TunnelUnhealthy t reason" | (other) "w_core w' = w_core w"
    using step' assms(2) by (cases frame) (auto simp: tunnel_frame_def)
  then show ?thesis
  proof cases
    case p2p
    then show ?thesis using step' p2p_connect_kept by simp
  next
    case ping
    then show ?thesis using step' send_frame_kept by simp
  qed (use step' in \<open>auto simp: nat_frame_kept health_frames_kept\<close>)
qed

lemma handle_frame_effect:
  assumes inv: "core_inv TR UR (w_core w)" and fresh: "fresh_tunnel_id tid (w_core w)"
    and step: "handle_frame ev cfg ctx now (rnd, tid, conn, sub) frame w = (w', r)"
  shows "core_inv TR UR (w_core w') \<and>
    frame_effect (sc_session_id ctx) tid frame (abs_core (w_core w)) (abs_core (w_core w'))"
proof -
  have kept: "?thesis" if "core_kept TR UR (w_core w) (w_core w')" "\<And>t. frame \<noteq> UnregisterTunnel t"
    using that inv by (simp add: core_kept_def frame_effect_same)
  show ?thesis
  proof (cases "tunnel_frame frame")
    case False
    then have "\<And>t. frame \<noteq> UnregisterTunnel t" by (auto simp: tunnel_frame_def)
    then show ?thesis using kept handle_frame_kept[OF step False] by blast
  next
    case True
    then consider (reg) req prot sd la sh name grp kh hc cs
        where "frame = RegisterTunnel req prot sd la sh name grp kh hc cs"
      | (unreg) t where "frame = UnregisterTunnel t"
      by (cases frame) (auto simp: tunnel_frame_def)
    then show ?thesis
    proof cases
      case unreg
      then have "w_core w' = remove_tunnel t (w_core w)"
        using step by (auto simp: handle_frame_def unregister_frame_def Let_def)
      then show ?thesis using unreg remove_tunnel_core_inv[OF inv] remove_tunnel_inv(2)[of TR UR "w_core w" t] inv
        by (simp add: frame_effect_def core_inv_def)
    next
      case reg
      then have nt: "\<And>t. frame \<noteq> UnregisterTunnel t" by simp
      have "register_frame ev cfg ctx now rnd tid req prot sd sh name grp kh hc cs w = (w', r)"
        using step reg by (simp add: handle_frame_def)
      with inv fresh show ?thesis
      proof (cases rule: register_frame_cases)
        case failed
        then show ?thesis using inv nt by (simp add: frame_effect_same)
      next
        case (refused msg u)
        then have "w_core w' = w_core w" using send_frame_core by metis
        then show ?thesis using inv nt by (simp add: frame_effect_same)
      next
        case (accepted k url port nm notice u proto_str label)
        from send_frame_core[OF accepted(1)] show ?thesis
          using accepted(3-5) reg by (auto simp: frame_effect_def)
      qed
    qed
  qed
qed

section \<open>A whole session\<close>

text \<open>What a session may do to the table of live tunnels: add tunnels of its own and take out those in \<open>U\<close>.\<close>

definition touches ::
  "uuid \<Rightarrow> uuid set \<Rightarrow> (uuid \<rightharpoonup> uuid \<times> tunnel_key) \<Rightarrow> (uuid \<rightharpoonup> uuid \<times> tunnel_key) \<Rightarrow> bool" where
  "touches sid U A A' \<longleftrightarrow>
     (\<forall>t. A' t = A t \<or> A t = None \<and> (\<exists>k. A' t = Some (sid, k)) \<or>
          t \<in> U \<and> (A' t = None \<or> (\<exists>k. A' t = Some (sid, k))))"

lemma touches_refl [simp]: "touches sid U A A"
  by (simp add: touches_def)

lemma touches_trans:
  assumes "touches sid U A A'" and "touches sid V A' A''"
  shows "touches sid (U \<union> V) A A''"
  unfolding touches_def
proof
  fix t
  have "A' t = A t \<or> A t = None \<and> (\<exists>k. A' t = Some (sid, k)) \<or> t \<in> U \<and> (A' t = None \<or> (\<exists>k. A' t = Some (sid, k)))"
    and "A'' t = A' t \<or> A' t = None \<and> (\<exists>k. A'' t = Some (sid, k)) \<or> t \<in> V \<and> (A'' t = None \<or> (\<exists>k. A'' t = Some (sid, k)))"
    using assms by (simp_all add: touches_def)
  then show "A'' t = A t \<or> A t = None \<and> (\<exists>k. A'' t = Some (sid, k)) \<or>
      t \<in> U \<union> V \<and> (A'' t = None \<or> (\<exists>k. A'' t = Some (sid, k)))"
    by (elim disjE conjE exE) auto
qed

text \<open>The tunnel a received message asks to unregister.\<close>

definition unregistered_by :: "env \<Rightarrow> loop_event \<Rightarrow> uuid set" where
  "unregistered_by ev e =
     (case e of
        EvWsMessage _ _ msg \<Rightarrow> (case parse_binary ev msg of Inr (UnregisterTunnel t) \<Rightarrow> {t} | _ \<Rightarrow> {})
      | _ \<Rightarrow> {})"

definition event_fresh :: "loop_event \<Rightarrow> world \<Rightarrow> bool" where
  "event_fresh e w = (case e of EvWsMessage _ (_, tid, _) _ \<Rightarrow> fresh_tunnel_id tid (w_core w) | _ \<Rightarrow> True)"

lemma frame_effect_touches:
  assumes "frame_effect sid tid f A A'" and "A tid = None"
  shows "touches sid (case f of UnregisterTunnel t \<Rightarrow> {t} | _ \<Rightarrow> {}) A A'"
  using assms by (cases f) (auto simp: frame_effect_def touches_def split: if_splits)

lemma abs_core_fresh: "fresh_tunnel_id t c \<Longrightarrow> abs_core c t = None"
  by (simp add: fresh_tunnel_id_def abs_core_def)

lemma core_kept_touches:
  "core_kept TR UR (w_core w) (w_core w') \<Longrightarrow> core_inv TR UR (w_core w) \<Longrightarrow>
   core_inv TR UR (w_core w') \<and> touches sid U (abs_core (w_core w)) (abs_core (w_core w'))"
  by (simp add: core_kept_def)

lemma set_data_pipe_kept: "core_kept TR UR c (set_data_pipe s p c)"
  by (simp add: core_kept_def set_data_pipe_def modify_session_inv)

lemma main_step_touches:
  assumes inv: "core_inv TR UR (w_core w)" and fresh: "event_fresh e w"
    and step: "main_step ev cfg ctx e w = (w', r)"
  shows "core_inv TR UR (w_core w') \<and>
    touches (sc_session_id ctx) (unregistered_by ev e) (abs_core (w_core w)) (abs_core (w_core w'))"
proof (cases "\<exists>now ids msg f. e = EvWsMessage now ids msg \<and> parse_binary ev msg = Inr f")
  case True
  then obtain now rnd tid conn sub msg f
    where e: "e = EvWsMessage now (rnd, tid, conn, sub) msg" and f: "parse_binary ev msg = Inr f"
    by (metis prod_cases4)
  obtain q where h: "handle_frame ev cfg ctx now (rnd, tid, conn, sub) f w = (w', q)"
    using step by (auto simp: main_step_def e f handle_client_message_def split: prod.splits)
  have fr: "fresh_tunnel_id tid (w_core w)" using fresh by (simp add: event_fresh_def e)
  have u: "unregistered_by ev e = (case f of UnregisterTunnel t \<Rightarrow> {t} | _ \<Rightarrow> {})"
    by (simp add: unregistered_by_def e f)
  show ?thesis
    using handle_frame_effect[OF inv fr h] frame_effect_touches abs_core_fresh[OF fr] by (auto simp: u)
next
  case False
  have "core_kept TR UR (w_core w) (w_core w')"
  proof (cases e)
    case (EvWsMessage now ids msg)
    then have "parse_binary ev msg = Inl x \<Longrightarrow> w' = w" for x
      using step by (simp add: main_step_def handle_client_message_def)
    moreover have "parse_binary ev msg \<noteq> Inr f" for f using False EvWsMessage by blast
    ultimately show ?thesis by (cases "parse_binary ev msg") auto
  next
    case (EvPingOut x)
    then show ?thesis using step
      by (cases x) (auto simp: main_step_def split: prod.splits intro: send_frame_kept)
  next
    case (EvControl up m)
    then show ?thesis using step
      by (auto simp: main_step_def split: prod.splits option.splits control_message.splits if_splits
          intro: send_frame_kept)
  next
    case (EvDriverExit p)
    then show ?thesis using step by (auto simp: main_step_def set_data_pipe_kept)
  qed (use step in \<open>auto simp: main_step_def\<close>)
  then show ?thesis using inv by (rule core_kept_touches)
qed

fun fresh_run :: "env \<Rightarrow> server_config \<Rightarrow> session_ctx \<Rightarrow> loop_event list \<Rightarrow> world \<Rightarrow> bool" where
  "fresh_run ev cfg ctx [] w = True"
| "fresh_run ev cfg ctx (e # es) w \<longleftrightarrow> event_fresh e w \<and>
     (case main_step ev cfg ctx e w of (w', Some _) \<Rightarrow> True | (w', None) \<Rightarrow> fresh_run ev cfg ctx es w')"

lemma main_loop_touches:
  assumes "core_inv TR UR (w_core w)" and "fresh_run ev cfg ctx es w" and "main_loop ev cfg ctx es w = (w', r)"
  shows "core_inv TR UR (w_core w') \<and>
    touches (sc_session_id ctx) (\<Union>e\<in>set es. unregistered_by ev e) (abs_core (w_core w)) (abs_core (w_core w'))"
  using assms
proof (induction es arbitrary: w)
  case (Cons e es)
  obtain u x where st: "main_step ev cfg ctx e w = (u, x)" by fastforce
  have ef: "event_fresh e w" using Cons.prems(2) by simp
  note one = main_step_touches[OF Cons.prems(1) ef st]
  show ?case
  proof (cases x)
    case None
    have "core_inv TR UR (w_core w') \<and> touches (sc_session_id ctx) (\<Union>e\<in>set es. unregistered_by ev e)
        (abs_core (w_core u)) (abs_core (w_core w'))"
      by (rule Cons.IH) (use one Cons.prems st None in auto)
    then show ?thesis using one touches_trans by fastforce
  next
    case (Some y)
    then have "w' = u" using Cons.prems(3) st by simp
    then show ?thesis using one touches_trans[OF _ touches_refl] by fastforce
  qed
qed simp

lemma fold_log_unregistered_core [simp]: "w_core (fold (log_unregistered now) ms w) = w_core w"
  by (induction ms arbitrary: w) simp_all

lemma session_cleanup_core: "w_core (session_cleanup now s w) = remove_session s (w_core w)"
  by (simp add: session_cleanup_def Let_def)

lemma verify_token_sel:
  "verify_token ev now raw w = (w', r) \<Longrightarrow>
     w_core w' = w_core w \<and> w_sent w' = w_sent w \<and> w_audit w' = w_audit w \<and> w_ws_up w' = w_ws_up w \<and>
     w_db_up w' = w_db_up w \<and> w_log w' = w_log w"
  by (auto simp: verify_token_def split: if_splits option.splits)

lemma resolve_auth_sel:
  "resolve_auth ev cfg now tok w = (w', t, a) \<Longrightarrow>
     w_core w' = w_core w \<and> w_sent w' = w_sent w \<and> w_audit w' = w_audit w \<and> w_ws_up w' = w_ws_up w \<and>
     w_db_up w' = w_db_up w \<and> w_log w' = w_log w"
  by (auto simp: resolve_auth_def dest: verify_token_sel split: if_splits prod.splits sum.splits option.splits)

section \<open>Authentication\<close>

text \<open>The tokens the server accepts: every one when authentication is off, the admin token, and those whose
  hash the database has.\<close>

definition accepts :: "env \<Rightarrow> server_config \<Rightarrow> string \<Rightarrow> world \<Rightarrow> bool" where
  "accepts ev cfg tok w \<longleftrightarrow>
     \<not> cf_require_auth cfg \<or> secret_eq (ev_hash ev) tok (cf_admin_token cfg) \<or>
     w_db_up w \<and> list_ex (\<lambda>t. tk_token_hash t = ev_hash ev tok) (w_tokens w)"

lemma find_list_ex: "(\<exists>x. find P xs = Some x) \<longleftrightarrow> list_ex P xs"
  by (induction xs) auto

lemma resolve_auth_accepts:
  assumes "resolve_auth ev cfg now tok w = (w', t, a)"
  shows "a \<longleftrightarrow> accepts ev cfg tok w"
  using assms find_list_ex[of "\<lambda>t. tk_token_hash t = ev_hash ev tok" "w_tokens w"]
  by (auto simp: resolve_auth_def accepts_def verify_token_def split: if_splits prod.splits sum.splits option.splits)

lemma accepts_core [simp]: "accepts ev cfg tok (w\<lparr>w_core := c\<rparr>) = accepts ev cfg tok w"
  by (simp add: accepts_def)

text \<open>The handshake on an \<open>Auth\<close> frame, by the limiter's answer and the decision on the token.\<close>

lemma auth_handshake_cases:
  assumes frame: "parse_binary ev msg = Inr (Auth tok ver)"
    and lim: "is_limited now (fst peer) (core_auth_limiter (w_core w)) = (limiter, limited)"
    and res: "resolve_auth ev cfg now tok (w\<lparr>w_core := (w_core w)\<lparr>core_auth_limiter := limiter\<rparr>\<rparr>) = (w2, db, a)"
  shows "auth_handshake ev cfg now sid peer tx (AuthMsg msg) w =
    (if limited
     then (audit (AuditAuthAttempt peer False None) (fst (send_frame (AuthError ''too many failed auth attempts'')
             (w\<lparr>w_core := (w_core w)\<lparr>core_auth_limiter := limiter\<rparr>\<rparr>))), Inl (AuthErr ''auth throttled''))
     else if \<not> a
     then (audit (AuditAuthAttempt peer False None) (fst (send_frame (AuthError ''invalid token'')
             (w2\<lparr>w_core := (w_core w2)\<lparr>core_auth_limiter :=
                  record_failure now (fst peer) (core_auth_limiter (w_core w2))\<rparr>\<rparr>))), Inl (AuthErr ''invalid token''))
     else let w3 = audit (AuditAuthAttempt peer True (Some tok)) (w2\<lparr>w_core := fst (register_session now sid peer tok
                     (map_option tk_id db) (Option.bind db tk_user_id) tx (w_core w2))\<rparr>)
          in case send_frame (AuthOk sid (case cf_override_server_version cfg of
                    Some v \<Rightarrow> v | None \<Rightarrow> ev_version ev)) w3 of
               (w4, Inl e) \<Rightarrow> (w4, Inl e) | (w4, Inr _) \<Rightarrow> (w4, Inr (sid, db)))"
  by (simp add: auth_handshake_def frame lim res register_session_def Let_def)

lemma core_kept_auth: "core_kept TR UR c (c\<lparr>core_auth_limiter := l\<rparr>)"
proof -
  have "tables_inv TR UR (c\<lparr>core_auth_limiter := l\<rparr>) = tables_inv TR UR c"
      "abs_core (c\<lparr>core_auth_limiter := l\<rparr>) = abs_core c"
    by (auto simp: tables_inv_def abs_core_def tunnel_info_at_table fun_eq_iff split: option.split tunnel_key.split)
  then show ?thesis by (simp add: core_kept_def core_inv_def sessions_ok_def owner_abs)
qed

lemma register_session_kept:
  "dm_get (sessions c) s = None \<Longrightarrow> core_kept TR UR c (fst (register_session now s addr tok db user tx c))"
  unfolding core_kept_def by (rule impI, rule register_session_inv[OF _ _ prod.collapse[symmetric]])

text \<open>The handshake adds at most the session record.\<close>

lemma auth_handshake_kept:
  assumes new: "dm_get (sessions (w_core w)) sid = None"
    and step: "auth_handshake ev cfg now sid peer tx input w = (w', r)"
  shows "core_kept TR UR (w_core w) (w_core w')" and "\<And>s db. r = Inr (s, db) \<Longrightarrow> s = sid"
proof -
  have "core_kept TR UR (w_core w) (w_core w') \<and> (\<forall>s db. r = Inr (s, db) \<longrightarrow> s = sid)"
  proof (cases "\<exists>msg tok ver. input = AuthMsg msg \<and> parse_binary ev msg = Inr (Auth tok ver)")
    case True
    then obtain msg tok ver where i: "input = AuthMsg msg" and f: "parse_binary ev msg = Inr (Auth tok ver)"
      by blast
    obtain limiter limited where l: "is_limited now (fst peer) (core_auth_limiter (w_core w)) = (limiter, limited)"
      by fastforce
    obtain w2 db a where ra: "resolve_auth ev cfg now tok
        (w\<lparr>w_core := (w_core w)\<lparr>core_auth_limiter := limiter\<rparr>\<rparr>) = (w2, db, a)"
      by (metis prod_cases3)
    have w2: "w_core w2 = (w_core w)\<lparr>core_auth_limiter := limiter\<rparr>" using resolve_auth_sel[OF ra] by simp
    have reg: "core_kept TR UR (w_core w) (fst (register_session now sid peer tok x y tx (w_core w2)))" for x y
      using core_kept_trans[OF core_kept_auth register_session_kept] new by (simp add: w2)
    show ?thesis
      using step[unfolded i auth_handshake_cases[OF f l ra]] reg core_kept_auth
      by (auto simp: Let_def w2 send_frame_def split: if_splits)
  next
    case False
    then have "w_core w' = w_core w \<and> (\<exists>e. r = Inl e)"
      using step by (auto simp: auth_handshake_def split: auth_input.splits sum.splits control_frame.splits)
    then show ?thesis by auto
  qed
  then show "core_kept TR UR (w_core w) (w_core w')" and "\<And>s db. r = Inr (s, db) \<Longrightarrow> s = sid" by blast+
qed

section \<open>Example\<close>

text \<open>A server with authentication on, one user token and TCP ports 100 and 101.\<close>

definition example_token :: token where
  "example_token = \<lparr>tk_id = ''1'', tk_token_hash = ''#tok'', tk_label = ''ci'', tk_created_at = 0,
     tk_last_used_at = None, tk_scope = None, tk_user_id = None, tk_expires_at = None, tk_tier = None,
     tk_tunnel_limit = None, tk_status = ''active'', tk_unlimited = False\<rparr>"

definition example_register :: control_frame where
  "example_register = RegisterTunnel ''r1'' Tcp None ''localhost:22'' None None None None None None"

definition example_env :: env where
  "example_env = \<lparr>ev_hash = (\<lambda>s. CHR ''#'' # s),
     ev_decode = (\<lambda>d. if d = ''auth'' then Inr (Auth ''tok'' ''1'') else if d = ''reg'' then Inr example_register
                       else Inl ''bad frame''),
     ev_frame_debug = (\<lambda>_. []), ev_uuid = (\<lambda>_. []), ev_trim = id, ev_addr = (\<lambda>_. []),
     ev_plan = (\<lambda>_. None), ev_month = (\<lambda>_. 0), ev_channel_open = (\<lambda>_. True), ev_version = ''0.1''\<rparr>"

definition example_cfg :: server_config where
  "example_cfg = \<lparr>cf_require_auth = True, cf_admin_token = ''admin'', cf_lb_enabled = True,
     cf_alert_webhook_url = None, cf_domain = ''ex.com'', cf_region_id = ''eu'', cf_p2p_enabled = True,
     cf_override_server_version = None\<rparr>"

definition example_world :: "bool \<Rightarrow> world" where
  "example_world up = \<lparr>w_core = tunnel_core_new (100, 101) (0, 0) 2 10 0 5, w_tokens = [example_token],
     w_log = [], w_db_up = True, w_ws_up = up, w_sent = [], w_control = [], w_audit = [], w_alerts = [],
     w_reports = [], w_relays = [], w_pongs = []\<rparr>"

lemmas example_defs = example_token_def example_register_def example_env_def example_cfg_def example_world_def

lemma example_world_inv: "core_inv (set (port_range 100 101)) {} (w_core (example_world up))"
  using core_inv_new[of 100 101 0 0] by (simp add: example_world_def)

section \<open>The theorems\<close>

text \<open>C17. The handshake on an Auth frame: it succeeds exactly when the peer is not throttled, the token is
  accepted and the reply can be written; a throttled peer does not reach the token table; only a rejected
  token counts as a failure; the session is registered exactly when the token is accepted, even if the reply
  is then lost; one audit event is written, which carries the raw token on success.\<close>

theorem auth_exact:
  assumes frame: "parse_binary ev msg = Inr (Auth tok ver)"
    and lim: "is_limited now (fst peer) (core_auth_limiter (w_core w)) = (limiter, limited)"
    and step: "auth_handshake ev cfg now sid peer tx (AuthMsg msg) w = (w', r)"
  shows "((\<exists>db. r = Inr (sid, db)) \<longleftrightarrow> \<not> limited \<and> accepts ev cfg tok w \<and> w_ws_up w) \<and>
    (dm_contains (sessions (w_core w')) sid \<longleftrightarrow>
       dm_contains (sessions (w_core w)) sid \<or> \<not> limited \<and> accepts ev cfg tok w) \<and>
    core_auth_limiter (w_core w') =
      (if limited \<or> accepts ev cfg tok w then limiter else record_failure now (fst peer) limiter) \<and>
    (limited \<longrightarrow> w_tokens w' = w_tokens w) \<and>
    w_audit w' = w_audit w @ [AuditAuthAttempt peer (\<not> limited \<and> accepts ev cfg tok w)
      (if \<not> limited \<and> accepts ev cfg tok w then Some tok else None)]"
proof -
  define w1 where "w1 = w\<lparr>w_core := (w_core w)\<lparr>core_auth_limiter := limiter\<rparr>\<rparr>"
  obtain w2 db a where ra: "resolve_auth ev cfg now tok w1 = (w2, db, a)" by (metis prod_cases3)
  have a: "a = accepts ev cfg tok w" using resolve_auth_accepts[OF ra] by (simp add: w1_def)
  note w2 = resolve_auth_sel[OF ra]
  note h = step[unfolded auth_handshake_cases[OF frame lim ra[unfolded w1_def]], folded w1_def]
  consider "limited" | "\<not> limited" "\<not> a" | "\<not> limited" "a" by blast
  then show ?thesis
  proof cases
    case 1
    then show ?thesis using h by (auto simp: w1_def)
  next
    case 2
    then show ?thesis using h w2 a by (auto simp: w1_def)
  next
    case 3
    then show ?thesis using h w2 a
      by (auto simp: w1_def send_frame_def audit_def register_session_def dm_contains_def split: if_splits)
  qed
qed

theorem auth_exact_witness:
  "(\<exists>db. snd (auth_handshake example_env example_cfg 0 7 (IpV4 1, 9) 3 (AuthMsg (WsBinary ''auth'')) (example_world True))
      = Inr (7, db)) \<and>
   dm_contains (sessions (w_core (fst (auth_handshake example_env example_cfg 0 7 (IpV4 1, 9) 3
      (AuthMsg (WsBinary ''auth'')) (example_world True))))) 7"
proof -
  have p: "parse_binary example_env (WsBinary ''auth'') = Inr (Auth ''tok'' ''1'')"
    by (simp add: parse_binary_def example_env_def)
  have l: "is_limited 0 (fst (IpV4 1, 9)) (core_auth_limiter (w_core (example_world True))) =
      (core_auth_limiter (w_core (example_world True)), False)"
    by (simp add: example_world_def tunnel_core_new_def auth_failure_limiter_new_def auth_with_window_def
        is_limited_def)
  have a: "accepts example_env example_cfg ''tok'' (example_world True)" "w_ws_up (example_world True)"
    by (simp_all add: accepts_def example_defs)
  show ?thesis using auth_exact[OF p l prod.collapse[symmetric]] a by blast
qed

text \<open>When the peer goes away between its Auth frame and the AuthOk reply, the session ends with an error
  and without the cleanup: the session stays in the router's table.\<close>

theorem auth_ok_failure_leaks_session:
  assumes frame: "parse_binary ev msg = Inr (Auth tok ver)"
    and lim: "is_limited now (fst peer) (core_auth_limiter (w_core w)) = (limiter, False)"
    and acc: "accepts ev cfg tok w" and down: "\<not> w_ws_up w"
    and run: "run_session ev cfg now sid peer tx pipe (AuthMsg msg) events end_time w = (w', r)"
  shows "(\<exists>e. r = Some (Inl e)) \<and> dm_contains (sessions (w_core w')) sid"
proof -
  obtain w2 db a where ra: "resolve_auth ev cfg now tok
      (w\<lparr>w_core := (w_core w)\<lparr>core_auth_limiter := limiter\<rparr>\<rparr>) = (w2, db, a)" by (metis prod_cases3)
  have "a" using resolve_auth_accepts[OF ra] acc by simp
  moreover have "\<not> w_ws_up w2" using resolve_auth_sel[OF ra] down by simp
  ultimately show ?thesis using run
    by (auto simp: run_session_def auth_handshake_cases[OF frame lim ra] Let_def send_frame_def audit_def
        register_session_def dm_contains_def)
qed

theorem auth_ok_failure_leaks_session_witness:
  "dm_contains (sessions (w_core (fst (run_session example_env example_cfg 0 7 (IpV4 1, 9) 3 4
      (AuthMsg (WsBinary ''auth'')) [] 5 (example_world False))))) 7"
proof -
  have p: "parse_binary example_env (WsBinary ''auth'') = Inr (Auth ''tok'' ''1'')"
    by (simp add: parse_binary_def example_env_def)
  have l: "is_limited 0 (fst (IpV4 1, 9)) (core_auth_limiter (w_core (example_world False))) =
      (core_auth_limiter (w_core (example_world False)), False)"
    by (simp add: example_world_def tunnel_core_new_def auth_failure_limiter_new_def auth_with_window_def
        is_limited_def)
  have a: "accepts example_env example_cfg ''tok'' (example_world False)" "\<not> w_ws_up (example_world False)"
    by (simp_all add: accepts_def example_defs)
  show ?thesis using auth_ok_failure_leaks_session[OF p l a prod.collapse[symmetric]] by blast
qed

text \<open>C14. A RegisterTunnel frame gets exactly one reply, with its request id.  A TunnelError leaves the router
  and the tunnel log as they were; a TunnelRegistered is sent only for a token that is active, not
  expired (or unlimited) and not blocked by its plan, names the tunnel's real route, which is the only change
  of the table of live tunnels, and comes with an open log row.  With the database down the session may end
  instead, with nothing changed.\<close>

theorem register_reply:
  assumes inv: "core_inv TR UR (w_core w)" and fresh: "fresh_tunnel_id tid (w_core w)" and up: "w_ws_up w"
    and step: "handle_frame ev cfg ctx now (rnd, tid, conn, sub)
      (RegisterTunnel req prot sd la sh name grp kh hc cs) w = (w', r)"
  shows "(r = Inl db_failure \<and> w' = w \<and> \<not> w_db_up w) \<or>
    (\<exists>msg. r = Inr () \<and> w_sent w' = w_sent w @ [TunnelError req msg] \<and> w_core w' = w_core w \<and> w_log w' = w_log w) \<or>
    (\<exists>k proto_str label url port nm notice.
       r = Inr () \<and> w_sent w' = w_sent w @ [TunnelRegistered req tid url port nm notice] \<and>
       key_serves prot k \<and> announcement_for cfg prot tid k = (tid, proto_str, label, url, port, nm) \<and>
       token_allows ev now (sc_db_token ctx) sd (surface_parse (ev_trim ev) cs) w \<and>
       abs_core (w_core w') = (abs_core (w_core w))(tid \<mapsto> (sc_session_id ctx, k)) \<and>
       w_log w' = (if w_db_up w
         then log_tunnel_registered now tid proto_str label (sc_session_id ctx)
                (map_option tk_id (sc_db_token ctx)) (cf_region_id cfg)
                (Option.bind (sc_db_token ctx) tk_user_id) (w_log w)
         else w_log w))"
proof -
  have "register_frame ev cfg ctx now rnd tid req prot sd sh name grp kh hc cs w = (w', r)"
    using step by (simp add: handle_frame_def)
  with inv fresh show ?thesis
  proof (cases rule: register_frame_cases)
    case failed
    then show ?thesis by blast
  next
    case (refused msg u)
    then have "r = Inr () \<and> w_sent w' = w_sent w @ [TunnelError req msg] \<and> w_core w' = w_core w \<and> w_log w' = w_log w"
      using up by (auto simp: send_frame_def)
    then show ?thesis by blast
  next
    case (accepted k url port nm notice u proto_str label)
    then have "w' = u\<lparr>w_sent := w_sent w @ [TunnelRegistered req tid url port nm notice]\<rparr>" "r = Inr ()"
      using up by (auto simp: send_frame_def)
    then show ?thesis using accepted(2,3,5,6,9) by (intro disjI2) auto
  qed
qed

definition example_session_world :: world where
  "example_session_world = (example_world True)\<lparr>w_core := fst (register_session 0 7 (IpV4 1, 9) ''tok'' (Some ''1'') None 3
     (w_core (example_world True)))\<rparr>"

definition example_ctx :: session_ctx where
  "example_ctx = \<lparr>sc_session_id = 7, sc_db_token = Some example_token\<rparr>"

lemma example_session_inv: "core_inv (set (port_range 100 101)) {} (w_core example_session_world)"
proof -
  have "core_kept (set (port_range 100 101)) {} (w_core (example_world True)) (w_core example_session_world)"
    unfolding example_session_world_def
    using register_session_kept[of "w_core (example_world True)" 7]
    by (simp add: example_world_def tunnel_core_new_def)
  then show ?thesis using example_world_inv by (simp add: core_kept_def)
qed

lemma example_session_fresh: "fresh_tunnel_id 11 (w_core example_session_world)"
  by (simp add: fresh_tunnel_id_def example_session_world_def register_session_def example_world_def tunnel_core_new_def
      session_info_new_def)

theorem register_reply_witness:
  "\<exists>w' k. fst (handle_frame example_env example_cfg example_ctx 1 (0, 11, 0, 0) example_register example_session_world) = w' \<and>
     key_serves Tcp k \<and>
     abs_core (w_core w') = (abs_core (w_core example_session_world))(11 \<mapsto> (7, k)) \<and> length (w_sent w') = 1"
proof -
  define w' where "w' = fst (handle_frame example_env example_cfg example_ctx 1 (0, 11, 0, 0) example_register
    example_session_world)"
  have reply: "w_sent w' = [TunnelRegistered ''r1'' 11 ''tcp://ex.com:101'' (Some 101) None None]"
    unfolding w'_def example_session_world_def example_ctx_def example_defs tunnel_core_new_def
    by code_simp
  have up: "w_ws_up example_session_world" "w_db_up example_session_world" "w_sent example_session_world = []"
    by (simp_all add: example_session_world_def example_world_def)
  show ?thesis
    using register_reply[OF example_session_inv example_session_fresh up(1) prod.collapse[symmetric],
        of example_env example_cfg example_ctx 1 0 0 0 "''r1''" Tcp None "''localhost:22''" None None None None None None]
      reply up
    unfolding example_register_def[symmetric] w'_def[symmetric] by (auto simp: example_ctx_def)
qed

lemma tunnel_session_owner: "tunnel_session t c = owner c t"
  by (auto simp: tunnel_session_def owner_def tunnel_info_at_table table_info_def group_at_def option.map_comp comp_def
      Option.map_option_bind split: option.split tunnel_key.split)

text \<open>C15. What a frame does to the table of live tunnels: a registration adds at most its own tunnel to this
  session, no frame but UnregisterTunnel takes a tunnel out or changes its route, and a health report on a
  tunnel of another session changes nothing at all.  UnregisterTunnel removes the tunnel it names, whoever
  owns it.\<close>

theorem frame_isolation:
  assumes inv: "core_inv TR UR (w_core w)" and fresh: "fresh_tunnel_id tid (w_core w)"
    and step: "handle_frame ev cfg ctx now (rnd, tid, conn, sub) frame w = (w', r)"
  shows "core_inv TR UR (w_core w') \<and>
    frame_effect (sc_session_id ctx) tid frame (abs_core (w_core w)) (abs_core (w_core w')) \<and>
    (\<forall>t. (frame = TunnelHealthy t \<or> (\<exists>reason. frame = TunnelUnhealthy t reason)) \<and>
       owner (w_core w) t \<noteq> Some (sc_session_id ctx) \<longrightarrow> w' = w)"
proof -
  have "w' = w" if "frame = TunnelHealthy t \<or> (\<exists>reason. frame = TunnelUnhealthy t reason)"
      "owner (w_core w) t \<noteq> Some (sc_session_id ctx)" for t
    using that step by (auto simp: handle_frame_def healthy_frame_def unhealthy_frame_def tunnel_session_owner
        split: option.splits)
  then show ?thesis using handle_frame_effect[OF inv fresh step] by blast
qed

theorem frame_isolation_witness:
  "abs_core (w_core (fst (handle_frame example_env example_cfg \<lparr>sc_session_id = 8, sc_db_token = None\<rparr> 1 (0, 11, 0, 0)
     (UnregisterTunnel 10) example_session_world))) = (abs_core (w_core example_session_world))(10 := None)"
  using frame_isolation[OF example_session_inv example_session_fresh prod.collapse[symmetric],
      of example_env example_cfg "\<lparr>sc_session_id = 8, sc_db_token = None\<rparr>" 1 0 0 0 "UnregisterTunnel 10"]
  by (simp add: frame_effect_def)

lemma remove_session_gone:
  assumes "core_inv TR UR c"
  shows "\<not> dm_contains (sessions (remove_session s c)) s"
proof (cases "dm_get (sessions c) s")
  case (Some si)
  have "tables_inv TR UR (c\<lparr>sessions := dm_remove s (sessions c)\<rparr>)" using assms by (simp add: core_inv_def)
  then have "sessions (remove_session s c) = dm_remove s (sessions c)"
    using remove_tunnels_fold by (fastforce simp: remove_session_def Some)
  then show ?thesis by (simp add: dm_contains_def)
qed (simp add: remove_session_def dm_contains_def)

text \<open>A session that is not in the table owns no tunnel.\<close>

lemma no_session_no_owner:
  "core_inv TR UR c \<Longrightarrow> dm_get (sessions c) s = None \<Longrightarrow> abs_core c t \<noteq> Some (s, k)"
  using sessions_ok_owner[of c t s] by (auto simp: core_inv_def owner_abs)

text \<open>The events a session's identifiers are fresh for.\<close>

definition session_fresh ::
  "env \<Rightarrow> server_config \<Rightarrow> instant \<Rightarrow> uuid \<Rightarrow> socket_addr \<Rightarrow> nat \<Rightarrow> nat \<Rightarrow> auth_input \<Rightarrow> loop_event list \<Rightarrow> world \<Rightarrow> bool" where
  "session_fresh ev cfg now sid peer tx pipe input events w \<longleftrightarrow>
     dm_get (sessions (w_core w)) sid = None \<and>
     (case auth_handshake ev cfg now sid peer tx input w of
        (w1, Inl _) \<Rightarrow> True
      | (w1, Inr (s, db)) \<Rightarrow> fresh_run ev cfg \<lparr>sc_session_id = s, sc_db_token = db\<rparr> events
          (w1\<lparr>w_core := set_data_pipe s pipe (w_core w1)\<rparr>))"


definition example_events :: "loop_event list" where
  "example_events = [EvWsMessage 1 (0, 11, 0, 0) (WsBinary ''reg''), EvPingOut (Some 9), EvWsClosed]"

abbreviation example_run :: "world \<times> (server_error + unit) option" where
  "example_run \<equiv> run_session example_env example_cfg 0 7 (IpV4 1, 9) 3 4 (AuthMsg (WsBinary ''auth'')) example_events 5
     (example_world True)"


section \<open>The log at the end of a session\<close>

definition close_row :: "instant \<Rightarrow> live_tunnel_meter \<Rightarrow> tunnel_log_row \<Rightarrow> tunnel_log_row" where
  "close_row now m r =
     (if open_row (lm_tunnel_id m) r then (greatest_counters m r)\<lparr>tl_unregistered_at := Some now\<rparr> else r)"

definition no_overflow :: "live_tunnel_meter \<Rightarrow> tunnel_log_row \<Rightarrow> bool" where
  "no_overflow m r \<longleftrightarrow> (open_row (lm_tunnel_id m) r \<longrightarrow> tl_bytes_proxied (greatest_counters m r) \<le> i64_max)"

lemma log_unregistered_rows:
  assumes "w_db_up w" and "list_all (no_overflow m) (w_log w)"
  shows "w_log (log_unregistered now m w) = map (close_row now m) (w_log w)"
  using assms
  by (auto simp: log_unregistered_def log_tunnel_unregistered_def update_rows_def list_ex_iff list_all_iff
      no_overflow_def close_row_def)

lemma close_row_no_overflow:
  "no_overflow m r \<Longrightarrow> no_overflow m (close_row now m' r)"
  by (simp add: no_overflow_def close_row_def open_row_def)

lemma close_rows:
  assumes "w_db_up w" and "\<And>m. m \<in> set ms \<Longrightarrow> list_all (no_overflow m) (w_log w)"
  shows "w_log (fold (log_unregistered now) ms w) = map (fold (close_row now) ms) (w_log w)"
  using assms
proof (induction ms arbitrary: w)
  case (Cons m ms)
  have l: "w_log (log_unregistered now m w) = map (close_row now m) (w_log w)"
    using Cons.prems by (intro log_unregistered_rows) simp_all
  have "w_log (fold (log_unregistered now) ms (log_unregistered now m w)) =
      map (fold (close_row now) ms) (w_log (log_unregistered now m w))"
    using Cons.prems by (intro Cons.IH) (auto simp: l list_all_iff close_row_no_overflow)
  then show ?case by (simp add: l)
qed simp

lemma fold_close_row_keeps:
  "list_all (\<lambda>m. \<not> open_row (lm_tunnel_id m) r) ms \<Longrightarrow> fold (close_row now) ms r = r"
  by (induction ms) (simp_all add: close_row_def)

lemma close_row_closed: "tl_unregistered_at r \<noteq> None \<Longrightarrow> close_row now m r = r"
  by (auto simp: close_row_def open_row_def)

lemma fold_close_row_closed: "tl_unregistered_at r \<noteq> None \<Longrightarrow> fold (close_row now) ms r = r"
  by (induction ms) (simp_all add: close_row_closed)

lemma fold_close_row:
  assumes "tl_unregistered_at r = None" and "distinct (map lm_tunnel_id ms)" and "m \<in> set ms"
    and "lm_tunnel_id m = tl_tunnel_id r"
  shows "fold (close_row now) ms r = (greatest_counters m r)\<lparr>tl_unregistered_at := Some now\<rparr>"
  using assms(2-)
proof (induction ms)
  case (Cons x xs)
  show ?case
  proof (cases "x = m")
    case True
    then have "close_row now x r = (greatest_counters m r)\<lparr>tl_unregistered_at := Some now\<rparr>"
      using assms(1) Cons.prems by (simp add: close_row_def open_row_def)
    then show ?thesis by (simp add: fold_close_row_closed)
  next
    case False
    then have "lm_tunnel_id x \<noteq> tl_tunnel_id r" using Cons.prems by force
    then have "close_row now x r = r" by (simp add: close_row_def open_row_def)
    then show ?thesis using Cons False by simp
  qed
qed simp

lemma table_info_id:
  "routes_ok K J R idx \<Longrightarrow> table_info R k t = Some i \<Longrightarrow> ti_tunnel_id i = t"
  unfolding table_info_def routes_ok_def group_ok_def by (auto simp: bind_eq_Some_conv)

lemma tunnel_info_id:
  assumes inv: "tables_inv TR UR c" and i: "tunnel_info_at t c = Some i"
  shows "ti_tunnel_id i = t"
proof -
  have p2p: "ti_tunnel_id (pp_tunnel_info p) = t"
    if "dm_get (tunnel_index c) t = Some (KP2p n)" "dm_get (p2p_tunnels c) n = Some p" for n p
    using inv that unfolding tables_inv_def p2p_ok_def by fastforce
  show ?thesis using i inv p2p
    by (auto dest: table_info_id simp: tunnel_info_at_table tables_inv_def split: option.splits tunnel_key.splits)
qed

lemma tunnel_meter_id:
  assumes "tables_inv TR UR c"
  shows "lm_tunnel_id (tunnel_meter t c) = t"
  using tunnel_info_id[OF assms, of t]
  by (simp add: tunnel_meter_def meter_snapshot_def meter_zeros_def split: option.split)

text \<open>Cleanup with the database up: every open log row of a tunnel of the session is closed at that time with
  the tunnel's final counters, and every other row is as it was, unless a byte total leaves the range of the
  column.\<close>

theorem session_cleanup_closes_rows:
  assumes inv: "core_inv TR UR (w_core w)" and si: "dm_get (sessions (w_core w)) sid = Some si" and up: "w_db_up w"
    and range: "\<forall>t\<in>set (si_tunnels si). list_all (no_overflow (tunnel_meter t (w_core w))) (w_log w)"
  shows "w_log (session_cleanup now sid w) =
    map (\<lambda>r. if tl_tunnel_id r \<in> set (si_tunnels si) \<and> tl_unregistered_at r = None
             then (greatest_counters (tunnel_meter (tl_tunnel_id r) (w_core w)) r)\<lparr>tl_unregistered_at := Some now\<rparr>
             else r) (w_log w)"
proof -
  let ?ms = "map (\<lambda>t. tunnel_meter t (w_core w)) (si_tunnels si)"
  have id: "lm_tunnel_id (tunnel_meter t (w_core w)) = t" for t
    using inv tunnel_meter_id by (auto simp: core_inv_def)
  have dist: "distinct (map lm_tunnel_id ?ms)"
    using inv si by (simp add: comp_def id core_inv_def sessions_ok_def)
  have "w_log (session_cleanup now sid w) = map (fold (close_row now) ?ms) (w_log w)"
    using close_rows[OF up, of ?ms now] range by (auto simp: session_cleanup_def si Let_def)
  moreover have "fold (close_row now) ?ms r =
      (if tl_tunnel_id r \<in> set (si_tunnels si) \<and> tl_unregistered_at r = None
       then (greatest_counters (tunnel_meter (tl_tunnel_id r) (w_core w)) r)\<lparr>tl_unregistered_at := Some now\<rparr>
       else r)" for r
  proof (cases "tl_tunnel_id r \<in> set (si_tunnels si) \<and> tl_unregistered_at r = None")
    case True
    then show ?thesis using fold_close_row[OF _ dist, of r "tunnel_meter (tl_tunnel_id r) (w_core w)" now]
      by (simp add: id)
  next
    case False
    then have "fold (close_row now) ?ms r = r"
      by (intro fold_close_row_keeps) (auto simp: list_all_iff open_row_def id)
    then show ?thesis using False by (simp only: if_False)
  qed
  ultimately show ?thesis by simp
qed

definition example_registered :: world where
  "example_registered = fst (handle_frame example_env example_cfg example_ctx 1 (0, 11, 0, 0) example_register
     example_session_world)"

theorem session_cleanup_closes_rows_witness:
  "map tl_unregistered_at (w_log example_registered) = [None] \<and>
   map tl_unregistered_at (w_log (session_cleanup 5 7 example_registered)) = [Some 5]"
proof -
  have inv: "core_inv (set (port_range 100 101)) {} (w_core example_registered)"
    unfolding example_registered_def
    using handle_frame_effect[OF example_session_inv example_session_fresh prod.collapse[symmetric]] by blast
  have si: "map_option si_tunnels (dm_get (sessions (w_core example_registered)) 7) = Some [11]"
    and up: "w_db_up example_registered"
    and rows: "map (\<lambda>r. (tl_tunnel_id r, tl_unregistered_at r)) (w_log example_registered) = [(11, None)]"
    and ovf: "list_all (no_overflow (tunnel_meter 11 (w_core example_registered))) (w_log example_registered)"
    unfolding example_registered_def example_session_world_def example_ctx_def example_defs tunnel_core_new_def
    by code_simp+
  obtain r where r: "w_log example_registered = [r]" "tl_tunnel_id r = 11" "tl_unregistered_at r = None"
    using rows by auto
  from si obtain si where si: "dm_get (sessions (w_core example_registered)) 7 = Some si" "si_tunnels si = [11]" by auto
  show ?thesis using session_cleanup_closes_rows[OF inv si(1) up, of 5] ovf si(2) r by simp
qed

section \<open>Heartbeat\<close>

text \<open>The pending ping after a run of pongs.\<close>

lemma heartbeat_pongs: "heartbeat_task (replicate n HbPong @ es) pending =
   heartbeat_task es (if n = 0 then pending else None)"
  by (induction n arbitrary: pending) (auto simp: heartbeat_step_def)

text \<open>The heartbeat with no other event: a ping goes out at a tick, and the session is given up at the next tick,
  30 seconds later, exactly when no pong came in between.  A pong that comes after the 10-second deadline
  but before that tick still saves the session.\<close>

theorem heartbeat_exact:
  "heartbeat_task ([HbTick now True] @ replicate n HbPong @ [HbTick (now + PING_INTERVAL) True]) pending =
     (if (case pending of Some sent_at \<Rightarrow> now - sent_at > PONG_DEADLINE | None \<Rightarrow> False) then None
      else if n = 0 then None else Some (Some (now + PING_INTERVAL)))"
  by (simp add: heartbeat_pongs heartbeat_step_def PING_INTERVAL_def PONG_DEADLINE_def)

end
