(* ===== verification/RustStr.thy ===== *)
theory RustStr
  imports Prelude "HOL-Library.Sublist"
begin

text \<open>
  What the source uses of \<open>str\<close> and of integer parsing: UTF-8 validation and lossy conversion, trimming
  of Unicode white space, substring search, case-insensitive comparison and \<open>from_str_radix\<close>.
  Strings are lists of bytes.
\<close>

section \<open>UTF-8\<close>

definition byte_at :: "nat \<Rightarrow> string \<Rightarrow> nat" where
  "byte_at i s = (if i < length s then byte_of (s ! i) else 0)"

definition in_range :: "nat \<Rightarrow> nat \<Rightarrow> nat \<Rightarrow> bool" where
  "in_range lo hi n \<longleftrightarrow> lo \<le> n \<and> n \<le> hi"

abbreviation cont_byte :: "nat \<Rightarrow> bool" where
  "cont_byte n \<equiv> in_range 0x80 0xBF n"

definition second_ok :: "nat \<Rightarrow> nat \<Rightarrow> bool" where
  "second_ok first second =
     (if first = 0xE0 then in_range 0xA0 0xBF second
      else if first = 0xED then in_range 0x80 0x9F second
      else if first = 0xF0 then in_range 0x90 0xBF second
      else if first = 0xF4 then in_range 0x80 0x8F second
      else cont_byte second)"

text \<open>The next character of a byte string: its length and whether it is well formed.  A malformed sequence is
  as long as its longest prefix that could start a character.\<close>

definition utf8_step :: "string \<Rightarrow> nat \<times> bool" where
  "utf8_step s =
     (let b = byte_at 0 s
      in if b < 0x80 then (1, True)
         else if in_range 0xC2 0xDF b then (if cont_byte (byte_at 1 s) then (2, True) else (1, False))
         else if in_range 0xE0 0xEF b then
           (if \<not> second_ok b (byte_at 1 s) then (1, False)
            else if \<not> cont_byte (byte_at 2 s) then (2, False) else (3, True))
         else if in_range 0xF0 0xF4 b then
           (if \<not> second_ok b (byte_at 1 s) then (1, False)
            else if \<not> cont_byte (byte_at 2 s) then (2, False)
            else if \<not> cont_byte (byte_at 3 s) then (3, False) else (4, True))
         else (1, False))"

lemma utf8_step_pos: "0 < fst (utf8_step s)"
  by (simp add: utf8_step_def Let_def)

lemma utf8_step_shrinks: "s \<noteq> [] \<Longrightarrow> (n, ok) = utf8_step s \<Longrightarrow> length (drop n s) < length s"
  using utf8_step_pos[of s] by (cases "utf8_step s") simp

function utf8_valid :: "string \<Rightarrow> bool" where
  "utf8_valid s =
     (if s = [] then True
      else case utf8_step s of (n, ok) \<Rightarrow> ok \<and> utf8_valid (drop n s))"
  by pat_completeness auto
termination
  by (relation "measure length") (simp_all add: utf8_step_shrinks del: length_drop)

function from_utf8_lossy :: "string \<Rightarrow> string" where
  "from_utf8_lossy s =
     (if s = [] then []
      else case utf8_step s of (n, ok) \<Rightarrow>
        (if ok then take n s else [CHR 0xEF, CHR 0xBF, CHR 0xBD]) @ from_utf8_lossy (drop n s))"
  by pat_completeness auto
termination
  by (relation "measure length") (simp_all add: utf8_step_shrinks del: length_drop)

declare utf8_valid.simps [simp del] from_utf8_lossy.simps [simp del]

definition is_ascii :: "string \<Rightarrow> bool" where
  "is_ascii s = list_all (\<lambda>c. byte_of c < 0x80) s"

lemma utf8_valid_ascii: "is_ascii s \<Longrightarrow> utf8_valid s"
proof (induction s)
  case (Cons c cs)
  then show ?case
    by (subst utf8_valid.simps) (simp add: is_ascii_def utf8_step_def byte_at_def)
qed (simp add: utf8_valid.simps)

section \<open>Trimming\<close>

text \<open>The characters with the Unicode property White\_Space, as bytes.\<close>

definition white_space :: "string list" where
  "white_space =
     map (\<lambda>n. [char_of (n::nat)]) [9, 10, 11, 12, 13, 32] @
     [[CHR 0xC2, CHR 0x85], [CHR 0xC2, CHR 0xA0], [CHR 0xE1, CHR 0x9A, CHR 0x80]] @
     map (\<lambda>n. [CHR 0xE2, CHR 0x80, char_of (n::nat)]) ([128..<139] @ [168, 169, 175]) @
     [[CHR 0xE2, CHR 0x81, CHR 0x9F], [CHR 0xE3, CHR 0x80, CHR 0x80]]"

lemma white_space_nonempty: "w \<in> set white_space \<Longrightarrow> w \<noteq> []"
  by (auto simp: white_space_def)

text \<open>Drop sequences of a list from the front as long as one of them is there.\<close>

function strip_front :: "string list \<Rightarrow> string \<Rightarrow> string" where
  "strip_front ws s =
     (case find (\<lambda>w. w \<noteq> [] \<and> prefix w s) ws of
        None \<Rightarrow> s
      | Some w \<Rightarrow> strip_front ws (drop (length w) s))"
  by pat_completeness auto
termination
  by (relation "measure (length \<circ> snd)")
    (auto simp: find_Some_iff dest!: prefix_length_le, metis diff_less length_greater_0_conv less_le_trans)

declare strip_front.simps [simp del]

definition str_trim_start :: "string \<Rightarrow> string" where
  "str_trim_start s = strip_front white_space s"

definition str_trim_end :: "string \<Rightarrow> string" where
  "str_trim_end s = rev (strip_front (map rev white_space) (rev s))"

definition str_trim :: "string \<Rightarrow> string" where
  "str_trim s = str_trim_end (str_trim_start s)"

definition trim_end_matches :: "(char \<Rightarrow> bool) \<Rightarrow> string \<Rightarrow> string" where
  "trim_end_matches P s = rev (dropWhile P (rev s))"

definition solid :: "char \<Rightarrow> bool" where
  "solid c \<longleftrightarrow> 32 < byte_of c \<and> byte_of c < 0x80"

lemma white_space_not_solid:
  assumes "w \<in> set white_space"
  shows "\<not> solid (hd w)" and "\<not> solid (last w)"
  using assms by (auto simp: white_space_def solid_def)

lemma strip_front_solid:
  assumes "\<forall>w\<in>set ws. w \<noteq> [] \<longrightarrow> \<not> solid (hd w)" and "s = [] \<or> solid (hd s)"
  shows "strip_front ws s = s"
proof -
  have "\<not> (w \<noteq> [] \<and> prefix w s)" if "w \<in> set ws" for w
    using assms that by (cases w; cases s) auto
  then have "find (\<lambda>w. w \<noteq> [] \<and> prefix w s) ws = None" by (auto simp: find_None_iff)
  then show ?thesis by (subst strip_front.simps) simp
qed

lemma str_trim_solid:
  assumes "s = [] \<or> solid (hd s) \<and> solid (last s)"
  shows "str_trim s = s"
proof -
  have "str_trim_start s = s"
    using assms white_space_not_solid by (auto simp: str_trim_start_def intro!: strip_front_solid)
  moreover have "strip_front (map rev white_space) (rev s) = rev s"
    using assms white_space_not_solid(2)
    by (intro strip_front_solid) (auto simp: hd_rev)
  ultimately show ?thesis by (simp add: str_trim_def str_trim_end_def)
qed

section \<open>Search and comparison\<close>

text \<open>The first position of a pattern (\<open>windows(n).position\<close>, \<open>find\<close>).\<close>

fun find_sub :: "string \<Rightarrow> string \<Rightarrow> nat option" where
  "find_sub p [] = (if p = [] then Some 0 else None)"
| "find_sub p (c # cs) = (if prefix p (c # cs) then Some 0 else map_option Suc (find_sub p cs))"

definition str_contains :: "string \<Rightarrow> string \<Rightarrow> bool" where
  "str_contains p s = (find_sub p s \<noteq> None)"

definition ascii_lower :: "string \<Rightarrow> string" where
  "ascii_lower = map to_ascii_lowercase"

definition eq_ignore_ascii_case :: "string \<Rightarrow> string \<Rightarrow> bool" where
  "eq_ignore_ascii_case a b = (ascii_lower a = ascii_lower b)"

lemma find_sub_Some:
  "find_sub p s = Some i \<Longrightarrow> prefix p (drop i s) \<and> i + length p \<le> length s"
proof (induction p s arbitrary: i rule: find_sub.induct)
  case (2 p c cs)
  then show ?case by (auto split: if_splits dest: prefix_length_le)
qed (simp split: if_splits)

lemma find_sub_append:
  "find_sub p s = Some i \<Longrightarrow> find_sub p (s @ t) = Some i"
proof (induction p s arbitrary: i rule: find_sub.induct)
  case (1 p)
  then show ?case by (cases t) (auto split: if_splits)
next
  case (2 p c cs)
  show ?case
  proof (cases "prefix p (c # cs)")
    case True
    then show ?thesis using 2 prefix_prefix[of p "c # cs" t] by simp
  next
    case False
    then obtain j where j: "find_sub p cs = Some j" "i = Suc j" using 2 by auto
    have "\<not> prefix p (c # cs @ t)"
      using find_sub_Some[OF j(1)] False by (metis append_Cons le_SucI length_Cons le_add2 le_trans prefix_length_prefix prefixI)
    then show ?thesis using 2 j False by simp
  qed
qed

lemma find_sub_None_prefix:
  "find_sub p (s @ t) = None \<Longrightarrow> find_sub p s = None"
  using find_sub_append by (cases "find_sub p s") auto

section \<open>Integers\<close>

definition to_digit :: "nat \<Rightarrow> char \<Rightarrow> nat option" where
  "to_digit radix c =
     (let b = byte_of c;
          d = (if in_range 48 57 b then b - 48 else if in_range 97 122 b then b - 87
               else if in_range 65 90 b then b - 55 else radix)
      in if d < radix then Some d else None)"

fun digits_value :: "nat \<Rightarrow> nat \<Rightarrow> nat \<Rightarrow> string \<Rightarrow> nat option" where
  "digits_value radix limit acc [] = Some acc"
| "digits_value radix limit acc (c # cs) =
     (case to_digit radix c of
        None \<Rightarrow> None
      | Some d \<Rightarrow> if acc * radix + d > limit then None else digits_value radix limit (acc * radix + d) cs)"

text \<open>\<open>u64::from_str_radix\<close>: an optional plus sign, then at least one digit, no overflow.\<close>

definition u64_limit :: nat where
  "u64_limit = 2 ^ 64 - 1"

definition u64_from_str_radix :: "string \<Rightarrow> nat \<Rightarrow> nat option" where
  "u64_from_str_radix s radix =
     (let digits = (if s \<noteq> [] \<and> hd s = CHR ''+'' then tl s else s)
      in if digits = [] then None else digits_value radix u64_limit 0 digits)"

lemma digits_value_append:
  "digits_value r lim acc (xs @ ys) = Option.bind (digits_value r lim acc xs) (\<lambda>v. digits_value r lim v ys)"
  by (induction xs arbitrary: acc) (simp_all split: option.split)

end
