(* ===== verification/Inspect.thy ===== *)
theory Inspect
  imports Ring RustStr
begin

text \<open>
  The client's inspector (\<open>inspect/mod.rs\<close>): captured bodies, the ring of exchanges, the session
  shown in the user interfaces, the log buffer and the latency percentiles.  The shared state behind
  the mutexes is the record \<open>inspector\<close>.
\<close>

section \<open>Captured bodies\<close>

definition BODY_CAP :: nat where
  "BODY_CAP = 64 * 1024"

record body =
  bd_bytes :: string
  bd_total :: nat
  bd_truncated :: bool

definition body_default :: body where
  "body_default = \<lparr>bd_bytes = [], bd_total = 0, bd_truncated = False\<rparr>"

definition body_push :: "string \<Rightarrow> body \<Rightarrow> body" where
  "body_push chunk b =
     (let total = bd_total b + length chunk;
          room = BODY_CAP - length (bd_bytes b)
      in if room = 0 then b\<lparr>bd_total := total, bd_truncated := total > length (bd_bytes b)\<rparr>
         else let bytes = bd_bytes b @ take (min room (length chunk)) chunk
              in b\<lparr>bd_bytes := bytes, bd_total := total, bd_truncated := total > length bytes\<rparr>)"

definition body_as_text :: "body \<Rightarrow> string option" where
  "body_as_text b = (if utf8_valid (bd_bytes b) then Some (bd_bytes b) else None)"

text \<open>What a body has captured when the bytes \<open>s\<close> were pushed.\<close>

definition body_of :: "string \<Rightarrow> body" where
  "body_of s = \<lparr>bd_bytes = take BODY_CAP s, bd_total = length s, bd_truncated = length s > BODY_CAP\<rparr>"

lemma body_push_eq:
  "body_push chunk b =
     (let bytes = bd_bytes b @ take (BODY_CAP - length (bd_bytes b)) chunk;
          total = bd_total b + length chunk
      in \<lparr>bd_bytes = bytes, bd_total = total, bd_truncated = length bytes < total\<rparr>)"
proof -
  have "take (min n (length chunk)) chunk = take n chunk" for n by (simp add: min_def)
  then have "bd_bytes b @ take (min (BODY_CAP - length (bd_bytes b)) (length chunk)) chunk =
      bd_bytes b @ take (BODY_CAP - length (bd_bytes b)) chunk" by simp
  then show ?thesis by (cases b) (simp only: body_push_def Let_def body.simps, simp)
qed

lemma body_push_append: "body_push b (body_push a x) = body_push (a @ b) x"
proof -
  have "BODY_CAP - (length (bd_bytes x) + min (length a) (BODY_CAP - length (bd_bytes x))) =
      BODY_CAP - (length (bd_bytes x) + length a)" by linarith
  then show ?thesis by (simp add: body_push_eq Let_def add.assoc)
qed

lemma body_push_default: "body_push s body_default = body_of s"
  by (auto simp: body_push_eq body_default_def body_of_def Let_def)

lemma body_of_Nil: "body_of [] = body_default"
  by (simp add: body_of_def body_default_def BODY_CAP_def)

lemma body_push_of: "body_push b (body_of a) = body_of (a @ b)"
  by (simp add: body_push_append flip: body_push_default)

section \<open>Exchanges and the inspector\<close>

type_synonym headers = "(string \<times> string) list"

record exchange =
  ex_id :: u64
  ex_conn_id :: uuid
  ex_tunnel :: string
  ex_client_addr :: string
  ex_method :: string
  ex_path :: string
  ex_host :: "string option"
  ex_status :: u16
  ex_request_headers :: headers
  ex_response_headers :: headers
  ex_request_body :: body
  ex_response_body :: body
  ex_duration_ms :: nat
  ex_started_at :: instant
  ex_replayed :: bool

datatype session_status = Connecting | Online | Reconnecting u32 | Closed

definition session_status_label :: "session_status \<Rightarrow> string" where
  "session_status_label s =
     (case s of
        Connecting \<Rightarrow> ''connecting''
      | Online \<Rightarrow> ''online''
      | Reconnecting attempt \<Rightarrow> ''reconnecting #'' @ dec_string (unat attempt)
      | Closed \<Rightarrow> ''closed'')"

record ui_tunnel =
  ut_name :: string
  ut_proto :: string
  ut_local :: string
  ut_public_url :: string
  ut_healthy :: "bool option"

record ui_session =
  us_status :: session_status
  us_server :: string
  us_region :: "string option"
  us_latency_ms :: "nat option"
  us_inspect_url :: "string option"
  us_tunnels :: "ui_tunnel list"

record inspector =
  in_capture :: bool
  in_store :: "exchange list"
  in_events :: "exchange list"
  in_next_id :: u64
  in_requests_total :: u64
  in_session :: ui_session
  in_logs :: "string list"
  in_shutdown :: bool

definition RING_CAPACITY :: nat where
  "RING_CAPACITY = 500"

definition LOG_CAPACITY :: nat where
  "LOG_CAPACITY = 500"

definition inspector_new :: "bool \<Rightarrow> string \<Rightarrow> string option \<Rightarrow> inspector" where
  "inspector_new capture server region =
     \<lparr>in_capture = capture, in_store = [], in_events = [], in_next_id = 1, in_requests_total = 0,
      in_session = \<lparr>us_status = Connecting, us_server = server, us_region = region, us_latency_ms = None,
        us_inspect_url = None, us_tunnels = []\<rparr>,
      in_logs = [], in_shutdown = False\<rparr>"

definition push_evict :: "nat \<Rightarrow> 'a \<Rightarrow> 'a list \<Rightarrow> 'a list" where
  "push_evict cap x xs = (if length xs = cap then tl xs else xs) @ [x]"

definition inspector_record :: "exchange \<Rightarrow> inspector \<Rightarrow> inspector" where
  "inspector_record e i =
     (let e' = e\<lparr>ex_id := in_next_id i\<rparr>
      in i\<lparr>in_next_id := in_next_id i + 1, in_store := push_evict RING_CAPACITY e' (in_store i),
           in_requests_total := in_requests_total i + 1, in_events := in_events i @ [e']\<rparr>)"

definition exchanges :: "inspector \<Rightarrow> exchange list" where
  "exchanges i = rev (in_store i)"

definition exchange_by_id :: "u64 \<Rightarrow> inspector \<Rightarrow> exchange option" where
  "exchange_by_id n i = find (\<lambda>e. ex_id e = n) (in_store i)"

definition inspector_clear :: "inspector \<Rightarrow> inspector" where
  "inspector_clear i = i\<lparr>in_store := []\<rparr>"

definition percentile :: "nat list \<Rightarrow> nat \<Rightarrow> nat" where
  "percentile xs pct =
     (if xs = [] then 0
      else let rank = (pct * length xs + 99) div 100
           in xs ! min (rank - 1) (length xs - 1))"

definition latency_percentiles :: "inspector \<Rightarrow> (nat \<times> nat) option" where
  "latency_percentiles i =
     (if in_store i = [] then None
      else let durations = sort (map ex_duration_ms (in_store i))
           in Some (percentile durations 50, percentile durations 90))"

definition set_status :: "session_status \<Rightarrow> inspector \<Rightarrow> inspector" where
  "set_status s i = i\<lparr>in_session := (in_session i)\<lparr>us_status := s\<rparr>\<rparr>"

definition set_latency :: "nat \<Rightarrow> inspector \<Rightarrow> inspector" where
  "set_latency ms i = i\<lparr>in_session := (in_session i)\<lparr>us_latency_ms := Some ms\<rparr>\<rparr>"

definition set_inspect_url :: "string \<Rightarrow> inspector \<Rightarrow> inspector" where
  "set_inspect_url url i = i\<lparr>in_session := (in_session i)\<lparr>us_inspect_url := Some url\<rparr>\<rparr>"

definition set_server :: "string \<Rightarrow> inspector \<Rightarrow> inspector" where
  "set_server server i = i\<lparr>in_session := (in_session i)\<lparr>us_server := server\<rparr>\<rparr>"

definition set_tunnels :: "ui_tunnel list \<Rightarrow> inspector \<Rightarrow> inspector" where
  "set_tunnels ts i = i\<lparr>in_session := (in_session i)\<lparr>us_tunnels := ts\<rparr>\<rparr>"

definition set_tunnel_health :: "string \<Rightarrow> bool \<Rightarrow> inspector \<Rightarrow> inspector" where
  "set_tunnel_health loc healthy i =
     i\<lparr>in_session := (in_session i)\<lparr>us_tunnels :=
        map (\<lambda>t. if ut_local t = loc then t\<lparr>ut_healthy := Some healthy\<rparr> else t) (us_tunnels (in_session i))\<rparr>\<rparr>"

definition local_addr_for :: "string \<Rightarrow> inspector \<Rightarrow> string option" where
  "local_addr_for tunnel i =
     map_option ut_local (find (\<lambda>t. ut_name t = tunnel) (us_tunnels (in_session i)))"

definition push_log :: "string \<Rightarrow> inspector \<Rightarrow> inspector" where
  "push_log line i = i\<lparr>in_logs := push_evict LOG_CAPACITY line (in_logs i)\<rparr>"

definition request_shutdown :: "inspector \<Rightarrow> inspector" where
  "request_shutdown i = i\<lparr>in_shutdown := True\<rparr>"

section \<open>The rings\<close>

text \<open>The source evicts when the length equals the capacity; below the capacity that is the common push.\<close>

lemma push_evict_last_n:
  "0 < cap \<Longrightarrow> length xs \<le> cap \<Longrightarrow> push_evict cap x xs = last_n cap (xs @ [x])"
  using ring_push_last_n[of cap xs x] by (auto simp: push_evict_def ring_push_def)

lemma record_store:
  "length (in_store i) \<le> RING_CAPACITY \<Longrightarrow>
   in_store (inspector_record e i) = last_n RING_CAPACITY (in_store i @ [e\<lparr>ex_id := in_next_id i\<rparr>])"
  by (simp add: inspector_record_def Let_def push_evict_last_n RING_CAPACITY_def)

interpretation log_ring: bounded_ring push_log in_logs LOG_CAPACITY
  by unfold_locales (simp_all add: LOG_CAPACITY_def push_log_def push_evict_last_n)

end
