(* ===== verification/Tap.thy ===== *)
theory Tap
  imports Inspect
begin

text \<open>
  The passive HTTP/1.x tap of the client (\<open>inspect/tap.rs\<close>): body framing, the incremental scanner of
  chunked bodies, the two parsers of a connection and the pairing of requests with responses.
  The head parser of the \<open>httparse\<close> crate is the record \<open>httparse\<close> of functions; the clock is an argument.
\<close>

definition MAX_HEAD :: nat where
  "MAX_HEAD = 64 * 1024"

definition MAX_PENDING :: nat where
  "MAX_PENDING = 64"

section \<open>Chunked bodies\<close>

datatype chunk_state = CsSize | CsData nat | CsDataCrlf nat | CsTrailer | CsDone

record chunk_scanner =
  cs_state :: chunk_state
  cs_line :: string

definition chunk_scanner_new :: chunk_scanner where
  "chunk_scanner_new = \<lparr>cs_state = CsSize, cs_line = []\<rparr>"

abbreviation LF :: char where
  "LF \<equiv> CHR 0x0A"

abbreviation CR :: char where
  "CR \<equiv> CHR 0x0D"

definition parse_chunk_size :: "string \<Rightarrow> nat option" where
  "parse_chunk_size line =
     (if \<not> utf8_valid line then None
      else let t = trim_end_matches (\<lambda>c. c = CR \<or> c = LF) line;
               t = str_trim (takeWhile (\<lambda>c. c \<noteq> CHR '';'') t)
           in if t = [] then None else u64_from_str_radix t 16)"

text \<open>The loop of \<open>ChunkScanner::feed\<close> on the bytes not yet read; \<open>i\<close> counts those read.\<close>

function chunk_feed ::
  "chunk_scanner \<Rightarrow> string \<Rightarrow> body option \<Rightarrow> nat \<Rightarrow> chunk_scanner \<times> body option \<times> nat \<times> bool" where
  "chunk_feed s buf sink i =
     (case buf of
        [] \<Rightarrow> (s, sink, i, cs_state s = CsDone)
      | b # bs \<Rightarrow>
          (case cs_state s of
             CsSize \<Rightarrow>
               let line = cs_line s @ [b]
               in if b = LF
                  then chunk_feed \<lparr>cs_state = (case parse_chunk_size line of
                           Some n \<Rightarrow> if n = 0 then CsTrailer else CsData n
                         | None \<Rightarrow> CsDone), cs_line = []\<rparr> bs sink (i + 1)
                  else if length line > 64
                  then chunk_feed \<lparr>cs_state = CsDone, cs_line = line\<rparr> bs sink (i + 1)
                  else chunk_feed (s\<lparr>cs_line := line\<rparr>) bs sink (i + 1)
           | CsData remaining \<Rightarrow>
               let k = min remaining (length buf);
                   left = remaining - k
               in chunk_feed (s\<lparr>cs_state := (if left = 0 then CsDataCrlf 0 else CsData left)\<rparr>) (drop k buf)
                    (map_option (body_push (take k buf)) sink) (i + k)
           | CsDataCrlf seen \<Rightarrow>
               chunk_feed (s\<lparr>cs_state := (if seen + 1 \<ge> 2 then CsSize else CsDataCrlf (seen + 1))\<rparr>) bs sink (i + 1)
           | CsTrailer \<Rightarrow>
               let line = cs_line s @ [b]
               in if b = LF
                  then (if line = [CR, LF] \<or> line = [LF]
                        then (\<lparr>cs_state = CsDone, cs_line = []\<rparr>, sink, i + 1, True)
                        else chunk_feed (s\<lparr>cs_line := []\<rparr>) bs sink (i + 1))
                  else if length line > MAX_HEAD
                  then (\<lparr>cs_state = CsDone, cs_line = line\<rparr>, sink, i + 1, True)
                  else chunk_feed (s\<lparr>cs_line := line\<rparr>) bs sink (i + 1)
           | CsDone \<Rightarrow> (s, sink, i, True)))"
  by pat_completeness auto
termination
  by (relation "measure (\<lambda>(s, buf, _, _). 2 * length buf + (case cs_state s of CsData _ \<Rightarrow> 1 | _ \<Rightarrow> 0))")
    (auto split: chunk_state.splits option.splits)

declare chunk_feed.simps [simp del]

section \<open>Framing\<close>

datatype framing = FrLength nat | FrChunked chunk_scanner | FrUntilEof

definition framing_feed :: "framing \<Rightarrow> string \<Rightarrow> body option \<Rightarrow> framing \<times> body option \<times> nat \<times> bool" where
  "framing_feed fr buf sink =
     (case fr of
        FrLength remaining \<Rightarrow>
          let k = min remaining (length buf)
          in (FrLength (remaining - k), map_option (body_push (take k buf)) sink, k, remaining - k = 0)
      | FrUntilEof \<Rightarrow> (FrUntilEof, map_option (body_push buf) sink, length buf, False)
      | FrChunked scanner \<Rightarrow>
          (case chunk_feed scanner buf sink 0 of (s, sink', n, fin) \<Rightarrow> (FrChunked s, sink', n, fin)))"

record httparse =
  hp_request :: "string \<Rightarrow> (string option \<times> string option \<times> headers) option"
  hp_response :: "string \<Rightarrow> (u16 option \<times> headers) option"

definition collect_headers :: "headers \<Rightarrow> headers" where
  "collect_headers hs = map (\<lambda>(n, v). (n, from_utf8_lossy v)) (filter (\<lambda>(n, v). n \<noteq> []) hs)"

definition parse_request_head :: "httparse \<Rightarrow> string \<Rightarrow> (string \<times> string \<times> headers) option" where
  "parse_request_head hp head =
     (case hp_request hp head of
        Some (Some m, Some p, hs) \<Rightarrow> Some (m, p, collect_headers hs)
      | _ \<Rightarrow> None)"

definition parse_response_head :: "httparse \<Rightarrow> string \<Rightarrow> (u16 \<times> headers) option" where
  "parse_response_head hp head =
     (case hp_response hp head of
        Some (Some code, hs) \<Rightarrow> Some (code, collect_headers hs)
      | _ \<Rightarrow> None)"

definition header_value :: "headers \<Rightarrow> string \<Rightarrow> string option" where
  "header_value hs name = map_option snd (find (\<lambda>(k, v). eq_ignore_ascii_case k name) hs)"

definition is_chunked :: "headers \<Rightarrow> bool" where
  "is_chunked hs =
     (case header_value hs ''transfer-encoding'' of
        Some v \<Rightarrow> str_contains ''chunked'' (ascii_lower v) | None \<Rightarrow> False)"

definition content_length :: "headers \<Rightarrow> nat option" where
  "content_length hs =
     Option.bind (header_value hs ''content-length'') (\<lambda>v. u64_from_str_radix (str_trim v) 10)"

definition request_framing :: "headers \<Rightarrow> framing option" where
  "request_framing hs =
     (if is_chunked hs then Some (FrChunked chunk_scanner_new)
      else case content_length hs of
             None \<Rightarrow> None
           | Some n \<Rightarrow> if n = 0 then None else Some (FrLength n))"

definition response_framing :: "u16 \<Rightarrow> string option \<Rightarrow> headers \<Rightarrow> framing option" where
  "response_framing status request_method hs =
     (if status = 204 \<or> status = 304 then None
      else if (case request_method of Some m \<Rightarrow> eq_ignore_ascii_case m ''HEAD'' | None \<Rightarrow> False) then None
      else if is_chunked hs then Some (FrChunked chunk_scanner_new)
      else case content_length hs of
             Some n \<Rightarrow> if n = 0 then None else Some (FrLength n)
           | None \<Rightarrow> Some FrUntilEof)"

section \<open>The parser of one direction\<close>

datatype parse_mode = MHead | MBody framing | MPassthrough

record dir_parser =
  dp_mode :: parse_mode
  dp_buffer :: string

definition dir_parser_new :: dir_parser where
  "dir_parser_new = \<lparr>dp_mode = MHead, dp_buffer = []\<rparr>"

definition passthrough :: "dir_parser \<Rightarrow> dir_parser" where
  "passthrough d = d\<lparr>dp_mode := MPassthrough, dp_buffer := []\<rparr>"

definition head_end :: "string \<Rightarrow> nat option" where
  "head_end buf =
     (case find_sub [CR, LF, CR, LF] buf of
        Some i \<Rightarrow> Some (i + 4)
      | None \<Rightarrow> map_option (\<lambda>i. i + 2) (find_sub [LF, LF] buf))"

lemma head_end_bounds: "head_end buf = Some e \<Longrightarrow> 2 \<le> e \<and> e \<le> length buf"
  by (auto simp: head_end_def dest!: find_sub_Some split: option.splits)

record pending_request =
  pr_method :: string
  pr_path :: string
  pr_host :: "string option"
  pr_headers :: headers
  pr_body :: body
  pr_start :: instant

record pending_response =
  ps_status :: u16
  ps_headers :: headers
  ps_body :: body

section \<open>Requests\<close>

definition back_body :: "pending_request list \<Rightarrow> body option" where
  "back_body ps = (if ps = [] then None else Some (pr_body (last ps)))"

definition set_back_body :: "body option \<Rightarrow> pending_request list \<Rightarrow> pending_request list" where
  "set_back_body b ps = (case b of None \<Rightarrow> ps | Some x \<Rightarrow> butlast ps @ [(last ps)\<lparr>pr_body := x\<rparr>])"

definition push_pending :: "pending_request \<Rightarrow> pending_request list \<Rightarrow> pending_request list" where
  "push_pending p ps = (if length ps \<ge> MAX_PENDING then tl ps else ps) @ [p]"

text \<open>The loop of \<open>feed_request\<close> after the bytes were appended to the buffer.\<close>

function request_loop ::
  "httparse \<Rightarrow> instant \<Rightarrow> dir_parser \<Rightarrow> pending_request list \<Rightarrow> dir_parser \<times> pending_request list" where
  "request_loop hp now d ps =
     (case dp_mode d of
        MPassthrough \<Rightarrow> (passthrough d, ps)
      | MHead \<Rightarrow>
          (case head_end (dp_buffer d) of
             None \<Rightarrow> (if length (dp_buffer d) > MAX_HEAD then passthrough d else d, ps)
           | Some e \<Rightarrow>
               (case parse_request_head hp (take e (dp_buffer d)) of
                  None \<Rightarrow> (passthrough d, ps)
                | Some (m, path, hs) \<Rightarrow>
                    request_loop hp now
                      \<lparr>dp_mode = (case request_framing hs of Some f \<Rightarrow> MBody f | None \<Rightarrow> MHead),
                       dp_buffer = drop e (dp_buffer d)\<rparr>
                      (push_pending \<lparr>pr_method = m, pr_path = path, pr_host = header_value hs ''host'',
                         pr_headers = hs, pr_body = body_default, pr_start = now\<rparr> ps)))
      | MBody f \<Rightarrow>
          if dp_buffer d = [] then (d, ps)
          else (case framing_feed f (dp_buffer d) (back_body ps) of
                  (f', sink, consumed, fin) \<Rightarrow>
                    let ps' = set_back_body sink ps;
                        buf = drop consumed (dp_buffer d)
                    in if fin then request_loop hp now \<lparr>dp_mode = MHead, dp_buffer = buf\<rparr> ps'
                       else (\<lparr>dp_mode = MBody f', dp_buffer = buf\<rparr>, ps')))"
  by pat_completeness auto
termination
  by (relation "measure (\<lambda>(_, _, d, _). 2 * length (dp_buffer d) + (case dp_mode d of MBody _ \<Rightarrow> 1 | _ \<Rightarrow> 0))")
    (auto dest!: head_end_bounds split: option.splits)

declare request_loop.simps [simp del]

section \<open>The tap of a connection\<close>

record tap_state =
  ts_inspector :: inspector
  ts_tunnel :: string
  ts_conn_id :: uuid
  ts_client_addr :: string
  ts_request :: dir_parser
  ts_response :: dir_parser
  ts_pending :: "pending_request list"
  ts_current_response :: "pending_response option"

definition tap_new :: "inspector \<Rightarrow> string \<Rightarrow> uuid \<Rightarrow> string \<Rightarrow> tap_state" where
  "tap_new i tunnel conn client =
     \<lparr>ts_inspector = i, ts_tunnel = tunnel, ts_conn_id = conn, ts_client_addr = client,
      ts_request = dir_parser_new, ts_response = dir_parser_new, ts_pending = [], ts_current_response = None\<rparr>"

definition feed_request :: "httparse \<Rightarrow> instant \<Rightarrow> string \<Rightarrow> tap_state \<Rightarrow> tap_state" where
  "feed_request hp now bytes t =
     (if dp_mode (ts_request t) = MPassthrough then t
      else case request_loop hp now ((ts_request t)\<lparr>dp_buffer := dp_buffer (ts_request t) @ bytes\<rparr>) (ts_pending t) of
             (d, ps) \<Rightarrow> t\<lparr>ts_request := d, ts_pending := ps\<rparr>)"

definition complete_exchange :: "instant \<Rightarrow> tap_state \<Rightarrow> tap_state" where
  "complete_exchange now t =
     (case ts_current_response t of
        None \<Rightarrow> t
      | Some r \<Rightarrow>
          let ex = (case ts_pending t of
                [] \<Rightarrow> \<lparr>ex_id = 0, ex_conn_id = ts_conn_id t, ex_tunnel = ts_tunnel t, ex_client_addr = ts_client_addr t,
                       ex_method = ''?'', ex_path = ''?'', ex_host = None, ex_status = ps_status r,
                       ex_request_headers = [], ex_response_headers = ps_headers r,
                       ex_request_body = body_default, ex_response_body = ps_body r, ex_duration_ms = 0,
                       ex_started_at = now, ex_replayed = False\<rparr>
              | p # _ \<Rightarrow> \<lparr>ex_id = 0, ex_conn_id = ts_conn_id t, ex_tunnel = ts_tunnel t, ex_client_addr = ts_client_addr t,
                       ex_method = pr_method p, ex_path = pr_path p, ex_host = pr_host p, ex_status = ps_status r,
                       ex_request_headers = pr_headers p, ex_response_headers = ps_headers r,
                       ex_request_body = pr_body p, ex_response_body = ps_body r,
                       ex_duration_ms = nat ((now - pr_start p) div 1000000),
                       ex_started_at = pr_start p, ex_replayed = False\<rparr>)
          in t\<lparr>ts_current_response := None, ts_pending := tl (ts_pending t),
               ts_inspector := inspector_record ex (ts_inspector t)\<rparr>)"

text \<open>The parts of the \<open>feed_response\<close> loop: a parsed head starts a response, an interim response is skipped,
  one without a body completes at once.  The parser of this direction is passed separately and put back by
  \<open>feed_response\<close>.\<close>

definition front_method :: "tap_state \<Rightarrow> string option" where
  "front_method t = (case ts_pending t of [] \<Rightarrow> None | p # _ \<Rightarrow> Some (pr_method p))"

definition start_response :: "u16 \<Rightarrow> headers \<Rightarrow> tap_state \<Rightarrow> tap_state" where
  "start_response status hs t =
     t\<lparr>ts_current_response := Some \<lparr>ps_status = status, ps_headers = hs, ps_body = body_default\<rparr>\<rparr>"

definition set_response_body :: "body option \<Rightarrow> tap_state \<Rightarrow> tap_state" where
  "set_response_body b t =
     (case b of
        None \<Rightarrow> t
      | Some x \<Rightarrow> t\<lparr>ts_current_response := map_option (\<lambda>r. r\<lparr>ps_body := x\<rparr>) (ts_current_response t)\<rparr>)"

function response_loop :: "httparse \<Rightarrow> instant \<Rightarrow> dir_parser \<Rightarrow> tap_state \<Rightarrow> dir_parser \<times> tap_state" where
  "response_loop hp now d t =
     (case dp_mode d of
        MPassthrough \<Rightarrow> (passthrough d, t)
      | MHead \<Rightarrow>
          (case head_end (dp_buffer d) of
             None \<Rightarrow> (if length (dp_buffer d) > MAX_HEAD then passthrough d else d, t)
           | Some e \<Rightarrow>
               (case parse_response_head hp (take e (dp_buffer d)) of
                  None \<Rightarrow> (passthrough d, t)
                | Some (status, hs) \<Rightarrow>
                    if 100 \<le> status \<and> status < 200 \<and> status \<noteq> 101
                    then response_loop hp now \<lparr>dp_mode = MHead, dp_buffer = drop e (dp_buffer d)\<rparr> t
                    else if status = 101
                    then (let t' = complete_exchange now (start_response status hs t)
                          in (passthrough d, t'\<lparr>ts_request := passthrough (ts_request t')\<rparr>))
                    else (case response_framing status (front_method t) hs of
                            Some f \<Rightarrow> response_loop hp now \<lparr>dp_mode = MBody f, dp_buffer = drop e (dp_buffer d)\<rparr>
                                         (start_response status hs t)
                          | None \<Rightarrow> response_loop hp now \<lparr>dp_mode = MHead, dp_buffer = drop e (dp_buffer d)\<rparr>
                                         (complete_exchange now (start_response status hs t)))))
      | MBody f \<Rightarrow>
          if dp_buffer d = [] then (d, t)
          else (case framing_feed f (dp_buffer d) (map_option ps_body (ts_current_response t)) of
                  (f', sink, consumed, fin) \<Rightarrow>
                    let t1 = set_response_body sink t;
                        buf = drop consumed (dp_buffer d)
                    in if fin
                       then response_loop hp now \<lparr>dp_mode = MHead, dp_buffer = buf\<rparr> (complete_exchange now t1)
                       else (\<lparr>dp_mode = MBody f', dp_buffer = buf\<rparr>, t1)))"
  by pat_completeness auto
termination
  by (relation "measure (\<lambda>(_, _, d, _). 2 * length (dp_buffer d) + (case dp_mode d of MBody _ \<Rightarrow> 1 | _ \<Rightarrow> 0))")
    (auto dest!: head_end_bounds split: option.splits)

declare response_loop.simps [simp del]

definition feed_response :: "httparse \<Rightarrow> instant \<Rightarrow> string \<Rightarrow> tap_state \<Rightarrow> tap_state" where
  "feed_response hp now bytes t =
     (if dp_mode (ts_response t) = MPassthrough then t
      else case response_loop hp now ((ts_response t)\<lparr>dp_buffer := dp_buffer (ts_response t) @ bytes\<rparr>) t of
             (d, t') \<Rightarrow> t'\<lparr>ts_response := d\<rparr>)"

definition tap_finish :: "instant \<Rightarrow> tap_state \<Rightarrow> tap_state" where
  "tap_finish now t =
     (case dp_mode (ts_response t) of MBody FrUntilEof \<Rightarrow> complete_exchange now t | _ \<Rightarrow> t)"

end
