(* ===== verification/TapProps.thy ===== *)
theory TapProps
  imports Tap
begin

text \<open>
  The tap: chunked bodies are found and captured exactly, however the bytes are split into buffers, and the
  requests and responses of a pipelined connection are recorded in order, each with its own body.
  Both directions of a connection share one contract, the locale \<open>framed_parser\<close>.
\<close>

section \<open>Splitting the input\<close>

lemma chunk_feed_Nil [simp]: "chunk_feed s [] sink i = (s, sink, i, cs_state s = CsDone)"
  by (subst chunk_feed.simps) simp

lemma chunk_feed_done: "cs_state s = CsDone \<Longrightarrow> chunk_feed s buf sink i = (s, sink, i, True)"
  by (subst chunk_feed.simps) (simp split: list.split)

definition then_feed ::
  "(chunk_scanner \<Rightarrow> body option \<Rightarrow> nat \<Rightarrow> chunk_scanner \<times> body option \<times> nat \<times> bool) \<Rightarrow>
   chunk_scanner \<times> body option \<times> nat \<times> bool \<Rightarrow> chunk_scanner \<times> body option \<times> nat \<times> bool" where
  "then_feed f r = (case r of (s, sink, j, fin) \<Rightarrow> if fin then (s, sink, j, True) else f s sink j)"

lemma then_feed_done [simp]: "then_feed f (s, sink, j, True) = (s, sink, j, True)"
  by (simp add: then_feed_def)

lemma then_feed_more [simp]: "then_feed f (s, sink, j, False) = f s sink j"
  by (simp add: then_feed_def)

lemma chunk_feed_data:
  "cs_state s = CsData n \<Longrightarrow> buf \<noteq> [] \<Longrightarrow> chunk_feed s buf sink i =
     (let k = min n (length buf)
      in chunk_feed (s\<lparr>cs_state := (if n - k = 0 then CsDataCrlf 0 else CsData (n - k))\<rparr>) (drop k buf)
           (map_option (body_push (take k buf)) sink) (i + k))"
  by (subst chunk_feed.simps) (simp add: Let_def split: list.split)

text \<open>In the data of a chunk a split anywhere is harmless.\<close>

lemma chunk_feed_data_split:
  assumes st: "cs_state s = CsData n" and a: "a \<noteq> []" and lt: "length a < n"
  shows "chunk_feed s (a @ b) sink i =
    chunk_feed (s\<lparr>cs_state := CsData (n - length a)\<rparr>) b (map_option (body_push a) sink) (i + length a)"
proof (cases "b = []")
  case True
  then show ?thesis using assms by (simp add: chunk_feed_data[OF st] Let_def)
next
  case False
  have k: "min n (length (a @ b)) = length a + min (n - length a) (length b)" using lt by simp
  show ?thesis
    unfolding chunk_feed_data[OF st, of "a @ b", simplified a append_is_Nil_conv simp_thms, OF TrueI] Let_def k
    using False lt
    by (simp add: chunk_feed_data[where n = "n - length a"] Let_def body_push_append option.map_comp comp_def
        add.assoc)
qed

text \<open>One step in each of the other states.\<close>

definition after_size :: "string \<Rightarrow> chunk_scanner" where
  "after_size line = \<lparr>cs_state = (case parse_chunk_size line of
     Some n \<Rightarrow> if n = 0 then CsTrailer else CsData n | None \<Rightarrow> CsDone), cs_line = []\<rparr>"

lemma chunk_feed_size:
  "cs_state s = CsSize \<Longrightarrow> chunk_feed s (c # cs) sink i =
     chunk_feed (if c = LF then after_size (cs_line s @ [c])
                 else if length (cs_line s @ [c]) > 64 then \<lparr>cs_state = CsDone, cs_line = cs_line s @ [c]\<rparr>
                 else s\<lparr>cs_line := cs_line s @ [c]\<rparr>) cs sink (i + 1)"
  by (subst chunk_feed.simps) (simp add: Let_def after_size_def)

lemma chunk_feed_crlf:
  "cs_state s = CsDataCrlf n \<Longrightarrow> chunk_feed s (c # cs) sink i =
     chunk_feed (s\<lparr>cs_state := (if n + 1 \<ge> 2 then CsSize else CsDataCrlf (n + 1))\<rparr>) cs sink (i + 1)"
  by (subst chunk_feed.simps) simp

lemma chunk_feed_trailer:
  "cs_state s = CsTrailer \<Longrightarrow> chunk_feed s (c # cs) sink i =
     (let line = cs_line s @ [c]
      in if c = LF then (if line = [CR, LF] \<or> line = [LF] then (\<lparr>cs_state = CsDone, cs_line = []\<rparr>, sink, i + 1, True)
                         else chunk_feed (s\<lparr>cs_line := []\<rparr>) cs sink (i + 1))
         else if length line > MAX_HEAD then (\<lparr>cs_state = CsDone, cs_line = line\<rparr>, sink, i + 1, True)
         else chunk_feed (s\<lparr>cs_line := line\<rparr>) cs sink (i + 1))"
  by (subst chunk_feed.simps) (simp add: Let_def)

lemma chunk_feed_append:
  "chunk_feed s (a @ b) sink i = then_feed (\<lambda>s sink j. chunk_feed s b sink j) (chunk_feed s a sink i)"
proof (induction s a sink i rule: chunk_feed.induct)
  case (1 s a sink i)
  show ?case
  proof (cases a)
    case Nil
    then show ?thesis using chunk_feed_done by (auto simp: then_feed_def)
  next
    case (Cons c cs)
    show ?thesis
    proof (cases "cs_state s")
      case (CsData n)
      show ?thesis
      proof (cases "n \<le> length a")
        case True
        have "chunk_feed (s\<lparr>cs_state := CsDataCrlf 0\<rparr>) (drop n a @ b) (map_option (body_push (take n a)) sink) (i + n) =
            then_feed (\<lambda>s sink j. chunk_feed s b sink j)
              (chunk_feed (s\<lparr>cs_state := CsDataCrlf 0\<rparr>) (drop n a) (map_option (body_push (take n a)) sink) (i + n))"
          using "1.IH"(4)[OF Cons CsData refl refl] True by simp
        then show ?thesis using True chunk_feed_data[OF CsData, of a] chunk_feed_data[OF CsData, of "a @ b"]
          by (simp add: Cons Let_def del: drop_Cons take_Cons flip: append_Cons)
      next
        case False
        then show ?thesis using chunk_feed_data_split[OF CsData, of a b] chunk_feed_data_split[OF CsData, of a "[]"]
          by (simp add: Cons)
      qed
    next
      case CsSize
      then show ?thesis using "1.IH"(1-3)[OF Cons CsSize refl] unfolding Cons append_Cons chunk_feed_size[OF CsSize]
        by (simp add: after_size_def)
    next
      case (CsDataCrlf n)
      then show ?thesis using "1.IH"(5)[OF Cons CsDataCrlf] unfolding Cons append_Cons chunk_feed_crlf[OF CsDataCrlf]
        by simp
    next
      case CsTrailer
      then show ?thesis using "1.IH"(6-7)[OF Cons CsTrailer refl]
        unfolding Cons append_Cons chunk_feed_trailer[OF CsTrailer] Let_def by simp
    next
      case CsDone
      then show ?thesis by (simp add: chunk_feed_done)
    qed
  qed
qed

section \<open>The chunked encoding\<close>

fun hex_string :: "nat \<Rightarrow> string" where
  "hex_string n = (if n < 16 then [hex_digit n] else hex_string (n div 16) @ [hex_digit (n mod 16)])"

declare hex_string.simps [simp del]

lemma hex_digit_cases:
  assumes "d < 16"
  shows "to_digit 16 (hex_digit d) = Some d \<and> solid (hex_digit d) \<and> hex_digit d \<notin> {CHR '';'', CHR ''+'', CR, LF}"
proof -
  have b: "byte_of (hex_digit d) = (if d < 10 then 48 + d else 87 + d)"
    using assms by (simp add: hex_digit_def)
  then have "hex_digit d \<noteq> c" if "byte_of c < 48 \<or> 58 \<le> byte_of c \<and> byte_of c \<le> 96" for c
    using that by (auto split: if_splits)
  then show ?thesis using assms b by (simp add: to_digit_def in_range_def solid_def Let_def)
qed

lemma hex_string_chars: "c \<in> set (hex_string n) \<Longrightarrow> solid c \<and> c \<notin> {CHR '';'', CHR ''+'', CR, LF}"
proof (induction n rule: hex_string.induct)
  case (1 n)
  then show ?case using hex_digit_cases by (subst (asm) hex_string.simps) (auto split: if_splits)
qed

lemma hex_string_nonempty [simp]: "hex_string n \<noteq> []"
  by (subst hex_string.simps) simp

lemma digits_value_hex: "n \<le> lim \<Longrightarrow> digits_value 16 lim 0 (hex_string n) = Some n"
proof (induction n rule: hex_string.induct)
  case (1 n)
  show ?case
  proof (cases "n < 16")
    case True
    then show ?thesis using 1 hex_digit_cases by (subst hex_string.simps) simp
  next
    case False
    have d: "n div 16 * 16 + n mod 16 = n" by simp
    show ?thesis using 1 False hex_digit_cases[of "n mod 16"] d
      by (subst hex_string.simps) (simp add: digits_value_append)
  qed
qed

lemma parse_hex: "n \<le> u64_limit \<Longrightarrow> u64_from_str_radix (hex_string n) 16 = Some n"
  using hex_string_chars[of "hd (hex_string n)" n] digits_value_hex[of n u64_limit]
  by (simp add: u64_from_str_radix_def)

lemma trim_end_keep: "\<not> P c \<Longrightarrow> trim_end_matches P (xs @ c # ys) = xs @ c # trim_end_matches P ys"
proof (cases "\<forall>y\<in>set ys. P y")
  case True
  moreover assume "\<not> P c"
  moreover have "dropWhile P (rev ys @ c # rev xs) = dropWhile P (c # rev xs)"
    by (rule dropWhile_append2) (simp add: True)
  moreover have "dropWhile P (rev ys) = []" using True by (simp add: dropWhile_eq_Nil_conv)
  ultimately show ?thesis by (simp add: trim_end_matches_def)
next
  case False
  then show ?thesis by (auto simp: trim_end_matches_def dropWhile_append1)
qed

text \<open>A size line: the length in hexadecimal and an optional extension.\<close>

definition ext_ok :: "string \<Rightarrow> bool" where
  "ext_ok e \<longleftrightarrow> (e = [] \<or> hd e = CHR '';'') \<and> is_ascii e \<and> LF \<notin> set e \<and> length e \<le> 47"

lemma solid_byte: "solid c \<Longrightarrow> byte_of c < 128"
  by (simp add: solid_def)

lemma parse_size_line:
  assumes n: "n \<le> u64_limit" and e: "ext_ok e"
  shows "parse_chunk_size (hex_string n @ e @ [CR, LF]) = Some n"
proof -
  let ?P = "\<lambda>c. c = CR \<or> c = LF"
  have hx: "solid c \<and> c \<noteq> CHR '';'' \<and> c \<noteq> CR \<and> c \<noteq> LF" if "c \<in> set (hex_string n)" for c
    using hex_string_chars[OF that] by simp
  have ascii: "is_ascii (hex_string n @ e @ [CR, LF])"
    using e hx solid_byte by (fastforce simp: is_ascii_def list_all_iff ext_ok_def)
  obtain h l where h: "hex_string n = h @ [l]" by (metis append_butlast_last_id hex_string_nonempty)
  have l: "\<not> ?P l" using hx[of l] h by simp
  have "takeWhile (\<lambda>c. c \<noteq> CHR '';'') (trim_end_matches ?P (hex_string n @ e @ [CR, LF])) = hex_string n"
  proof (cases e)
    case Nil
    have "trim_end_matches ?P (h @ l # [CR, LF]) = h @ l # trim_end_matches ?P [CR, LF]"
      using l by (rule trim_end_keep)
    then have "trim_end_matches ?P (hex_string n @ e @ [CR, LF]) = hex_string n"
      using h Nil by (simp add: trim_end_matches_def)
    then show ?thesis using hx by (simp add: takeWhile_eq_all_conv)
  next
    case (Cons c e')
    then have c: "c = CHR '';''" using e by (simp add: ext_ok_def)
    then have "trim_end_matches ?P (hex_string n @ c # (e' @ [CR, LF])) =
        hex_string n @ c # trim_end_matches ?P (e' @ [CR, LF])"
      by (intro trim_end_keep) simp
    then show ?thesis using hx c Cons by (simp add: takeWhile_append)
  qed
  moreover have "str_trim (hex_string n) = hex_string n"
    using hx[OF hd_in_set] hx[OF last_in_set] by (intro str_trim_solid) simp
  ultimately show ?thesis
    using utf8_valid_ascii[OF ascii] parse_hex[OF n] by (simp add: parse_chunk_size_def Let_def)
qed

lemma feed_size_line:
  "LF \<notin> set xs \<Longrightarrow> length l + length xs \<le> 64 \<Longrightarrow>
   chunk_feed \<lparr>cs_state = CsSize, cs_line = l\<rparr> (xs @ LF # rest) sink i =
   chunk_feed (after_size (l @ xs @ [LF])) rest sink (i + length xs + 1)"
proof (induction xs arbitrary: l i)
  case (Cons x xs)
  then have x: "x \<noteq> LF" by auto
  then show ?case using Cons Cons.IH[of "l @ [x]" "i + 1"] by (simp add: chunk_feed_size)
qed (simp add: chunk_feed_size)

lemma feed_trailer_line:
  "LF \<notin> set xs \<Longrightarrow> length l + length xs \<le> MAX_HEAD \<Longrightarrow>
   chunk_feed \<lparr>cs_state = CsTrailer, cs_line = l\<rparr> (xs @ LF # rest) sink i =
   (if l @ xs @ [LF] = [CR, LF] \<or> l @ xs @ [LF] = [LF]
    then (\<lparr>cs_state = CsDone, cs_line = []\<rparr>, sink, i + length xs + 1, True)
    else chunk_feed \<lparr>cs_state = CsTrailer, cs_line = []\<rparr> rest sink (i + length xs + 1))"
proof (induction xs arbitrary: l i)
  case (Cons x xs)
  then have x: "x \<noteq> LF" by auto
  then show ?case using Cons Cons.IH[of "l @ [x]" "i + 1"] by (simp add: chunk_feed_trailer Let_def)
qed (simp add: chunk_feed_trailer Let_def)

type_synonym chunk = "string \<times> string"

definition chunk_ok :: "chunk \<Rightarrow> bool" where
  "chunk_ok c \<longleftrightarrow> ext_ok (fst c) \<and> snd c \<noteq> [] \<and> length (snd c) \<le> u64_limit"

definition encode_chunk :: "chunk \<Rightarrow> string" where
  "encode_chunk c = hex_string (length (snd c)) @ fst c @ [CR, LF] @ snd c @ [CR, LF]"

definition trailer_ok :: "string \<Rightarrow> bool" where
  "trailer_ok t \<longleftrightarrow> t \<noteq> [] \<and> LF \<notin> set t \<and> length t < MAX_HEAD"

text \<open>The chunked encoding of RFC 9112: chunks, the last chunk, trailer fields and an empty line.\<close>

definition encode_chunked :: "chunk list \<Rightarrow> string list \<Rightarrow> string" where
  "encode_chunked cs ts = concat (map encode_chunk cs) @ ''0'' @ [CR, LF] @
     concat (map (\<lambda>t. t @ [CR, LF]) ts) @ [CR, LF]"

lemma hex_string_length: "n \<le> u64_limit \<Longrightarrow> length (hex_string n) \<le> 16"
proof -
  have "n < 16 ^ k \<Longrightarrow> 0 < k \<Longrightarrow> length (hex_string n) \<le> k" for k n :: nat
  proof (induction k arbitrary: n)
    case (Suc k)
    show ?case
    proof (cases "n < 16")
      case True
      then show ?thesis by (subst hex_string.simps) simp
    next
      case False
      then have "n div 16 < 16 ^ k" "0 < k" using Suc.prems by (auto simp: less_mult_imp_div_less mult.commute intro: gr0I)
      then show ?thesis using Suc.IH[of "n div 16"] False by (subst hex_string.simps) simp
    qed
  qed simp
  moreover assume "n \<le> u64_limit"
  ultimately show ?thesis by (simp add: u64_limit_def)
qed

abbreviation size_state :: chunk_scanner where
  "size_state \<equiv> \<lparr>cs_state = CsSize, cs_line = []\<rparr>"

lemma feed_chunk:
  assumes "chunk_ok c"
  shows "chunk_feed size_state (encode_chunk c @ rest) sink i =
    chunk_feed size_state rest (map_option (body_push (snd c)) sink) (i + length (encode_chunk c))"
proof -
  obtain e d where c: "c = (e, d)" by (cases c)
  let ?xs = "hex_string (length d) @ e @ [CR]"
  have ok: "ext_ok e" "d \<noteq> []" "length d \<le> u64_limit" using assms by (simp_all add: c chunk_ok_def)
  have "LF \<notin> set ?xs" "length ([]::string) + length ?xs \<le> 64"
    using ok hex_string_chars hex_string_length[OF ok(3)] by (auto simp: ext_ok_def)
  then have "chunk_feed size_state (?xs @ LF # d @ [CR, LF] @ rest) sink i =
      chunk_feed \<lparr>cs_state = CsData (length d), cs_line = []\<rparr> (d @ [CR, LF] @ rest) sink (i + length ?xs + 1)"
    using parse_size_line[OF ok(3,1)] ok(2) by (subst feed_size_line) (simp_all add: after_size_def)
  also have "\<dots> = chunk_feed \<lparr>cs_state = CsDataCrlf 0, cs_line = []\<rparr> (CR # LF # rest) (map_option (body_push d) sink)
      (i + length ?xs + 1 + length d)"
    using ok(2) by (subst chunk_feed_data[where n = "length d"]) (simp_all add: Let_def)
  also have "\<dots> = chunk_feed size_state rest (map_option (body_push d) sink) (i + length (encode_chunk c))"
    by (simp add: chunk_feed_crlf c encode_chunk_def add.assoc)
  finally show ?thesis by (simp add: c encode_chunk_def)
qed

lemma map_option_push_Nil: "map_option (body_push []) (Some (body_of s)) = Some (body_of s)"
  by (simp add: body_push_of)

lemma feed_chunks:
  "list_all chunk_ok cs \<Longrightarrow>
   chunk_feed size_state (concat (map encode_chunk cs) @ rest) (Some b) i =
   chunk_feed size_state rest (Some (if cs = [] then b else body_push (concat (map snd cs)) b))
     (i + length (concat (map encode_chunk cs)))"
proof (induction cs arbitrary: b i)
  case (Cons c cs)
  then show ?case using Cons.IH[of "body_push (snd c) b" "i + length (encode_chunk c)"]
    by (auto simp: feed_chunk body_push_append add.assoc)
qed simp

lemma feed_trailers:
  "list_all trailer_ok ts \<Longrightarrow>
   chunk_feed \<lparr>cs_state = CsTrailer, cs_line = []\<rparr> (concat (map (\<lambda>t. t @ [CR, LF]) ts) @ [CR, LF] @ rest) sink i =
   (\<lparr>cs_state = CsDone, cs_line = []\<rparr>, sink, i + length (concat (map (\<lambda>t. t @ [CR, LF]) ts)) + 2, True)"
proof (induction ts arbitrary: i)
  case Nil
  then show ?case using feed_trailer_line[of "[CR]" "[]" rest sink i] by (simp add: MAX_HEAD_def)
next
  case (Cons t ts)
  have t: "t \<noteq> []" "LF \<notin> set (t @ [CR])" "length (t @ [CR]) \<le> MAX_HEAD"
    using Cons.prems by (auto simp: trailer_ok_def)
  then show ?case
    using Cons feed_trailer_line[of "t @ [CR]" "[]" "concat (map (\<lambda>t. t @ [CR, LF]) ts) @ [CR, LF] @ rest" sink i]
    by (simp add: append_eq_Cons_conv add.assoc)
qed

lemma feed_encoded:
  assumes "list_all chunk_ok cs" and "list_all trailer_ok ts"
  shows "chunk_feed chunk_scanner_new (encode_chunked cs ts @ rest) (Some body_default) 0 =
    (\<lparr>cs_state = CsDone, cs_line = []\<rparr>, Some (body_of (concat (map snd cs))), length (encode_chunked cs ts), True)"
proof -
  let ?tr = "concat (map (\<lambda>t. t @ [CR, LF]) ts) @ [CR, LF] @ rest"
  have z: "hex_string 0 = ''0''" by code_simp
  have last: "chunk_feed size_state (''0'' @ [CR, LF] @ ?tr) sink i =
      chunk_feed \<lparr>cs_state = CsTrailer, cs_line = []\<rparr> ?tr sink (i + 3)" for sink i
    using feed_size_line[of "''0'' @ [CR]" "[]" ?tr sink i] parse_size_line[of 0 "[]"]
    by (simp add: after_size_def ext_ok_def is_ascii_def z numeral_3_eq_3)
  have body: "(if cs = [] then body_default else body_push (concat (map snd cs)) body_default) =
      body_of (concat (map snd cs))"
    by (simp add: body_push_default body_of_Nil)
  have "chunk_feed chunk_scanner_new (encode_chunked cs ts @ rest) (Some body_default) 0 =
      chunk_feed size_state (''0'' @ [CR, LF] @ ?tr) (Some (body_of (concat (map snd cs))))
        (length (concat (map encode_chunk cs)))"
    using feed_chunks[OF assms(1), of "''0'' @ [CR, LF] @ ?tr" body_default 0]
    by (simp add: encode_chunked_def chunk_scanner_new_def body)
  also have "\<dots> = (\<lparr>cs_state = CsDone, cs_line = []\<rparr>, Some (body_of (concat (map snd cs))),
      length (concat (map encode_chunk cs)) + 3 + length (concat (map (\<lambda>t. t @ [CR, LF]) ts)) + 2, True)"
    unfolding last by (rule feed_trailers[OF assms(2)])
  finally show ?thesis by (simp add: encode_chunked_def)
qed

text \<open>Feeding a list of buffers one after the other, as the parser does while the body has not ended.\<close>

fun feed_pieces ::
  "chunk_scanner \<Rightarrow> string list \<Rightarrow> body option \<Rightarrow> nat \<Rightarrow> chunk_scanner \<times> body option \<times> nat \<times> bool" where
  "feed_pieces s [] sink i = (s, sink, i, cs_state s = CsDone)"
| "feed_pieces s (x # xs) sink i = then_feed (\<lambda>s sink j. feed_pieces s xs sink j) (chunk_feed s x sink i)"

lemma feed_pieces_concat: "feed_pieces s xs sink i = chunk_feed s (concat xs) sink i"
  by (induction xs arbitrary: s sink i) (simp_all add: chunk_feed_append then_feed_def split: prod.split)

text \<open>C18. The chunked scanner against the encoding of RFC 9112 with chunk extensions and trailers, over any split of
  the stream into buffers and whatever follows: it ends exactly at the end of the body, and has captured exactly
  the data of the chunks (their first 64 KiB and the true total).\<close>

theorem chunked_roundtrip:
  assumes "list_all chunk_ok cs" and "list_all trailer_ok ts" and "concat xs = encode_chunked cs ts @ rest"
  shows "feed_pieces chunk_scanner_new xs (Some body_default) 0 =
    (\<lparr>cs_state = CsDone, cs_line = []\<rparr>, Some (body_of (concat (map snd cs))), length (encode_chunked cs ts), True)"
  by (simp add: feed_pieces_concat assms feed_encoded)

theorem chunked_roundtrip_witness:
  "feed_pieces chunk_scanner_new [''3;a=1'' @ [CR], LF # ''ab'', ''c'' @ [CR, LF] @ ''0'' @ [CR], [LF, CR, LF] @ ''GET'']
     (Some body_default) 0 =
   (\<lparr>cs_state = CsDone, cs_line = []\<rparr>, Some (body_of ''abc''), 17, True)"
proof -
  have h: "hex_string (Suc (Suc (Suc 0))) = ''3''" by code_simp
  have c: "list_all chunk_ok [('';a=1'', ''abc'')]"
    by (simp add: chunk_ok_def ext_ok_def is_ascii_def u64_limit_def)
  show ?thesis
    using chunked_roundtrip[OF c, of "[]" "[''3;a=1'' @ [CR], LF # ''ab'', ''c'' @ [CR, LF] @ ''0'' @ [CR], [LF, CR, LF] @ ''GET'']" "''GET''"]
    by (simp add: encode_chunked_def encode_chunk_def h)
qed

end
