(* ===== verification/TapStream.thy ===== *)
theory TapStream
  imports TapProps
begin

text \<open>
  Both directions of the tap read a stream of messages, a head and a framed body each.  The locale
  \<open>framed_parser\<close> states what the two loops have in common; its lemmas show that the split of the stream into
  buffers does not matter.  The interpretations are the request loop and the response loop.
\<close>

section \<open>Framing and splits\<close>

lemma chunk_feed_shift:
  "chunk_feed s buf sink (i + k) = (case chunk_feed s buf sink i of (s', b, j, fin) \<Rightarrow> (s', b, j + k, fin))"
proof (induction s buf sink i rule: chunk_feed.induct)
  case (1 s buf sink i)
  show ?case
  proof (cases buf)
    case (Cons c cs)
    show ?thesis
    proof (cases "cs_state s")
      case CsSize
      then show ?thesis using "1.IH"(1-3)[OF Cons CsSize refl] unfolding Cons chunk_feed_size[OF CsSize]
        by (simp add: after_size_def)
    next
      case (CsData n)
      define m where "m = min n (length buf)"
      have eq: "chunk_feed s buf sink x = chunk_feed (s\<lparr>cs_state := (if n - m = 0 then CsDataCrlf 0 else CsData (n - m))\<rparr>)
          (drop m buf) (map_option (body_push (take m buf)) sink) (x + m)" for x
        using chunk_feed_data[OF CsData, of buf] Cons by (simp add: Let_def m_def)
      have "i + k + m = i + m + k" by simp
      then show ?thesis using "1.IH"(4)[OF Cons CsData refl refl, folded m_def] by (simp only: eq)
    next
      case (CsDataCrlf n)
      then show ?thesis using "1.IH"(5)[OF Cons CsDataCrlf] unfolding Cons chunk_feed_crlf[OF CsDataCrlf] by simp
    next
      case CsTrailer
      then show ?thesis using "1.IH"(6-7)[OF Cons CsTrailer refl]
        unfolding Cons chunk_feed_trailer[OF CsTrailer] Let_def by simp
    next
      case CsDone
      then show ?thesis by (simp add: chunk_feed_done)
    qed
  qed simp
qed

lemma chunk_feed_consumed:
  "chunk_feed s buf sink i = (s', b, j, fin) \<Longrightarrow>
   i \<le> j \<and> j \<le> i + length buf \<and> (\<not> fin \<longrightarrow> j = i + length buf) \<and> (b = None \<longleftrightarrow> sink = None)"
proof (induction s buf sink i rule: chunk_feed.induct)
  case (1 s buf sink i)
  show ?case
  proof (cases buf)
    case Nil
    then show ?thesis using "1.prems" by auto
  next
    case (Cons c cs)
    show ?thesis
    proof (cases "cs_state s")
      case CsSize
      then show ?thesis
        using "1.prems"[unfolded Cons chunk_feed_size[OF CsSize]] "1.IH"(1-3)[OF Cons CsSize refl]
        by (auto simp: after_size_def Cons split: if_splits)
    next
      case (CsData n)
      define m where "m = min n (length buf)"
      have eq: "chunk_feed s buf sink i = chunk_feed (s\<lparr>cs_state := (if n - m = 0 then CsDataCrlf 0 else CsData (n - m))\<rparr>)
          (drop m buf) (map_option (body_push (take m buf)) sink) (i + m)"
        using chunk_feed_data[OF CsData, of buf] Cons by (simp add: Let_def m_def)
      have "m \<le> length buf" by (simp add: m_def)
      then show ?thesis
        using "1.IH"(4)[OF Cons CsData refl refl, folded m_def, OF "1.prems"[unfolded eq]] by auto
    next
      case (CsDataCrlf n)
      then show ?thesis
        using "1.prems"[unfolded Cons chunk_feed_crlf[OF CsDataCrlf]] "1.IH"(5)[OF Cons CsDataCrlf]
        by (auto simp: Cons)
    next
      case CsTrailer
      then show ?thesis
        using "1.prems"[unfolded Cons chunk_feed_trailer[OF CsTrailer] Let_def] "1.IH"(6-7)[OF Cons CsTrailer refl]
        by (auto simp: Cons split: if_splits)
    next
      case CsDone
      then show ?thesis using "1.prems" by (auto simp: chunk_feed_done)
    qed
  qed
qed

lemma framing_split:
  assumes "framing_feed f a sink = (f', sink', j, fin)"
  shows "framing_feed f (a @ b) sink =
    (if fin then (f', sink', j, True)
     else case framing_feed f' b sink' of (f'', sink'', k, fin') \<Rightarrow> (f'', sink'', j + k, fin'))"
proof (cases f)
  case (FrLength n)
  show ?thesis
  proof (cases "n \<le> length a")
    case True
    then show ?thesis using assms FrLength by (auto simp: framing_feed_def Let_def)
  next
    case False
    then have lt: "length a < n" by simp
    then have "min n (length a) = length a" "min n (length a + length b) = length a + min (n - length a) (length b)"
      by simp_all
    then show ?thesis using assms FrLength lt
      by (auto simp: framing_feed_def Let_def option.map_comp comp_def body_push_append)
  qed
next
  case (FrChunked s)
  obtain s1 where r: "chunk_feed s a sink 0 = (s1, sink', j, fin)" "f' = FrChunked s1"
    using assms FrChunked by (auto simp: framing_feed_def split: prod.splits)
  have "chunk_feed s1 b sink' j = (case chunk_feed s1 b sink' 0 of (s', x, k, f) \<Rightarrow> (s', x, k + j, f))"
    using chunk_feed_shift[of s1 b sink' 0 j] by simp
  then show ?thesis using r FrChunked
    by (auto simp: framing_feed_def chunk_feed_append then_feed_def split: prod.splits)
next
  case FrUntilEof
  then show ?thesis using assms
    by (auto simp: framing_feed_def option.map_comp comp_def body_push_append)
qed

lemma framing_consumed:
  "framing_feed f a sink = (f', sink', j, fin) \<Longrightarrow> j \<le> length a \<and> (\<not> fin \<longrightarrow> j = length a)"
  by (cases f) (auto simp: framing_feed_def Let_def split: prod.splits dest: chunk_feed_consumed)

lemma framing_sink: "framing_feed f a sink = (f', sink', j, fin) \<Longrightarrow> sink' = None \<longleftrightarrow> sink = None"
  by (cases f) (auto simp: framing_feed_def Let_def split: prod.splits dest: chunk_feed_consumed)

lemma framing_feed_Nil:
  "framing_feed f [] (Some (body_of x)) = (f', s, j, fin) \<Longrightarrow> f' = f \<and> s = Some (body_of x)"
  by (cases f) (auto simp: framing_feed_def Let_def body_push_of split: prod.splits)

section \<open>Heads\<close>

text \<open>A head ended by an empty line, with no earlier one, within the size limit.\<close>

definition head_wf :: "string \<Rightarrow> bool" where
  "head_wf h \<longleftrightarrow> 4 \<le> length h \<and> find_sub [CR, LF, CR, LF] h = Some (length h - 4) \<and>
     find_sub [LF, LF] h = None \<and> length h \<le> MAX_HEAD"

lemma head_end_full: "head_wf h \<Longrightarrow> head_end (h @ x) = Some (length h)"
  by (simp add: head_wf_def head_end_def find_sub_append)

lemma head_end_partial:
  assumes "head_wf h" and "h = x @ y" and "y \<noteq> []"
  shows "head_end x = None"
proof -
  have "find_sub [CR, LF, CR, LF] x = None"
  proof (cases "find_sub [CR, LF, CR, LF] x")
    case (Some i)
    then have "find_sub [CR, LF, CR, LF] h = Some i" using assms(2) find_sub_append by blast
    then have "i = length h - 4" using assms(1) by (simp add: head_wf_def)
    moreover have "i + 4 \<le> length x" using find_sub_Some[OF Some] by simp
    moreover have "4 \<le> length h" "length x < length h" using assms by (auto simp: head_wf_def)
    ultimately have False by linarith
    then show ?thesis ..
  qed
  moreover have "find_sub [LF, LF] x = None"
    using assms find_sub_None_prefix by (auto simp: head_wf_def)
  ultimately show ?thesis by (simp add: head_end_def)
qed

text \<open>Where a prefix of a stream ends: past the first message, in its head or in its body.\<close>

lemma prefix_cases:
  assumes "X @ c = h @ w @ r"
  shows "(\<exists>X'. X = h @ w @ X') \<or> (\<exists>y. h = X @ y \<and> y \<noteq> []) \<or> (\<exists>w1 w2. X = h @ w1 \<and> w = w1 @ w2 \<and> w2 \<noteq> [])"
proof (cases "length X < length h")
  case True
  then show ?thesis using assms by (metis append_eq_append_conv_if append_take_drop_id length_drop less_numeral_extra(3)
      list.size(3) not_le zero_less_diff)
next
  case False
  then obtain u where u: "X = h @ u" "u @ c = w @ r"
    using assms by (metis append_eq_append_conv_if append_take_drop_id not_le append_assoc same_append_eq less_or_eq_imp_le linorder_not_less)
  show ?thesis
  proof (cases "length w \<le> length u")
    case True
    then have "\<exists>v. u = w @ v" using u(2) by (metis append_eq_append_conv_if append_take_drop_id)
    then show ?thesis using u(1) by auto
  next
    case False
    then have "\<exists>v. w = u @ v \<and> v \<noteq> []" using u(2)
      by (metis append_eq_append_conv_if append_take_drop_id append_Nil2 nat_le_linear order_refl)
    then show ?thesis using u(1) by blast
  qed
qed

section \<open>The contract of the two loops\<close>

type_synonym message = "string \<times> string \<times> string"

abbreviation at_head :: "string \<Rightarrow> dir_parser" where
  "at_head buf \<equiv> \<lparr>dp_mode = MHead, dp_buffer = buf\<rparr>"

abbreviation in_body :: "framing \<Rightarrow> string \<Rightarrow> dir_parser" where
  "in_body f buf \<equiv> \<lparr>dp_mode = MBody f, dp_buffer = buf\<rparr>"

definition extend :: "string \<Rightarrow> dir_parser \<Rightarrow> dir_parser" where
  "extend c d = d\<lparr>dp_buffer := dp_buffer d @ c\<rparr>"

definition wire :: "message list \<Rightarrow> string" where
  "wire ms = concat (map (\<lambda>(h, w, d). h @ w) ms)"

lemma wire_simps [simp]: "wire [] = []" "wire ((h, w, d) # ms) = h @ w @ wire ms"
  by (simp_all add: wire_def)

text \<open>A state of the reader with the message loop, the start of a message from its head (the framing of its body,
  if it has one), the body being captured and the end of a message.\<close>

locale framed_parser =
  fixes loop :: "dir_parser \<Rightarrow> 'p \<Rightarrow> dir_parser \<times> 'p"
    and start :: "string \<Rightarrow> 'p \<Rightarrow> (framing option \<times> 'p) option"
    and sink :: "'p \<Rightarrow> body option"
    and set_sink :: "body option \<Rightarrow> 'p \<Rightarrow> 'p"
    and finish :: "'p \<Rightarrow> 'p"
  assumes loop_short: "head_end buf = None \<Longrightarrow> length buf \<le> MAX_HEAD \<Longrightarrow> loop (at_head buf) p = (at_head buf, p)"
    and loop_head: "head_end buf = Some e \<Longrightarrow> start (take e buf) p = Some (fo, p') \<Longrightarrow>
      loop (at_head buf) p = loop \<lparr>dp_mode = (case fo of Some f \<Rightarrow> MBody f | None \<Rightarrow> MHead), dp_buffer = drop e buf\<rparr> p'"
    and loop_idle: "loop (in_body f []) p = (in_body f [], p)"
    and loop_body: "buf \<noteq> [] \<Longrightarrow> framing_feed f buf (sink p) = (f', s, k, fin) \<Longrightarrow>
      loop (in_body f buf) p =
        (if fin then loop (at_head (drop k buf)) (finish (set_sink s p)) else (in_body f' (drop k buf), set_sink s p))"
    and sink_set: "sink p \<noteq> None \<Longrightarrow> sink (set_sink (Some b) p) = Some b"
    and set_set: "set_sink (Some b') (set_sink (Some b) p) = set_sink (Some b') p"
    and set_same: "sink p = Some b \<Longrightarrow> set_sink (Some b) p = p"
    and start_sink: "start h p = Some (Some f, p') \<Longrightarrow> sink p' = Some body_default"
begin

definition body_framed :: "framing option \<Rightarrow> string \<Rightarrow> string \<Rightarrow> bool" where
  "body_framed fo w d \<longleftrightarrow>
     (case fo of
        None \<Rightarrow> w = []
      | Some f \<Rightarrow> w \<noteq> [] \<and> (\<exists>f'. framing_feed f w (Some body_default) = (f', Some (body_of d), length w, True)))"

definition after :: "framing option \<Rightarrow> string \<Rightarrow> 'p \<Rightarrow> 'p" where
  "after fo d p = (case fo of None \<Rightarrow> p | Some _ \<Rightarrow> finish (set_sink (Some (body_of d)) p))"

fun stream_ok :: "message list \<Rightarrow> 'p \<Rightarrow> 'p \<Rightarrow> bool" where
  "stream_ok [] p q = (q = p)"
| "stream_ok ((h, w, d) # ms) p q =
     (\<exists>fo p'. head_wf h \<and> start h p = Some (fo, p') \<and> body_framed fo w d \<and> stream_ok ms (after fo d p') q)"

lemma loop_start:
  assumes "head_wf h" and "start h p = Some (fo, p')"
  shows "loop (at_head (h @ x)) p = loop \<lparr>dp_mode = (case fo of Some f \<Rightarrow> MBody f | None \<Rightarrow> MHead), dp_buffer = x\<rparr> p'"
  using loop_head[OF head_end_full[OF assms(1)], of x p fo p'] assms(2) by simp

lemma loop_message:
  assumes "head_wf h" and st: "start h p = Some (fo, p')" and bf: "body_framed fo w d"
  shows "loop (at_head (h @ w @ rest)) p = loop (at_head rest) (after fo d p')"
proof (cases fo)
  case None
  then show ?thesis using loop_start[OF assms(1) st] bf by (simp add: body_framed_def after_def)
next
  case (Some f)
  then obtain f' where w: "w \<noteq> []" and f: "framing_feed f w (Some body_default) = (f', Some (body_of d), length w, True)"
    using bf by (auto simp: body_framed_def)
  have "framing_feed f (w @ rest) (sink p') = (f', Some (body_of d), length w, True)"
    using framing_split[OF f, of rest] start_sink st Some by simp
  then have "loop (in_body f (w @ rest)) p' = loop (at_head rest) (finish (set_sink (Some (body_of d)) p'))"
    using loop_body[of "w @ rest" f p'] w by simp
  then show ?thesis using loop_start[OF assms(1) st] Some by (simp add: after_def)
qed

lemma loop_stream: "stream_ok ms p q \<Longrightarrow> loop (at_head (wire ms @ rest)) p = loop (at_head rest) q"
proof (induction ms arbitrary: p)
  case (Cons m ms)
  obtain h w d where m: "m = (h, w, d)" by (cases m)
  then show ?case using Cons loop_message[of h p _ _ w d "wire ms @ rest"] by auto
qed simp

text \<open>A body read in part and continued.\<close>

lemma loop_resume:
  assumes s: "sink p = Some (body_of x)"
    and part: "framing_feed f w (Some (body_of x)) = (f', Some b', j, False)"
  shows "loop (in_body f' c) (set_sink (Some b') p) = loop (in_body f (w @ c)) p"
proof -
  have j: "j = length w" using framing_consumed[OF part] by simp
  have s': "sink (set_sink (Some b') p) = Some b'" using s by (simp add: sink_set)
  consider "c = []" "w = []" | "c = []" "w \<noteq> []" | "c \<noteq> []" by blast
  then show ?thesis
  proof cases
    case 1
    then have "f' = f \<and> b' = body_of x" using framing_feed_Nil[of f x f' "Some b'" j False] part by simp
    then show ?thesis using 1 s by (simp add: set_same)
  next
    case 2
    then show ?thesis using loop_body[of w f p f' "Some b'" j False] part s j by (simp add: loop_idle)
  next
    case 3
    obtain f2 s2 k fin where f2: "framing_feed f' c (Some b') = (f2, s2, k, fin)" by (metis prod_cases4)
    then obtain b2 where b2: "s2 = Some b2" using framing_sink[OF f2] by auto
    have "framing_feed f (w @ c) (sink p) = (f2, s2, length w + k, fin)"
      using framing_split[OF part, of c] f2 j s by simp
    then show ?thesis using 3 loop_body[of "w @ c" f p] loop_body[of c f' "set_sink (Some b') p"] f2 s' b2
      by (simp add: set_set)
  qed
qed

text \<open>Feeding a prefix of the stream and then more of it is feeding both at once.\<close>

lemma loop_split:
  "stream_ok ms p q \<Longrightarrow> X @ c @ Y = wire ms \<Longrightarrow>
   (case loop (at_head X) p of (d, p1) \<Rightarrow> loop (extend c d) p1) = loop (at_head (X @ c)) p"
proof (induction ms arbitrary: p X)
  case Nil
  have "head_end [] = None" by (simp add: head_end_def)
  then show ?case using Nil by (simp add: loop_short extend_def)
next
  case (Cons m ms)
  obtain h w d where m: "m = (h, w, d)" by (cases m)
  obtain fo p' where ok: "head_wf h" "start h p = Some (fo, p')" "body_framed fo w d"
      "stream_ok ms (after fo d p') q"
    using Cons.prems(1) m by auto
  have eq: "X @ c @ Y = h @ w @ wire ms" using Cons.prems(2) m by simp
  from prefix_cases[OF eq] consider (more) X' where "X = h @ w @ X'" | (head) y where "h = X @ y" "y \<noteq> []"
    | (body) w1 w2 where "X = h @ w1" "w = w1 @ w2" "w2 \<noteq> []" by blast
  then show ?case
  proof cases
    case more
    then have "X' @ c @ Y = wire ms" using eq by simp
    then show ?thesis using Cons.IH[OF ok(4), of X'] loop_message[OF ok(1-3), of X'] loop_message[OF ok(1-3), of "X' @ c"]
      by (simp add: more)
  next
    case head
    have "length X \<le> MAX_HEAD" using ok(1) head by (simp add: head_wf_def)
    then have "loop (at_head X) p = (at_head X, p)"
      using loop_short head_end_partial[OF ok(1) head] by simp
    then show ?thesis by (simp add: extend_def)
  next
    case body
    then obtain f where f: "fo = Some f" using ok(3) by (cases fo) (auto simp: body_framed_def)
    obtain f' where w: "framing_feed f w (Some body_default) = (f', Some (body_of d), length w, True)"
      using ok(3) f by (auto simp: body_framed_def)
    obtain f1 s1 j fin where p1: "framing_feed f w1 (Some body_default) = (f1, s1, j, fin)" by (metis prod_cases4)
    have nf: "\<not> fin"
      using framing_split[OF p1, of w2] w body framing_consumed[OF p1] by (auto split: if_splits)
    obtain b1 where b1: "s1 = Some b1" using framing_sink[OF p1] by auto
    have sp: "sink p' = Some (body_of [])" using start_sink ok(2) f by (simp add: body_of_Nil)
    have part: "framing_feed f w1 (Some (body_of [])) = (f1, Some b1, j, False)"
      using p1 nf b1 by (simp add: body_of_Nil)
    have "loop (at_head X) p = loop (in_body f w1) p'" using loop_start[OF ok(1,2), of w1] f body by simp
    also have "\<dots> = loop (in_body f1 []) (set_sink (Some b1) p')"
      using loop_resume[OF sp part, of "[]"] by simp
    finally have "loop (at_head X) p = (in_body f1 [], set_sink (Some b1) p')" by (simp add: loop_idle)
    then show ?thesis
      using loop_resume[OF sp part, of c] loop_start[OF ok(1,2), of "w1 @ c"] f body by (simp add: extend_def)
  qed
qed

fun run_pieces :: "string list \<Rightarrow> dir_parser \<times> 'p \<Rightarrow> dir_parser \<times> 'p" where
  "run_pieces [] dp = dp"
| "run_pieces (x # xs) dp = run_pieces xs (case dp of (d, p) \<Rightarrow> loop (extend x d) p)"

lemma run_pieces_loop:
  assumes "stream_ok ms p q"
  shows "X @ concat xs = wire ms \<Longrightarrow> run_pieces xs (loop (at_head X) p) = loop (at_head (wire ms)) p"
proof (induction xs arbitrary: X)
  case (Cons x xs)
  have "(case loop (at_head X) p of (d, p1) \<Rightarrow> loop (extend x d) p1) = loop (at_head (X @ x)) p"
    using Cons.prems by (intro loop_split[OF assms, of X x "concat xs"]) simp
  then show ?case using Cons.IH[of "X @ x"] Cons.prems by simp
qed simp

lemma loop_nothing: "loop (at_head []) p = (at_head [], p)"
  by (rule loop_short) (simp_all add: head_end_def)

theorem stream_read:
  assumes "stream_ok ms p q" and "concat xs = wire ms"
  shows "run_pieces xs (at_head [], p) = (at_head [], q)"
  using run_pieces_loop[OF assms(1), of "[]" xs] loop_stream[OF assms(1), of "[]"] assms(2)
  by (simp add: loop_nothing)

end

end
