(* ===== verification/TapPairs.thy ===== *)
theory TapPairs
  imports TapStream
begin

text \<open>
  The request loop and the response loop of the tap are \<open>framed_parser\<close>s; what a whole connection records
  follows from the locale.
\<close>

section \<open>The two loops\<close>

definition new_pending :: "instant \<Rightarrow> string \<times> string \<times> headers \<Rightarrow> pending_request" where
  "new_pending now r = (case r of (m, path, hs) \<Rightarrow>
     \<lparr>pr_method = m, pr_path = path, pr_host = header_value hs ''host'', pr_headers = hs, pr_body = body_default,
      pr_start = now\<rparr>)"

definition start_request ::
  "httparse \<Rightarrow> string \<Rightarrow> pending_request list \<Rightarrow> (framing option \<times> pending_request list) option" where
  "start_request hp h ps =
     map_option (\<lambda>r. (request_framing (snd (snd r)), push_pending (new_pending 0 r) ps)) (parse_request_head hp h)"

lemma back_body_simps:
  "back_body (set_back_body (Some b) ps) = Some b" "back_body (push_pending p ps) = Some (pr_body p)"
  "set_back_body (Some b) (set_back_body (Some b') ps) = set_back_body (Some b) ps"
  "back_body ps = Some b \<Longrightarrow> set_back_body (Some b) ps = ps"
  by (auto simp: back_body_def set_back_body_def push_pending_def split: if_splits)

interpretation req: framed_parser "request_loop hp 0" "start_request hp" back_body set_back_body "\<lambda>ps. ps" for hp
proof
  show "request_loop hp 0 (at_head buf) p = (at_head buf, p)" if "head_end buf = None" "length buf \<le> MAX_HEAD" for buf p
    using that by (subst request_loop.simps) simp
  show "request_loop hp 0 (at_head buf) p =
      request_loop hp 0 \<lparr>dp_mode = (case fo of Some f \<Rightarrow> MBody f | None \<Rightarrow> MHead), dp_buffer = drop e buf\<rparr> p'"
    if "head_end buf = Some e" "start_request hp (take e buf) p = Some (fo, p')" for buf e p fo p'
    using that by (subst request_loop.simps) (auto simp: start_request_def new_pending_def)
  show "request_loop hp 0 (in_body f []) p = (in_body f [], p)" for f p
    by (subst request_loop.simps) simp
  show "request_loop hp 0 (in_body f buf) p =
      (if fin then request_loop hp 0 (at_head (drop k buf)) (set_back_body s p)
       else (in_body f' (drop k buf), set_back_body s p))"
    if "buf \<noteq> []" "framing_feed f buf (back_body p) = (f', s, k, fin)" for buf f p f' s k fin
    using that by (subst request_loop.simps) (simp add: Let_def)
  show "back_body p' = Some body_default" if "start_request hp h p = Some (Some f, p')" for h p f p'
    using that by (auto simp: start_request_def new_pending_def back_body_simps)
qed (simp_all add: back_body_simps)

definition interim :: "u16 \<Rightarrow> bool" where
  "interim status \<longleftrightarrow> 100 \<le> status \<and> status < 200 \<and> status \<noteq> 101"

definition begin_response :: "httparse \<Rightarrow> string \<Rightarrow> tap_state \<Rightarrow> (framing option \<times> tap_state) option" where
  "begin_response hp h t =
     (case parse_response_head hp h of
        None \<Rightarrow> None
      | Some (status, hs) \<Rightarrow>
          if interim status then Some (None, t)
          else if status = 101 then None
          else case response_framing status (front_method t) hs of
                 Some f \<Rightarrow> Some (Some f, start_response status hs t)
               | None \<Rightarrow> Some (None, complete_exchange 0 (start_response status hs t)))"

definition response_sink :: "tap_state \<Rightarrow> body option" where
  "response_sink t = map_option ps_body (ts_current_response t)"

interpretation resp: framed_parser "response_loop hp 0" "begin_response hp" response_sink set_response_body
  "complete_exchange 0" for hp
proof
  show "response_loop hp 0 (at_head buf) p = (at_head buf, p)" if "head_end buf = None" "length buf \<le> MAX_HEAD" for buf p
    using that by (subst response_loop.simps) simp
  show "response_loop hp 0 (at_head buf) p =
      response_loop hp 0 \<lparr>dp_mode = (case fo of Some f \<Rightarrow> MBody f | None \<Rightarrow> MHead), dp_buffer = drop e buf\<rparr> p'"
    if "head_end buf = Some e" "begin_response hp (take e buf) p = Some (fo, p')" for buf e p fo p'
    using that by (subst response_loop.simps)
      (auto simp: begin_response_def interim_def split: option.splits if_splits)
  show "response_loop hp 0 (in_body f []) p = (in_body f [], p)" for f p
    by (subst response_loop.simps) simp
  show "response_loop hp 0 (in_body f buf) p =
      (if fin then response_loop hp 0 (at_head (drop k buf)) (complete_exchange 0 (set_response_body s p))
       else (in_body f' (drop k buf), set_response_body s p))"
    if "buf \<noteq> []" "framing_feed f buf (response_sink p) = (f', s, k, fin)" for buf f p f' s k fin
    using that by (subst response_loop.simps) (simp add: Let_def response_sink_def)
  show "response_sink p' = Some body_default" if "begin_response hp h p = Some (Some f, p')" for h p f p'
    using that by (auto simp: begin_response_def start_response_def response_sink_def split: option.splits if_splits)
  show "set_response_body (Some b) p = p" if "response_sink p = Some b" for p b
    using that by (cases p; cases "ts_current_response p") (auto simp: set_response_body_def response_sink_def)
  show "set_response_body (Some b') (set_response_body (Some b) p) = set_response_body (Some b') p" for b b' p
    by (cases "ts_current_response p") (simp_all add: set_response_body_def)
  show "response_sink (set_response_body (Some b) p) = Some b" if "response_sink p \<noteq> None" for p b
    using that by (auto simp: set_response_body_def response_sink_def)
qed

section \<open>Time stamps\<close>

text \<open>The clock only reaches the start of a pending request and the times of an exchange; up to those a loop does
  not depend on it.\<close>

definition untimed_request :: "pending_request \<Rightarrow> pending_request" where
  "untimed_request p = p\<lparr>pr_start := 0\<rparr>"

definition untimed_exchange :: "exchange \<Rightarrow> exchange" where
  "untimed_exchange e = e\<lparr>ex_duration_ms := 0, ex_started_at := 0\<rparr>"

definition untimed_inspector :: "inspector \<Rightarrow> inspector" where
  "untimed_inspector i = i\<lparr>in_store := map untimed_exchange (in_store i), in_events := map untimed_exchange (in_events i)\<rparr>"

definition untimed :: "tap_state \<Rightarrow> tap_state" where
  "untimed t = t\<lparr>ts_pending := map untimed_request (ts_pending t), ts_inspector := untimed_inspector (ts_inspector t)\<rparr>"

lemma untimed_record:
  "untimed_inspector (inspector_record e i) = inspector_record (untimed_exchange e) (untimed_inspector i)"
  by (simp add: inspector_record_def untimed_inspector_def untimed_exchange_def push_evict_def Let_def map_tl)

lemma untimed_exchange_idem [simp]: "untimed_exchange (untimed_exchange e) = untimed_exchange e"
  by (simp add: untimed_exchange_def)

lemma untimed_complete: "untimed (complete_exchange now t) = complete_exchange 0 (untimed t)"
proof (cases "ts_current_response t")
  case (Some r)
  show ?thesis
    by (cases "ts_pending t")
      (simp_all add: complete_exchange_def Some untimed_def untimed_record untimed_request_def untimed_exchange_def)
qed (simp add: complete_exchange_def untimed_def)

lemma untimed_pending:
  "map untimed_request (push_pending p ps) = push_pending (untimed_request p) (map untimed_request ps)"
  "back_body (map untimed_request ps) = back_body ps"
  "ps \<noteq> [] \<or> b = None \<Longrightarrow>
     map untimed_request (set_back_body b ps) = set_back_body b (map untimed_request ps)"
  by (auto simp: push_pending_def map_tl back_body_def set_back_body_def untimed_request_def last_map map_butlast
      split: option.split)

lemma untimed_fresh:
  "untimed_request \<lparr>pr_method = m, pr_path = p, pr_host = h, pr_headers = hs, pr_body = b, pr_start = now\<rparr> =
   \<lparr>pr_method = m, pr_path = p, pr_host = h, pr_headers = hs, pr_body = b, pr_start = 0\<rparr>"
  by (simp add: untimed_request_def)

lemma untimed_sels [simp]:
  "ts_current_response (untimed t) = ts_current_response t" "ts_request (untimed t) = ts_request t"
  "ts_response (untimed t) = ts_response t" "front_method (untimed t) = front_method t"
  "ts_pending (untimed t) = map untimed_request (ts_pending t)"
  by (simp_all add: untimed_def front_method_def untimed_request_def split: list.split)

lemma untimed_updates:
  "untimed (start_response s hs t) = start_response s hs (untimed t)"
  "untimed (set_response_body b t) = set_response_body b (untimed t)"
  "untimed (t\<lparr>ts_request := d\<rparr>) = (untimed t)\<lparr>ts_request := d\<rparr>"
  "untimed (t\<lparr>ts_response := d\<rparr>) = (untimed t)\<lparr>ts_response := d\<rparr>"
  by (simp_all add: start_response_def set_response_body_def untimed_def split: option.split)

lemma complete_keeps [simp]:
  "ts_request (complete_exchange now t) = ts_request t" "ts_response (complete_exchange now t) = ts_response t"
  "ts_request (start_response s hs t) = ts_request t" "ts_response (start_response s hs t) = ts_response t"
  by (simp_all add: complete_exchange_def start_response_def Let_def split: option.split)

lemma request_loop_untimed:
  "request_loop hp 0 d (map untimed_request ps) = (case request_loop hp now d ps of (d', ps') \<Rightarrow> (d', map untimed_request ps'))"
proof (induction hp now d ps rule: request_loop.induct)
  case (1 hp now d ps)
  show ?case
  proof (cases "dp_mode d")
    case MHead
    show ?thesis
    proof (cases "head_end (dp_buffer d)")
      case None
      then show ?thesis by (subst (1 2) request_loop.simps) (simp add: MHead)
    next
      case (Some e)
      show ?thesis
      proof (cases "parse_request_head hp (take e (dp_buffer d))")
        case None
        then show ?thesis by (subst (1 2) request_loop.simps) (simp add: MHead Some)
      next
        case r: (Some r)
        obtain m path hs where mp: "r = (m, path, hs)" by (cases r)
        show ?thesis using "1.IH"(1)[OF MHead Some r[unfolded mp] refl refl]
          by (subst (1 2) request_loop.simps) (simp add: MHead Some r mp untimed_pending untimed_fresh)
      qed
    qed
  next
    case (MBody f)
    obtain f' s k fin where fr: "framing_feed f (dp_buffer d) (back_body ps) = (f', s, k, fin)" by (metis prod_cases4)
    have sb: "map untimed_request (set_back_body s ps) = set_back_body s (map untimed_request ps)"
      using framing_sink[OF fr] by (intro untimed_pending) (auto simp: back_body_def split: if_splits)
    show ?thesis
    proof (cases "dp_buffer d = []")
      case True
      then show ?thesis by (subst (1 2) request_loop.simps) (simp add: MBody)
    next
      case False
      then show ?thesis using "1.IH"(2)[OF MBody False fr[symmetric] refl refl refl refl]
        by (subst (1 2) request_loop.simps) (simp add: MBody fr untimed_pending sb Let_def)
    qed
  next
    case MPassthrough
    then show ?thesis by (subst (1 2) request_loop.simps) simp
  qed
qed

lemma response_loop_untimed:
  "response_loop hp 0 d (untimed t) = (case response_loop hp now d t of (d', t') \<Rightarrow> (d', untimed t'))"
proof (induction hp now d t rule: response_loop.induct)
  case (1 hp now d t)
  show ?case
  proof (cases "dp_mode d")
    case MHead
    show ?thesis
    proof (cases "head_end (dp_buffer d)")
      case None
      then show ?thesis by (subst (1 2) response_loop.simps) (simp add: MHead)
    next
      case (Some e)
      show ?thesis
      proof (cases "parse_response_head hp (take e (dp_buffer d))")
        case None
        then show ?thesis by (subst (1 2) response_loop.simps) (simp add: MHead Some)
      next
        case r: (Some r)
        obtain status hs where mp: "r = (status, hs)" by (cases r)
        note ih = "1.IH"(1-3)[OF MHead Some r[unfolded mp] refl]
        show ?thesis
        proof (cases "response_framing status (front_method t) hs")
          case None
          then show ?thesis using ih
            by (subst (1 2) response_loop.simps)
              (simp add: MHead Some r mp untimed_updates untimed_complete Let_def)
        next
          case (Some f)
          then show ?thesis using ih \<open>head_end (dp_buffer d) = Some e\<close>
            by (subst (1 2) response_loop.simps)
              (simp add: MHead r mp untimed_updates untimed_complete Let_def)
        qed
      qed
    qed
  next
    case (MBody f)
    obtain f' s k fin where fr: "framing_feed f (dp_buffer d) (map_option ps_body (ts_current_response t)) = (f', s, k, fin)"
      by (metis prod_cases4)
    show ?thesis
    proof (cases "dp_buffer d = []")
      case True
      then show ?thesis by (subst (1 2) response_loop.simps) (simp add: MBody)
    next
      case False
      then show ?thesis using "1.IH"(4)[OF MBody False fr[symmetric] refl refl refl refl]
        by (subst (1 2) response_loop.simps) (simp add: MBody fr untimed_updates untimed_complete Let_def)
    qed
  next
    case MPassthrough
    then show ?thesis by (subst (1 2) response_loop.simps) simp
  qed
qed

section \<open>Buffers of a direction\<close>

definition feed_requests :: "httparse \<Rightarrow> (instant \<times> string) list \<Rightarrow> tap_state \<Rightarrow> tap_state" where
  "feed_requests hp xs t = fold (\<lambda>(now, b). feed_request hp now b) xs t"

definition feed_responses :: "httparse \<Rightarrow> (instant \<times> string) list \<Rightarrow> tap_state \<Rightarrow> tap_state" where
  "feed_responses hp xs t = fold (\<lambda>(now, b). feed_response hp now b) xs t"

lemma request_loop_passthrough:
  "dp_mode d = MPassthrough \<Longrightarrow> request_loop hp now d ps = (passthrough d, ps)"
  by (subst request_loop.simps) simp

lemma response_loop_passthrough:
  "dp_mode d = MPassthrough \<Longrightarrow> response_loop hp now d t = (passthrough d, t)"
  by (subst response_loop.simps) simp

definition pt_ok :: "dir_parser \<Rightarrow> bool" where
  "pt_ok d \<longleftrightarrow> (dp_mode d = MPassthrough \<longrightarrow> dp_buffer d = [])"

lemma pt_ok_passthrough [simp]: "pt_ok (passthrough d)"
  by (simp add: pt_ok_def passthrough_def)

lemma pt_ok_noop: "pt_ok d \<Longrightarrow> dp_mode d = MPassthrough \<Longrightarrow> passthrough (extend b d) = d"
  by (cases d) (simp add: pt_ok_def passthrough_def extend_def)

lemma request_loop_pt_ok: "pt_ok (fst (request_loop hp now d ps))"
proof (induction hp now d ps rule: request_loop.induct)
  case (1 hp now d ps)
  then show ?case
    by (subst request_loop.simps) (auto simp: pt_ok_def Let_def passthrough_def
        split: parse_mode.splits option.splits prod.splits)
qed

text \<open>The rounds of the response loop, for inductions: a result of the loop is a result of no round or one more
  round after \<open>start\<close> or \<open>end\<close> of a response.\<close>

lemma response_loop_result:
  assumes stop: "\<And>d t t'. P d t (passthrough d, t')"
    and short: "\<And>d t. dp_mode d = MHead \<Longrightarrow> P d t (d, t)"
    and idle: "\<And>d t f. dp_mode d = MBody f \<Longrightarrow> P d t (d, t)"
    and more: "\<And>d t f buf t'. P d t (\<lparr>dp_mode = MBody f, dp_buffer = buf\<rparr>, t')"
    and round: "\<And>d t d1 t1 r. P d1 t1 r \<Longrightarrow> P d t r"
  shows "P d t (response_loop hp now d t)"
proof (induction hp now d t rule: response_loop.induct)
  case (1 hp now d t)
  show ?case
  proof (cases "dp_mode d")
    case MHead
    show ?thesis
    proof (cases "head_end (dp_buffer d)")
      case None
      then show ?thesis using stop short by (subst response_loop.simps) (simp add: MHead)
    next
      case (Some e)
      show ?thesis
      proof (cases "parse_response_head hp (take e (dp_buffer d))")
        case None
        then show ?thesis using stop by (subst response_loop.simps) (simp add: MHead Some)
      next
        case r: (Some r)
        obtain status hs where mp: "r = (status, hs)" by (cases r)
        note ih = "1.IH"(1-3)[OF MHead Some r[unfolded mp] refl, THEN round]
        show ?thesis using ih stop
          by (subst response_loop.simps) (auto simp: MHead Some r mp Let_def split: option.split)
      qed
    qed
  next
    case (MBody f)
    obtain f' s k fin where fr: "framing_feed f (dp_buffer d) (map_option ps_body (ts_current_response t)) = (f', s, k, fin)"
      by (metis prod_cases4)
    show ?thesis
    proof (cases "dp_buffer d = []")
      case True
      then show ?thesis using idle[OF MBody] by (subst response_loop.simps) (simp add: MBody)
    next
      case False
      then show ?thesis using "1.IH"(4)[OF MBody False fr[symmetric] refl refl refl refl, THEN round] more
        by (subst response_loop.simps) (simp add: MBody fr Let_def)
    qed
  next
    case MPassthrough
    then show ?thesis using stop by (subst response_loop.simps) simp
  qed
qed

lemma response_loop_pt_ok: "pt_ok (fst (response_loop hp now d t))"
  by (rule response_loop_result[where P = "\<lambda>d t r. pt_ok (fst r)"]) (simp_all, simp_all add: pt_ok_def)

lemma feed_request_loop:
  assumes "pt_ok (ts_request t)"
  shows "untimed (feed_request hp now b t) =
    (case request_loop hp 0 (extend b (ts_request t)) (map untimed_request (ts_pending t)) of
       (d, ps) \<Rightarrow> (untimed t)\<lparr>ts_request := d, ts_pending := ps\<rparr>)" (is ?eff)
    and "pt_ok (ts_request (feed_request hp now b t))" (is ?ok)
proof -
  obtain d ps where l: "request_loop hp now (extend b (ts_request t)) (ts_pending t) = (d, ps)" by fastforce
  have "?eff \<and> ?ok"
  proof (cases "dp_mode (ts_request t) = MPassthrough")
    case True
    then show ?thesis using assms pt_ok_noop[OF assms True, of b]
      by (simp add: feed_request_def request_loop_passthrough extend_def untimed_def)
  next
    case False
    then show ?thesis using l request_loop_untimed[of hp "extend b (ts_request t)" "ts_pending t" now]
        request_loop_pt_ok[of hp now "extend b (ts_request t)" "ts_pending t"]
      by (simp add: feed_request_def extend_def untimed_def)
  qed
  then show ?eff ?ok by simp_all
qed

lemma feed_requests_run:
  "pt_ok (ts_request t) \<Longrightarrow>
   untimed (feed_requests hp xs t) =
   (case req.run_pieces hp (map snd xs) (ts_request t, map untimed_request (ts_pending t)) of
      (d, ps) \<Rightarrow> (untimed t)\<lparr>ts_request := d, ts_pending := ps\<rparr>)"
proof (induction xs arbitrary: t)
  case Nil
  then show ?case by (simp add: feed_requests_def untimed_def)
next
  case (Cons x xs)
  obtain now b where x: "x = (now, b)" by (cases x)
  define t1 where "t1 = feed_request hp now b t"
  obtain d ps where l: "request_loop hp 0 (extend b (ts_request t)) (map untimed_request (ts_pending t)) = (d, ps)"
    by fastforce
  have u: "untimed t1 = (untimed t)\<lparr>ts_request := d, ts_pending := ps\<rparr>"
    using feed_request_loop(1)[OF Cons.prems, of hp now b] l by (simp add: t1_def)
  have "ts_request t1 = d" "map untimed_request (ts_pending t1) = ps"
    using arg_cong[OF u, of ts_request] arg_cong[OF u, of ts_pending] by simp_all
  moreover have "pt_ok (ts_request t1)" using feed_request_loop(2)[OF Cons.prems] by (simp add: t1_def)
  moreover have "feed_requests hp (x # xs) t = feed_requests hp xs t1" by (simp add: feed_requests_def x t1_def)
  ultimately show ?case using Cons.IH[of t1] l by (simp add: x u split: prod.split)
qed

text \<open>The response loop does not look at the stored parser.\<close>

lemma stale_updates:
  "complete_exchange now (t\<lparr>ts_response := x\<rparr>) = (complete_exchange now t)\<lparr>ts_response := x\<rparr>"
  "start_response s hs (t\<lparr>ts_response := x\<rparr>) = (start_response s hs t)\<lparr>ts_response := x\<rparr>"
  "set_response_body b (t\<lparr>ts_response := x\<rparr>) = (set_response_body b t)\<lparr>ts_response := x\<rparr>"
  "front_method (t\<lparr>ts_response := x\<rparr>) = front_method t"
  by (simp_all add: complete_exchange_def start_response_def set_response_body_def front_method_def Let_def
      split: option.split list.split)

lemma response_loop_stale:
  "response_loop hp now d (t\<lparr>ts_response := x\<rparr>) = (case response_loop hp now d t of (d', t') \<Rightarrow> (d', t'\<lparr>ts_response := x\<rparr>))"
proof (induction hp now d t rule: response_loop.induct)
  case (1 hp now d t)
  show ?case
  proof (cases "dp_mode d")
    case MHead
    show ?thesis
    proof (cases "head_end (dp_buffer d)")
      case None
      then show ?thesis by (subst (1 2) response_loop.simps) (simp add: MHead)
    next
      case (Some e)
      show ?thesis
      proof (cases "parse_response_head hp (take e (dp_buffer d))")
        case None
        then show ?thesis by (subst (1 2) response_loop.simps) (simp add: MHead Some)
      next
        case r: (Some r)
        obtain status hs where mp: "r = (status, hs)" by (cases r)
        show ?thesis
          using "1.IH"(1-3)[OF MHead Some r[unfolded mp] refl]
          by (subst (1 2) response_loop.simps)
            (simp add: MHead Some r mp stale_updates Let_def split: option.split)
      qed
    qed
  next
    case (MBody f)
    obtain f' s k fin where fr: "framing_feed f (dp_buffer d) (map_option ps_body (ts_current_response t)) = (f', s, k, fin)"
      by (metis prod_cases4)
    show ?thesis
    proof (cases "dp_buffer d = []")
      case True
      then show ?thesis by (subst (1 2) response_loop.simps) (simp add: MBody)
    next
      case False
      then show ?thesis using "1.IH"(4)[OF MBody False fr[symmetric] refl refl refl refl]
        by (subst (1 2) response_loop.simps) (simp add: MBody fr stale_updates Let_def)
    qed
  next
    case MPassthrough
    then show ?thesis by (subst (1 2) response_loop.simps) simp
  qed
qed

lemma feed_response_loop:
  assumes "pt_ok (ts_response t)"
  shows "untimed (feed_response hp now b t) =
    (case response_loop hp 0 (extend b (ts_response t)) (untimed t) of (d, t') \<Rightarrow> t'\<lparr>ts_response := d\<rparr>)" (is ?eff)
    and "pt_ok (ts_response (feed_response hp now b t))" (is ?ok)
proof -
  obtain d t' where l: "response_loop hp now (extend b (ts_response t)) t = (d, t')" by fastforce
  have "?eff \<and> ?ok"
  proof (cases "dp_mode (ts_response t) = MPassthrough")
    case True
    then show ?thesis using assms pt_ok_noop[OF assms True, of b]
      by (simp add: feed_response_def response_loop_passthrough extend_def untimed_def)
  next
    case False
    then show ?thesis using l response_loop_untimed[of hp "extend b (ts_response t)" t now]
        response_loop_pt_ok[of hp now "extend b (ts_response t)" t]
      by (simp add: feed_response_def extend_def untimed_updates)
  qed
  then show ?eff ?ok by simp_all
qed

lemma feed_responses_run:
  "pt_ok (ts_response t) \<Longrightarrow>
   untimed (feed_responses hp xs t) =
   (case resp.run_pieces hp (map snd xs) (ts_response t, (untimed t)\<lparr>ts_response := x\<rparr>) of
      (d, t') \<Rightarrow> t'\<lparr>ts_response := d\<rparr>)"
proof (induction xs arbitrary: t)
  case Nil
  then show ?case by (simp add: feed_responses_def untimed_def)
next
  case (Cons y xs)
  obtain now b where y: "y = (now, b)" by (cases y)
  define t1 where "t1 = feed_response hp now b t"
  obtain d t' where l: "response_loop hp 0 (extend b (ts_response t)) (untimed t) = (d, t')" by fastforce
  have u: "untimed t1 = t'\<lparr>ts_response := d\<rparr>"
    using feed_response_loop(1)[OF Cons.prems, of hp now b] l by (simp add: t1_def)
  have "ts_response t1 = d" using arg_cong[OF u, of ts_response] by simp
  moreover have "pt_ok (ts_response t1)" using feed_response_loop(2)[OF Cons.prems] by (simp add: t1_def)
  moreover have "feed_responses hp (y # xs) t = feed_responses hp xs t1" by (simp add: feed_responses_def y t1_def)
  ultimately show ?case
    using Cons.IH[of t1] l response_loop_stale[of hp 0 "extend b (ts_response t)" x "untimed t"] by (simp add: y u)
qed

section \<open>Well-formed traffic\<close>

text \<open>The bytes \<open>w\<close> of a body with content \<open>d\<close>, for a framing that ends by itself.\<close>

definition body_wire :: "framing option \<Rightarrow> string \<Rightarrow> string \<Rightarrow> bool" where
  "body_wire fo w d \<longleftrightarrow>
     (case fo of
        None \<Rightarrow> w = [] \<and> d = []
      | Some (FrLength n) \<Rightarrow> length w = n \<and> d = w
      | Some (FrChunked _) \<Rightarrow>
          (\<exists>cs ts. list_all chunk_ok cs \<and> list_all trailer_ok ts \<and> w = encode_chunked cs ts \<and> d = concat (map snd cs))
      | Some FrUntilEof \<Rightarrow> False)"

lemma body_wire_framed:
  assumes "body_wire fo w d" and "\<And>n. fo = Some (FrLength n) \<Longrightarrow> 0 < n"
    and "\<And>s. fo = Some (FrChunked s) \<Longrightarrow> s = chunk_scanner_new"
  shows "case fo of None \<Rightarrow> w = [] | Some f \<Rightarrow>
    w \<noteq> [] \<and> (\<exists>f'. framing_feed f w (Some body_default) = (f', Some (body_of d), length w, True))"
proof (cases fo)
  case (Some f)
  show ?thesis
  proof (cases f)
    case (FrLength n)
    then show ?thesis using assms(1) assms(2)[of n] Some
      by (auto simp: body_wire_def framing_feed_def Let_def body_push_default)
  next
    case (FrChunked s)
    obtain cs ts where c: "list_all chunk_ok cs" "list_all trailer_ok ts" "w = encode_chunked cs ts" "d = concat (map snd cs)"
      using assms(1) Some FrChunked by (auto simp: body_wire_def)
    then show ?thesis using feed_encoded[OF c(1,2), of "[]"] assms(3)[of s] Some FrChunked
      by (simp add: framing_feed_def encode_chunked_def)
  next
    case FrUntilEof
    then show ?thesis using assms(1) Some by (simp add: body_wire_def)
  qed
qed (use assms(1) in \<open>simp add: body_wire_def\<close>)

lemma framings_new:
  "request_framing hs = Some (FrLength n) \<Longrightarrow> 0 < n" "request_framing hs = Some (FrChunked s) \<Longrightarrow> s = chunk_scanner_new"
  "response_framing st m hs = Some (FrLength n) \<Longrightarrow> 0 < n"
  "response_framing st m hs = Some (FrChunked s) \<Longrightarrow> s = chunk_scanner_new"
  by (auto simp: request_framing_def response_framing_def split: if_splits option.splits)

definition request_ok :: "httparse \<Rightarrow> message \<Rightarrow> bool" where
  "request_ok hp m \<longleftrightarrow> (case m of (h, w, d) \<Rightarrow> head_wf h \<and>
     (\<exists>meth path hs. parse_request_head hp h = Some (meth, path, hs) \<and> body_wire (request_framing hs) w d))"

definition request_of :: "httparse \<Rightarrow> message \<Rightarrow> pending_request" where
  "request_of hp m = (case m of (h, w, d) \<Rightarrow>
     (new_pending 0 (the (parse_request_head hp h)))\<lparr>pr_body := body_of d\<rparr>)"

fun responses_ok :: "httparse \<Rightarrow> pending_request list \<Rightarrow> message list \<Rightarrow> bool" where
  "responses_ok hp rs [] = (rs = [])"
| "responses_ok hp rs ((h, w, d) # ms) \<longleftrightarrow> head_wf h \<and>
     (\<exists>status hs. parse_response_head hp h = Some (status, hs) \<and>
        (if interim status then w = [] \<and> responses_ok hp rs ms
         else status \<noteq> 101 \<and> rs \<noteq> [] \<and> body_wire (response_framing status (Some (pr_method (hd rs))) hs) w d \<and>
              responses_ok hp (tl rs) ms))"

text \<open>The exchange of a request and its response, without times and identifier.\<close>

definition exchange_of :: "tap_state \<Rightarrow> pending_request \<Rightarrow> u16 \<Rightarrow> headers \<Rightarrow> string \<Rightarrow> exchange" where
  "exchange_of t p status hs d =
     \<lparr>ex_id = 0, ex_conn_id = ts_conn_id t, ex_tunnel = ts_tunnel t, ex_client_addr = ts_client_addr t,
      ex_method = pr_method p, ex_path = pr_path p, ex_host = pr_host p, ex_status = status,
      ex_request_headers = pr_headers p, ex_response_headers = hs, ex_request_body = pr_body p,
      ex_response_body = body_of d, ex_duration_ms = 0, ex_started_at = 0, ex_replayed = False\<rparr>"

fun paired :: "httparse \<Rightarrow> tap_state \<Rightarrow> pending_request list \<Rightarrow> message list \<Rightarrow> exchange list" where
  "paired hp t rs [] = []"
| "paired hp t rs ((h, w, d) # ms) =
     (case parse_response_head hp h of
        None \<Rightarrow> []
      | Some (status, hs) \<Rightarrow>
          if interim status then paired hp t rs ms
          else exchange_of t (hd rs) status hs d # paired hp t (tl rs) ms)"

lemma requests_stream:
  "list_all (request_ok hp) rs \<Longrightarrow> length ps + length rs \<le> MAX_PENDING \<Longrightarrow>
   req.stream_ok hp rs ps (ps @ map (request_of hp) rs)"
proof (induction rs arbitrary: ps)
  case (Cons m rs)
  obtain h w d where m: "m = (h, w, d)" by (cases m)
  obtain meth path hs where ok: "head_wf h" "parse_request_head hp h = Some (meth, path, hs)"
      "body_wire (request_framing hs) w d"
    using Cons.prems(1) m by (auto simp: request_ok_def)
  let ?p = "new_pending 0 (meth, path, hs)"
  have push: "push_pending ?p ps = ps @ [?p]" using Cons.prems(2) by (simp add: push_pending_def)
  have st: "start_request hp h ps = Some (request_framing hs, ps @ [?p])"
    using ok(2) push by (simp add: start_request_def)
  have bf: "req.body_framed (request_framing hs) w d"
    unfolding req.body_framed_def using body_wire_framed[OF ok(3)] framings_new(1,2) by blast
  have "d = []" if "request_framing hs = None" using ok(3) that by (simp add: body_wire_def)
  then have "req.after (request_framing hs) d (ps @ [?p]) = ps @ [request_of hp m]"
    using ok(2) by (auto simp: req.after_def set_back_body_def request_of_def m new_pending_def body_of_Nil split: option.split)
  then show ?case using Cons.IH[of "ps @ [request_of hp m]"] Cons.prems ok(1) st bf
    unfolding m req.stream_ok.simps by (auto simp: m)
qed simp

definition same_conn :: "tap_state \<Rightarrow> tap_state \<Rightarrow> bool" where
  "same_conn t t' \<longleftrightarrow> ts_conn_id t' = ts_conn_id t \<and> ts_tunnel t' = ts_tunnel t \<and> ts_client_addr t' = ts_client_addr t"

lemma exchange_of_cong: "same_conn t t' \<Longrightarrow> exchange_of t' p s hs d = exchange_of t p s hs d"
  by (simp add: same_conn_def exchange_of_def)

lemma paired_cong: "same_conn t t' \<Longrightarrow> paired hp t' rs ms = paired hp t rs ms"
  by (induction hp t rs ms rule: paired.induct) (auto simp: exchange_of_cong split: option.split)

lemma complete_front:
  assumes "ts_pending t = p # ps" and "pr_start p = 0"
  shows "complete_exchange 0 (set_response_body (Some (body_of d)) (start_response status hs t)) =
    t\<lparr>ts_current_response := None, ts_pending := ps,
      ts_inspector := inspector_record (exchange_of t p status hs d) (ts_inspector t)\<rparr>"
  using assms by (simp add: complete_exchange_def set_response_body_def start_response_def exchange_of_def)

lemma complete_front_empty:
  assumes "ts_pending t = p # ps" and "pr_start p = 0"
  shows "complete_exchange 0 (start_response status hs t) =
    t\<lparr>ts_current_response := None, ts_pending := ps,
      ts_inspector := inspector_record (exchange_of t p status hs []) (ts_inspector t)\<rparr>"
  using assms by (simp add: complete_exchange_def start_response_def exchange_of_def body_of_Nil)

lemma responses_stream:
  "responses_ok hp rs ms \<Longrightarrow> ts_pending t = rs \<Longrightarrow> ts_current_response t = None \<Longrightarrow> list_all (\<lambda>p. pr_start p = 0) rs \<Longrightarrow>
   resp.stream_ok hp ms t
     (t\<lparr>ts_pending := [], ts_inspector := fold inspector_record (paired hp t rs ms) (ts_inspector t)\<rparr>)"
proof (induction hp rs ms arbitrary: t rule: responses_ok.induct)
  case (1 hp rs)
  then show ?case by simp
next
  case (2 hp rs h w d ms)
  obtain status hs where p: "head_wf h" "parse_response_head hp h = Some (status, hs)"
      "if interim status then w = [] \<and> responses_ok hp rs ms
       else status \<noteq> 101 \<and> rs \<noteq> [] \<and> body_wire (response_framing status (Some (pr_method (hd rs))) hs) w d \<and>
              responses_ok hp (tl rs) ms"
    using "2.prems"(1) by auto
  show ?case
  proof (cases "interim status")
    case True
    have "resp.stream_ok hp ms t
        (t\<lparr>ts_pending := [], ts_inspector := fold inspector_record (paired hp t rs ms) (ts_inspector t)\<rparr>)"
      using "2.IH"(1)[OF True _ "2.prems"(2-4)] p(3) True by simp
    moreover have "begin_response hp h t = Some (None, t)" using p(2) True by (simp add: begin_response_def)
    ultimately show ?thesis using p True
      by (auto simp: resp.body_framed_def resp.after_def intro!: exI[of _ None])
  next
    case False
    then obtain r rs' where rs: "rs = r # rs'" using p(3) by (cases rs) auto
    let ?fo = "response_framing status (Some (pr_method r)) hs"
    have bw: "body_wire ?fo w d" "status \<noteq> 101" "responses_ok hp rs' ms" using p(3) False rs by simp_all
    define t1 where "t1 = t\<lparr>ts_current_response := None, ts_pending := rs',
      ts_inspector := inspector_record (exchange_of t r status hs d) (ts_inspector t)\<rparr>"
    have r0: "pr_start r = 0" "list_all (\<lambda>p. pr_start p = 0) rs'" using "2.prems"(4) rs by simp_all
    have fm: "front_method t = Some (pr_method r)" using "2.prems"(2) rs by (simp add: front_method_def)
    obtain p' where st: "begin_response hp h t = Some (?fo, p')" and af: "resp.after ?fo d p' = t1"
    proof (cases ?fo)
      case None
      then have "d = []" using bw(1) by (simp add: body_wire_def)
      then show ?thesis using that[of "complete_exchange 0 (start_response status hs t)"] None p(2) False bw(2) fm
          complete_front_empty[OF "2.prems"(2)[unfolded rs] r0(1), of status hs]
        by (simp add: begin_response_def resp.after_def t1_def)
    next
      case (Some f)
      then show ?thesis using that[of "start_response status hs t"] p(2) False bw(2) fm
          complete_front[OF "2.prems"(2)[unfolded rs] r0(1), of d status hs]
        by (simp add: begin_response_def resp.after_def t1_def)
    qed
    have bf: "resp.body_framed ?fo w d"
      unfolding resp.body_framed_def using body_wire_framed[OF bw(1)] framings_new(3,4) by blast
    have sc: "same_conn t t1" by (simp add: same_conn_def t1_def)
    have "resp.stream_ok hp ms t1
        (t1\<lparr>ts_pending := [], ts_inspector := fold inspector_record (paired hp t1 rs' ms) (ts_inspector t1)\<rparr>)"
      using "2.IH"(2)[OF False, of t1] bw(3) r0(2) rs by (simp add: t1_def)
    moreover have "t1\<lparr>ts_pending := [], ts_inspector := fold inspector_record (paired hp t1 rs' ms) (ts_inspector t1)\<rparr> =
        t\<lparr>ts_pending := [], ts_inspector := fold inspector_record (paired hp t rs ((h, w, d) # ms)) (ts_inspector t)\<rparr>"
      using paired_cong[OF sc] p(2) False rs "2.prems"(3) by (simp add: t1_def)
    ultimately show ?thesis using p(1) st bf af unfolding resp.stream_ok.simps by auto
  qed
qed

section \<open>Pairing\<close>

text \<open>A connection between messages: both parsers at a head with nothing buffered, nothing outstanding.\<close>

definition tap_idle :: "tap_state \<Rightarrow> bool" where
  "tap_idle t \<longleftrightarrow> ts_request t = dir_parser_new \<and> ts_response t = dir_parser_new \<and> ts_pending t = [] \<and>
     ts_current_response t = None"

lemma same_response: "ts_response t = d \<Longrightarrow> t\<lparr>ts_response := d\<rparr> = t"
  by (cases t) simp

lemma request_of_start: "pr_start (request_of hp m) = 0"
  by (simp add: request_of_def new_pending_def split: prod.split)

lemma untimed_requests: "map untimed_request (map (request_of hp) rs) = map (request_of hp) rs"
  by (simp add: untimed_request_def request_of_start)


definition example_get :: string where
  "example_get = ''GET / H'' @ [CR, LF, CR, LF]"

definition example_ok :: string where
  "example_ok = ''H 200'' @ [CR, LF] @ ''content-length:2'' @ [CR, LF, CR, LF]"

definition example_httparse :: httparse where
  "example_httparse =
     \<lparr>hp_request = (\<lambda>h. if h = example_get then Some (Some ''GET'', Some ''/'', []) else None),
      hp_response = (\<lambda>h. if h = example_ok then Some (Some 200, [(''content-length'', ''2'')]) else None)\<rparr>"

definition example_tap :: tap_state where
  "example_tap = tap_new (inspector_new True ''s'' None) ''app'' 1 ''c''"


end
