(* ===== verification/EdgeHttp.thy ===== *)
theory EdgeHttp
  imports RustStr EdgeProxy RouterHealth
begin

text \<open>
  The HTTP edge (\<open>edge/http.rs\<close>): header maps, the redirect of plain HTTP, the decision what to do with a plain
  or TLS request, and the headers of the forwarded request.  A request is the part the edge looks at.
\<close>

section \<open>Header maps\<close>

text \<open>A \<open>HeaderMap\<close> is the list of its entries with lower-case names; values are bytes.\<close>

type_synonym header_map = "(string \<times> string) list"

definition hm_get :: "string \<Rightarrow> header_map \<Rightarrow> string option" where
  "hm_get name hs = map_option snd (find (\<lambda>(n, v). n = name) hs)"

definition hm_remove :: "string \<Rightarrow> header_map \<Rightarrow> header_map" where
  "hm_remove name hs = filter (\<lambda>(n, v). n \<noteq> name) hs"

definition hm_insert :: "string \<Rightarrow> string \<Rightarrow> header_map \<Rightarrow> header_map" where
  "hm_insert name v hs = hm_remove name hs @ [(name, v)]"

definition hm_values :: "string \<Rightarrow> header_map \<Rightarrow> string list" where
  "hm_values name hs = map snd (filter (\<lambda>(n, v). n = name) hs)"

text \<open>\<open>HeaderValue::to_str\<close> takes visible ASCII and tabs, \<open>from_str\<close> everything but control characters.\<close>

definition value_to_str :: "string \<Rightarrow> string option" where
  "value_to_str v = (if list_all (\<lambda>c. 32 \<le> byte_of c \<and> byte_of c < 127 \<or> byte_of c = 9) v then Some v else None)"

definition value_from_str :: "string \<Rightarrow> string option" where
  "value_from_str v = (if list_all (\<lambda>c. 32 \<le> byte_of c \<and> byte_of c \<noteq> 127 \<or> byte_of c = 9) v then Some v else None)"

lemma hm_values_remove [simp]: "hm_values n (hm_remove m hs) = (if n = m then [] else hm_values n hs)"
  by (induction hs) (auto simp: hm_values_def hm_remove_def)

lemma hm_values_insert [simp]: "hm_values n (hm_insert m v hs) = (if n = m then [v] else hm_values n hs)"
proof -
  have "hm_values n (hm_insert m v hs) = hm_values n (hm_remove m hs) @ hm_values n [(m, v)]"
    by (simp add: hm_insert_def hm_values_def)
  then show ?thesis by (simp only: hm_values_remove) (simp add: hm_values_def)
qed

lemma hm_get_values: "hm_get n hs = (case hm_values n hs of [] \<Rightarrow> None | v # _ \<Rightarrow> Some v)"
  by (induction hs) (auto simp: hm_get_def hm_values_def)

section \<open>Addresses as text\<close>

definition dotted :: "u32 \<Rightarrow> string" where
  "dotted a = (let byte = (\<lambda>i. dec_string (unat (drop_bit (24 - 8 * i) a AND 255)))
     in byte 0 @ ''.'' @ byte 1 @ ''.'' @ byte 2 @ ''.'' @ byte 3)"

text \<open>\<open>{:x}\<close> of a segment.\<close>

fun hex_lower :: "nat \<Rightarrow> string" where
  "hex_lower n = (if n < 16 then [hex_digit n] else hex_lower (n div 16) @ [hex_digit (n mod 16)])"

declare hex_lower.simps [simp del]

definition ip_segments :: "uuid \<Rightarrow> nat list" where
  "ip_segments a = map (\<lambda>i. unat (drop_bit (112 - 16 * i) a AND 65535)) [0..<8]"

fun join_colon :: "string list \<Rightarrow> string" where
  "join_colon [] = []"
| "join_colon [x] = x"
| "join_colon (x # xs) = x @ '':'' @ join_colon xs"

text \<open>The first longest run of zero segments, as start and length.\<close>

definition zero_run :: "nat list \<Rightarrow> nat \<times> nat" where
  "zero_run ss =
     (let run = (\<lambda>i. (i, length (takeWhile (\<lambda>s. s = 0) (drop i ss))))
      in foldl (\<lambda>best r. if snd r > snd best then r else best) (0, 0) (map run [0..<length ss]))"

definition ipv6_string :: "uuid \<Rightarrow> string" where
  "ipv6_string a =
     (let ss = ip_segments a; text = (\<lambda>xs. join_colon (map hex_lower xs))
      in if take 6 ss = [0, 0, 0, 0, 0, 0xFFFF] then ''::ffff:'' @ dotted (ucast a)
         else case zero_run ss of (i, n) \<Rightarrow>
                if n > 1 then text (take i ss) @ ''::'' @ text (drop (i + n) ss) else text ss)"

definition ip_string :: "ip_addr \<Rightarrow> string" where
  "ip_string ip = (case ip of IpV4 a \<Rightarrow> dotted a | IpV6 a \<Rightarrow> ipv6_string a)"

section \<open>Hosts\<close>

definition host_name :: "string \<Rightarrow> string" where
  "host_name host = takeWhile (\<lambda>c. c \<noteq> CHR '':'') host"

definition extract_subdomain :: "string \<Rightarrow> string \<Rightarrow> string option" where
  "extract_subdomain host domain =
     (let name = host_name host; suff = ''.'' @ domain
      in if name = domain then None
         else if ends_with suff name then Some (take (length name - length suff) name) else None)"

definition rfind_colon :: "string \<Rightarrow> nat option" where
  "rfind_colon host =
     (if CHR '':'' \<in> set host
      then Some (length host - 1 - length (takeWhile (\<lambda>c. c \<noteq> CHR '':'') (rev host))) else None)"

definition sanitize_host :: "string \<Rightarrow> string option" where
  "sanitize_host host =
     (let (name, port_part) = (case rfind_colon host of
            Some pos \<Rightarrow> (take pos host, Some (drop pos host))
          | None \<Rightarrow> (host, None))
      in if list_all (\<lambda>c. is_ascii_alphanumeric c \<or> c = CHR ''-'' \<or> c = CHR ''.'') name \<and> name \<noteq> []
         then (case port_part of
                 Some port \<Rightarrow> if length port > 1 \<and> list_all is_ascii_digit (drop 1 port) then Some host else None
               | None \<Rightarrow> Some host)
         else None)"

section \<open>Requests\<close>

record http_request =
  rq_headers :: header_map
  rq_path_and_query :: "string option"

datatype forward_scheme = SchemeHttp | SchemeHttps

definition scheme_str :: "forward_scheme \<Rightarrow> string" where
  "scheme_str s = (case s of SchemeHttp \<Rightarrow> ''http'' | SchemeHttps \<Rightarrow> ''https'')"

datatype plain_http_mode = PlainRedirect | PlainProxy

record proxy_ctx =
  px_domain :: string
  px_rate_limit_rps :: u32
  px_request_body_max_bytes :: nat
  px_plain_http_mode :: plain_http_mode
  px_https_port :: u16

text \<open>What the edge answers itself: a status with a message, or a redirect; \<open>Forward\<close> goes on to the tunnel.\<close>

datatype edge_answer = Answer nat string | Redirect nat string | Forward string forward_scheme

definition host_header :: "http_request \<Rightarrow> string option" where
  "host_header req = Option.bind (hm_get ''host'' (rq_headers req)) value_to_str"

definition redirect_to_https :: "http_request \<Rightarrow> string \<Rightarrow> u16 \<Rightarrow> edge_answer" where
  "redirect_to_https req domain https_port =
     (let raw_host = (case host_header req of Some h \<Rightarrow> h | None \<Rightarrow> domain);
          host = (case sanitize_host raw_host of Some h \<Rightarrow> h | None \<Rightarrow> domain);
          name = host_name host;
          name = (if name \<noteq> domain \<and> \<not> ends_with (''.'' @ domain) name then domain else name);
          authority = (if https_port = 443 then name else name @ '':'' @ dec_string (unat https_port));
          pq = (case rq_path_and_query req of Some p \<Rightarrow> p | None \<Rightarrow> ''/'')
      in Redirect 308 (''https://'' @ authority @ pq))"

definition is_websocket_upgrade :: "http_request \<Rightarrow> bool" where
  "is_websocket_upgrade req =
     (case Option.bind (hm_get ''upgrade'' (rq_headers req)) value_to_str of
        Some v \<Rightarrow> eq_ignore_ascii_case v ''websocket'' | None \<Rightarrow> False)"

definition request_content_length :: "http_request \<Rightarrow> nat option" where
  "request_content_length req =
     Option.bind (Option.bind (hm_get ''content-length'' (rq_headers req)) value_to_str)
       (\<lambda>v. u64_from_str_radix v 10)"

text \<open>\<open>proxy_request\<close> up to the pending connection: the host, the tunnel and its limits.\<close>

definition proxy_request ::
  "(rat \<Rightarrow> rat) \<Rightarrow> instant \<Rightarrow> nat \<Rightarrow> uuid \<Rightarrow> proxy_ctx \<Rightarrow> http_request \<Rightarrow> forward_scheme \<Rightarrow> edge_sys \<Rightarrow>
   edge_sys \<times> edge_answer" where
  "proxy_request rnd now pick conn_id ctx req scheme s =
     (case host_header req of
        None \<Rightarrow> (s, Answer 400 ''Missing Host header'')
      | Some host \<Rightarrow>
          (case extract_subdomain host (px_domain ctx) of
             None \<Rightarrow> (s, Answer 400 ''Cannot parse subdomain'')
           | Some subdomain \<Rightarrow>
               (case proxy_request_open rnd now (px_rate_limit_rps ctx) (px_request_body_max_bytes ctx) pick subdomain
                       (request_content_length req) conn_id s of
                  (s', Inl (status, msg)) \<Rightarrow> (s', Answer status msg)
                | (s', Inr _) \<Rightarrow> (s', Forward host scheme))))"

definition ip_gate :: "instant \<Rightarrow> socket_addr \<Rightarrow> edge_sys \<Rightarrow> edge_sys \<times> bool" where
  "ip_gate now peer s =
     (case ip_check now (fst peer) (core_ip_limiter (sys_core s)) of
        (l, ok) \<Rightarrow> (s\<lparr>sys_core := (sys_core s)\<lparr>core_ip_limiter := l\<rparr>\<rparr>, ok))"

definition plain_http_request ::
  "(rat \<Rightarrow> rat) \<Rightarrow> instant \<Rightarrow> nat \<Rightarrow> uuid \<Rightarrow> socket_addr \<Rightarrow> proxy_ctx \<Rightarrow> http_request \<Rightarrow> edge_sys \<Rightarrow>
   edge_sys \<times> edge_answer" where
  "plain_http_request rnd now pick conn_id peer ctx req s =
     (case ip_gate now peer s of
        (s1, False) \<Rightarrow> (s1, Answer 429 ''Rate limit exceeded'')
      | (s1, True) \<Rightarrow>
          let resolvable = (case Option.bind (host_header req) (\<lambda>h. extract_subdomain h (px_domain ctx)) of
                Some sub \<Rightarrow> has_http_route sub (sys_core s1) | None \<Rightarrow> False)
          in if px_plain_http_mode ctx = PlainProxy \<and> resolvable
             then proxy_request rnd now pick conn_id ctx req SchemeHttp s1
             else (s1, redirect_to_https req (px_domain ctx) (px_https_port ctx)))"

definition https_request ::
  "(rat \<Rightarrow> rat) \<Rightarrow> instant \<Rightarrow> nat \<Rightarrow> uuid \<Rightarrow> socket_addr \<Rightarrow> proxy_ctx \<Rightarrow> http_request \<Rightarrow> edge_sys \<Rightarrow>
   edge_sys \<times> edge_answer" where
  "https_request rnd now pick conn_id peer ctx req s =
     (case ip_gate now peer s of
        (s1, False) \<Rightarrow> (s1, Answer 429 ''Rate limit exceeded'')
      | (s1, True) \<Rightarrow> proxy_request rnd now pick conn_id ctx req SchemeHttps s1)"

section \<open>The forwarded request\<close>

definition HOP_BY_HOP :: "string list" where
  "HOP_BY_HOP = [''connection'', ''keep-alive'', ''proxy-authenticate'', ''proxy-authorization'', ''te'', ''trailers'',
     ''transfer-encoding'', ''upgrade'']"

definition remove_hop_by_hop :: "header_map \<Rightarrow> header_map" where
  "remove_hop_by_hop hs = fold hm_remove HOP_BY_HOP hs"

definition insert_valid :: "string \<Rightarrow> string \<Rightarrow> header_map \<Rightarrow> header_map" where
  "insert_valid name v hs = (case value_from_str v of Some x \<Rightarrow> hm_insert name x hs | None \<Rightarrow> hs)"

definition set_forwarded_headers :: "socket_addr \<Rightarrow> forward_scheme \<Rightarrow> string \<Rightarrow> header_map \<Rightarrow> header_map" where
  "set_forwarded_headers peer scheme original_host hs =
     (let peer_ip = ip_string (fst peer);
          xff = (case Option.bind (hm_get ''x-forwarded-for'' hs) value_to_str of
                   Some existing \<Rightarrow> existing @ '', '' @ peer_ip
                 | None \<Rightarrow> peer_ip)
      in insert_valid ''x-forwarded-host'' original_host
           (hm_insert ''x-forwarded-proto'' (scheme_str scheme)
             (insert_valid ''x-forwarded-for'' xff hs)))"

text \<open>The headers \<open>forward_http\<close> sends upstream.\<close>

definition forwarded_headers :: "socket_addr \<Rightarrow> forward_scheme \<Rightarrow> string \<Rightarrow> http_request \<Rightarrow> header_map" where
  "forwarded_headers peer scheme original_host req =
     set_forwarded_headers peer scheme original_host (remove_hop_by_hop (rq_headers req))"

end
