(* ===== verification/EdgeHttpProps.thy ===== *)
theory EdgeHttpProps
  imports EdgeHttp SessionProps
begin

text \<open>
  The HTTP edge: what the forwarded headers say cannot be forged by the caller, a redirect never leaves the
  domain, and the public address announced for a tunnel leads to that tunnel.
\<close>

section \<open>Header values\<close>

lemma value_from_str_eq: "value_from_str v = Some x \<Longrightarrow> x = v"
  by (simp add: value_from_str_def split: if_splits)

definition visible :: "string \<Rightarrow> bool" where
  "visible v = list_all (\<lambda>c. 32 \<le> byte_of c \<and> byte_of c < 127 \<or> byte_of c = 9) v"

lemma visible_from_str: "visible v \<Longrightarrow> value_from_str v = Some v"
  by (auto simp: visible_def value_from_str_def list_all_iff)

lemma value_to_str_visible: "value_to_str v = Some x \<longleftrightarrow> x = v \<and> visible v"
  by (auto simp: value_to_str_def visible_def)

lemma visible_append [simp]: "visible (a @ b) \<longleftrightarrow> visible a \<and> visible b"
  by (simp add: visible_def)

lemma visible_simps [simp]: "visible []" "visible (c # cs) \<longleftrightarrow> (32 \<le> byte_of c \<and> byte_of c < 127 \<or> byte_of c = 9) \<and> visible cs"
  by (simp_all add: visible_def)

lemma visible_dec: "visible (dec_string n)"
proof (induction n rule: dec_string.induct)
  case (1 n)
  have "byte_of (digit_char (n mod 10)) = 48 + n mod 10" "n < 10 \<Longrightarrow> byte_of (digit_char n) = 48 + n"
    by (simp_all add: digit_char_def)
  then show ?case using 1 by (subst dec_string.simps) auto
qed

lemma visible_hex: "visible (hex_lower n)"
proof (induction n rule: hex_lower.induct)
  case (1 n)
  have "32 \<le> byte_of (hex_digit d) \<and> byte_of (hex_digit d) < 127" if "d < 16" for d
    using that by (simp add: hex_digit_def)
  then show ?case using 1 by (subst hex_lower.simps) auto
qed

lemma visible_join: "list_all visible xs \<Longrightarrow> visible (join_colon xs)"
  by (induction xs rule: join_colon.induct) auto

lemma visible_ip: "visible (ip_string ip)"
proof -
  have "visible (join_colon (map hex_lower xs))" for xs
    by (rule visible_join) (simp add: list_all_iff visible_hex)
  then show ?thesis
    by (auto simp: ip_string_def dotted_def ipv6_string_def visible_dec Let_def split: ip_addr.split prod.split)
qed

lemma fold_remove_values: "hm_values n (fold hm_remove names hs) = (if n \<in> set names then [] else hm_values n hs)"
  by (induction names arbitrary: hs) auto

lemma remove_hop_values: "hm_values n (remove_hop_by_hop hs) = (if n \<in> set HOP_BY_HOP then [] else hm_values n hs)"
  by (simp add: remove_hop_by_hop_def fold_remove_values)

definition forwarded_names :: "string list" where
  "forwarded_names = [''x-forwarded-for'', ''x-forwarded-proto'', ''x-forwarded-host'']"

lemma names_distinct:
  "''x-forwarded-for'' \<notin> set HOP_BY_HOP" "''x-forwarded-proto'' \<notin> set HOP_BY_HOP"
  "''x-forwarded-host'' \<notin> set HOP_BY_HOP"
  by (simp_all add: HOP_BY_HOP_def)

text \<open>C22. The forwarded request: the protocol and host headers have exactly one value, the real scheme and the Host the
  edge routed by; the address chain has one value that ends in the address of the peer, after whatever the caller
  sent; no hop-by-hop header of the list is left, and every other header is as the caller sent it.\<close>

theorem forwarded_headers_exact:
  assumes "host_header req = Some host"
  shows "hm_values ''x-forwarded-proto'' (forwarded_headers peer scheme host req) = [scheme_str scheme] \<and>
    hm_values ''x-forwarded-host'' (forwarded_headers peer scheme host req) = [host] \<and>
    (\<exists>sent. hm_values ''x-forwarded-for'' (forwarded_headers peer scheme host req) = [sent @ ip_string (fst peer)] \<and>
       (sent = [] \<or> (\<exists>v. hm_get ''x-forwarded-for'' (rq_headers req) = Some v \<and> sent = v @ '', ''))) \<and>
    (\<forall>n. n \<notin> set forwarded_names \<longrightarrow>
       hm_values n (forwarded_headers peer scheme host req) =
         (if n \<in> set HOP_BY_HOP then [] else hm_values n (rq_headers req)))"
proof -
  define hs where "hs = remove_hop_by_hop (rq_headers req)"
  define xff where "xff = (case Option.bind (hm_get ''x-forwarded-for'' hs) value_to_str of
      Some existing \<Rightarrow> existing @ '', '' @ ip_string (fst peer) | None \<Rightarrow> ip_string (fst peer))"
  have vis: "visible host" using assms by (auto simp: host_header_def value_to_str_visible bind_eq_Some_conv)
  have vx: "visible xff"
    using visible_ip[of "fst peer"] by (auto simp: xff_def bind_eq_Some_conv value_to_str_visible split: option.split)
  have f: "forwarded_headers peer scheme host req =
      hm_insert ''x-forwarded-host'' host
        (hm_insert ''x-forwarded-proto'' (scheme_str scheme) (hm_insert ''x-forwarded-for'' xff hs))"
    using visible_from_str[OF vis] visible_from_str[OF vx]
    by (simp add: forwarded_headers_def set_forwarded_headers_def insert_valid_def hs_def[symmetric] xff_def[symmetric])
  have get: "hm_get ''x-forwarded-for'' hs = hm_get ''x-forwarded-for'' (rq_headers req)"
    by (simp add: hs_def hm_get_values remove_hop_values names_distinct)
  have "\<exists>sent. xff = sent @ ip_string (fst peer) \<and>
      (sent = [] \<or> (\<exists>v. hm_get ''x-forwarded-for'' (rq_headers req) = Some v \<and> sent = v @ '', ''))"
  proof (cases "Option.bind (hm_get ''x-forwarded-for'' hs) value_to_str")
    case None
    then show ?thesis by (simp add: xff_def)
  next
    case (Some e)
    then have "hm_get ''x-forwarded-for'' (rq_headers req) = Some e"
      by (auto simp: bind_eq_Some_conv value_to_str_visible get)
    then show ?thesis using Some by (simp add: xff_def)
  qed
  then show ?thesis by (auto simp: f forwarded_names_def hs_def remove_hop_values)
qed

theorem forwarded_headers_exact_witness:
  "hm_values ''x-forwarded-for'' (forwarded_headers (IpV4 0x01020304, 9) SchemeHttps ''a.ex.com''
     \<lparr>rq_headers = [(''host'', ''a.ex.com''), (''x-forwarded-for'', ''9.9.9.9''), (''x-forwarded-proto'', ''ftp''),
        (''te'', ''x'')], rq_path_and_query = None\<rparr>) = [''9.9.9.9, 1.2.3.4''] \<and>
   hm_values ''x-forwarded-proto'' (forwarded_headers (IpV4 0x01020304, 9) SchemeHttps ''a.ex.com''
     \<lparr>rq_headers = [(''host'', ''a.ex.com''), (''x-forwarded-for'', ''9.9.9.9''), (''x-forwarded-proto'', ''ftp''),
        (''te'', ''x'')], rq_path_and_query = None\<rparr>) = [''https'']"
proof -
  let ?r = "\<lparr>rq_headers = [(''host'', ''a.ex.com''), (''x-forwarded-for'', ''9.9.9.9''), (''x-forwarded-proto'', ''ftp''),
        (''te'', ''x'')], rq_path_and_query = None\<rparr>"
  have h: "host_header ?r = Some ''a.ex.com''" by code_simp
  have "hm_values ''x-forwarded-for'' (forwarded_headers (IpV4 0x01020304, 9) SchemeHttps ''a.ex.com'' ?r) =
      [''9.9.9.9, 1.2.3.4'']" by code_simp
  then show ?thesis using forwarded_headers_exact[OF h, of "(IpV4 0x01020304, 9)" SchemeHttps] by (simp add: scheme_str_def)
qed

section \<open>Redirects\<close>

definition host_char :: "char \<Rightarrow> bool" where
  "host_char c \<longleftrightarrow> is_ascii_alphanumeric c \<or> c = CHR ''-'' \<or> c = CHR ''.''"

lemma host_char_colon [simp]: "\<not> host_char (CHR '':'')"
  by (simp add: host_char_def is_ascii_alphanumeric_def is_ascii_digit_def is_ascii_alphabetic_def)

lemma host_name_all: "list_all host_char n \<Longrightarrow> host_name n = n"
  by (auto simp: host_name_def takeWhile_eq_all_conv list_all_iff)

lemma host_name_port: "list_all host_char n \<Longrightarrow> host_name (n @ CHR '':'' # p) = n"
  by (auto simp: host_name_def list_all_iff takeWhile_append)

lemma rfind_colon_split:
  "rfind_colon h = Some pos \<Longrightarrow> \<exists>p. h = take pos h @ CHR '':'' # p \<and> drop pos h = CHR '':'' # p"
proof -
  assume a: "rfind_colon h = Some pos"
  then have c: "CHR '':'' \<in> set h" by (simp add: rfind_colon_def split: if_splits)
  then obtain xs ys where h: "h = xs @ CHR '':'' # ys" "CHR '':'' \<notin> set ys" by (metis split_list_last)
  then have "takeWhile (\<lambda>c. c \<noteq> CHR '':'') (rev h) = rev ys"
    by (auto simp: takeWhile_append takeWhile_eq_all_conv)
  then have "pos = length xs" using a c h by (simp add: rfind_colon_def)
  then show ?thesis using h by simp
qed

lemma sanitized_name:
  assumes "sanitize_host h = Some h'"
  shows "h' = h \<and> list_all host_char (host_name h)"
proof (cases "rfind_colon h")
  case None
  then have n: "list_all host_char h" "h' = h"
    using assms by (auto simp: sanitize_host_def list_all_iff host_char_def split: if_splits)
  then show ?thesis using host_name_all[OF n(1)] by simp
next
  case (Some pos)
  have n: "list_all host_char (take pos h)" "h' = h"
    using assms Some by (auto simp: sanitize_host_def list_all_iff host_char_def split: if_splits)
  obtain p where "h = take pos h @ CHR '':'' # p" using rfind_colon_split[OF Some] by blast
  then have "host_name h = take pos h" using host_name_port[OF n(1), of p] by metis
  then show ?thesis using n by simp
qed

text \<open>Plain HTTP is redirected with 308 to HTTPS on the name the caller used when that is the domain or below it, and
  to the domain otherwise: whatever the Host header, the authority of the location is a host name of the
  domain, made of host-name characters only, with the port of the HTTPS listener.\<close>

theorem redirect_stays_in_domain:
  assumes "list_all host_char domain"
  shows "\<exists>name. redirect_to_https req domain https_port =
      Redirect 308 (''https://'' @ name @ (if https_port = 443 then [] else '':'' @ dec_string (unat https_port)) @
        (case rq_path_and_query req of Some p \<Rightarrow> p | None \<Rightarrow> ''/'')) \<and>
    (name = domain \<or> ends_with (''.'' @ domain) name) \<and> list_all host_char name \<and>
    (\<forall>h. host_header req = Some h \<and> sanitize_host h = Some h \<and>
       (host_name h = domain \<or> ends_with (''.'' @ domain) (host_name h)) \<longrightarrow> name = host_name h)"
proof -
  define host where "host = (case sanitize_host (case host_header req of Some h \<Rightarrow> h | None \<Rightarrow> domain) of
      Some h \<Rightarrow> h | None \<Rightarrow> domain)"
  define name where "name = (if host_name host \<noteq> domain \<and> \<not> ends_with (''.'' @ domain) (host_name host) then domain
      else host_name host)"
  have "list_all host_char (host_name host)"
    using assms sanitized_name host_name_all[OF assms] by (auto simp: host_def split: option.split)
  then have n: "list_all host_char name" "name = domain \<or> ends_with (''.'' @ domain) name"
    using assms by (auto simp: name_def)
  have r: "redirect_to_https req domain https_port =
      Redirect 308 (''https://'' @ name @ (if https_port = 443 then [] else '':'' @ dec_string (unat https_port)) @
        (case rq_path_and_query req of Some p \<Rightarrow> p | None \<Rightarrow> ''/''))"
    unfolding redirect_to_https_def Let_def host_def[symmetric] name_def[symmetric] by simp
  have "name = host_name h" if "host_header req = Some h" "sanitize_host h = Some h"
      "host_name h = domain \<or> ends_with (''.'' @ domain) (host_name h)" for h
    using that by (auto simp: name_def host_def)
  then show ?thesis using r n by blast
qed

theorem redirect_stays_in_domain_witness:
  "\<exists>name. redirect_to_https \<lparr>rq_headers = [(''host'', ''evil.net'')], rq_path_and_query = Some ''/x''\<rparr> ''ex.com'' 443 =
      Redirect 308 (''https://'' @ name @ ''/x'') \<and> (name = ''ex.com'' \<or> ends_with ''.ex.com'' name)"
proof -
  have "list_all host_char ''ex.com''" by code_simp
  from redirect_stays_in_domain[OF this, of "\<lparr>rq_headers = [(''host'', ''evil.net'')], rq_path_and_query = Some ''/x''\<rparr>" 443]
  show ?thesis by auto
qed

section \<open>Announced addresses\<close>

lemma ends_with_append: "ends_with s n \<longleftrightarrow> (\<exists>p. n = p @ s)"
  by (auto simp: ends_with_def) (metis append_take_drop_id)

lemma extract_subdomain_iff:
  "extract_subdomain host domain = Some sub \<longleftrightarrow> host_name host = sub @ ''.'' @ domain"
  by (auto simp: extract_subdomain_def Let_def ends_with_append)

lemma host_name_no_colon: "CHR '':'' \<notin> set n \<Longrightarrow> host_name n = n"
  by (auto simp: host_name_def takeWhile_eq_all_conv)

lemma host_name_stop: "CHR '':'' \<notin> set n \<Longrightarrow> p = [] \<or> hd p = CHR '':'' \<Longrightarrow> host_name (n @ p) = n"
  by (cases p) (auto simp: host_name_def takeWhile_append takeWhile_eq_all_conv)

lemma abs_core_http:
  "abs_core c t = Some (s, KHttp sub) \<Longrightarrow>
   has_http_route sub c \<and> (\<exists>i. table_info (http_routes c) sub t = Some i \<and> ti_session_id i = s)"
  by (auto simp: abs_core_def tunnel_info_at_table table_info_def has_http_route_def dm_contains_def bind_eq_Some_conv
      split: option.splits tunnel_key.splits)

text \<open>C23. The address announced for an HTTP tunnel leads to it: the TunnelRegistered reply carries the URL of a
  subdomain, a request with that name in its Host header, with or without a port, is taken to that
  subdomain, the router has a route for it, and the new tunnel of this session is a member of that route.\<close>

theorem announced_url_routes:
  assumes inv: "core_inv TR UR (w_core w)" and fresh: "fresh_tunnel_id tid (w_core w)"
    and dom: "CHR '':'' \<notin> set (cf_domain cfg)" and http: "prot = Http \<or> prot = Https"
    and step: "handle_frame ev cfg ctx now (rnd, tid, conn, sub0)
      (RegisterTunnel req prot sd la sh name grp kh hc cs) w = (w', Inr ())"
    and reply: "w_sent w' = w_sent w @ [TunnelRegistered req tid url port nm notice]"
  shows "\<exists>sub. url = (if prot = Https then ''https'' else ''http'') @ ''://'' @ sub @ ''.'' @ cf_domain cfg \<and>
    (\<forall>p. p = [] \<or> hd p = CHR '':'' \<longrightarrow>
       extract_subdomain (sub @ ''.'' @ cf_domain cfg @ p) (cf_domain cfg) = Some sub) \<and>
    has_http_route sub (w_core w') \<and>
    (\<exists>i. table_info (http_routes (w_core w')) sub tid = Some i \<and> ti_session_id i = sc_session_id ctx)"
proof -
  have "register_frame ev cfg ctx now rnd tid req prot sd sh name grp kh hc cs w = (w', Inr ())"
    using step by (simp add: handle_frame_def)
  with inv fresh show ?thesis
  proof (cases rule: register_frame_cases)
    case (refused msg u)
    then show ?thesis using reply by (auto simp: send_frame_def split: if_splits)
  next
    case (accepted k url' port' nm' notice' u proto_str label)
    then have w': "w_core w' = w_core u" "url' = url"
      using reply by (auto simp: send_frame_def split: if_splits)
    obtain sub where k: "k = KHttp sub" "CHR '':'' \<notin> set sub" using accepted(3) http by (cases k) auto
    have "CHR '':'' \<notin> set (sub @ ''.'' @ cf_domain cfg)" using k(2) dom by simp
    then have e: "extract_subdomain ((sub @ ''.'' @ cf_domain cfg) @ p) (cf_domain cfg) = Some sub"
      if "p = [] \<or> hd p = CHR '':''" for p
      using that unfolding extract_subdomain_iff by (rule host_name_stop)
    have "abs_core (w_core w') tid = Some (sc_session_id ctx, KHttp sub)" using accepted(5) w' k by simp
    then show ?thesis using abs_core_http[of "w_core w'"] e accepted(2) w' k by fastforce
  qed simp
qed

definition example_register_http :: control_frame where
  "example_register_http = RegisterTunnel ''r1'' Http (Some ''app'') ''localhost:80'' None None None None None None"

theorem announced_url_routes_witness:
  "\<exists>w'. fst (handle_frame example_env example_cfg example_ctx 1 (0, 11, 0, 0) example_register_http
       example_session_world) = w' \<and> has_http_route ''app'' (w_core w')"
proof -
  define w' where "w' = fst (handle_frame example_env example_cfg example_ctx 1 (0, 11, 0, 0) example_register_http
    example_session_world)"
  have h: "handle_frame example_env example_cfg example_ctx 1 (0, 11, 0, 0)
      (RegisterTunnel ''r1'' Http (Some ''app'') ''localhost:80'' None None None None None None) example_session_world =
      (w', Inr ())"
    unfolding prod_eq_iff w'_def example_register_http_def example_session_world_def example_ctx_def example_defs tunnel_core_new_def
    by code_simp
  have reply: "w_sent w' = w_sent example_session_world @ [TunnelRegistered ''r1'' 11 ''http://app.ex.com'' None None None]"
    unfolding w'_def example_register_http_def example_session_world_def example_ctx_def example_defs tunnel_core_new_def
    by code_simp
  have "CHR '':'' \<notin> set (cf_domain example_cfg)" by (simp add: example_cfg_def)
  from announced_url_routes[OF example_session_inv example_session_fresh this _ h reply]
  show ?thesis by (auto simp: w'_def example_cfg_def)
qed

end
