(* ===== verification/ClientHealth.thy ===== *)
theory ClientHealth
  imports RustStr Protocol
begin

text \<open>
  The health probes of the client (\<open>health.rs\<close>, and \<open>health_check_to_wire\<close> of \<open>control.rs\<close>): the runtime
  specification built from the configuration, the verdict of one HTTP probe on the bytes it reads, and the probe
  loop, whose frames go to the control connection in the order they are sent.
\<close>

section \<open>Errors of the client\<close>

datatype client_error =
    CeConfig string
  | CeAuth string
  | CeTunnel string
  | CeConnection string
  | CeProtocol string
  | CeIo string

section \<open>Specifications\<close>

record health_check_config =
  hcc_kind :: string
  hcc_interval_secs :: u32
  hcc_timeout_secs :: u32
  hcc_max_failed :: u32
  hcc_path :: "string option"
  hcc_expect_2xx :: bool
  hcc_alert_webhook :: "string option"

datatype probe_kind = ProbeTcp | ProbeHttp string bool

record probe_spec =
  ps_kind :: probe_kind
  ps_interval :: duration
  ps_timeout :: duration
  ps_max_failed :: u32

definition unknown_kind :: "string \<Rightarrow> client_error" where
  "unknown_kind other = CeConfig (''unknown health_check kind '' @ quoted other @
     '' (expected '' @ quoted ''tcp'' @ '' or '' @ quoted ''http'' @ '')'')"

definition path_required :: client_error where
  "path_required = CeConfig (''health_check kind='' @ quoted ''http'' @ '' requires a path'')"

definition probe_spec_from_config :: "health_check_config \<Rightarrow> client_error + probe_spec" where
  "probe_spec_from_config cfg =
     (let kind = (if hcc_kind cfg = ''tcp'' then Inr ProbeTcp
                  else if hcc_kind cfg = ''http''
                  then (case hcc_path cfg of
                          None \<Rightarrow> Inl path_required
                        | Some path \<Rightarrow> Inr (ProbeHttp path (hcc_expect_2xx cfg)))
                  else Inl (unknown_kind (hcc_kind cfg)))
      in case kind of
           Inl e \<Rightarrow> Inl e
         | Inr k \<Rightarrow> Inr \<lparr>ps_kind = k, ps_interval = secs (uint (max (hcc_interval_secs cfg) 1)),
                         ps_timeout = secs (uint (max (hcc_timeout_secs cfg) 1)),
                         ps_max_failed = max (hcc_max_failed cfg) 1\<rparr>)"

definition health_check_to_wire :: "health_check_config \<Rightarrow> client_error + health_check_spec" where
  "health_check_to_wire cfg =
     (let kind = (if hcc_kind cfg = ''tcp'' then Inr HcTcp
                  else if hcc_kind cfg = ''http'' then Inr HcHttp
                  else Inl (unknown_kind (hcc_kind cfg)))
      in case kind of
           Inl e \<Rightarrow> Inl e
         | Inr k \<Rightarrow>
             if k = HcHttp \<and> hcc_path cfg = None then Inl path_required
             else Inr \<lparr>hc_kind = k, hc_interval_secs = max (hcc_interval_secs cfg) 1,
                       hc_timeout_secs = max (hcc_timeout_secs cfg) 1, hc_max_failed = max (hcc_max_failed cfg) 1,
                       hc_http_path = hcc_path cfg, hc_http_expect_2xx = hcc_expect_2xx cfg,
                       hc_alert_webhook_url = hcc_alert_webhook cfg\<rparr>)"

section \<open>One HTTP probe\<close>

text \<open>The request and the reading of the first line.  The buffer has 32 bytes; \<open>reads\<close> holds the bytes that arrive,
  read by read, and its end (or an empty read) stands for the end of the stream or an error.\<close>

definition probe_http_request :: "string \<Rightarrow> string \<Rightarrow> string" where
  "probe_http_request addr path =
     (let crlf = [CHR 0x0D, CHR 0x0A]
      in ''GET '' @ path @ '' HTTP/1.0'' @ crlf @ ''Host: '' @ addr @ crlf @ ''Connection: close'' @ crlf @
         ''User-Agent: rustunnel-healthcheck'' @ crlf @ crlf)"

fun read_first_line :: "string list \<Rightarrow> string \<Rightarrow> string" where
  "read_first_line [] buf = buf"
| "read_first_line (r # rs) buf =
     (if r = [] then buf
      else let buf' = buf @ take (32 - length buf) r
           in if CHR 0x0A \<in> set buf' \<or> length buf' = 32 then buf' else read_first_line rs buf')"

definition is_ascii_ws :: "char \<Rightarrow> bool" where
  "is_ascii_ws c \<longleftrightarrow> byte_of c \<in> {32, 9, 10, 12, 13}"

function split_ascii_whitespace :: "string \<Rightarrow> string list" where
  "split_ascii_whitespace s =
     (let t = dropWhile is_ascii_ws s
      in if t = [] then [] else takeWhile (\<lambda>c. \<not> is_ascii_ws c) t # split_ascii_whitespace (dropWhile (\<lambda>c. \<not> is_ascii_ws c) t))"
  by pat_completeness auto
termination
proof (relation "measure length", simp)
  fix s t :: string
  assume t: "t = dropWhile is_ascii_ws s" and "t \<noteq> []"
  then obtain x xs where x: "t = x # xs" "\<not> is_ascii_ws x" by (metis hd_dropWhile list.collapse)
  then have "length (dropWhile (\<lambda>c. \<not> is_ascii_ws c) t) \<le> length xs" by (simp add: length_dropWhile_le)
  moreover have "length t \<le> length s" by (simp add: t length_dropWhile_le)
  ultimately show "(dropWhile (\<lambda>c. \<not> is_ascii_ws c) t, s) \<in> measure length" using x by simp
qed

declare split_ascii_whitespace.simps [simp del]

definition u16_from_str :: "string \<Rightarrow> nat option" where
  "u16_from_str s =
     (let digits = (if s \<noteq> [] \<and> hd s = CHR ''+'' then tl s else s)
      in if digits = [] then None else digits_value 10 65535 0 digits)"

definition probe_status_ok :: "bool \<Rightarrow> string \<Rightarrow> bool" where
  "probe_status_ok expect_2xx line =
     (if utf8_valid line
      then (case split_ascii_whitespace line of
              version # code # _ \<Rightarrow>
                (case u16_from_str code of
                   Some status \<Rightarrow> if expect_2xx then 200 \<le> status \<and> status < 300 else 100 \<le> status
                 | None \<Rightarrow> False)
            | _ \<Rightarrow> False)
      else False)"

text \<open>What the network does in one probe: the connection, the write and the reads, and whether all of it (up to the
  verdict) fits in the timeout.\<close>

record probe_net =
  pn_connects :: bool
  pn_writes :: bool
  pn_reads :: "string list"
  pn_in_time :: bool

definition probe_tcp :: "probe_net \<Rightarrow> bool" where
  "probe_tcp net \<longleftrightarrow> pn_in_time net \<and> pn_connects net"

definition probe_http :: "bool \<Rightarrow> probe_net \<Rightarrow> bool" where
  "probe_http expect_2xx net \<longleftrightarrow>
     pn_in_time net \<and> pn_connects net \<and> pn_writes net \<and>
     probe_status_ok expect_2xx (read_first_line (pn_reads net) [])"

definition run_probe :: "probe_spec \<Rightarrow> probe_net \<Rightarrow> bool" where
  "run_probe spec net = (case ps_kind spec of ProbeTcp \<Rightarrow> probe_tcp net | ProbeHttp path expect_2xx \<Rightarrow> probe_http expect_2xx net)"

section \<open>The probe loop\<close>

record probe_state =
  pl_failures :: u32
  pl_was_healthy :: "bool option"

definition saturating_inc :: "u32 \<Rightarrow> u32" where
  "saturating_inc n = (if n = - 1 then n else n + 1)"

definition probe_edge :: "u32 \<Rightarrow> bool \<Rightarrow> probe_state \<Rightarrow> u32 \<times> bool option" where
  "probe_edge max_failed healthy st =
     (let failed = saturating_inc (pl_failures st)
      in case (pl_was_healthy st, healthy) of
           (None, True) \<Rightarrow> (pl_failures st, Some True)
         | (None, False) \<Rightarrow> (failed, if failed \<ge> max_failed then Some False else None)
         | (Some True, True) \<Rightarrow> (0, None)
         | (Some True, False) \<Rightarrow> (failed, if failed \<ge> max_failed then Some False else None)
         | (Some False, True) \<Rightarrow> (0, Some True)
         | (Some False, False) \<Rightarrow> (failed, None))"

text \<open>One turn of the loop.  \<open>tx_open\<close> says whether the channel to the control loop still takes frames; the loop
  ends (\<open>None\<close>) when a frame cannot be sent.\<close>

definition probe_turn ::
  "uuid \<Rightarrow> probe_spec \<Rightarrow> bool \<Rightarrow> probe_net \<Rightarrow> probe_state \<Rightarrow> probe_state option \<times> control_frame list" where
  "probe_turn tunnel_id spec tx_open net st =
     (case probe_edge (ps_max_failed spec) (run_probe spec net) st of
        (failures, None) \<Rightarrow> (Some (st\<lparr>pl_failures := failures\<rparr>), [])
      | (failures, Some now_healthy) \<Rightarrow>
          if tx_open
          then (Some \<lparr>pl_failures = failures, pl_was_healthy = Some now_healthy\<rparr>,
                [if now_healthy then TunnelHealthy tunnel_id
                 else TunnelUnhealthy tunnel_id (dec_string (unat failures) @ '' consecutive probe failures'')])
          else (None, []))"

definition probe_start :: probe_state where
  "probe_start = \<lparr>pl_failures = 0, pl_was_healthy = None\<rparr>"

fun probe_loop ::
  "uuid \<Rightarrow> probe_spec \<Rightarrow> (bool \<times> probe_net) list \<Rightarrow> probe_state \<Rightarrow> probe_state option \<times> control_frame list" where
  "probe_loop tunnel_id spec [] st = (Some st, [])"
| "probe_loop tunnel_id spec ((tx_open, net) # turns) st =
     (case probe_turn tunnel_id spec tx_open net st of
        (None, frames) \<Rightarrow> (None, frames)
      | (Some st', frames) \<Rightarrow>
          (case probe_loop tunnel_id spec turns st' of (out, frames') \<Rightarrow> (out, frames @ frames')))"

end
