(* ===== verification/ClientHealthProps.thy ===== *)
theory ClientHealthProps
  imports ClientHealth SessionProps RouterDispatch
begin

text \<open>
  The probe loop against its specification in terms of the history of probe results, and its composition with the
  server: the health bit the dispatcher reads follows the probes.
\<close>

section \<open>The verdict on a history of probes\<close>

definition passes :: "bool list \<Rightarrow> nat" where
  "passes h = length (filter id h)"

definition leading_fails :: "bool list \<Rightarrow> nat" where
  "leading_fails h = length (takeWhile Not h)"

definition trailing_fails :: "bool list \<Rightarrow> nat" where
  "trailing_fails h = leading_fails (rev h)"

text \<open>The failures that count against \<open>max_failed\<close>: those since the last pass, and, as long as there was one pass
  only, also the ones before it unless they had been reported.\<close>

definition counted_fails :: "nat \<Rightarrow> bool list \<Rightarrow> nat" where
  "counted_fails n h = trailing_fails h + (if passes h = 1 \<and> leading_fails h < n then leading_fails h else 0)"

definition verdict :: "nat \<Rightarrow> bool list \<Rightarrow> bool option" where
  "verdict n h =
     (if passes h = 0 then (if n \<le> length h then Some False else None) else Some (counted_fails n h < n))"

lemma passes_snoc [simp]: "passes [] = 0" "passes (h @ [r]) = passes h + (if r then 1 else 0)"
  by (simp_all add: passes_def)

lemma trailing_snoc [simp]: "trailing_fails [] = 0" "trailing_fails (h @ [r]) = (if r then 0 else Suc (trailing_fails h))"
  by (simp_all add: trailing_fails_def leading_fails_def)

lemma leading_no_pass: "passes h = 0 \<Longrightarrow> leading_fails h = length h"
  by (induction h) (auto simp: passes_def leading_fails_def)

lemma leading_snoc: "leading_fails (h @ [r]) = (if passes h = 0 then length h + (if r then 0 else 1) else leading_fails h)"
  by (induction h) (auto simp: passes_def leading_fails_def)

lemma trailing_no_pass: "passes h = 0 \<Longrightarrow> trailing_fails h = length h"
proof -
  assume "passes h = 0"
  then have "passes (rev h) = 0" by (simp add: passes_def rev_filter[symmetric])
  then show ?thesis by (simp add: trailing_fails_def leading_no_pass)
qed

lemma verdict_Nil [simp]: "0 < n \<Longrightarrow> verdict n [] = None"
  by (simp add: verdict_def)

section \<open>The loop computes the verdict\<close>

definition probe_inv :: "u32 \<Rightarrow> bool list \<Rightarrow> probe_state \<Rightarrow> bool" where
  "probe_inv m h st \<longleftrightarrow>
     pl_was_healthy st = verdict (unat m) h \<and>
     (verdict (unat m) h \<noteq> Some False \<longrightarrow> unat (pl_failures st) = counted_fails (unat m) h)"

lemma unat_saturating: "unat n < unat m \<Longrightarrow> unat (saturating_inc n) = Suc (unat n)" for m :: u32
proof -
  assume "unat n < unat m"
  then have n: "n \<noteq> - 1" using word_le_nat_alt[of m "- 1"] by auto
  then have "1 + n \<noteq> 0" by (metis add.commute eq_neg_iff_add_eq_0)
  then show ?thesis using n unatSuc[of n] by (simp add: saturating_inc_def add.commute)
qed

lemma counted_snoc:
  "counted_fails n (h @ [r]) =
     (if \<not> r then Suc (trailing_fails h) + (if passes h = 1 \<and> leading_fails h < n then leading_fails h else 0)
      else if passes h = 0 \<and> length h < n then length h else 0)"
  by (auto simp: counted_fails_def leading_snoc)

lemma probe_edge_inv:
  assumes inv: "probe_inv m h st" and m: "0 < unat m"
    and e: "probe_edge m r st = (f, edge)"
  shows "probe_inv m (h @ [r]) \<lparr>pl_failures = f, pl_was_healthy = (case edge of None \<Rightarrow> pl_was_healthy st | e \<Rightarrow> e)\<rparr>"
proof (cases "pl_was_healthy st")
  case None
  then have h: "passes h = 0" "length h < unat m" "unat (pl_failures st) = length h"
    using inv by (auto simp: probe_inv_def verdict_def counted_fails_def trailing_no_pass split: if_splits)
  then have "unat (saturating_inc (pl_failures st)) = Suc (length h)" using unat_saturating[of "pl_failures st" m] by simp
  then show ?thesis using e None h m
    by (cases r) (auto simp: probe_edge_def probe_inv_def verdict_def counted_snoc trailing_no_pass word_le_nat_alt
        not_le counted_fails_def leading_snoc split: if_splits)
next
  case (Some w)
  then have p: "w \<Longrightarrow> 0 < passes h \<and> counted_fails (unat m) h < unat m \<and> unat (pl_failures st) = counted_fails (unat m) h"
    "\<not> w \<Longrightarrow> (passes h = 0 \<and> unat m \<le> length h) \<or> (0 < passes h \<and> unat m \<le> counted_fails (unat m) h)"
    using inv by (auto simp: probe_inv_def verdict_def split: if_splits)
  show ?thesis
  proof (cases w)
    case True
    then have "unat (saturating_inc (pl_failures st)) = Suc (counted_fails (unat m) h)"
      using p unat_saturating[of "pl_failures st" m] by simp
    then show ?thesis using e Some True p m
      by (cases r) (auto simp: probe_edge_def probe_inv_def verdict_def counted_snoc counted_fails_def leading_snoc word_le_nat_alt
          not_le split: if_splits)
  next
    case False
    then show ?thesis using e Some p m
      by (cases r) (auto simp: probe_edge_def probe_inv_def verdict_def counted_snoc counted_fails_def leading_snoc
          trailing_no_pass split: if_splits)
  qed
qed

definition outcomes :: "probe_spec \<Rightarrow> (bool \<times> probe_net) list \<Rightarrow> bool list" where
  "outcomes spec turns = map (run_probe spec \<circ> snd) turns"

text \<open>The frames of a run, as the values of the health bit they carry: the last one is what the loop last told.\<close>

fun reported :: "uuid \<Rightarrow> control_frame list \<Rightarrow> bool \<Rightarrow> bool" where
  "reported t [] b = b"
| "reported t (f # fs) b = reported t fs
     (case f of TunnelHealthy t' \<Rightarrow> if t' = t then True else b
              | TunnelUnhealthy t' _ \<Rightarrow> if t' = t then False else b | _ \<Rightarrow> b)"

definition probe_frame :: "uuid \<Rightarrow> control_frame \<Rightarrow> bool" where
  "probe_frame t f \<longleftrightarrow> f = TunnelHealthy t \<or> (\<exists>r. f = TunnelUnhealthy t r)"

lemma reported_Nil: "reported t [] = (\<lambda>b. b)"
  by (rule ext) simp

lemma reported_append: "reported t (fs @ gs) b = reported t gs (reported t fs b)"
  by (induction fs arbitrary: b) auto

lemma probe_turn_inv:
  assumes "probe_inv (ps_max_failed spec) h st" "0 < unat (ps_max_failed spec)"
  shows "\<exists>st' fs. probe_turn t spec True net st = (Some st', fs) \<and>
    probe_inv (ps_max_failed spec) (h @ [run_probe spec net]) st' \<and> list_all (probe_frame t) fs \<and>
    reported t fs (case pl_was_healthy st of None \<Rightarrow> b | Some x \<Rightarrow> x) = (case pl_was_healthy st' of None \<Rightarrow> b | Some x \<Rightarrow> x)"
proof -
  obtain f edge where e: "probe_edge (ps_max_failed spec) (run_probe spec net) st = (f, edge)" by fastforce
  note inv = probe_edge_inv[OF assms e]
  show ?thesis
  proof (cases edge)
    case None
    have "\<lparr>pl_failures = f, pl_was_healthy = pl_was_healthy st\<rparr> = st\<lparr>pl_failures := f\<rparr>" by simp
    then have "probe_inv (ps_max_failed spec) (h @ [run_probe spec net]) (st\<lparr>pl_failures := f\<rparr>)"
      using inv None by (simp only: option.case)
    then show ?thesis using None by (simp add: probe_turn_def e)
  next
    case (Some x)
    then show ?thesis using inv by (simp add: probe_turn_def e probe_frame_def)
  qed
qed

lemma probe_loop_inv:
  assumes "probe_inv (ps_max_failed spec) h st" "0 < unat (ps_max_failed spec)" "list_all fst turns"
  shows "\<exists>st' fs. probe_loop t spec turns st = (Some st', fs) \<and>
    probe_inv (ps_max_failed spec) (h @ outcomes spec turns) st' \<and> list_all (probe_frame t) fs \<and>
    reported t fs (case pl_was_healthy st of None \<Rightarrow> b | Some x \<Rightarrow> x) = (case pl_was_healthy st' of None \<Rightarrow> b | Some x \<Rightarrow> x)"
  using assms
proof (induction turns arbitrary: h st)
  case (Cons x turns)
  obtain net where x: "x = (True, net)" using Cons.prems(3) by (cases x) auto
  obtain st1 fs1 where 1: "probe_turn t spec True net st = (Some st1, fs1)"
    "probe_inv (ps_max_failed spec) (h @ [run_probe spec net]) st1" "list_all (probe_frame t) fs1"
    "reported t fs1 (case pl_was_healthy st of None \<Rightarrow> b | Some x \<Rightarrow> x) = (case pl_was_healthy st1 of None \<Rightarrow> b | Some x \<Rightarrow> x)"
    using probe_turn_inv[OF Cons.prems(1,2)] by blast
  obtain st2 fs2 where 2: "probe_loop t spec turns st1 = (Some st2, fs2)"
    "probe_inv (ps_max_failed spec) ((h @ [run_probe spec net]) @ outcomes spec turns) st2" "list_all (probe_frame t) fs2"
    "reported t fs2 (case pl_was_healthy st1 of None \<Rightarrow> b | Some x \<Rightarrow> x) = (case pl_was_healthy st2 of None \<Rightarrow> b | Some x \<Rightarrow> x)"
    using Cons.IH[OF 1(2) Cons.prems(2)] Cons.prems(3) by auto
  have "probe_inv (ps_max_failed spec) (h @ outcomes spec (x # turns)) st2" using 2(2) by (simp add: outcomes_def x)
  then show ?case using 1 2 by (auto simp: x reported_append)
qed (simp add: outcomes_def)

lemma probe_start_inv: "0 < unat m \<Longrightarrow> probe_inv m [] probe_start"
  by (simp add: probe_inv_def probe_start_def counted_fails_def)

lemma from_config_max: "probe_spec_from_config cfg = Inr spec \<Longrightarrow> 0 < unat (ps_max_failed spec)"
proof -
  assume "probe_spec_from_config cfg = Inr spec"
  then have "ps_max_failed spec = max (hcc_max_failed cfg) 1"
    by (auto simp: probe_spec_from_config_def Let_def split: if_splits option.splits sum.splits)
  then have "1 \<le> ps_max_failed spec" by simp
  then show ?thesis by (simp add: word_le_nat_alt)
qed

section \<open>On the server\<close>

text \<open>The control session handles the frames one after the other, the \<open>n\<close>-th with the time and the identifiers
  \<open>tick n\<close>.\<close>

fun deliver ::
  "env \<Rightarrow> server_config \<Rightarrow> session_ctx \<Rightarrow> (nat \<Rightarrow> instant \<times> uuid \<times> uuid \<times> uuid \<times> uuid) \<Rightarrow> nat \<Rightarrow> control_frame list \<Rightarrow>
   world \<Rightarrow> world" where
  "deliver ev cfg ctx tick n [] w = w"
| "deliver ev cfg ctx tick n (f # fs) w =
     deliver ev cfg ctx tick (Suc n) fs (fst (handle_frame ev cfg ctx (fst (tick n)) (snd (tick n)) f w))"

lemma member_at_pop: "pop_zero_healthy_alert t r c = (c', a) \<Longrightarrow> member_at t' c' = member_at t' c"
  by (auto simp: pop_zero_healthy_alert_def member_at_alerted split: option.splits if_splits)

lemma marks_healthy [simp]: "gm_healthy (fst (mark_healthy now m))" "\<not> gm_healthy (fst (mark_unhealthy now r m))"
  by (simp_all add: mark_healthy_def mark_unhealthy_def record_health_event_def Let_def)

lemma deliver_probe_frame:
  assumes inv: "core_inv TR UR (w_core w)" and own: "owner (w_core w) t = Some (sc_session_id ctx)"
    and f: "probe_frame t f" and step: "handle_frame ev cfg ctx now ids f w = (w', r)"
  shows "core_inv TR UR (w_core w') \<and> abs_core (w_core w') = abs_core (w_core w) \<and>
    map_option gm_healthy (member_at t' (w_core w')) =
      (if t' = t then map_option (reported t [f]) (map_option gm_healthy (member_at t (w_core w)))
       else map_option gm_healthy (member_at t' (w_core w)))"
proof (cases "f = TunnelHealthy t")
  case True
  have "w_core w' = fst (set_tunnel_healthy now t (w_core w))"
    using step True own by (auto simp: handle_frame_def healthy_frame_def tunnel_session_owner split: prod.splits)
  then show ?thesis
    using set_tunnel_healthy_inv[OF inv, of now t] member_at_reports[of t' now t "[]" "w_core w"] True
    by (auto simp: option.map_comp comp_def) (metis prod.collapse)+
next
  case False
  then obtain reason where f: "f = TunnelUnhealthy t reason" using f by (auto simp: probe_frame_def)
  obtain c1 b where c1: "set_tunnel_unhealthy now t reason (w_core w) = (c1, b)" by fastforce
  obtain c2 a where c2: "pop_zero_healthy_alert t (cf_region_id cfg) c1 = (c2, a)" by fastforce
  have i1: "core_inv TR UR c1 \<and> abs_core c1 = abs_core (w_core w)" using set_tunnel_unhealthy_inv[OF inv c1] .
  then have i2: "core_inv TR UR c2 \<and> abs_core c2 = abs_core (w_core w)" using pop_alert_inv[OF _ c2] by metis
  have w': "w_core w' = (if b then c2 else c1)"
    using step f own c1 c2 by (auto simp: handle_frame_def unhealthy_frame_def tunnel_session_owner
        split: prod.splits option.splits bool.splits)
  have m: "member_at t' (w_core w') = member_at t' c1" using w' member_at_pop[OF c2] by simp
  show ?thesis
    using i1 i2 w' m member_at_reports[of t' now t reason "w_core w"] c1 f
    by (auto simp: option.map_comp comp_def)
qed

lemma deliver_probe_frames:
  assumes "core_inv TR UR (w_core w)" "owner (w_core w) t = Some (sc_session_id ctx)" "list_all (probe_frame t) fs"
  shows "map_option gm_healthy (member_at t' (w_core (deliver ev cfg ctx tick n fs w))) =
      (if t' = t then map_option (reported t fs) (map_option gm_healthy (member_at t (w_core w)))
       else map_option gm_healthy (member_at t' (w_core w)))"
  using assms
proof (induction fs arbitrary: n w)
  case (Cons f fs)
  define w1 where "w1 = fst (handle_frame ev cfg ctx (fst (tick n)) (snd (tick n)) f w)"
  have s: "core_inv TR UR (w_core w1) \<and> abs_core (w_core w1) = abs_core (w_core w) \<and>
    map_option gm_healthy (member_at t'' (w_core w1)) =
      (if t'' = t then map_option (reported t [f]) (map_option gm_healthy (member_at t (w_core w)))
       else map_option gm_healthy (member_at t'' (w_core w)))" for t''
    unfolding w1_def by (rule deliver_probe_frame[OF Cons.prems(1,2) _ prod.collapse[symmetric]]) (use Cons.prems(3) in simp)
  then have "owner (w_core w1) t = Some (sc_session_id ctx)" using Cons.prems(2) by (simp add: owner_abs)
  then have IH: "map_option gm_healthy (member_at t' (w_core (deliver ev cfg ctx tick (Suc n) fs w1))) =
      (if t' = t then map_option (reported t fs) (map_option gm_healthy (member_at t (w_core w1)))
       else map_option gm_healthy (member_at t' (w_core w1)))"
    using Cons.IH s Cons.prems(3) by simp
  then show ?case using s[of t] s[of t'] by (simp add: w1_def[symmetric] option.map_comp comp_def)
qed (simp add: reported_Nil option.map_ident)

text \<open>C24. End to end, the health bit the dispatcher reads follows the probes of the client: after any history of probes
  whose frames the owning session delivers, the bit of the member is the verdict on the history, and no other
  tunnel is touched.  The verdict is unhealthy exactly from \<open>max_failed\<close> failures in a row on and healthy again with
  the first pass; before the first pass, fewer failures say nothing, and they are counted on after it.\<close>

theorem health_bit_follows_probes:
  assumes cfg: "probe_spec_from_config hc = Inr spec"
    and inv: "core_inv TR UR (w_core w)" and own: "owner (w_core w) t = Some (sc_session_id ctx)"
    and mem: "member_at t (w_core w) = Some m" and alive: "list_all fst turns"
    and run: "probe_loop t spec turns probe_start = (out, frames)"
  shows "out \<noteq> None \<and>
    (\<exists>m'. member_at t (w_core (deliver ev cfg ctx tick n frames w)) = Some m' \<and>
       gm_healthy m' = (case verdict (unat (ps_max_failed spec)) (outcomes spec turns) of
           None \<Rightarrow> gm_healthy m | Some v \<Rightarrow> v)) \<and>
    (\<forall>t'. t' \<noteq> t \<longrightarrow> map_option gm_healthy (member_at t' (w_core (deliver ev cfg ctx tick n frames w))) =
       map_option gm_healthy (member_at t' (w_core w)))"
proof -
  note pos = from_config_max[OF cfg]
  obtain st' fs where l: "probe_loop t spec turns probe_start = (Some st', fs)"
    "probe_inv (ps_max_failed spec) ([] @ outcomes spec turns) st'" "list_all (probe_frame t) fs"
    "reported t fs (case pl_was_healthy probe_start of None \<Rightarrow> gm_healthy m | Some x \<Rightarrow> x) =
       (case pl_was_healthy st' of None \<Rightarrow> gm_healthy m | Some x \<Rightarrow> x)"
    using probe_loop_inv[OF probe_start_inv[OF pos] pos alive] by blast
  have frames: "frames = fs" "out = Some st'" using run l(1) by simp_all
  have "map_option gm_healthy (member_at t (w_core (deliver ev cfg ctx tick n fs w))) = Some (reported t fs (gm_healthy m))"
    using deliver_probe_frames[OF inv own l(3), of t] mem by simp
  then have "\<exists>m'. member_at t (w_core (deliver ev cfg ctx tick n fs w)) = Some m' \<and> gm_healthy m' = reported t fs (gm_healthy m)"
    by (simp add: map_option_eq_Some)
  moreover have "reported t fs (gm_healthy m) = (case verdict (unat (ps_max_failed spec)) (outcomes spec turns) of
           None \<Rightarrow> gm_healthy m | Some v \<Rightarrow> v)"
    using l(2,4) by (simp add: probe_inv_def probe_start_def)
  ultimately show ?thesis using deliver_probe_frames[OF inv own l(3)] frames by simp
qed

definition example_hc :: health_check_config where
  "example_hc = \<lparr>hcc_kind = ''tcp'', hcc_interval_secs = 10, hcc_timeout_secs = 3, hcc_max_failed = 2, hcc_path = None,
     hcc_expect_2xx = True, hcc_alert_webhook = None\<rparr>"

definition example_hc_spec :: probe_spec where
  "example_hc_spec = \<lparr>ps_kind = ProbeTcp, ps_interval = secs 10, ps_timeout = secs 3, ps_max_failed = 2\<rparr>"

definition example_net :: "bool \<Rightarrow> bool \<times> probe_net" where
  "example_net up = (True, \<lparr>pn_connects = up, pn_writes = True, pn_reads = [], pn_in_time = True\<rparr>)"

definition example_pool_world :: world where
  "example_pool_world = fst (handle_frame example_env example_cfg example_ctx 1 (0, 11, 0, 0)
     (RegisterTunnel ''r1'' Http (Some ''app'') ''localhost:80'' None None (Some ''pool'') (Some ''key'')
        (Some \<lparr>hc_kind = HcTcp, hc_interval_secs = 10, hc_timeout_secs = 3, hc_max_failed = 2, hc_http_path = None,
           hc_http_expect_2xx = True, hc_alert_webhook_url = None\<rparr>) None)
     example_session_world)"

lemma example_pool_inv: "core_inv (set (port_range 100 101)) {} (w_core example_pool_world)"
  unfolding example_pool_world_def
  using handle_frame_effect[OF example_session_inv example_session_fresh prod.collapse[symmetric]] by blast

lemma example_pool_member:
  "owner (w_core example_pool_world) 11 = Some 7 \<and> map_option gm_healthy (member_at 11 (w_core example_pool_world)) = Some False"
  unfolding example_pool_world_def example_session_world_def example_ctx_def example_defs tunnel_core_new_def
  by code_simp

text \<open>With \<open>max_failed = 2\<close>, the history fail, pass, fail ends unhealthy: the failure before the first pass counts.\<close>

theorem health_bit_follows_probes_witness:
  "\<exists>m'. member_at 11 (w_core (deliver example_env example_cfg example_ctx (\<lambda>n. (int n, 0, 0, 0, 0)) 0
       (snd (probe_loop 11 example_hc_spec (map example_net [False, True, False]) probe_start)) example_pool_world)) = Some m' \<and>
     \<not> gm_healthy m'"
proof -
  have cfg: "probe_spec_from_config example_hc = Inr example_hc_spec" by code_simp
  have own: "owner (w_core example_pool_world) 11 = Some (sc_session_id example_ctx)"
    using example_pool_member by (simp add: example_ctx_def)
  obtain m where m: "member_at 11 (w_core example_pool_world) = Some m" using example_pool_member by fastforce
  have "list_all fst (map example_net [False, True, False])" by code_simp
  moreover have "verdict (unat (ps_max_failed example_hc_spec)) (outcomes example_hc_spec (map example_net [False, True, False])) =
      Some False" by code_simp
  ultimately show ?thesis
    using health_bit_follows_probes[OF cfg example_pool_inv own m _ prod.collapse[symmetric], of "map example_net [False, True, False]"
        example_env example_cfg "\<lambda>n. (int n, 0, 0, 0, 0)" 0]
    by auto
qed

end
