(* ===== verification/Rollup.thy ===== *)
theory Rollup
  imports Billing "HOL-Library.Product_Lexorder"
begin

text \<open>
  The daily usage rollup (\<open>db/usage_rollup.rs\<close>): the recompute of \<open>usage_daily\<close> from \<open>tunnel_log\<close> for a range of UTC
  days under the advisory lock, statement by statement, with the common table expressions of the insert as
  definitions of their own.  A day is the number of days since the epoch; a table is the list of its rows.
\<close>

section \<open>Days\<close>

type_synonym day = int

definition day_length :: duration where
  "day_length = secs 86400"

definition day_of :: "instant \<Rightarrow> day" where
  "day_of t = t div day_length"

definition start_at :: "day \<Rightarrow> instant" where
  "start_at d = d * day_length"

definition end_at :: "day \<Rightarrow> instant" where
  "end_at d = (d + 1) * day_length"

abbreviation microsecond :: duration where
  "microsecond \<equiv> 1000"

definition ANONYMOUS_USER_ID :: uuid where
  "ANONYMOUS_USER_ID = 0"

definition rollup_window :: "instant \<Rightarrow> u32 \<Rightarrow> day \<times> day" where
  "rollup_window now lookback_days =
     (let days = min (max lookback_days 2) 90; last_day = day_of now
      in (last_day - uint (days - 1), last_day))"

section \<open>Clipping the log to days\<close>

type_synonym slice_key = "day \<times> uuid \<times> string \<times> string \<times> string"

record slice =
  sl_day :: day
  sl_user_id :: uuid
  sl_token_id :: string
  sl_region_id :: string
  sl_protocol :: string
  sl_start :: instant
  sl_end :: instant
  sl_attribute_bytes :: bool
  sl_bytes_in :: int
  sl_bytes_out :: int
  sl_bytes_proxied :: int
  sl_request_count :: int

definition coalesce :: "'a option \<Rightarrow> 'a \<Rightarrow> 'a" where
  "coalesce x d = (case x of Some v \<Rightarrow> v | None \<Rightarrow> d)"

text \<open>\<open>clipped\<close>: one row of the log against one day; the condition of the join and of the \<open>WHERE\<close> clause.\<close>

definition joins_day :: "instant \<Rightarrow> day \<Rightarrow> day \<Rightarrow> day \<Rightarrow> tunnel_log_row \<Rightarrow> bool" where
  "joins_day now first_day last_day d r \<longleftrightarrow>
     tl_registered_at r < end_at d \<and> coalesce (tl_unregistered_at r) now > start_at d \<and>
     tl_registered_at r < end_at last_day \<and> coalesce (tl_unregistered_at r) now > start_at first_day \<and>
     (case tl_unregistered_at r of None \<Rightarrow> True | Some u \<Rightarrow> u > tl_registered_at r)"

definition clip_row :: "instant \<Rightarrow> day \<Rightarrow> tunnel_log_row \<Rightarrow> slice" where
  "clip_row now d r =
     \<lparr>sl_day = d, sl_user_id = coalesce (tl_user_id r) ANONYMOUS_USER_ID, sl_token_id = coalesce (tl_token_id r) [],
      sl_region_id = coalesce (tl_region_id r) [], sl_protocol = tl_protocol r,
      sl_start = max (tl_registered_at r) (start_at d),
      sl_end = min (coalesce (tl_unregistered_at r) now) (min (end_at d) now),
      sl_attribute_bytes = (case tl_unregistered_at r of None \<Rightarrow> False | Some u \<Rightarrow> day_of (u - microsecond) = d),
      sl_bytes_in = tl_bytes_in r, sl_bytes_out = tl_bytes_out r, sl_bytes_proxied = tl_bytes_proxied r,
      sl_request_count = tl_request_count r\<rparr>"

definition overlapping :: "tunnel_log_row list \<Rightarrow> instant \<Rightarrow> day \<Rightarrow> day \<Rightarrow> slice list" where
  "overlapping tbl now first_day last_day =
     filter (\<lambda>s. sl_end s > sl_start s)
       (concat (map (\<lambda>d. map (clip_row now d) (filter (joins_day now first_day last_day d) tbl)) [first_day..last_day]))"

section \<open>Concurrency peaks\<close>

text \<open>\<open>SUM(delta) OVER (... ORDER BY ts, delta ROWS UNBOUNDED PRECEDING)\<close> and its maximum.\<close>

definition slice_events :: "slice list \<Rightarrow> (instant \<times> int) list" where
  "slice_events ss = map (\<lambda>s. (sl_start s, 1)) ss @ map (\<lambda>s. (sl_end s, - 1)) ss"

fun running_sums :: "int \<Rightarrow> int list \<Rightarrow> int list" where
  "running_sums acc [] = []"
| "running_sums acc (d # ds) = (acc + d) # running_sums (acc + d) ds"

definition peak_concurrent :: "slice list \<Rightarrow> int" where
  "peak_concurrent ss = Max (set (running_sums 0 (map snd (sort (slice_events ss)))))"

section \<open>Aggregation\<close>

record usage_row =
  ud_key :: slice_key
  ud_sessions :: int
  ud_tunnel_seconds :: int
  ud_bytes_in :: int
  ud_bytes_out :: int
  ud_bytes_proxied :: int
  ud_bytes_direction_unknown :: int
  ud_requests :: int
  ud_peak_concurrent_tunnels :: int
  ud_token_peak_concurrent :: int
  ud_user_peak_concurrent :: int
  ud_updated_at :: instant

definition key_of :: "slice \<Rightarrow> slice_key" where
  "key_of s = (sl_day s, sl_user_id s, sl_token_id s, sl_region_id s, sl_protocol s)"

text \<open>The cast of a sum of seconds (\<open>numeric\<close>) to \<open>bigint\<close> rounds to the nearest, halves up; spans are positive.\<close>

definition round_seconds :: "duration \<Rightarrow> int" where
  "round_seconds d = (d + 500000000) div 1000000000"

definition sum_attributed :: "(slice \<Rightarrow> int) \<Rightarrow> slice list \<Rightarrow> int" where
  "sum_attributed f ss = sum_list (map (\<lambda>s. if sl_attribute_bytes s then f s else 0) ss)"

definition unknown_bytes :: "slice \<Rightarrow> int" where
  "unknown_bytes s = (if sl_bytes_in s = 0 \<and> sl_bytes_out s = 0 \<and> sl_bytes_proxied s > 0 then sl_bytes_proxied s else 0)"

definition agg_row :: "instant \<Rightarrow> slice list \<Rightarrow> slice_key \<Rightarrow> usage_row" where
  "agg_row now ss k =
     (let own = filter (\<lambda>s. key_of s = k) ss;
          same_token = filter (\<lambda>s. (sl_day s, sl_user_id s, sl_token_id s) = (fst k, fst (snd k), fst (snd (snd k)))) ss;
          same_user = filter (\<lambda>s. (sl_day s, sl_user_id s) = (fst k, fst (snd k)) \<and> sl_user_id s \<noteq> ANONYMOUS_USER_ID) ss
      in \<lparr>ud_key = k, ud_sessions = int (length own),
          ud_tunnel_seconds = round_seconds (sum_list (map (\<lambda>s. sl_end s - sl_start s) own)),
          ud_bytes_in = sum_attributed sl_bytes_in own, ud_bytes_out = sum_attributed sl_bytes_out own,
          ud_bytes_proxied = sum_attributed sl_bytes_proxied own,
          ud_bytes_direction_unknown = sum_attributed unknown_bytes own,
          ud_requests = sum_attributed sl_request_count own,
          ud_peak_concurrent_tunnels = peak_concurrent own,
          ud_token_peak_concurrent = peak_concurrent same_token,
          ud_user_peak_concurrent = (if same_user = [] then 0 else peak_concurrent same_user),
          ud_updated_at = now\<rparr>)"

definition agg_rows :: "instant \<Rightarrow> slice list \<Rightarrow> usage_row list" where
  "agg_rows now ss = map (agg_row now ss) (remdups (map key_of ss))"

section \<open>The recompute\<close>

datatype rollup_outcome = Applied int nat | SkippedBusy

datatype rollup_error = RangeReversed day day | OutOfRange | LockBusy

text \<open>The casts of the aggregates fail outside their range, and with them the statement and the transaction.\<close>

definition in_i64 :: "int \<Rightarrow> bool" where
  "in_i64 n \<longleftrightarrow> - (2 ^ 63) \<le> n \<and> n < 2 ^ 63"

definition in_i32 :: "int \<Rightarrow> bool" where
  "in_i32 n \<longleftrightarrow> - (2 ^ 31) \<le> n \<and> n < 2 ^ 31"

definition row_fits :: "usage_row \<Rightarrow> bool" where
  "row_fits u \<longleftrightarrow> list_all in_i32 [ud_sessions u, ud_peak_concurrent_tunnels u, ud_token_peak_concurrent u, ud_user_peak_concurrent u] \<and>
     list_all in_i64 [ud_tunnel_seconds u, ud_bytes_in u, ud_bytes_out u, ud_bytes_proxied u, ud_bytes_direction_unknown u,
       ud_requests u]"

definition in_days :: "day \<Rightarrow> day \<Rightarrow> usage_row \<Rightarrow> bool" where
  "in_days first_day last_day u \<longleftrightarrow> first_day \<le> fst (ud_key u) \<and> fst (ud_key u) \<le> last_day"

definition rollup_usage_between ::
  "bool \<Rightarrow> tunnel_log_row list \<Rightarrow> day \<Rightarrow> day \<Rightarrow> instant \<Rightarrow> usage_row list \<Rightarrow>
   usage_row list \<times> (rollup_error + rollup_outcome)" where
  "rollup_usage_between locked tbl first_day last_day now usage =
     (if first_day > last_day then (usage, Inl (RangeReversed first_day last_day))
      else if \<not> locked then (usage, Inr SkippedBusy)
      else let rows = agg_rows now (overlapping tbl now first_day last_day)
           in if list_all row_fits rows
              then (filter (\<lambda>u. \<not> in_days first_day last_day u) usage @ rows,
                    Inr (Applied (min (last_day - first_day + 1) (2 ^ 31 - 1)) (length rows)))
              else (usage, Inl OutOfRange))"

definition rollup_recent ::
  "bool \<Rightarrow> tunnel_log_row list \<Rightarrow> u32 \<Rightarrow> instant \<Rightarrow> usage_row list \<Rightarrow> usage_row list \<times> (rollup_error + rollup_outcome)" where
  "rollup_recent locked tbl lookback_days now usage =
     (case rollup_window now lookback_days of (first_day, last_day) \<Rightarrow>
        rollup_usage_between locked tbl first_day last_day now usage)"

text \<open>The \<open>backfill\<close> command: five attempts, each with its time and whether it gets the lock.\<close>

fun backfill_attempts ::
  "tunnel_log_row list \<Rightarrow> day \<Rightarrow> day \<Rightarrow> (bool \<times> instant) list \<Rightarrow> usage_row list \<Rightarrow> usage_row list \<times> (rollup_error + unit)" where
  "backfill_attempts tbl first_day last_day [] usage = (usage, Inl LockBusy)"
| "backfill_attempts tbl first_day last_day ((locked, now) # attempts) usage =
     (case rollup_usage_between locked tbl first_day last_day now usage of
        (usage', Inl e) \<Rightarrow> (usage', Inl e)
      | (usage', Inr (Applied _ _)) \<Rightarrow> (usage', Inr ())
      | (usage', Inr SkippedBusy) \<Rightarrow> backfill_attempts tbl first_day last_day attempts usage')"

definition backfill_usage ::
  "tunnel_log_row list \<Rightarrow> day \<Rightarrow> day option \<Rightarrow> instant \<Rightarrow> (bool \<times> instant) list \<Rightarrow> usage_row list \<Rightarrow>
   usage_row list \<times> (rollup_error + unit)" where
  "backfill_usage tbl first_day until now attempts usage =
     (let last_day = coalesce until (day_of now)
      in if first_day > last_day then (usage, Inl (RangeReversed first_day last_day))
         else backfill_attempts tbl first_day last_day (take 5 attempts) usage)"

definition direction_pair :: "int \<Rightarrow> int \<Rightarrow> int \<Rightarrow> int option \<times> int option" where
  "direction_pair bytes_in bytes_out unknown =
     (if unknown > 0 \<and> bytes_in = 0 \<and> bytes_out = 0 then (None, None) else (Some bytes_in, Some bytes_out))"

end
