(* ===== verification/RollupProps.thy ===== *)
theory RollupProps
  imports Rollup "HOL-Library.Multiset"
begin

text \<open>
  The rollup: the recompute is idempotent and a range can be split anywhere, closed tunnels are counted exactly once,
  and the recorded peaks are the true maxima of concurrently open tunnels.
\<close>

section \<open>The slices of a day\<close>

definition open_on :: "instant \<Rightarrow> day \<Rightarrow> tunnel_log_row \<Rightarrow> bool" where
  "open_on now d r \<longleftrightarrow>
     tl_registered_at r < end_at d \<and> coalesce (tl_unregistered_at r) now > start_at d \<and>
     (case tl_unregistered_at r of None \<Rightarrow> True | Some u \<Rightarrow> u > tl_registered_at r)"

definition day_slices :: "tunnel_log_row list \<Rightarrow> instant \<Rightarrow> day \<Rightarrow> slice list" where
  "day_slices tbl now d = filter (\<lambda>s. sl_end s > sl_start s) (map (clip_row now d) (filter (open_on now d) tbl))"

lemma day_bounds_mono: "d \<le> e \<Longrightarrow> start_at d \<le> start_at e" "d \<le> e \<Longrightarrow> end_at d \<le> end_at e"
  by (simp_all add: start_at_def end_at_def day_length_def)

lemma day_bounds: "start_at d < end_at d" "start_at (d + 1) = end_at d"
  by (simp_all add: start_at_def end_at_def day_length_def)

lemma joins_open: "a \<le> d \<Longrightarrow> d \<le> b \<Longrightarrow> joins_day now a b d r = open_on now d r"
  using day_bounds_mono[of a d] day_bounds_mono[of d b] by (auto simp: joins_day_def open_on_def)

lemma overlapping_days: "overlapping tbl now a b = concat (map (day_slices tbl now) [a..b])"
proof -
  have "filter (\<lambda>s. sl_end s > sl_start s) (map (clip_row now d) (filter (joins_day now a b d) tbl)) = day_slices tbl now d"
    if "d \<in> set [a..b]" for d
    using that by (simp add: day_slices_def joins_open cong: filter_cong)
  then have "map (\<lambda>d. filter (\<lambda>s. sl_end s > sl_start s) (map (clip_row now d) (filter (joins_day now a b d) tbl))) [a..b] =
      map (day_slices tbl now) [a..b]" by (rule map_cong[OF refl])
  then show ?thesis by (simp only: overlapping_def filter_concat map_map comp_def)
qed

lemma day_slices_day: "s \<in> set (day_slices tbl now d) \<Longrightarrow> sl_day s = d \<and> sl_start s < sl_end s"
  by (auto simp: day_slices_def clip_row_def)

section \<open>Aggregation is day by day\<close>

lemma remdups_append_disjoint: "set xs \<inter> set ys = {} \<Longrightarrow> remdups (xs @ ys) = remdups xs @ remdups ys"
  by (induction xs) auto

definition days_apart :: "slice list \<Rightarrow> slice list \<Rightarrow> bool" where
  "days_apart A B \<longleftrightarrow> sl_day ` set A \<inter> sl_day ` set B = {}"

lemma filter_apart: "(\<And>s. s \<in> set B \<Longrightarrow> P s \<Longrightarrow> sl_day s \<in> D) \<Longrightarrow> sl_day ` set B \<inter> D = {} \<Longrightarrow> filter P B = []"
  by (auto simp: filter_empty_conv)

lemma agg_row_append:
  assumes "days_apart A B"
  shows "s \<in> set A \<Longrightarrow> agg_row now (A @ B) (key_of s) = agg_row now A (key_of s)"
    and "s \<in> set B \<Longrightarrow> agg_row now (A @ B) (key_of s) = agg_row now B (key_of s)"
proof -
  have other: "filter (\<lambda>x. key_of x = key_of s) C = []"
    "filter (\<lambda>x. (sl_day x, sl_user_id x, sl_token_id x) = (sl_day s, sl_user_id s, sl_token_id s)) C = []"
    "filter (\<lambda>x. (sl_day x, sl_user_id x) = (sl_day s, sl_user_id s) \<and> sl_user_id x \<noteq> ANONYMOUS_USER_ID) C = []"
    if "sl_day s \<notin> sl_day ` set C" for C
  proof -
    have "\<forall>x \<in> set C. sl_day x \<noteq> sl_day s" using that by (metis imageI)
    then show "filter (\<lambda>x. key_of x = key_of s) C = []"
      "filter (\<lambda>x. (sl_day x, sl_user_id x, sl_token_id x) = (sl_day s, sl_user_id s, sl_token_id s)) C = []"
      "filter (\<lambda>x. (sl_day x, sl_user_id x) = (sl_day s, sl_user_id s) \<and> sl_user_id x \<noteq> ANONYMOUS_USER_ID) C = []"
      by (auto simp: filter_empty_conv key_of_def)
  qed
  have k: "fst (key_of s) = sl_day s" "fst (snd (key_of s)) = sl_user_id s" "fst (snd (snd (key_of s))) = sl_token_id s"
    by (simp_all add: key_of_def)
  show "agg_row now (A @ B) (key_of s) = agg_row now A (key_of s)" if "s \<in> set A"
  proof -
    have "sl_day s \<notin> sl_day ` set B" using assms that by (auto simp: days_apart_def)
    note o = other[OF this]
    show ?thesis by (simp only: agg_row_def Let_def k filter_append o append_Nil2)
  qed
  show "agg_row now (A @ B) (key_of s) = agg_row now B (key_of s)" if "s \<in> set B"
  proof -
    have "sl_day s \<notin> sl_day ` set A" using assms that by (auto simp: days_apart_def)
    note o = other[OF this]
    show ?thesis by (simp only: agg_row_def Let_def k filter_append o append_Nil)
  qed
qed

lemma agg_rows_append:
  assumes "days_apart A B"
  shows "agg_rows now (A @ B) = agg_rows now A @ agg_rows now B"
proof -
  have "set (map key_of A) \<inter> set (map key_of B) = {}" using assms by (auto simp: days_apart_def key_of_def)
  then have "remdups (map key_of (A @ B)) = remdups (map key_of A) @ remdups (map key_of B)"
    using remdups_append_disjoint[of "map key_of A" "map key_of B"] by simp
  then show ?thesis using agg_row_append[OF assms] by (auto simp: agg_rows_def)
qed

lemma agg_rows_day: "u \<in> set (agg_rows now ss) \<Longrightarrow> \<exists>s \<in> set ss. ud_key u = key_of s"
  by (auto simp: agg_rows_def agg_row_def Let_def)

definition day_rows :: "tunnel_log_row list \<Rightarrow> instant \<Rightarrow> day \<Rightarrow> day \<Rightarrow> usage_row list" where
  "day_rows tbl now a b = agg_rows now (overlapping tbl now a b)"

lemma day_rows_in_days: "u \<in> set (day_rows tbl now a b) \<Longrightarrow> in_days a b u"
proof -
  assume "u \<in> set (day_rows tbl now a b)"
  then obtain s where "s \<in> set (overlapping tbl now a b)" "ud_key u = key_of s"
    using agg_rows_day by (metis day_rows_def)
  then show ?thesis using day_slices_day by (fastforce simp: overlapping_days in_days_def key_of_def)
qed

lemma day_rows_split:
  assumes "a \<le> m + 1" "m \<le> b"
  shows "day_rows tbl now a b = day_rows tbl now a m @ day_rows tbl now (m + 1) b"
proof -
  have u: "[a..b] = [a..m] @ [m + 1..b]" using assms by (metis upto_split2 upto_empty add.commute append_Nil
        diff_add_cancel linorder_not_le upto_split1 zle_add1_eq_le)
  have "days_apart (overlapping tbl now a m) (overlapping tbl now (m + 1) b)"
    using day_slices_day by (fastforce simp: days_apart_def overlapping_days)
  then show ?thesis unfolding day_rows_def by (simp add: agg_rows_append[symmetric] overlapping_days u)
qed

lemma rollup_cases:
  "rollup_usage_between locked tbl a b now usage =
     (if b < a then (usage, Inl (RangeReversed a b))
      else if \<not> locked then (usage, Inr SkippedBusy)
      else if list_all row_fits (day_rows tbl now a b)
      then (filter (\<lambda>u. \<not> in_days a b u) usage @ day_rows tbl now a b,
            Inr (Applied (min (b - a + 1) (2 ^ 31 - 1)) (length (day_rows tbl now a b))))
      else (usage, Inl OutOfRange))"
  by (simp add: rollup_usage_between_def day_rows_def Let_def)

lemma filter_day_rows [simp]:
  "filter (\<lambda>u. \<not> in_days a b u) (day_rows tbl now a b) = []"
  using day_rows_in_days by (auto simp: filter_empty_conv)

lemma filter_day_rows_apart:
  "m < c \<Longrightarrow> filter (\<lambda>u. \<not> in_days c b u) (day_rows tbl now a m) = day_rows tbl now a m"
  using day_rows_in_days by (fastforce simp: filter_id_conv in_days_def)

definition example_log :: "tunnel_log_row list" where
  "example_log =
     (let row = (\<lambda>t r u. \<lparr>tl_tunnel_id = t, tl_protocol = ''tcp'', tl_label = ''100'', tl_session_id = 7, tl_token_id = Some ''k1'',
          tl_registered_at = r, tl_unregistered_at = u, tl_region_id = Some ''eu'', tl_user_id = Some 5, tl_request_count = 2,
          tl_bytes_in = 10, tl_bytes_out = 20, tl_bytes_proxied = 30\<rparr>)
      in [row 1 1000 (Some 86400000005000), row 2 2000 (Some 9000), row 3 5000 None])"

abbreviation example_rollup :: "usage_row list \<times> (rollup_error + rollup_outcome)" where
  "example_rollup \<equiv> rollup_usage_between True example_log 0 1 172800000000000 []"

lemma example_rollup_applied: "\<exists>out. example_rollup = (fst example_rollup, Inr out)"
proof -
  have "\<not> isl (snd example_rollup)" by code_simp
  then show ?thesis by (metis prod.collapse sum.collapse(2))
qed

text \<open>C25. The recompute of a range of days that is applied can be repeated and can be cut anywhere: a second run on the
  same log changes nothing, and running the two parts of the range one after the other gives the same table.  A run
  that finds the lock taken, or fails, leaves the table as it was.\<close>

theorem rollup_idempotent:
  assumes ok: "rollup_usage_between True tbl a b now usage = (usage', Inr out)" and m: "a \<le> m" "m < b"
  shows "fst (rollup_usage_between True tbl a b now usage') = usage' \<and>
    fst (rollup_usage_between True tbl (m + 1) b now (fst (rollup_usage_between True tbl a m now usage))) = usage' \<and>
    (\<forall>locked tbl' a' b' now' t r. rollup_usage_between locked tbl' a' b' now' usage = (t, r) \<and>
       (r = Inr SkippedBusy \<or> isl r) \<longrightarrow> t = usage)"
proof -
  have fit: "list_all row_fits (day_rows tbl now a b)" and u: "usage' = filter (\<lambda>u. \<not> in_days a b u) usage @ day_rows tbl now a b"
    using ok m by (auto simp: rollup_cases split: if_splits)
  have split: "day_rows tbl now a b = day_rows tbl now a m @ day_rows tbl now (m + 1) b" using day_rows_split m by simp
  have "filter (\<lambda>u. \<not> in_days (m + 1) b u) (filter (\<lambda>u. \<not> in_days a m u) usage) = filter (\<lambda>u. \<not> in_days a b u) usage"
    using m by (auto simp: filter_filter in_days_def intro!: filter_cong)
  then have "fst (rollup_usage_between True tbl (m + 1) b now (fst (rollup_usage_between True tbl a m now usage))) = usage'"
    using m fit split filter_day_rows_apart[of m "m + 1" b tbl now a] by (simp add: rollup_cases u)
  moreover have "fst (rollup_usage_between True tbl a b now usage') = usage'"
    using fit m by (simp add: rollup_cases u)
  moreover have "t = usage" if "rollup_usage_between locked tbl' a' b' now' usage = (t, r) \<and> (r = Inr SkippedBusy \<or> isl r)"
    for locked tbl' a' b' now' t r
    using that by (auto simp: rollup_cases split: if_splits)
  ultimately show ?thesis by blast
qed

theorem rollup_idempotent_witness:
  "fst (rollup_usage_between True example_log 1 1 172800000000000
     (fst (rollup_usage_between True example_log 0 0 172800000000000 []))) = fst example_rollup"
proof -
  obtain out where "example_rollup = (fst example_rollup, Inr out)" using example_rollup_applied by blast
  from rollup_idempotent[OF this, of 0] show ?thesis by simp
qed

section \<open>Conservation\<close>

lemma sum_list_groups:
  "sum_list (map (\<lambda>k. sum_list (map g (filter (\<lambda>s. key s = k) ss))) (remdups (map key ss))) = sum_list (map g ss)"
  for g :: "'a \<Rightarrow> int"
proof -
  have *: "sum_list (map (\<lambda>k. sum_list (map g (filter (\<lambda>s. key s = k) ss))) ks) = sum_list (map g ss)"
    if "distinct ks" "key ` set ss \<subseteq> set ks" for ks
    using that
  proof (induction ss)
    case (Cons s ss)
    then have "sum_list (map (\<lambda>k. sum_list (map g (filter (\<lambda>x. key x = k) ss)) + (if key s = k then g s else 0)) ks) =
        sum_list (map g ss) + g s"
      by (simp add: sum_list_addf sum_list_distinct_conv_sum_set)
    moreover have "map (\<lambda>k. sum_list (map g (filter (\<lambda>x. key x = k) (s # ss)))) ks =
        map (\<lambda>k. sum_list (map g (filter (\<lambda>x. key x = k) ss)) + (if key s = k then g s else 0)) ks" by simp
    ultimately have "sum_list (map (\<lambda>k. sum_list (map g (filter (\<lambda>x. key x = k) (s # ss)))) ks) = sum_list (map g ss) + g s"
      by (simp only:)
    then show ?case by (simp only: list.map sum_list.Cons add.commute)
  qed simp
  show ?thesis by (rule *) auto
qed

definition last_open_day :: "tunnel_log_row \<Rightarrow> day option" where
  "last_open_day r = (case tl_unregistered_at r of
      Some u \<Rightarrow> if u > tl_registered_at r then Some (day_of (u - microsecond)) else None
    | None \<Rightarrow> None)"

text \<open>What the columns of \<open>tunnel_log\<close> hold at the time of a run: timestamps have microsecond resolution and none
  is after the present.\<close>

definition pg_row :: "instant \<Rightarrow> tunnel_log_row \<Rightarrow> bool" where
  "pg_row now r \<longleftrightarrow> microsecond dvd tl_registered_at r \<and>
     (case tl_unregistered_at r of Some u \<Rightarrow> microsecond dvd u \<and> u \<le> now | None \<Rightarrow> True)"

lemma day_of_bounds: "start_at (day_of t) \<le> t" "t < end_at (day_of t)"
proof -
  have m: "0 \<le> t mod day_length" "t mod day_length < day_length" by (simp_all add: day_length_def)
  have e: "t div day_length * day_length + t mod day_length = t" by (rule div_mult_mod_eq)
  show "start_at (day_of t) \<le> t" unfolding start_at_def day_of_def using m e by linarith
  show "t < end_at (day_of t)" unfolding end_at_def day_of_def distrib_right mult_1 using m e by linarith
qed

definition counts :: "instant \<Rightarrow> (slice \<Rightarrow> int) \<Rightarrow> day \<Rightarrow> tunnel_log_row \<Rightarrow> int" where
  "counts now f d r =
     (if open_on now d r \<and> sl_start (clip_row now d r) < sl_end (clip_row now d r) \<and> sl_attribute_bytes (clip_row now d r)
      then f (clip_row now d r) else 0)"

lemma counts_last_day:
  assumes "pg_row now r"
  shows "counts now f d r = (if last_open_day r = Some d then f (clip_row now d r) else 0)"
proof (cases "last_open_day r = Some d")
  case True
  then obtain u where u: "tl_unregistered_at r = Some u" "tl_registered_at r < u" "d = day_of (u - microsecond)"
    by (auto simp: last_open_day_def split: option.splits if_splits)
  have "microsecond dvd u - tl_registered_at r" "u \<le> now" using assms u by (auto simp: pg_row_def)
  then have reg: "tl_registered_at r \<le> u - microsecond" using u(2) zdvd_imp_le[of microsecond "u - tl_registered_at r"] by simp
  have "start_at d \<le> u - microsecond" "u - microsecond < end_at d" using day_of_bounds[of "u - microsecond"] u(3) by auto
  then show ?thesis using True u reg \<open>u \<le> now\<close> day_bounds(1)[of d]
    by (auto simp: counts_def open_on_def clip_row_def coalesce_def)
next
  case False
  then show ?thesis
    by (auto simp: counts_def open_on_def clip_row_def last_open_day_def split: option.splits if_splits)
qed

lemma sum_attributed_day: "sum_attributed f (day_slices tbl now d) = sum_list (map (counts now f d) tbl)"
  by (induction tbl) (auto simp: sum_attributed_def day_slices_def counts_def)

lemma sum_list_swap: "sum_list (map (\<lambda>d. sum_list (map (F d) xs)) ds) = sum_list (map (\<lambda>x. sum_list (map (\<lambda>d. F d x) ds)) xs)"
  for F :: "_ \<Rightarrow> _ \<Rightarrow> int"
  by (induction xs) (simp_all add: sum_list_addf)

lemma sum_attributed_concat: "sum_attributed f (concat xss) = sum_list (map (sum_attributed f) xss)"
  by (induction xss) (simp_all add: sum_attributed_def)

lemma sum_attributed_overlapping:
  assumes "list_all (pg_row now) tbl" and f: "\<And>d r. f (clip_row now d r) = g r"
  shows "sum_attributed f (overlapping tbl now a b) =
    sum_list (map g (filter (\<lambda>r. \<exists>d. last_open_day r = Some d \<and> a \<le> d \<and> d \<le> b) tbl))"
proof -
  have row: "sum_list (map (\<lambda>d. counts now f d r) [a..b]) =
      (if \<exists>d. last_open_day r = Some d \<and> a \<le> d \<and> d \<le> b then g r else 0)" if "r \<in> set tbl" for r
  proof (cases "last_open_day r")
    case None
    then show ?thesis using assms(1) that by (simp add: counts_last_day list_all_iff)
  next
    case (Some e)
    have "sum_list (map (\<lambda>d. counts now f d r) [a..b]) = (\<Sum>d \<in> {a..b}. if e = d then g r else 0)"
      using assms(1) that Some by (simp add: counts_last_day list_all_iff f sum_list_distinct_conv_sum_set)
    then show ?thesis using Some by simp
  qed
  have "sum_attributed f (overlapping tbl now a b) = sum_list (map (\<lambda>r. sum_list (map (\<lambda>d. counts now f d r) [a..b])) tbl)"
    by (simp only: overlapping_days sum_attributed_concat map_map comp_def sum_attributed_day sum_list_swap[of _ tbl "[a..b]"])
  also have "\<dots> = sum_list (map (\<lambda>r. if \<exists>d. last_open_day r = Some d \<and> a \<le> d \<and> d \<le> b then g r else 0) tbl)"
    by (intro arg_cong[where f = sum_list] map_cong refl row)
  finally show ?thesis by (simp add: sum_list_map_filter')
qed

lemma agg_column:
  assumes "\<And>k. u (agg_row now ss k) = sum_attributed f (filter (\<lambda>s. key_of s = k) ss)"
  shows "sum_list (map u (agg_rows now ss)) = sum_attributed f ss"
  using sum_list_groups[of "\<lambda>s. if sl_attribute_bytes s then f s else 0" key_of ss]
  by (simp add: agg_rows_def comp_def assms sum_attributed_def)

text \<open>C26. Bytes and requests are conserved: what the rollup records for a range of days is, column by column, the sum
  over the tunnels whose last open microsecond is in the range, each counted once; open tunnels count nothing yet.\<close>

theorem rollup_conserves:
  assumes pg: "list_all (pg_row now) tbl"
    and ok: "rollup_usage_between True tbl a b now usage = (usage', Inr out)" and ab: "a \<le> b"
  shows "sum_list (map ud_bytes_in (filter (in_days a b) usage')) =
      sum_list (map tl_bytes_in (filter (\<lambda>r. \<exists>d. last_open_day r = Some d \<and> a \<le> d \<and> d \<le> b) tbl)) \<and>
    sum_list (map ud_bytes_out (filter (in_days a b) usage')) =
      sum_list (map tl_bytes_out (filter (\<lambda>r. \<exists>d. last_open_day r = Some d \<and> a \<le> d \<and> d \<le> b) tbl)) \<and>
    sum_list (map ud_bytes_proxied (filter (in_days a b) usage')) =
      sum_list (map tl_bytes_proxied (filter (\<lambda>r. \<exists>d. last_open_day r = Some d \<and> a \<le> d \<and> d \<le> b) tbl)) \<and>
    sum_list (map ud_requests (filter (in_days a b) usage')) =
      sum_list (map tl_request_count (filter (\<lambda>r. \<exists>d. last_open_day r = Some d \<and> a \<le> d \<and> d \<le> b) tbl))"
proof -
  have u: "usage' = filter (\<lambda>u. \<not> in_days a b u) usage @ day_rows tbl now a b"
    using ok ab by (auto simp: rollup_cases split: if_splits)
  have rows: "filter (in_days a b) usage' = agg_rows now (overlapping tbl now a b)"
    using day_rows_in_days by (fastforce simp: u filter_empty_conv filter_id_conv day_rows_def)
  show ?thesis unfolding rows
    by (simp add: agg_column[of ud_bytes_in now _ sl_bytes_in] agg_column[of ud_bytes_out now _ sl_bytes_out]
        agg_column[of ud_bytes_proxied now _ sl_bytes_proxied] agg_column[of ud_requests now _ sl_request_count]
        agg_row_def Let_def sum_attributed_overlapping[OF pg, where g = tl_bytes_in]
        sum_attributed_overlapping[OF pg, where g = tl_bytes_out] sum_attributed_overlapping[OF pg, where g = tl_bytes_proxied]
        sum_attributed_overlapping[OF pg, where g = tl_request_count] clip_row_def)
qed

theorem rollup_conserves_witness:
  "sum_list (map ud_bytes_in (filter (in_days 0 1) (fst example_rollup))) = 20"
proof -
  obtain out where o: "example_rollup = (fst example_rollup, Inr out)" using example_rollup_applied by blast
  have pg: "list_all (pg_row 172800000000000) example_log" by code_simp
  have "filter (\<lambda>r. \<exists>d. last_open_day r = Some d \<and> 0 \<le> d \<and> d \<le> 1) example_log = take 2 example_log"
    by (simp add: example_log_def Let_def last_open_day_def day_of_def day_length_def)
  then show ?thesis using rollup_conserves[OF pg o] by (simp add: example_log_def Let_def)
qed

section \<open>Peaks\<close>

definition active :: "slice list \<Rightarrow> instant \<Rightarrow> int" where
  "active ss t = int (length (filter (\<lambda>s. sl_start s \<le> t \<and> t < sl_end s) ss))"

definition deltas :: "(instant \<times> int) list \<Rightarrow> int" where
  "deltas E = sum_list (map snd E)"

lemma deltas_append [simp]: "deltas (A @ B) = deltas A + deltas B"
  by (simp add: deltas_def)

lemma deltas_split: "deltas (filter Q E) + deltas (filter (\<lambda>e. \<not> Q e) E) = deltas E"
  by (induction E) (auto simp: deltas_def)

lemma deltas_sign:
  "list_all (\<lambda>e. 0 \<le> snd e) E \<Longrightarrow> 0 \<le> deltas E"
  "list_all (\<lambda>e. snd e \<le> 0) E \<Longrightarrow> deltas E \<le> 0"
  by (induction E) (auto simp: deltas_def)

lemma deltas_sort: "deltas (filter Q (sort E)) = deltas (filter Q E)"
proof -
  have "mset (map snd (filter Q (sort E))) = mset (map snd (filter Q E))" by simp
  then show ?thesis unfolding deltas_def by (metis sum_mset_sum_list)
qed

lemma active_deltas:
  assumes "list_all (\<lambda>s. sl_start s < sl_end s) ss"
  shows "deltas (filter (\<lambda>e. fst e \<le> t) (slice_events ss)) = active ss t"
  using assms by (induction ss) (auto simp: deltas_def slice_events_def active_def)

lemma running_sums_set: "x \<in> set (running_sums acc ds) \<longleftrightarrow> (\<exists>i < length ds. x = acc + sum_list (take (Suc i) ds))"
proof (induction acc ds rule: running_sums.induct)
  case (2 acc d ds)
  show ?case
  proof
    assume "x \<in> set (running_sums acc (d # ds))"
    then consider "x = acc + d" | i where "i < length ds" "x = acc + d + sum_list (take (Suc i) ds)" using 2 by auto
    then show "\<exists>i < length (d # ds). x = acc + sum_list (take (Suc i) (d # ds))"
    proof cases
      case 1
      then show ?thesis by (intro exI[of _ 0]) simp
    next
      case (2 i)
      then show ?thesis by (intro exI[of _ "Suc i"]) simp
    qed
  next
    assume "\<exists>i < length (d # ds). x = acc + sum_list (take (Suc i) (d # ds))"
    then obtain i where i: "i < length (d # ds)" "x = acc + sum_list (take (Suc i) (d # ds))" by blast
    then show "x \<in> set (running_sums acc (d # ds))" using 2 by (cases i) (auto simp: add.assoc)
  qed
qed simp

text \<open>Every prefix of the sorted events adds up to at most the number active at some time: at its last event, or just
  before it when that closes an interval.\<close>

lemma prefix_bounded:
  assumes E: "sorted E" "\<And>e. e \<in> set E \<Longrightarrow> snd e = 1 \<or> snd e = - 1" and i: "i < length E"
  shows "\<exists>t. deltas (take (Suc i) E) \<le> deltas (filter (\<lambda>e. fst e \<le> t) E)"
proof -
  obtain \<tau> \<delta> where e: "E ! i = (\<tau>, \<delta>)" by fastforce
  define P where "P = take (Suc i) E"
  define R where "R = drop (Suc i) E"
  have ER: "E = P @ R" by (simp add: P_def R_def)
  have P: "x \<le> (\<tau>, \<delta>)" if "x \<in> set P" for x
  proof -
    obtain j where "j < Suc i" "x = E ! j" using \<open>x \<in> set P\<close> i by (auto simp: P_def in_set_conv_nth)
    then show ?thesis using sorted_nth_mono[OF E(1), of j i] i e by simp
  qed
  have R: "(\<tau>, \<delta>) \<le> x" if "x \<in> set R" for x
  proof -
    obtain j where "j < length R" "x = R ! j" using \<open>x \<in> set R\<close> by (auto simp: in_set_conv_nth)
    then show ?thesis using sorted_nth_mono[OF E(1), of i "Suc i + j"] i e by (simp add: R_def)
  qed
  have in_E: "snd x = 1 \<or> snd x = - 1" if "x \<in> set P \<or> x \<in> set R" for x using E(2) ER that by auto
  have "E ! i \<in> set E" using i by simp
  then consider "\<delta> = 1" | "\<delta> = - 1" using E(2)[of "(\<tau>, \<delta>)"] e by auto
  then show ?thesis
  proof cases
    case 1
    have p: "filter (\<lambda>e. fst e \<le> \<tau>) P = P" using P by (force simp: filter_id_conv less_eq_prod_def)
    have "0 \<le> deltas (filter (\<lambda>e. fst e \<le> \<tau>) R)"
      by (rule deltas_sign(1)) (use R 1 in \<open>force simp: list_all_iff less_eq_prod_def\<close>)
    then have "deltas P \<le> deltas (filter (\<lambda>e. fst e \<le> \<tau>) E)" unfolding ER filter_append deltas_append p by simp
    then show ?thesis by (metis P_def)
  next
    case 2
    have r: "filter (\<lambda>e. fst e \<le> \<tau> - 1) R = []" using R by (force simp: filter_empty_conv less_eq_prod_def)
    have "deltas (filter (\<lambda>e. \<not> fst e \<le> \<tau> - 1) P) \<le> 0"
      by (rule deltas_sign(2)) (use P in_E 2 in \<open>force simp: list_all_iff less_eq_prod_def\<close>)
    then have "deltas P \<le> deltas (filter (\<lambda>e. fst e \<le> \<tau> - 1) E)"
      using deltas_split[of "\<lambda>e. fst e \<le> \<tau> - 1" P] unfolding ER filter_append deltas_append r by (simp add: deltas_def)
    then show ?thesis by (metis P_def)
  qed
qed

lemma filter_prefix:
  fixes E :: "(instant \<times> int) list"
  assumes "sorted E"
  shows "\<exists>n \<le> length E. filter (\<lambda>e. fst e \<le> t) E = take n E"
proof -
  have "takeWhile (\<lambda>e. fst e \<le> t) E = filter (\<lambda>e. fst e \<le> t) E"
    using assms
  proof (induction E)
    case (Cons x E)
    have "filter (\<lambda>e. fst e \<le> t) E = []" if "\<not> fst x \<le> t"
      using Cons.prems that by (force simp: filter_empty_conv less_eq_prod_def)
    then show ?case using Cons by simp
  qed simp
  then show ?thesis using takeWhile_eq_take[of "\<lambda>e. fst e \<le> t" E] length_takeWhile_le by metis
qed

lemma peak_exact:
  assumes ss: "ss \<noteq> []" "list_all (\<lambda>s. sl_start s < sl_end s) ss"
  shows "active ss t \<le> peak_concurrent ss" "\<exists>t. active ss t = peak_concurrent ss"
proof -
  define E where "E = sort (slice_events ss)"
  define X where "X = set (running_sums 0 (map snd E))"
  have E: "sorted E" "\<And>e. e \<in> set E \<Longrightarrow> snd e = 1 \<or> snd e = - 1" by (auto simp: E_def slice_events_def)
  have nonempty: "0 < length E" using ss(1) by (simp add: E_def slice_events_def)
  have X: "x \<in> X \<longleftrightarrow> (\<exists>i < length E. x = deltas (take (Suc i) E))" for x
    by (simp add: X_def running_sums_set deltas_def take_map)
  have act: "deltas (filter (\<lambda>e. fst e \<le> t) E) = active ss t" for t
    using active_deltas[OF ss(2)] by (simp add: E_def deltas_sort)
  have "deltas (take (Suc 0) E) \<in> X" using X nonempty by blast
  then have fin: "finite X" "X \<noteq> {}" "peak_concurrent ss = Max X"
    by (auto simp: X_def peak_concurrent_def E_def)
  have pos: "0 < active ss t \<Longrightarrow> active ss t \<in> X" for t
  proof -
    assume "0 < active ss t"
    moreover obtain n where n: "n \<le> length E" "filter (\<lambda>e. fst e \<le> t) E = take n E" using filter_prefix[OF E(1)] by blast
    ultimately have "n \<noteq> 0" using act[of t] by (cases n) (auto simp: deltas_def)
    then obtain i where "n = Suc i" by (cases n) auto
    then show ?thesis using n act[of t] X by (metis Suc_le_lessD)
  qed
  have "0 < active ss (sl_start (hd ss))" using ss by (cases ss) (auto simp: active_def)
  then have "0 \<le> peak_concurrent ss" using pos fin Max_ge by (metis order.strict_implies_order order_trans)
  then have le: "active ss t \<le> peak_concurrent ss" for t
    using pos[of t] fin Max_ge[of X "active ss t"] by (cases "0 < active ss t") auto
  show "active ss t \<le> peak_concurrent ss" by (rule le)
  have "Max X \<in> X" using fin by (simp add: Max_in)
  then obtain t where "Max X \<le> active ss t" using X prefix_bounded[OF E] act by metis
  then show "\<exists>t. active ss t = peak_concurrent ss" using le[of t] fin(3) by (intro exI[of _ t]) simp
qed

section \<open>Peaks of the log\<close>

definition open_at :: "instant \<Rightarrow> instant \<Rightarrow> tunnel_log_row \<Rightarrow> bool" where
  "open_at now t r \<longleftrightarrow> tl_registered_at r \<le> t \<and> t < coalesce (tl_unregistered_at r) now \<and> t < now"

definition open_count :: "instant \<Rightarrow> (tunnel_log_row \<Rightarrow> bool) \<Rightarrow> tunnel_log_row list \<Rightarrow> instant \<Rightarrow> int" where
  "open_count now K tbl t = int (length (filter (\<lambda>r. K r \<and> open_at now t r) tbl))"

lemma day_of_eq: "day_of t = d \<longleftrightarrow> start_at d \<le> t \<and> t < end_at d"
proof
  assume "start_at d \<le> t \<and> t < end_at d"
  then have "\<not> d < day_of t" "\<not> day_of t < d"
    using day_of_bounds[of t] day_bounds_mono(1)[of "d + 1" "day_of t"] day_bounds_mono(1)[of "day_of t + 1" d]
    by (auto simp: day_bounds(2))
  then show "day_of t = d" by simp
qed (use day_of_bounds in blast)

lemma active_day:
  assumes "\<And>r. Q (clip_row now d r) = K r"
  shows "active (filter Q (day_slices tbl now d)) t = (if day_of t = d then open_count now K tbl t else 0)"
proof -
  have "(open_on now d r \<and> sl_start (clip_row now d r) < sl_end (clip_row now d r) \<and> sl_start (clip_row now d r) \<le> t \<and>
      t < sl_end (clip_row now d r)) \<longleftrightarrow> day_of t = d \<and> open_at now t r" for r
    by (cases "tl_unregistered_at r") (auto simp: open_on_def clip_row_def open_at_def coalesce_def day_of_eq)
  then have "filter (\<lambda>r. K r \<and> open_on now d r \<and> sl_start (clip_row now d r) < sl_end (clip_row now d r) \<and>
      sl_start (clip_row now d r) \<le> t \<and> t < sl_end (clip_row now d r)) tbl =
      filter (\<lambda>r. K r \<and> day_of t = d \<and> open_at now t r) tbl" by simp
  moreover have "active (filter Q (day_slices tbl now d)) t =
      int (length (filter (\<lambda>r. K r \<and> open_on now d r \<and> sl_start (clip_row now d r) < sl_end (clip_row now d r) \<and>
        sl_start (clip_row now d r) \<le> t \<and> t < sl_end (clip_row now d r)) tbl))"
    by (induction tbl) (auto simp: active_def day_slices_def assms)
  ultimately show ?thesis by (simp add: open_count_def)
qed

lemma peak_of_log:
  assumes K: "\<And>r. Q (clip_row now d r) = K r" and ne: "filter Q (day_slices tbl now d) \<noteq> []"
  shows "(\<forall>t. day_of t = d \<longrightarrow> open_count now K tbl t \<le> peak_concurrent (filter Q (day_slices tbl now d))) \<and>
    (\<exists>t. day_of t = d \<and> open_count now K tbl t = peak_concurrent (filter Q (day_slices tbl now d)))"
proof -
  define ss where "ss = filter Q (day_slices tbl now d)"
  have ok: "ss \<noteq> []" "list_all (\<lambda>s. sl_start s < sl_end s) ss"
    using ne day_slices_day by (auto simp: ss_def list_all_iff)
  have a: "active ss t = (if day_of t = d then open_count now K tbl t else 0)" for t
    unfolding ss_def by (rule active_day[where K = K, OF K])
  have "0 < active ss (sl_start (hd ss))" using ok by (cases ss) (auto simp: active_def)
  then have pos: "0 < peak_concurrent ss" using peak_exact(1)[OF ok] by (metis order.strict_trans2)
  obtain t where t: "active ss t = peak_concurrent ss" using peak_exact(2)[OF ok] by blast
  then have "day_of t = d" using a[of t] pos by (simp split: if_splits)
  then show ?thesis using t a peak_exact(1)[OF ok] unfolding ss_def[symmetric] by metis
qed

definition log_user :: "tunnel_log_row \<Rightarrow> uuid" where
  "log_user r = coalesce (tl_user_id r) ANONYMOUS_USER_ID"

definition log_token :: "tunnel_log_row \<Rightarrow> string" where
  "log_token r = coalesce (tl_token_id r) []"

definition log_region :: "tunnel_log_row \<Rightarrow> string" where
  "log_region r = coalesce (tl_region_id r) []"

definition is_peak :: "instant \<Rightarrow> tunnel_log_row list \<Rightarrow> day \<Rightarrow> (tunnel_log_row \<Rightarrow> bool) \<Rightarrow> int \<Rightarrow> bool" where
  "is_peak now tbl d K n \<longleftrightarrow> (\<forall>t. day_of t = d \<longrightarrow> open_count now K tbl t \<le> n) \<and> (\<exists>t. day_of t = d \<and> open_count now K tbl t = n)"

lemma filter_day:
  assumes "a \<le> d" "d \<le> b" "\<And>s. Q s \<Longrightarrow> sl_day s = d"
  shows "filter Q (overlapping tbl now a b) = filter Q (day_slices tbl now d)"
proof -
  have u: "[a..b] = [a..d - 1] @ d # [d + 1..b]" using assms(1,2) by (rule upto_split3)
  have "filter Q (concat (map (day_slices tbl now) ds)) = []" if "d \<notin> set ds" for ds
    using that day_slices_day assms(3) by (fastforce simp: filter_empty_conv)
  then show ?thesis unfolding overlapping_days u by simp
qed

lemma peak_of_range:
  assumes "a \<le> d" "d \<le> b" "\<And>s. Q s \<Longrightarrow> sl_day s = d" "\<And>r. Q (clip_row now d r) = K r"
    and "s \<in> set (overlapping tbl now a b)" "Q s"
  shows "is_peak now tbl d K (peak_concurrent (filter Q (overlapping tbl now a b)))"
proof -
  have f: "filter Q (overlapping tbl now a b) = filter Q (day_slices tbl now d)" by (rule filter_day[OF assms(1-3)])
  have "filter Q (day_slices tbl now d) \<noteq> []" using assms(5,6) f by (metis empty_filter_conv)
  then show ?thesis unfolding is_peak_def f by (rule peak_of_log[where Q = Q and K = K, OF assms(4)])
qed

text \<open>The recorded peaks are exact: for a row of the rollup, the number of concurrently open tunnels of its slice, of
  its token and of its user reaches the recorded peak at some instant of its day and exceeds it at none.  (Tunnels
  without a user have user peak 0.)\<close>

theorem rollup_peaks_exact:
  assumes ok: "rollup_usage_between True tbl a b now [] = (usage', Inr out)"
    and v: "v \<in> set usage'" "ud_key v = (d, u, tok, reg, prot)"
  shows "a \<le> d \<and> d \<le> b \<and>
    is_peak now tbl d (\<lambda>r. log_user r = u \<and> log_token r = tok \<and> log_region r = reg \<and> tl_protocol r = prot)
      (ud_peak_concurrent_tunnels v) \<and>
    is_peak now tbl d (\<lambda>r. log_user r = u \<and> log_token r = tok) (ud_token_peak_concurrent v) \<and>
    (if u = ANONYMOUS_USER_ID then ud_user_peak_concurrent v = 0
     else is_peak now tbl d (\<lambda>r. log_user r = u) (ud_user_peak_concurrent v))"
proof -
  define ss where "ss = overlapping tbl now a b"
  have usage: "usage' = agg_rows now ss"
    using ok v by (auto simp: rollup_cases day_rows_def ss_def split: if_splits)
  then obtain s where s: "s \<in> set ss" "v = agg_row now ss (d, u, tok, reg, prot)" "key_of s = (d, u, tok, reg, prot)"
    using v by (auto simp: agg_rows_def agg_row_def Let_def)
  have f: "sl_day s = d" "sl_user_id s = u" "sl_token_id s = tok" using s(3) by (simp_all add: key_of_def)
  have d: "a \<le> d" "d \<le> b" using s(1) f(1) day_slices_day by (fastforce simp: ss_def overlapping_days)+
  note peak = peak_of_range[OF d _ _ s(1)[unfolded ss_def], folded ss_def]
  have "is_peak now tbl d (\<lambda>r. log_user r = u \<and> log_token r = tok \<and> log_region r = reg \<and> tl_protocol r = prot)
      (peak_concurrent (filter (\<lambda>x. key_of x = (d, u, tok, reg, prot)) ss))"
    by (rule peak) (use s in \<open>auto simp: key_of_def clip_row_def log_user_def log_token_def log_region_def\<close>)
  moreover have "is_peak now tbl d (\<lambda>r. log_user r = u \<and> log_token r = tok)
      (peak_concurrent (filter (\<lambda>x. (sl_day x, sl_user_id x, sl_token_id x) = (d, u, tok)) ss))"
    by (rule peak) (use f in \<open>auto simp: clip_row_def log_user_def log_token_def\<close>)
  moreover have "is_peak now tbl d (\<lambda>r. log_user r = u)
      (peak_concurrent (filter (\<lambda>x. (sl_day x, sl_user_id x) = (d, u) \<and> sl_user_id x \<noteq> ANONYMOUS_USER_ID) ss))"
    if "u \<noteq> ANONYMOUS_USER_ID"
    by (rule peak) (use f that in \<open>auto simp: clip_row_def log_user_def\<close>)
  moreover have "filter (\<lambda>x. (sl_day x, sl_user_id x) = (d, u) \<and> sl_user_id x \<noteq> ANONYMOUS_USER_ID) ss = [] \<longleftrightarrow>
      u = ANONYMOUS_USER_ID" using s(1) f by (auto simp: filter_empty_conv)
  ultimately show ?thesis using d unfolding s(2) agg_row_def Let_def fst_conv snd_conv by simp
qed

theorem rollup_peaks_exact_witness:
  "\<exists>v \<in> set (fst example_rollup). ud_key v = (0, 5, ''k1'', ''eu'', ''tcp'') \<and>
     is_peak 172800000000000 example_log 0 (\<lambda>r. log_user r = 5) (ud_user_peak_concurrent v) \<and> ud_user_peak_concurrent v = 3"
proof -
  obtain out where o: "example_rollup = (fst example_rollup, Inr out)" using example_rollup_applied by blast
  have "list_ex (\<lambda>v. ud_key v = (0, 5, ''k1'', ''eu'', ''tcp'') \<and> ud_user_peak_concurrent v = 3) (fst example_rollup)"
    by code_simp
  then obtain v where v: "v \<in> set (fst example_rollup)" "ud_key v = (0, 5, ''k1'', ''eu'', ''tcp'')" "ud_user_peak_concurrent v = 3"
    by (auto simp: list_ex_iff)
  have "(5 :: uuid) \<noteq> ANONYMOUS_USER_ID" by (simp add: ANONYMOUS_USER_ID_def)
  then show ?thesis using rollup_peaks_exact[OF o v(1,2)] v by auto
qed

end
