(* ===== verification/Dashboard.thy ===== *)
theory Dashboard
  imports Session EdgeHttp Ring
begin

text \<open>
  The dashboard API (\<open>dashboard/api.rs\<close>, \<open>dashboard/capture.rs\<close>, the token queries of \<open>db/mod.rs\<close>): who a caller is,
  what a caller may see, and the handlers over the router, the token table and the captured requests.  The texts of
  identifiers, addresses and times, and the parser of UUIDs, come from libraries and are arguments.
\<close>

section \<open>State\<close>

record captured_request =
  cr_id :: string
  cr_tunnel_id :: string
  cr_conn_id :: string
  cr_method :: string
  cr_path :: string
  cr_status :: int
  cr_request_bytes :: int
  cr_response_bytes :: int
  cr_duration_ms :: int
  cr_captured_at :: instant
  cr_request_body :: "string option"
  cr_response_body :: "string option"

record dash_env =
  de_env :: env
  de_parse_uuid :: "string \<Rightarrow> uuid option"
  de_parse_ip :: "string \<Rightarrow> ip_addr option"
  de_parse_u16 :: "string \<Rightarrow> u16 option"
  de_iso :: "instant \<Rightarrow> string"

record dash =
  ds_world :: world
  ds_capture :: "(string, captured_request list) dashmap"
  ds_stored :: "captured_request list"
  ds_local_up :: bool

abbreviation ds_core :: "dash \<Rightarrow> tunnel_core" where
  "ds_core s \<equiv> w_core (ds_world s)"

section \<open>Captured requests\<close>

definition CAPTURE_RING_CAPACITY :: nat where
  "CAPTURE_RING_CAPACITY = 500"

record capture_event =
  ce_conn_id :: uuid
  ce_tunnel_id :: uuid
  ce_tunnel_label :: string
  ce_method :: string
  ce_path :: string
  ce_status :: u16
  ce_request_bytes :: u64
  ce_response_bytes :: u64
  ce_duration_ms :: u64
  ce_captured_at :: instant

definition event_to_row :: "env \<Rightarrow> instant \<Rightarrow> uuid \<Rightarrow> capture_event \<Rightarrow> captured_request" where
  "event_to_row ev now new_id e =
     \<lparr>cr_id = ev_uuid ev new_id, cr_tunnel_id = ev_uuid ev (ce_tunnel_id e), cr_conn_id = ev_uuid ev (ce_conn_id e),
      cr_method = ce_method e, cr_path = ce_path e, cr_status = uint (ce_status e),
      cr_request_bytes = sint (ce_request_bytes e), cr_response_bytes = sint (ce_response_bytes e),
      cr_duration_ms = sint (ce_duration_ms e),
      cr_captured_at = (if 0 \<le> ce_captured_at e then secs (ce_captured_at e div 1000000000) else now),
      cr_request_body = None, cr_response_body = None\<rparr>"

text \<open>One event of the capture task: persist (a failure is only logged), then the ring of the tunnel.\<close>

definition ring_insert :: "captured_request \<Rightarrow> captured_request list \<Rightarrow> captured_request list" where
  "ring_insert row deque = (if length deque \<ge> CAPTURE_RING_CAPACITY then tl deque else deque) @ [row]"

definition capture_step :: "env \<Rightarrow> instant \<Rightarrow> uuid \<Rightarrow> capture_event \<Rightarrow> dash \<Rightarrow> dash" where
  "capture_step ev now new_id e s =
     (let row = event_to_row ev now new_id e; key = ev_uuid ev (ce_tunnel_id e);
          deque = (case dm_get (ds_capture s) key of Some q \<Rightarrow> q | None \<Rightarrow> [])
      in s\<lparr>ds_stored := (if ds_local_up s then ds_stored s @ [row] else ds_stored s),
           ds_capture := dm_insert key (ring_insert row deque) (ds_capture s)\<rparr>)"

text \<open>A negative limit is no limit, in SQLite and as a \<open>usize\<close>.\<close>

definition take_limit :: "int \<Rightarrow> 'a list \<Rightarrow> 'a list" where
  "take_limit limit xs = (if limit < 0 then xs else take (nat limit) xs)"

definition load_requests_from_db :: "string \<Rightarrow> int \<Rightarrow> dash \<Rightarrow> captured_request list" where
  "load_requests_from_db tunnel_id limit s =
     take_limit limit (rev (sort_key cr_captured_at (filter (\<lambda>r. cr_tunnel_id r = tunnel_id) (ds_stored s))))"

definition get_request :: "string \<Rightarrow> dash \<Rightarrow> captured_request option" where
  "get_request request_id s = find (\<lambda>r. cr_id r = request_id) (ds_stored s)"

section \<open>Callers\<close>

datatype auth_scope = ScopeAdmin | ScopeUser uuid | ScopeToken string

fun can_see :: "auth_scope \<Rightarrow> uuid option \<Rightarrow> string option \<Rightarrow> bool" where
  "can_see ScopeAdmin session_user_id session_db_token_id = True"
| "can_see (ScopeUser uid) session_user_id session_db_token_id = (session_user_id = Some uid)"
| "can_see (ScopeToken tid) session_user_id session_db_token_id = (session_db_token_id = Some tid)"

record tunnel_summary =
  ts_tunnel_id :: string
  ts_protocol :: string
  ts_label :: string
  ts_public_url :: string
  ts_connected_since :: string
  ts_request_count :: u64
  ts_bytes_proxied :: u64
  ts_client_addr :: string
  ts_region_id :: string
  ts_nat_type :: "string option"
  ts_mapped_addrs :: "string list option"
  ts_group :: "(string \<times> string \<times> nat \<times> nat) option"
  ts_healthy :: bool
  ts_consecutive_failures :: u32
  ts_total_health_failures :: u64

record group_member_summary =
  gs_tunnel_id :: string
  gs_session_id :: string
  gs_client_addr :: string
  gs_request_count :: u64
  gs_bytes_proxied :: u64
  gs_healthy :: bool
  gs_consecutive_failures :: u32
  gs_total_health_failures :: u64
  gs_connected_since :: string
  gs_health_check_kind :: "string option"
  gs_has_alert_webhook :: bool

record group_summary =
  gr_protocol :: string
  gr_label :: string
  gr_name :: string
  gr_key_hash_short :: string
  gr_region_id :: string
  gr_member_count :: nat
  gr_healthy_count :: nat
  gr_unhealthy_count :: nat
  gr_total_dispatches :: u64
  gr_total_health_failures :: u64
  gr_members :: "group_member_summary list"

datatype api_response =
    ApiError nat string
  | NoContent
  | StatusJson nat nat
  | TunnelsJson "tunnel_summary list"
  | TunnelJson tunnel_summary
  | HealthEventsJson "health_event list"
  | GroupsJson "group_summary list"
  | EventStream string string auth_scope
  | RequestsJson "captured_request list"
  | ReplayJson captured_request
  | TokensJson "(token \<times> nat) list"
  | TokenCreatedJson string string string

fun response_status :: "api_response \<Rightarrow> nat" where
  "response_status (ApiError code _) = code"
| "response_status NoContent = 204"
| "response_status (TokenCreatedJson _ _ _) = 201"
| "response_status _ = 200"

definition unauthorized :: "string \<Rightarrow> api_response" where
  "unauthorized msg = ApiError 401 msg"

definition not_found :: "string \<Rightarrow> api_response" where
  "not_found msg = ApiError 404 msg"

definition strip_prefix :: "string \<Rightarrow> string \<Rightarrow> string option" where
  "strip_prefix p s = (if starts_with p s then Some (drop (length p) s) else None)"

definition bearer :: "header_map \<Rightarrow> string option" where
  "bearer headers = Option.bind (Option.bind (hm_get ''authorization'' headers) value_to_str) (strip_prefix ''Bearer '')"

definition require_auth ::
  "dash_env \<Rightarrow> server_config \<Rightarrow> instant \<Rightarrow> header_map \<Rightarrow> dash \<Rightarrow> dash \<times> (api_response + auth_scope)" where
  "require_auth de cfg now headers s =
     (let auth = (case bearer headers of Some t \<Rightarrow> t | None \<Rightarrow> [])
      in if auth = [] then (s, Inl (unauthorized ''missing token''))
         else if secret_eq (ev_hash (de_env de)) auth (cf_admin_token cfg) then (s, Inr ScopeAdmin)
         else case verify_token (de_env de) now auth (ds_world s) of
                (w, Inr (Some t)) \<Rightarrow>
                  (s\<lparr>ds_world := w\<rparr>,
                   Inr (case tk_user_id t of Some uid \<Rightarrow> ScopeUser uid | None \<Rightarrow> ScopeToken (tk_id t)))
              | (w, Inr None) \<Rightarrow> (s\<lparr>ds_world := w\<rparr>, Inl (unauthorized ''invalid token''))
              | (w, Inl _) \<Rightarrow> (s\<lparr>ds_world := w\<rparr>, Inl (unauthorized ''invalid token'')))"

definition require_admin :: "dash_env \<Rightarrow> server_config \<Rightarrow> header_map \<Rightarrow> api_response + unit" where
  "require_admin de cfg headers =
     (let auth = (case bearer headers of Some t \<Rightarrow> t | None \<Rightarrow> [])
      in if secret_eq (ev_hash (de_env de)) auth (cf_admin_token cfg) then Inr ()
         else Inl (unauthorized ''admin token required''))"

definition scope_sees_session :: "tunnel_core \<Rightarrow> auth_scope \<Rightarrow> uuid \<Rightarrow> bool" where
  "scope_sees_session c scope session_id =
     (scope = ScopeAdmin \<or>
      (case dm_get (sessions c) session_id of
         Some s \<Rightarrow> can_see scope (si_user_id s) (si_db_token_id s)
       | None \<Rightarrow> False))"

text \<open>The walk over the groups of one table: the member with the given identifier in the first group that has it.\<close>

fun first_member :: "('k, tunnel_group) dashmap \<Rightarrow> uuid \<Rightarrow> group_member option" where
  "first_member [] tunnel_id = None"
| "first_member ((k, g) # routes) tunnel_id =
     (case dm_get (tg_members g) tunnel_id of Some m \<Rightarrow> Some m | None \<Rightarrow> first_member routes tunnel_id)"

definition find_member :: "tunnel_core \<Rightarrow> uuid \<Rightarrow> group_member option" where
  "find_member c tunnel_id =
     (case first_member (http_routes c) tunnel_id of Some m \<Rightarrow> Some m
      | None \<Rightarrow> (case first_member (tcp_routes c) tunnel_id of Some m \<Rightarrow> Some m
      | None \<Rightarrow> first_member (udp_routes c) tunnel_id))"

definition find_tunnel_owning_session :: "tunnel_core \<Rightarrow> uuid \<Rightarrow> uuid option" where
  "find_tunnel_owning_session c tunnel_id =
     (case find_member c tunnel_id of
        Some m \<Rightarrow> Some (ti_session_id (gm_info m))
      | None \<Rightarrow> map_option (\<lambda>(_, p). ti_session_id (pp_tunnel_info p))
                  (find (\<lambda>(_, p). ti_tunnel_id (pp_tunnel_info p) = tunnel_id) (p2p_tunnels c)))"

definition find_member_health_events :: "tunnel_core \<Rightarrow> uuid \<Rightarrow> health_event list option" where
  "find_member_health_events c tunnel_id = map_option gm_health_events (find_member c tunnel_id)"

section \<open>Tunnels\<close>

definition status_handler :: "dash \<Rightarrow> api_response" where
  "status_handler s =
     (let members = (\<lambda>g. length (tg_members g))
      in StatusJson (length (sessions (ds_core s)))
           (sum_list (map (members \<circ> snd) (http_routes (ds_core s))) + sum_list (map (members \<circ> snd) (tcp_routes (ds_core s)))))"

definition client_addr_of :: "dash_env \<Rightarrow> tunnel_core \<Rightarrow> uuid \<Rightarrow> string" where
  "client_addr_of de c session_id =
     (case dm_get (sessions c) session_id of Some si \<Rightarrow> ev_addr (de_env de) (si_client_addr si) | None \<Rightarrow> [])"

definition group_summary_ref :: "tunnel_group \<Rightarrow> (string \<times> string \<times> nat \<times> nat) option" where
  "group_summary_ref g =
     (case tg_key_hash g of
        None \<Rightarrow> None
      | Some key_hash \<Rightarrow> Some (tg_name g, take_chars 8 key_hash, length (tg_members g), healthy_count g))"

definition member_to_summary ::
  "dash_env \<Rightarrow> server_config \<Rightarrow> tunnel_core \<Rightarrow> string \<Rightarrow> string \<Rightarrow> string \<Rightarrow> (string \<times> string \<times> nat \<times> nat) option \<Rightarrow>
   group_member \<Rightarrow> tunnel_summary" where
  "member_to_summary de cfg c prot label public_url grp m =
     (let info = gm_info m
      in \<lparr>ts_tunnel_id = ev_uuid (de_env de) (ti_tunnel_id info), ts_protocol = prot, ts_label = label,
          ts_public_url = public_url, ts_connected_since = de_iso de (ti_created_at info),
          ts_request_count = ti_request_count info, ts_bytes_proxied = ti_bytes_proxied info,
          ts_client_addr = client_addr_of de c (ti_session_id info), ts_region_id = cf_region_id cfg,
          ts_nat_type = None, ts_mapped_addrs = None, ts_group = grp, ts_healthy = gm_healthy m,
          ts_consecutive_failures = gm_consecutive_failures m, ts_total_health_failures = gm_total_health_failures m\<rparr>)"

definition publisher_to_summary :: "dash_env \<Rightarrow> server_config \<Rightarrow> tunnel_core \<Rightarrow> p2p_publisher \<Rightarrow> tunnel_summary" where
  "publisher_to_summary de cfg c p =
     (let info = pp_tunnel_info p
      in \<lparr>ts_tunnel_id = ev_uuid (de_env de) (ti_tunnel_id info), ts_protocol = ''p2p'', ts_label = pp_name p,
          ts_public_url = ''p2p://'' @ pp_name p, ts_connected_since = de_iso de (ti_created_at info),
          ts_request_count = ti_request_count info, ts_bytes_proxied = ti_bytes_proxied info,
          ts_client_addr = client_addr_of de c (ti_session_id info), ts_region_id = cf_region_id cfg,
          ts_nat_type = pp_nat_type p,
          ts_mapped_addrs = (if pp_mapped_addrs p = [] then None else Some (pp_mapped_addrs p)), ts_group = None,
          ts_healthy = True, ts_consecutive_failures = 0, ts_total_health_failures = 0\<rparr>)"

text \<open>Every member of the router with its owner and its summary, in the order of the loops of \<open>list_tunnels\<close> and
  \<open>get_tunnel\<close>.\<close>

definition group_rows ::
  "dash_env \<Rightarrow> server_config \<Rightarrow> tunnel_core \<Rightarrow> string \<Rightarrow> ('k \<Rightarrow> string) \<Rightarrow> ('k \<Rightarrow> string) \<Rightarrow> ('k, tunnel_group) dashmap \<Rightarrow>
   (tunnel_info \<times> tunnel_summary) list" where
  "group_rows de cfg c prot label url routes =
     concat (map (\<lambda>(k, g). map (\<lambda>(_, m). (gm_info m, member_to_summary de cfg c prot (label k) (url k) (group_summary_ref g) m))
       (tg_members g)) routes)"

definition tunnel_rows :: "dash_env \<Rightarrow> server_config \<Rightarrow> tunnel_core \<Rightarrow> (tunnel_info \<times> tunnel_summary) list" where
  "tunnel_rows de cfg c =
     group_rows de cfg c ''http'' (\<lambda>sub. sub) (\<lambda>sub. ''https://'' @ sub) (http_routes c) @
     group_rows de cfg c ''tcp'' (\<lambda>p. dec_string (unat p)) (\<lambda>p. ''tcp://:'' @ dec_string (unat p)) (tcp_routes c) @
     group_rows de cfg c ''udp'' (\<lambda>p. dec_string (unat p)) (\<lambda>p. ''udp://:'' @ dec_string (unat p)) (udp_routes c) @
     map (\<lambda>(_, p). (pp_tunnel_info p, publisher_to_summary de cfg c p)) (p2p_tunnels c)"

definition list_tunnels :: "dash_env \<Rightarrow> server_config \<Rightarrow> auth_scope \<Rightarrow> dash \<Rightarrow> api_response" where
  "list_tunnels de cfg scope s =
     TunnelsJson (map snd (filter (\<lambda>(info, _). scope_sees_session (ds_core s) scope (ti_session_id info))
       (tunnel_rows de cfg (ds_core s))))"

definition get_tunnel :: "dash_env \<Rightarrow> server_config \<Rightarrow> auth_scope \<Rightarrow> string \<Rightarrow> dash \<Rightarrow> api_response" where
  "get_tunnel de cfg scope tid s =
     (case find (\<lambda>(info, _). ev_uuid (de_env de) (ti_tunnel_id info) = tid) (tunnel_rows de cfg (ds_core s)) of
        None \<Rightarrow> not_found ''tunnel not found''
      | Some (info, summary) \<Rightarrow>
          if scope_sees_session (ds_core s) scope (ti_session_id info) then TunnelJson summary
          else not_found ''tunnel not found'')"

definition tunnel_visible :: "tunnel_core \<Rightarrow> auth_scope \<Rightarrow> uuid \<Rightarrow> bool" where
  "tunnel_visible c scope tunnel_id =
     (case find_tunnel_owning_session c tunnel_id of Some sid \<Rightarrow> scope_sees_session c scope sid | None \<Rightarrow> False)"

definition force_close_tunnel :: "dash_env \<Rightarrow> auth_scope \<Rightarrow> string \<Rightarrow> dash \<Rightarrow> dash \<times> api_response" where
  "force_close_tunnel de scope tid s =
     (case de_parse_uuid de tid of
        None \<Rightarrow> (s, not_found ''invalid tunnel id'')
      | Some tunnel_id \<Rightarrow>
          let closed = s\<lparr>ds_world := (ds_world s)\<lparr>w_core := remove_tunnel tunnel_id (ds_core s)\<rparr>\<rparr>
          in if scope = ScopeAdmin then (closed, NoContent)
             else if \<not> tunnel_visible (ds_core s) scope tunnel_id then (s, not_found ''tunnel not found'')
             else (closed, NoContent))"

definition tunnel_health_events :: "dash_env \<Rightarrow> auth_scope \<Rightarrow> string \<Rightarrow> dash \<Rightarrow> api_response" where
  "tunnel_health_events de scope tid s =
     (case de_parse_uuid de tid of
        None \<Rightarrow> not_found ''invalid tunnel id''
      | Some tunnel_id \<Rightarrow>
          if \<not> tunnel_visible (ds_core s) scope tunnel_id then not_found ''tunnel not found''
          else case find_member_health_events (ds_core s) tunnel_id of
                 Some events \<Rightarrow> HealthEventsJson events
               | None \<Rightarrow> not_found ''tunnel not found'')"

section \<open>Groups\<close>

definition group_member_row :: "dash_env \<Rightarrow> tunnel_core \<Rightarrow> group_member \<Rightarrow> group_member_summary" where
  "group_member_row de c m =
     (let info = gm_info m
      in \<lparr>gs_tunnel_id = ev_uuid (de_env de) (ti_tunnel_id info), gs_session_id = ev_uuid (de_env de) (ti_session_id info),
          gs_client_addr = client_addr_of de c (ti_session_id info), gs_request_count = ti_request_count info,
          gs_bytes_proxied = ti_bytes_proxied info, gs_healthy = gm_healthy m,
          gs_consecutive_failures = gm_consecutive_failures m, gs_total_health_failures = gm_total_health_failures m,
          gs_connected_since = de_iso de (ti_created_at info),
          gs_health_check_kind = map_option (\<lambda>sp. case hc_kind sp of HcTcp \<Rightarrow> ''tcp'' | HcHttp \<Rightarrow> ''http'') (gm_health_spec m),
          gs_has_alert_webhook = (Option.bind (gm_health_spec m) hc_alert_webhook_url \<noteq> None)\<rparr>)"

definition group_to_summary ::
  "dash_env \<Rightarrow> string \<Rightarrow> string \<Rightarrow> tunnel_group \<Rightarrow> tunnel_core \<Rightarrow> string \<Rightarrow> auth_scope \<Rightarrow> group_summary option" where
  "group_to_summary de prot label g c region_id scope =
     (let key_hash = (case tg_key_hash g of Some kh \<Rightarrow> kh | None \<Rightarrow> []);
          visible = filter (\<lambda>m. scope_sees_session c scope (ti_session_id (gm_info m))) (map snd (tg_members g))
      in if visible = [] then None
         else Some \<lparr>gr_protocol = prot, gr_label = label, gr_name = tg_name g, gr_key_hash_short = take_chars 8 key_hash,
                gr_region_id = region_id, gr_member_count = length visible,
                gr_healthy_count = length (filter gm_healthy visible),
                gr_unhealthy_count = length (filter (\<lambda>m. \<not> gm_healthy m) visible),
                gr_total_dispatches = sum_list (map (\<lambda>m. ti_request_count (gm_info m)) visible),
                gr_total_health_failures = sum_list (map gm_total_health_failures visible),
                gr_members = map (group_member_row de c) visible\<rparr>)"

definition group_summaries ::
  "dash_env \<Rightarrow> server_config \<Rightarrow> auth_scope \<Rightarrow> tunnel_core \<Rightarrow> string \<Rightarrow> ('k \<Rightarrow> string) \<Rightarrow> ('k, tunnel_group) dashmap \<Rightarrow>
   group_summary list" where
  "group_summaries de cfg scope c prot label routes =
     List.map_filter (\<lambda>(k, g). if tg_key_hash g = None then None
       else group_to_summary de prot (label k) g c (cf_region_id cfg) scope) routes"

definition list_groups :: "dash_env \<Rightarrow> server_config \<Rightarrow> auth_scope \<Rightarrow> dash \<Rightarrow> api_response" where
  "list_groups de cfg scope s =
     (let c = ds_core s
      in GroupsJson (group_summaries de cfg scope c ''http'' (\<lambda>sub. sub) (http_routes c) @
                     group_summaries de cfg scope c ''tcp'' (\<lambda>p. dec_string (unat p)) (tcp_routes c)))"

definition any_member_visible :: "tunnel_core \<Rightarrow> auth_scope \<Rightarrow> tunnel_group \<Rightarrow> bool" where
  "any_member_visible c scope g = list_ex (\<lambda>(_, m). scope_sees_session c scope (ti_session_id (gm_info m))) (tg_members g)"

definition group_events_sse :: "dash_env \<Rightarrow> auth_scope \<Rightarrow> string \<Rightarrow> string \<Rightarrow> dash \<Rightarrow> api_response" where
  "group_events_sse de scope prot label s =
     (let c = ds_core s;
          grp = (if prot = ''http'' then dm_get (http_routes c) label
                 else if prot = ''tcp'' then Option.bind (de_parse_u16 de label) (dm_get (tcp_routes c))
                 else None);
          group_visible = (case grp of Some g \<Rightarrow> any_member_visible c scope g | None \<Rightarrow> False)
      in if scope \<noteq> ScopeAdmin \<and> \<not> group_visible then not_found ''group not found''
         else EventStream prot label scope)"

text \<open>The filter of an open stream on one broadcast event, in the state of the router at that moment.\<close>

definition stream_emits :: "tunnel_core \<Rightarrow> string \<Rightarrow> string \<Rightarrow> auth_scope \<Rightarrow> group_event \<Rightarrow> bool" where
  "stream_emits c prot label scope e \<longleftrightarrow>
     ge_protocol e = prot \<and> ge_label e = label \<and> (scope = ScopeAdmin \<or> tunnel_visible c scope (ge_tunnel_id e))"

section \<open>Captured requests over the API\<close>

definition requests_visible :: "dash_env \<Rightarrow> auth_scope \<Rightarrow> string \<Rightarrow> dash \<Rightarrow> bool" where
  "requests_visible de scope tid s =
     (case de_parse_uuid de tid of
        Some tunnel_id \<Rightarrow>
          (case find_tunnel_owning_session (ds_core s) tunnel_id of
             Some sid \<Rightarrow> scope_sees_session (ds_core s) scope sid | None \<Rightarrow> scope = ScopeAdmin)
      | None \<Rightarrow> scope = ScopeAdmin)"

definition tunnel_requests :: "dash_env \<Rightarrow> auth_scope \<Rightarrow> string \<Rightarrow> int \<Rightarrow> dash \<Rightarrow> api_response" where
  "tunnel_requests de scope tid limit s =
     (if \<not> requests_visible de scope tid s then not_found ''tunnel not found''
      else case dm_get (ds_capture s) tid of
             Some deque \<Rightarrow> RequestsJson (take_limit limit (rev deque))
           | None \<Rightarrow> if ds_local_up s then RequestsJson (load_requests_from_db tid limit s)
                     else ApiError 500 ''database error'')"

definition replay_request :: "dash_env \<Rightarrow> auth_scope \<Rightarrow> string \<Rightarrow> string \<Rightarrow> dash \<Rightarrow> api_response" where
  "replay_request de scope tid request_id s =
     (if \<not> requests_visible de scope tid s then not_found ''tunnel not found''
      else if \<not> ds_local_up s then ApiError 500 ''database error''
      else case get_request request_id s of
             Some req \<Rightarrow> if cr_tunnel_id req = tid then ReplayJson req
                         else not_found ''request does not belong to this tunnel''
           | None \<Rightarrow> not_found ''request not found'')"

section \<open>Tokens\<close>

definition create_token ::
  "env \<Rightarrow> instant \<Rightarrow> uuid \<Rightarrow> uuid \<Rightarrow> string \<Rightarrow> string option \<Rightarrow> world \<Rightarrow> world \<times> (server_error + token \<times> string)" where
  "create_token ev now raw_id row_id label scope w =
     (let raw = ''rt_live_'' @ ev_uuid ev raw_id;
          t = \<lparr>tk_id = ev_uuid ev row_id, tk_token_hash = ev_hash ev raw, tk_label = label, tk_created_at = now,
               tk_last_used_at = None, tk_scope = scope, tk_user_id = None, tk_expires_at = None, tk_tier = None,
               tk_tunnel_limit = None, tk_status = ''active'', tk_unlimited = False\<rparr>
      in if \<not> w_db_up w then (w, Inl db_failure) else (w\<lparr>w_tokens := w_tokens w @ [t]\<rparr>, Inr (t, raw)))"

definition delete_token :: "string \<Rightarrow> world \<Rightarrow> world \<times> (server_error + bool)" where
  "delete_token tid w =
     (if \<not> w_db_up w then (w, Inl db_failure)
      else (w\<lparr>w_tokens := filter (\<lambda>t. tk_id t \<noteq> tid) (w_tokens w)\<rparr>, Inr (list_ex (\<lambda>t. tk_id t = tid) (w_tokens w))))"

definition set_token_unlimited :: "string \<Rightarrow> bool \<Rightarrow> world \<Rightarrow> world \<times> (server_error + bool)" where
  "set_token_unlimited tid unlimited w =
     (if \<not> w_db_up w then (w, Inl db_failure)
      else (w\<lparr>w_tokens := map (\<lambda>t. if tk_id t = tid then t\<lparr>tk_unlimited := unlimited\<rparr> else t) (w_tokens w)\<rparr>,
            Inr (list_ex (\<lambda>t. tk_id t = tid) (w_tokens w))))"

definition list_tokens_with_counts :: "world \<Rightarrow> server_error + (token \<times> nat) list" where
  "list_tokens_with_counts w =
     (if \<not> w_db_up w then Inl db_failure
      else Inr (map (\<lambda>t. (t, length (filter (\<lambda>r. tl_token_id r = Some (tk_id t)) (w_log w))))
             (rev (sort_key tk_created_at (w_tokens w)))))"

definition server_error_response :: "env \<Rightarrow> server_error \<Rightarrow> api_response" where
  "server_error_response ev e = ApiError 500 (error_display (ev_uuid ev) e)"

definition is_admin_bearer :: "dash_env \<Rightarrow> server_config \<Rightarrow> header_map \<Rightarrow> bool" where
  "is_admin_bearer de cfg headers =
     (case bearer headers of Some t \<Rightarrow> secret_eq (ev_hash (de_env de)) t (cf_admin_token cfg) | None \<Rightarrow> False)"

definition list_tokens :: "dash_env \<Rightarrow> dash \<Rightarrow> api_response" where
  "list_tokens de s =
     (case list_tokens_with_counts (ds_world s) of
        Inr tokens \<Rightarrow> TokensJson tokens | Inl e \<Rightarrow> server_error_response (de_env de) e)"

definition create_token_handler ::
  "dash_env \<Rightarrow> server_config \<Rightarrow> instant \<Rightarrow> uuid \<Rightarrow> uuid \<Rightarrow> header_map \<Rightarrow> string \<Rightarrow> string option \<Rightarrow> dash \<Rightarrow> dash \<times> api_response" where
  "create_token_handler de cfg now raw_id row_id headers label scope s =
     (case create_token (de_env de) now raw_id row_id label scope (ds_world s) of
        (w, Inr (t, raw)) \<Rightarrow>
          (s\<lparr>ds_world := audit (AuditTokenCreated (tk_id t) (tk_label t) (is_admin_bearer de cfg headers)) w\<rparr>,
           TokenCreatedJson (tk_id t) (tk_label t) raw)
      | (w, Inl e) \<Rightarrow> (s\<lparr>ds_world := w\<rparr>, server_error_response (de_env de) e))"

definition delete_token_handler ::
  "dash_env \<Rightarrow> server_config \<Rightarrow> header_map \<Rightarrow> string \<Rightarrow> dash \<Rightarrow> dash \<times> api_response" where
  "delete_token_handler de cfg headers tid s =
     (case delete_token tid (ds_world s) of
        (w, Inr True) \<Rightarrow> (s\<lparr>ds_world := audit (AuditTokenDeleted tid (is_admin_bearer de cfg headers)) w\<rparr>, NoContent)
      | (w, Inr False) \<Rightarrow> (s\<lparr>ds_world := w\<rparr>, not_found ''token not found'')
      | (w, Inl e) \<Rightarrow> (s\<lparr>ds_world := w\<rparr>, server_error_response (de_env de) e))"

definition admin_patch_token ::
  "dash_env \<Rightarrow> server_config \<Rightarrow> header_map \<Rightarrow> string \<Rightarrow> bool \<Rightarrow> dash \<Rightarrow> dash \<times> api_response" where
  "admin_patch_token de cfg headers tid unlimited s =
     (case require_admin de cfg headers of
        Inl e \<Rightarrow> (s, e)
      | Inr _ \<Rightarrow>
          (case set_token_unlimited tid unlimited (ds_world s) of
             (w, Inr True) \<Rightarrow> (s\<lparr>ds_world := w\<rparr>, NoContent)
           | (w, Inr False) \<Rightarrow> (s\<lparr>ds_world := w\<rparr>, not_found ''token not found'')
           | (w, Inl e) \<Rightarrow> (s\<lparr>ds_world := w\<rparr>, server_error_response (de_env de) e)))"

section \<open>Requests\<close>

datatype api_request =
    GetStatus
  | GetTunnels
  | GetTunnel string
  | DeleteTunnel string
  | GetHealthEvents string
  | GetGroups
  | GetGroupEvents string string
  | GetRequests string int
  | PostReplay string string
  | GetTokens
  | PostToken string "string option"
  | DeleteToken string
  | PatchToken string bool

text \<open>The router of the API on the handlers modelled here; \<open>ids\<close> are the UUIDs a new token draws.\<close>

definition api_handle ::
  "dash_env \<Rightarrow> server_config \<Rightarrow> instant \<Rightarrow> uuid \<times> uuid \<Rightarrow> header_map \<Rightarrow> api_request \<Rightarrow> dash \<Rightarrow> dash \<times> api_response" where
  "api_handle de cfg now ids headers req s =
     (case req of
        GetStatus \<Rightarrow> (s, status_handler s)
      | PatchToken tid unlimited \<Rightarrow> admin_patch_token de cfg headers tid unlimited s
      | _ \<Rightarrow>
          (case require_auth de cfg now headers s of
             (s', Inl e) \<Rightarrow> (s', e)
           | (s', Inr scope) \<Rightarrow>
               (case req of
                  GetTunnels \<Rightarrow> (s', list_tunnels de cfg scope s')
                | GetTunnel tid \<Rightarrow> (s', get_tunnel de cfg scope tid s')
                | DeleteTunnel tid \<Rightarrow> force_close_tunnel de scope tid s'
                | GetHealthEvents tid \<Rightarrow> (s', tunnel_health_events de scope tid s')
                | GetGroups \<Rightarrow> (s', list_groups de cfg scope s')
                | GetGroupEvents prot label \<Rightarrow> (s', group_events_sse de scope prot label s')
                | GetRequests tid limit \<Rightarrow> (s', tunnel_requests de scope tid limit s')
                | PostReplay tid rid \<Rightarrow> (s', replay_request de scope tid rid s')
                | GetTokens \<Rightarrow> (s', list_tokens de s')
                | PostToken label sc \<Rightarrow> create_token_handler de cfg now (fst ids) (snd ids) headers label sc s'
                | DeleteToken tid \<Rightarrow> delete_token_handler de cfg headers tid s'
                | _ \<Rightarrow> (s', status_handler s'))))"

text \<open>The throttle around every route; \<open>peer\<close> is the \<open>ConnectInfo\<close>, when the server provides it.\<close>

definition auth_throttle ::
  "dash_env \<Rightarrow> server_config \<Rightarrow> instant \<Rightarrow> uuid \<times> uuid \<Rightarrow> ip_addr option \<Rightarrow> header_map \<Rightarrow> api_request \<Rightarrow> dash \<Rightarrow>
   dash \<times> api_response" where
  "auth_throttle de cfg now ids peer headers req s =
     (case (hm_get ''authorization'' headers, peer) of
        (Some _, Some peer_ip) \<Rightarrow>
          (let ip = client_ip (de_parse_ip de) peer_ip (Option.bind (hm_get ''x-real-ip'' headers) value_to_str);
               with_limiter = (\<lambda>l s. s\<lparr>ds_world := (ds_world s)\<lparr>w_core := (ds_core s)\<lparr>core_auth_limiter := l\<rparr>\<rparr>\<rparr>)
           in case is_limited now ip (core_auth_limiter (ds_core s)) of
                (l, True) \<Rightarrow> (with_limiter l s, ApiError 429 ''too many failed auth attempts'')
              | (l, False) \<Rightarrow>
                  (case api_handle de cfg now ids headers req (with_limiter l s) of
                     (s', resp) \<Rightarrow>
                       (if response_status resp = 401
                        then with_limiter (record_failure now ip (core_auth_limiter (ds_core s'))) s' else s', resp)))
      | _ \<Rightarrow> api_handle de cfg now ids headers req s)"

end
