(* ===== verification/DashboardProps.thy ===== *)
theory DashboardProps
  imports Dashboard SessionProps RouterDispatch
begin

text \<open>
  The dashboard API: every route but the public one asks for a token, a listing shows exactly the tunnels of the
  caller, a tunnel can be closed only by those who see it, and group summaries depend only on what the caller sees.
\<close>

section \<open>The members of the routing tables\<close>

definition table_members :: "('k, tunnel_group) dashmap \<Rightarrow> group_member list" where
  "table_members R = concat (map (\<lambda>(k, g). map snd (tg_members g)) R)"

lemma table_members_simps [simp]:
  "table_members [] = []" "table_members ((k, g) # R) = map snd (tg_members g) @ table_members R"
  by (simp_all add: table_members_def)

lemma group_member_ids:
  assumes "group_ok g"
  shows "map (\<lambda>m. ti_tunnel_id (gm_info m)) (map snd (tg_members g)) = map fst (tg_members g)"
    and "m \<in> snd ` set (tg_members g) \<longleftrightarrow> dm_get (tg_members g) (ti_tunnel_id (gm_info m)) = Some m"
proof -
  have wf: "distinct (map fst (tg_members g))" using assms by (simp add: group_ok_def dm_wf_def)
  then have id: "ti_tunnel_id (gm_info m) = t" if "(t, m) \<in> set (tg_members g)" for t m
    using assms that by (auto simp: group_ok_def)
  then show "map (\<lambda>m. ti_tunnel_id (gm_info m)) (map snd (tg_members g)) = map fst (tg_members g)" by auto
  show "m \<in> snd ` set (tg_members g) \<longleftrightarrow> dm_get (tg_members g) (ti_tunnel_id (gm_info m)) = Some m"
    using id wf by (force dest: map_of_SomeD)
qed

context route_table
begin

lemma members_listed:
  assumes "routes_ok K J R idx"
  shows "m \<in> set (table_members R) \<longleftrightarrow>
    (\<exists>k g. dm_get R k = Some g \<and> dm_get (tg_members g) (ti_tunnel_id (gm_info m)) = Some m)"
proof -
  have wf: "distinct (map fst R)" using assms by (simp add: routes_ok_def dm_wf_def)
  have ok: "group_ok g" if "dm_get R k = Some g" for k g using assms that by (simp add: routes_ok_def)
  have "m \<in> set (table_members R) \<longleftrightarrow> (\<exists>k g. (k, g) \<in> set R \<and> m \<in> snd ` set (tg_members g))"
    by (force simp: table_members_def)
  also have "\<dots> \<longleftrightarrow> (\<exists>k g. dm_get R k = Some g \<and> dm_get (tg_members g) (ti_tunnel_id (gm_info m)) = Some m)"
    using wf ok group_member_ids(2) by (metis map_of_eq_Some_iff)
  finally show ?thesis .
qed

lemma members_indexed:
  assumes "routes_ok K J R idx" "m \<in> set (table_members R)"
  shows "\<exists>k. dm_get idx (ti_tunnel_id (gm_info m)) = Some (K k) \<and> table_info R k (ti_tunnel_id (gm_info m)) = Some (gm_info m)"
proof -
  obtain k g where g: "dm_get R k = Some g" "dm_get (tg_members g) (ti_tunnel_id (gm_info m)) = Some m"
    using members_listed assms by blast
  then have "dm_get idx (ti_tunnel_id (gm_info m)) = Some (K k)" using routes_ok_group[OF assms(1) g(1)] by blast
  then show ?thesis using g by (intro exI[of _ k]) (simp add: table_info_def)
qed

lemma indexed_members:
  assumes "routes_ok K J R idx" "table_info R k t = Some i"
  shows "i \<in> gm_info ` set (table_members R)"
proof -
  obtain g m where g: "dm_get R k = Some g" "dm_get (tg_members g) t = Some m" "i = gm_info m"
    using assms(2) by (auto simp: table_info_def bind_eq_Some_conv)
  then have "ti_tunnel_id (gm_info m) = t" using assms(1) by (auto simp: routes_ok_def group_ok_def)
  then show ?thesis using g members_listed[OF assms(1)] by blast
qed

lemma members_distinct:
  assumes "routes_ok K J R idx"
  shows "distinct (map (\<lambda>m. ti_tunnel_id (gm_info m)) (table_members R))"
proof -
  have "distinct (map (\<lambda>m. ti_tunnel_id (gm_info m)) (table_members S))"
    if "distinct (map fst S)" "\<And>k g. (k, g) \<in> set S \<Longrightarrow> group_ok g \<and> (\<forall>t \<in> fst ` set (tg_members g). dm_get idx t = Some (K k))" for S
    using that
  proof (induction S)
    case (Cons x S)
    obtain k g where x: "x = (k, g)" by fastforce
    have g: "group_ok g" "\<And>t. t \<in> fst ` set (tg_members g) \<Longrightarrow> dm_get idx t = Some (K k)" using Cons.prems(2) x by auto
    have ne: "dm_get idx (ti_tunnel_id (gm_info m)) \<noteq> Some (K k)" if m: "m \<in> set (table_members S)" for m
    proof -
      obtain k' g' where S: "(k', g') \<in> set S" "m \<in> snd ` set (tg_members g')" using m by (force simp: table_members_def)
      then have "dm_get (tg_members g') (ti_tunnel_id (gm_info m)) = Some m" using Cons.prems(2) group_member_ids(2) by (metis list.set_intros(2))
      then have "dm_get idx (ti_tunnel_id (gm_info m)) = Some (K k')" using Cons.prems(2) S(1) by (metis map_of_SomeD fst_conv imageI list.set_intros(2))
      moreover have "k' \<noteq> k" using Cons.prems(1) S(1) x by force
      ultimately show ?thesis by (simp add: K_inj)
    qed
    have "fst ` set (tg_members g) \<inter> (\<lambda>m. ti_tunnel_id (gm_info m)) ` set (table_members S) = {}"
    proof (rule equals0I)
      fix t
      assume t: "t \<in> fst ` set (tg_members g) \<inter> (\<lambda>m. ti_tunnel_id (gm_info m)) ` set (table_members S)"
      then obtain m where "m \<in> set (table_members S)" "t = ti_tunnel_id (gm_info m)" by blast
      then show False using ne[of m] g(2)[of t] t by simp
    qed
    moreover have "distinct (map (\<lambda>m. ti_tunnel_id (gm_info m)) (table_members S))"
      by (rule Cons.IH) (use Cons.prems(1) in simp, rule Cons.prems(2), simp)
    moreover have "distinct (map fst (tg_members g))" using g(1) by (simp add: group_ok_def dm_wf_def)
    ultimately have "distinct (map fst (tg_members g) @ map (\<lambda>m. ti_tunnel_id (gm_info m)) (table_members S))" by simp
    then show ?case unfolding x table_members_simps map_append group_member_ids(1)[OF g(1)] .
  qed simp
  moreover have "group_ok g \<and> (\<forall>t \<in> fst ` set (tg_members g). dm_get idx t = Some (K k))" if "(k, g) \<in> set R" for k g
  proof -
    have "dm_get R k = Some g" using assms that by (simp add: routes_ok_def dm_wf_def)
    then show ?thesis using assms routes_ok_group[OF assms] by (auto simp: routes_ok_def dom_map_of_conv_image_fst[symmetric] domIff)
  qed
  ultimately show ?thesis using assms by (simp add: routes_ok_def dm_wf_def)
qed

end

section \<open>Listings\<close>

definition core_infos :: "tunnel_core \<Rightarrow> tunnel_info list" where
  "core_infos c = map gm_info (table_members (http_routes c)) @ map gm_info (table_members (tcp_routes c)) @
     map gm_info (table_members (udp_routes c)) @ map (pp_tunnel_info \<circ> snd) (p2p_tunnels c)"

lemma group_rows_infos: "map fst (group_rows de cfg c prot label url R) = map gm_info (table_members R)"
  by (induction R) (auto simp: group_rows_def)

lemma tunnel_rows_infos: "map fst (tunnel_rows de cfg c) = core_infos c"
  by (simp add: tunnel_rows_def core_infos_def group_rows_infos split_beta comp_def)

lemma tunnel_rows_id: "r \<in> set (tunnel_rows de cfg c) \<Longrightarrow> ts_tunnel_id (snd r) = ev_uuid (de_env de) (ti_tunnel_id (fst r))"
  by (auto simp: tunnel_rows_def group_rows_def member_to_summary_def publisher_to_summary_def Let_def)

lemma core_tables:
  assumes "core_inv TR UR c"
  shows "routes_ok KHttp http_info_ok (http_routes c) (tunnel_index c)"
    "routes_ok KTcp tcp_info_ok (tcp_routes c) (tunnel_index c)"
    "routes_ok KUdp udp_info_ok (udp_routes c) (tunnel_index c)"
    "p2p_ok (p2p_tunnels c) (tunnel_index c)" "tables_inv TR UR c"
  using assms by (simp_all add: core_inv_defs)

lemma p2p_listed:
  assumes "p2p_ok P idx"
  shows "(n, p) \<in> set P \<Longrightarrow> dm_get P n = Some p \<and> dm_get idx (ti_tunnel_id (pp_tunnel_info p)) = Some (KP2p n)"
    and "distinct (map (\<lambda>x. ti_tunnel_id (pp_tunnel_info (snd x))) P)"
proof -
  have wf: "distinct (map fst P)" using assms by (simp add: p2p_ok_def dm_wf_def)
  show l: "dm_get P n = Some p \<and> dm_get idx (ti_tunnel_id (pp_tunnel_info p)) = Some (KP2p n)" if "(n, p) \<in> set P" for n p
    using assms wf that by (simp add: p2p_ok_def)
  have "inj_on (\<lambda>x. ti_tunnel_id (pp_tunnel_info (snd x))) (set P)"
  proof (rule inj_onI)
    fix x y
    assume a: "x \<in> set P" "y \<in> set P" "ti_tunnel_id (pp_tunnel_info (snd x)) = ti_tunnel_id (pp_tunnel_info (snd y))"
    have "dm_get P (fst x) = Some (snd x)" "dm_get idx (ti_tunnel_id (pp_tunnel_info (snd x))) = Some (KP2p (fst x))"
      "dm_get P (fst y) = Some (snd y)" "dm_get idx (ti_tunnel_id (pp_tunnel_info (snd y))) = Some (KP2p (fst y))"
      using l[of "fst x" "snd x"] l[of "fst y" "snd y"] a(1,2) by (simp_all only: prod.collapse)
    then have "dm_get P (fst x) = Some (snd x)" "dm_get P (fst y) = Some (snd y)" "fst x = fst y" using a(3) by simp_all
    then show "x = y" by (simp add: prod_eq_iff)
  qed
  then show "distinct (map (\<lambda>x. ti_tunnel_id (pp_tunnel_info (snd x))) P)"
    using wf by (simp add: distinct_map)
qed

lemma core_infos_at:
  assumes inv: "core_inv TR UR c"
  shows "i \<in> set (core_infos c) \<longleftrightarrow> tunnel_info_at (ti_tunnel_id i) c = Some i"
proof -
  note tb = core_tables[OF inv]
  show ?thesis
  proof
    assume "i \<in> set (core_infos c)"
    then consider (h) m where "m \<in> set (table_members (http_routes c))" "i = gm_info m"
      | (t) m where "m \<in> set (table_members (tcp_routes c))" "i = gm_info m"
      | (u) m where "m \<in> set (table_members (udp_routes c))" "i = gm_info m"
      | (p) n p where "(n, p) \<in> set (p2p_tunnels c)" "i = pp_tunnel_info p" by (auto simp: core_infos_def)
    then show "tunnel_info_at (ti_tunnel_id i) c = Some i"
    proof cases
      case h then show ?thesis using http_rt.members_indexed[OF tb(1)] by (force simp: tunnel_info_at_table)
    next
      case t then show ?thesis using tcp_rt.members_indexed[OF tb(2)] by (force simp: tunnel_info_at_table)
    next
      case u then show ?thesis using udp_rt.members_indexed[OF tb(3)] by (force simp: tunnel_info_at_table)
    next
      case p then show ?thesis using p2p_listed(1)[OF tb(4)] by (force simp: tunnel_info_at_table)
    qed
  next
    assume at: "tunnel_info_at (ti_tunnel_id i) c = Some i"
    then obtain k where k: "dm_get (tunnel_index c) (ti_tunnel_id i) = Some k"
      by (cases "dm_get (tunnel_index c) (ti_tunnel_id i)") (simp_all add: tunnel_info_at_table)
    show "i \<in> set (core_infos c)"
    proof (cases k)
      case (KHttp x)
      then have "table_info (http_routes c) x (ti_tunnel_id i) = Some i" using at k by (simp add: tunnel_info_at_table)
      then show ?thesis using http_rt.indexed_members[OF tb(1)] by (simp add: core_infos_def)
    next
      case (KTcp x)
      then have "table_info (tcp_routes c) x (ti_tunnel_id i) = Some i" using at k by (simp add: tunnel_info_at_table)
      then show ?thesis using tcp_rt.indexed_members[OF tb(2)] by (simp add: core_infos_def)
    next
      case (KUdp x)
      then have "table_info (udp_routes c) x (ti_tunnel_id i) = Some i" using at k by (simp add: tunnel_info_at_table)
      then show ?thesis using udp_rt.indexed_members[OF tb(3)] by (simp add: core_infos_def)
    next
      case (KP2p x)
      then obtain p where "dm_get (p2p_tunnels c) x = Some p" "i = pp_tunnel_info p"
        using at k by (auto simp: tunnel_info_at_table)
      then have "i \<in> (pp_tunnel_info \<circ> snd) ` set (p2p_tunnels c)" by (metis comp_apply image_eqI map_of_SomeD snd_conv)
      then show ?thesis by (simp add: core_infos_def)
    qed
  qed
qed

lemma core_infos_distinct:
  assumes inv: "core_inv TR UR c"
  shows "distinct (map ti_tunnel_id (core_infos c))"
proof -
  note tb = core_tables[OF inv]
  define H where "H = map (\<lambda>m. ti_tunnel_id (gm_info m)) (table_members (http_routes c))"
  define T where "T = map (\<lambda>m. ti_tunnel_id (gm_info m)) (table_members (tcp_routes c))"
  define U where "U = map (\<lambda>m. ti_tunnel_id (gm_info m)) (table_members (udp_routes c))"
  define P where "P = map (\<lambda>x. ti_tunnel_id (pp_tunnel_info (snd x))) (p2p_tunnels c)"
  have H: "distinct H" "\<And>t. t \<in> set H \<Longrightarrow> \<exists>x. dm_get (tunnel_index c) t = Some (KHttp x)"
    using http_rt.members_distinct[OF tb(1)] http_rt.members_indexed[OF tb(1)] by (auto simp: H_def)
  have T: "distinct T" "\<And>t. t \<in> set T \<Longrightarrow> \<exists>x. dm_get (tunnel_index c) t = Some (KTcp x)"
    using tcp_rt.members_distinct[OF tb(2)] tcp_rt.members_indexed[OF tb(2)] by (auto simp: T_def)
  have U: "distinct U" "\<And>t. t \<in> set U \<Longrightarrow> \<exists>x. dm_get (tunnel_index c) t = Some (KUdp x)"
    using udp_rt.members_distinct[OF tb(3)] udp_rt.members_indexed[OF tb(3)] by (auto simp: U_def)
  have P: "distinct P" "\<And>t. t \<in> set P \<Longrightarrow> \<exists>x. dm_get (tunnel_index c) t = Some (KP2p x)"
    using p2p_listed[OF tb(4)] by (auto simp: P_def)
  have "set H \<inter> set T = {}" "set H \<inter> set U = {}" "set H \<inter> set P = {}" "set T \<inter> set U = {}" "set T \<inter> set P = {}" "set U \<inter> set P = {}"
    using H(2) T(2) U(2) P(2) by (auto simp: disjoint_iff) (metis option.inject tunnel_key.distinct)+
  then have "distinct (H @ T @ U @ P)" using H(1) T(1) U(1) P(1) by auto
  moreover have "map ti_tunnel_id (core_infos c) = H @ T @ U @ P"
    by (simp add: core_infos_def H_def T_def U_def P_def comp_def)
  ultimately show ?thesis by simp
qed

definition seen :: "tunnel_core \<Rightarrow> auth_scope \<Rightarrow> uuid set" where
  "seen c scope = {t. \<exists>sid k. abs_core c t = Some (sid, k) \<and> scope_sees_session c scope sid}"

lemma abs_core_info:
  assumes "core_inv TR UR c"
  shows "(\<exists>k. abs_core c t = Some (sid, k)) \<longleftrightarrow> (\<exists>i \<in> set (core_infos c). ti_tunnel_id i = t \<and> ti_session_id i = sid)"
proof -
  have tab: "ti_tunnel_id i = t" if "routes_ok K J R idx" "table_info R x t = Some i" for K J R idx x i
    using that by (auto simp: table_info_def bind_eq_Some_conv routes_ok_def group_ok_def)
  have p2p: "ti_tunnel_id (pp_tunnel_info p) = t"
    if "dm_get (p2p_tunnels c) n = Some p" "dm_get (tunnel_index c) t = Some (KP2p n)" for n p
    using core_tables(4)[OF assms] that unfolding p2p_ok_def by (metis option.inject)
  have "ti_tunnel_id i = t" if at: "tunnel_info_at t c = Some i" for i
    using at tab[OF core_tables(1)[OF assms]] tab[OF core_tables(2)[OF assms]] tab[OF core_tables(3)[OF assms]] p2p
    by (auto simp: tunnel_info_at_table split: option.splits tunnel_key.splits)
  moreover have "(\<exists>k. abs_core c t = Some (sid, k)) \<longleftrightarrow> (\<exists>i. tunnel_info_at t c = Some i \<and> ti_session_id i = sid)"
    using tunnel_info_at_None[of c t] by (auto simp: abs_core_def split: option.splits)
  ultimately show ?thesis using core_infos_at[OF assms] by blast
qed

lemma filter_map_fst: "map fst (filter (\<lambda>r. Q (fst r)) xs) = filter Q (map fst xs)"
  by (induction xs) auto

definition example_dash_env :: dash_env where
  "example_dash_env = \<lparr>de_env = example_env\<lparr>ev_uuid := (\<lambda>u. dec_string (unat u))\<rparr>,
     de_parse_uuid = (\<lambda>s. if s = ''11'' then Some 11 else None),
     de_parse_ip = (\<lambda>_. None), de_parse_u16 = (\<lambda>_. None), de_iso = (\<lambda>_. [])\<rparr>"

text \<open>A server with one HTTP tunnel of a session that is authenticated with a token of user 5.\<close>

definition example_tunnel_world :: world where
  "example_tunnel_world = fst (handle_frame example_env example_cfg example_ctx 1 (0, 11, 0, 0)
     (RegisterTunnel ''r1'' Http (Some ''app'') ''localhost:80'' None None (Some ''pool'') (Some ''key'') None None)
     ((example_world True)\<lparr>w_core := fst (register_session 0 7 (IpV4 1, 9) ''tok'' (Some ''1'') (Some 5) 3
        (w_core (example_world True)))\<rparr>))"

definition example_dash :: dash where
  "example_dash = \<lparr>ds_world = example_tunnel_world, ds_capture = [], ds_stored = [], ds_local_up = True\<rparr>"

definition example_headers :: "string \<Rightarrow> header_map" where
  "example_headers tok = [(''authorization'', ''Bearer '' @ tok)]"

lemmas example_dash_defs = example_dash_def example_dash_env_def example_tunnel_world_def example_ctx_def
  example_headers_def example_defs tunnel_core_new_def

lemma example_dash_inv: "core_inv (set (port_range 100 101)) {} (ds_core example_dash)"
proof -
  define c where "c = fst (register_session 0 7 (IpV4 1, 9) ''tok'' (Some ''1'') (Some 5) 3 (w_core (example_world True)))"
  define w where "w = (example_world True)\<lparr>w_core := c\<rparr>"
  have "core_kept (set (port_range 100 101)) {} (w_core (example_world True)) c"
    unfolding c_def using register_session_kept[of "w_core (example_world True)" 7]
    by (simp add: example_world_def tunnel_core_new_def)
  then have i: "core_inv (set (port_range 100 101)) {} (w_core w)" using example_world_inv by (simp add: core_kept_def w_def)
  have f: "fresh_tunnel_id 11 (w_core w)"
    by (simp add: fresh_tunnel_id_def w_def c_def register_session_def example_world_def tunnel_core_new_def session_info_new_def)
  show ?thesis
    unfolding example_dash_def example_tunnel_world_def c_def[symmetric] w_def[symmetric]
    using handle_frame_effect[OF i f prod.collapse[symmetric]] by simp
qed

text \<open>The listing of the tunnels is exact: it has one row for each live tunnel whose owning session the caller may see,
  and no other: for the administrator every tunnel, for a user the tunnels of the sessions of that user, for a token
  without a user those of the sessions opened with it.\<close>

theorem dashboard_listing_exact:
  assumes inv: "core_inv TR UR (ds_core s)" and list: "list_tunnels de cfg scope s = TunnelsJson rows"
  shows "\<exists>ids. map ts_tunnel_id rows = map (ev_uuid (de_env de)) ids \<and> distinct ids \<and>
    set ids = {t. \<exists>sid k. abs_core (ds_core s) t = Some (sid, k) \<and> scope_sees_session (ds_core s) scope sid}"
proof -
  define Q where "Q = (\<lambda>i :: tunnel_info. scope_sees_session (ds_core s) scope (ti_session_id i))"
  define ids where "ids = map ti_tunnel_id (filter Q (core_infos (ds_core s)))"
  have r: "rows = map snd (filter (\<lambda>r. Q (fst r)) (tunnel_rows de cfg (ds_core s)))"
    using list by (simp add: list_tunnels_def Q_def case_prod_unfold)
  have "map ts_tunnel_id rows = map (\<lambda>r. ev_uuid (de_env de) (ti_tunnel_id (fst r)))
      (filter (\<lambda>r. Q (fst r)) (tunnel_rows de cfg (ds_core s)))"
    unfolding r using tunnel_rows_id[of _ de cfg "ds_core s"] by simp
  also have "\<dots> = map (ev_uuid (de_env de)) ids"
    unfolding ids_def tunnel_rows_infos[of de cfg, symmetric] filter_map_fst[symmetric] by simp
  finally have "map ts_tunnel_id rows = map (ev_uuid (de_env de)) ids" .
  moreover have "distinct ids" using core_infos_distinct[OF inv] by (simp add: ids_def distinct_map_filter)
  moreover have "set ids = {t. \<exists>sid k. abs_core (ds_core s) t = Some (sid, k) \<and> scope_sees_session (ds_core s) scope sid}"
    using abs_core_info[OF inv] by (auto simp: ids_def Q_def)
  ultimately show ?thesis by blast
qed

theorem dashboard_listing_exact_witness:
  "\<exists>rows ids. list_tunnels example_dash_env example_cfg (ScopeUser 5) example_dash = TunnelsJson rows \<and>
     map ts_tunnel_id rows = [''11''] \<and> map ts_tunnel_id rows = map (ev_uuid (de_env example_dash_env)) ids \<and> distinct ids"
proof -
  obtain rows where l: "list_tunnels example_dash_env example_cfg (ScopeUser 5) example_dash = TunnelsJson rows"
    by (simp add: list_tunnels_def)
  have "(case list_tunnels example_dash_env example_cfg (ScopeUser 5) example_dash of TunnelsJson r \<Rightarrow> map ts_tunnel_id r | _ \<Rightarrow> []) =
      [''11'']"
    unfolding example_dash_defs by code_simp
  then have "map ts_tunnel_id rows = [''11'']" by (simp add: l)
  then show ?thesis using dashboard_listing_exact[OF example_dash_inv l] l by metis
qed

section \<open>Owners\<close>

lemma first_member_listed: "first_member R t = Some m \<Longrightarrow> \<exists>k g. (k, g) \<in> set R \<and> dm_get (tg_members g) t = Some m"
  by (induction R t rule: first_member.induct) (auto split: option.splits)

lemma first_member_None: "first_member R t = None \<longleftrightarrow> (\<forall>(k, g) \<in> set R. dm_get (tg_members g) t = None)"
  by (induction R t rule: first_member.induct) (auto split: option.splits)

lemma first_member_ok:
  assumes ok: "routes_ok K J R idx"
  shows "first_member R t = Some m \<Longrightarrow> m \<in> set (table_members R) \<and> ti_tunnel_id (gm_info m) = t"
    and "first_member R t = None \<Longrightarrow> m \<in> set (table_members R) \<Longrightarrow> ti_tunnel_id (gm_info m) \<noteq> t"
proof -
  have g: "group_ok g" if "(k, g) \<in> set R" for k g using ok that by (simp add: routes_ok_def dm_wf_def)
  show "m \<in> set (table_members R) \<and> ti_tunnel_id (gm_info m) = t" if a: "first_member R t = Some m"
  proof -
    obtain k gr where k: "(k, gr) \<in> set R" "dm_get (tg_members gr) t = Some m" using first_member_listed[OF a] by blast
    then have "ti_tunnel_id (gm_info m) = t" using g[OF k(1)] by (simp add: group_ok_def)
    moreover have "m \<in> snd ` set (tg_members gr)" using k(2) by (metis image_eqI map_of_SomeD snd_conv)
    ultimately show ?thesis using k(1) by (force simp: table_members_def)
  qed
  show "ti_tunnel_id (gm_info m) \<noteq> t" if a: "first_member R t = None" "m \<in> set (table_members R)"
  proof -
    obtain k gr where k: "(k, gr) \<in> set R" "m \<in> snd ` set (tg_members gr)" using a(2) by (force simp: table_members_def)
    then have "dm_get (tg_members gr) (ti_tunnel_id (gm_info m)) = Some m" using group_member_ids(2)[OF g] by blast
    then show ?thesis using a(1) k(1) by (auto simp: first_member_None)
  qed
qed

lemma find_member_infos:
  assumes inv: "core_inv TR UR c"
  shows "find_member c t = Some m \<Longrightarrow> gm_info m \<in> set (core_infos c) \<and> ti_tunnel_id (gm_info m) = t"
    and "find_member c t = None \<Longrightarrow> i \<in> set (core_infos c) \<Longrightarrow> ti_tunnel_id i = t \<Longrightarrow> i \<in> (pp_tunnel_info \<circ> snd) ` set (p2p_tunnels c)"
proof -
  note tb = core_tables[OF inv]
  show "gm_info m \<in> set (core_infos c) \<and> ti_tunnel_id (gm_info m) = t" if "find_member c t = Some m"
    using that first_member_ok(1)[OF tb(1)] first_member_ok(1)[OF tb(2)] first_member_ok(1)[OF tb(3)]
    by (auto simp: find_member_def core_infos_def split: option.splits)
  show "i \<in> (pp_tunnel_info \<circ> snd) ` set (p2p_tunnels c)"
    if "find_member c t = None" "i \<in> set (core_infos c)" "ti_tunnel_id i = t"
  proof -
    have n: "first_member (http_routes c) t = None" "first_member (tcp_routes c) t = None" "first_member (udp_routes c) t = None"
      using that(1) by (simp_all add: find_member_def split: option.splits)
    have "i \<notin> gm_info ` set (table_members (http_routes c))" "i \<notin> gm_info ` set (table_members (tcp_routes c))"
      "i \<notin> gm_info ` set (table_members (udp_routes c))"
      using first_member_ok(2)[OF tb(1) n(1)] first_member_ok(2)[OF tb(2) n(2)] first_member_ok(2)[OF tb(3) n(3)] that(3) by blast+
    then show ?thesis using that(2) by (simp add: core_infos_def)
  qed
qed

lemma owning_session:
  assumes inv: "core_inv TR UR c"
  shows "find_tunnel_owning_session c t = owner c t"
proof -
  have key: "owner c t = Some sid \<longleftrightarrow> (\<exists>i \<in> set (core_infos c). ti_tunnel_id i = t \<and> ti_session_id i = sid)" for sid
    using abs_core_info[OF inv, of t sid] by (auto simp: owner_abs)
  show ?thesis
  proof (cases "find_member c t")
    case (Some m)
    then have "owner c t = Some (ti_session_id (gm_info m))" using find_member_infos(1)[OF inv Some] key by blast
    then show ?thesis using Some by (simp add: find_tunnel_owning_session_def)
  next
    case None
    show ?thesis
    proof (cases "find (\<lambda>(_, p). ti_tunnel_id (pp_tunnel_info p) = t) (p2p_tunnels c)")
      case (Some x)
      then have "x \<in> set (p2p_tunnels c)" "ti_tunnel_id (pp_tunnel_info (snd x)) = t"
        by (auto simp: find_Some_iff in_set_conv_nth)
      then have "pp_tunnel_info (snd x) \<in> set (core_infos c)" by (simp add: core_infos_def)
      then have "owner c t = Some (ti_session_id (pp_tunnel_info (snd x)))"
        using key \<open>ti_tunnel_id (pp_tunnel_info (snd x)) = t\<close> by blast
      then show ?thesis using None Some by (simp add: find_tunnel_owning_session_def split_beta)
    next
      case n: None
      have "owner c t \<noteq> Some sid" for sid
        using n find_member_infos(2)[OF inv None] unfolding key by (force simp: find_None_iff split_beta)
      then show ?thesis using None n by (simp add: find_tunnel_owning_session_def) (metis option.exhaust)
    qed
  qed
qed

lemma require_auth_core: "require_auth de cfg now headers s = (s', r) \<Longrightarrow> ds_core s' = ds_core s"
  by (auto simp: require_auth_def verify_token_def Let_def split: if_splits option.splits prod.splits sum.splits)

text \<open>C27. Closing a tunnel over the API: the administrator closes any, anyone else exactly the tunnels the listing shows
  to them.  In the other cases the router is not touched and the answer is the one for a tunnel that does
  not exist, so it does not give away whether there is one.\<close>

theorem force_close_scoped:
  assumes inv: "core_inv TR UR (ds_core s)" and parse: "de_parse_uuid de tid = Some t"
    and auth: "require_auth de cfg now headers s = (s1, Inr scope)"
    and step: "api_handle de cfg now ids headers (DeleteTunnel tid) s = (s', resp)"
  shows "if scope = ScopeAdmin \<or> (\<exists>sid. owner (ds_core s) t = Some sid \<and> scope_sees_session (ds_core s) scope sid)
    then resp = NoContent \<and> core_inv TR UR (ds_core s') \<and> abs_core (ds_core s') = (abs_core (ds_core s))(t := None)
    else resp = ApiError 404 ''tunnel not found'' \<and> ds_core s' = ds_core s"
proof -
  have c: "ds_core s1 = ds_core s" using require_auth_core[OF auth] .
  have vis: "tunnel_visible (ds_core s) scope t \<longleftrightarrow> (\<exists>sid. owner (ds_core s) t = Some sid \<and> scope_sees_session (ds_core s) scope sid)"
    by (auto simp: tunnel_visible_def owning_session[OF inv] split: option.split)
  have step': "force_close_tunnel de scope tid s1 = (s', resp)" using step auth by (simp add: api_handle_def)
  have rm: "core_inv TR UR (remove_tunnel t (ds_core s))" "abs_core (remove_tunnel t (ds_core s)) = (abs_core (ds_core s))(t := None)"
    using remove_tunnel_core_inv[OF inv] remove_tunnel_inv(2)[OF core_tables(5)[OF inv]] by auto
  have "resp = NoContent \<and> ds_core s' = remove_tunnel t (ds_core s)" if "scope = ScopeAdmin \<or> tunnel_visible (ds_core s) scope t"
    using step' that by (auto simp: force_close_tunnel_def parse Let_def c split: if_splits)
  moreover have "resp = ApiError 404 ''tunnel not found'' \<and> ds_core s' = ds_core s"
    if "\<not> (scope = ScopeAdmin \<or> tunnel_visible (ds_core s) scope t)"
    using step' that c by (simp add: force_close_tunnel_def parse Let_def not_found_def)
  ultimately show ?thesis using rm unfolding vis[symmetric] by simp
qed

theorem force_close_scoped_witness:
  "abs_core (ds_core (fst (api_handle example_dash_env example_cfg 3 (0, 0) (example_headers ''admin'') (DeleteTunnel ''11'') example_dash))) =
     (abs_core (ds_core example_dash))(11 := None)"
proof -
  have p: "de_parse_uuid example_dash_env ''11'' = Some 11" by (simp add: example_dash_env_def)
  have "require_auth example_dash_env example_cfg 3 (example_headers ''admin'') example_dash = (example_dash, Inr ScopeAdmin)"
    by (simp add: require_auth_def bearer_def example_headers_def hm_get_def value_to_str_def strip_prefix_def starts_with_def
        secret_eq_def example_cfg_def Let_def)
  from force_close_scoped[OF example_dash_inv p this prod.collapse[symmetric]] show ?thesis by simp
qed

section \<open>Groups\<close>

text \<open>The tables with only the members a caller may see.\<close>

definition visible_part :: "tunnel_core \<Rightarrow> auth_scope \<Rightarrow> ('k, tunnel_group) dashmap \<Rightarrow> ('k, tunnel_group) dashmap" where
  "visible_part c scope R = map (\<lambda>(k, g). (k, g\<lparr>tg_members := filter (\<lambda>(_, m). scope_sees_session c scope (ti_session_id (gm_info m)))
     (tg_members g)\<rparr>)) R"

definition restrict_dash :: "auth_scope \<Rightarrow> dash \<Rightarrow> dash" where
  "restrict_dash scope s = s\<lparr>ds_world := (ds_world s)\<lparr>w_core := (ds_core s)
     \<lparr>http_routes := visible_part (ds_core s) scope (http_routes (ds_core s)),
      tcp_routes := visible_part (ds_core s) scope (tcp_routes (ds_core s))\<rparr>\<rparr>\<rparr>"

lemma group_to_summary_restrict:
  assumes "sessions c' = sessions c"
  shows "group_to_summary de prot label g c region scope =
    group_to_summary de prot label (g\<lparr>tg_members := filter (\<lambda>(_, m). scope_sees_session c scope (ti_session_id (gm_info m)))
      (tg_members g)\<rparr>) c' region ScopeAdmin"
proof -
  have "map snd (filter (\<lambda>(_, m). scope_sees_session c scope (ti_session_id (gm_info m))) xs) =
      filter (\<lambda>m. scope_sees_session c scope (ti_session_id (gm_info m))) (map snd xs)" for xs :: "(uuid \<times> group_member) list"
    by (induction xs) auto
  moreover have "group_member_row de c' = group_member_row de c"
    using assms by (simp add: fun_eq_iff group_member_row_def client_addr_of_def)
  moreover have "scope_sees_session c' ScopeAdmin x" for x by (simp add: scope_sees_session_def)
  ultimately show ?thesis by (simp add: group_to_summary_def Let_def)
qed

lemma map_filter_map: "List.map_filter f (map h xs) = List.map_filter (f \<circ> h) xs"
  by (induction xs) (auto simp: List.map_filter_simps split: option.split)

lemma group_summaries_restrict:
  assumes "sessions c' = sessions c"
  shows "group_summaries de cfg scope c prot label R = group_summaries de cfg ScopeAdmin c' prot label (visible_part c scope R)"
  unfolding group_summaries_def visible_part_def map_filter_map
  by (rule arg_cong[where f = "\<lambda>f. List.map_filter f R"]) (simp add: fun_eq_iff group_to_summary_restrict[OF assms, of de _ _ _ _ scope])

text \<open>C28. The summary of the load-balancing groups depends on nothing but the members the caller may see: it is what the
  administrator would be shown if the others did not exist, with all counters taken over the visible members
  and groups without a visible member left out.\<close>

theorem groups_noninterference:
  "list_groups de cfg scope s = list_groups de cfg ScopeAdmin (restrict_dash scope s)"
proof -
  define c' where "c' = ds_core (restrict_dash scope s)"
  have "sessions c' = sessions (ds_core s)" "http_routes c' = visible_part (ds_core s) scope (http_routes (ds_core s))"
    "tcp_routes c' = visible_part (ds_core s) scope (tcp_routes (ds_core s))" by (simp_all add: c'_def restrict_dash_def)
  then show ?thesis unfolding list_groups_def Let_def c'_def[symmetric] by (simp add: group_summaries_restrict[of c' "ds_core s"])
qed

text \<open>The listing of tunnels is not that strict: the row of a pool member carries the size of the whole pool.  Here the
  pool has a member of user 5 and one of user 6, and what user 5 is shown depends on the member of user 6.\<close>

definition example_shared_dash :: dash where
  "example_shared_dash =
     (let w1 = example_tunnel_world;
          w2 = w1\<lparr>w_core := fst (register_session 2 8 (IpV4 2, 9) ''tok2'' (Some ''2'') (Some 6) 4 (w_core w1))\<rparr>;
          w3 = fst (handle_frame example_env example_cfg \<lparr>sc_session_id = 8, sc_db_token = Some example_token\<rparr> 2 (0, 12, 0, 0)
            (RegisterTunnel ''r2'' Http (Some ''app'') ''localhost:81'' None None (Some ''pool'') (Some ''key'') None None) w2)
      in \<lparr>ds_world = w3, ds_capture = [], ds_stored = [], ds_local_up = True\<rparr>)"

theorem listing_shows_pool_size:
  "list_tunnels example_dash_env example_cfg (ScopeUser 5) example_shared_dash \<noteq>
   list_tunnels example_dash_env example_cfg (ScopeUser 5) (restrict_dash (ScopeUser 5) example_shared_dash)"
  unfolding example_shared_dash_def example_dash_defs by code_simp

section \<open>Authentication\<close>

definition presented :: "header_map \<Rightarrow> string" where
  "presented headers = (case bearer headers of Some t \<Rightarrow> t | None \<Rightarrow> [])"

definition token_known :: "dash_env \<Rightarrow> server_config \<Rightarrow> header_map \<Rightarrow> dash \<Rightarrow> bool" where
  "token_known de cfg headers s \<longleftrightarrow> presented headers \<noteq> [] \<and>
     (secret_eq (ev_hash (de_env de)) (presented headers) (cf_admin_token cfg) \<or>
      w_db_up (ds_world s) \<and> (\<exists>t \<in> set (w_tokens (ds_world s)). tk_token_hash t = ev_hash (de_env de) (presented headers)))"

definition authorised :: "dash_env \<Rightarrow> server_config \<Rightarrow> header_map \<Rightarrow> api_request \<Rightarrow> dash \<Rightarrow> bool" where
  "authorised de cfg headers req s = (case req of
       GetStatus \<Rightarrow> True
     | PatchToken _ _ \<Rightarrow> secret_eq (ev_hash (de_env de)) (presented headers) (cf_admin_token cfg)
     | _ \<Rightarrow> token_known de cfg headers s)"

definition with_limiter :: "auth_failure_limiter \<Rightarrow> dash \<Rightarrow> dash" where
  "with_limiter l s = s\<lparr>ds_world := (ds_world s)\<lparr>w_core := (ds_core s)\<lparr>core_auth_limiter := l\<rparr>\<rparr>\<rparr>"

lemma require_auth_known:
  "if token_known de cfg headers s then \<exists>s' scope. require_auth de cfg now headers s = (s', Inr scope)
   else \<exists>msg. require_auth de cfg now headers s = (s, Inl (ApiError 401 msg))"
proof (cases "presented headers = [] \<or> secret_eq (ev_hash (de_env de)) (presented headers) (cf_admin_token cfg)")
  case True
  then show ?thesis
    by (auto simp: token_known_def require_auth_def Let_def presented_def[symmetric] unauthorized_def)
next
  case False
  define p where "p = presented headers"
  have k: "token_known de cfg headers s \<longleftrightarrow> w_db_up (ds_world s) \<and> (\<exists>t \<in> set (w_tokens (ds_world s)). tk_token_hash t = ev_hash (de_env de) p)"
    using False by (simp add: token_known_def p_def)
  have r: "require_auth de cfg now headers s = (case verify_token (de_env de) now p (ds_world s) of
        (w, Inr (Some t)) \<Rightarrow> (s\<lparr>ds_world := w\<rparr>, Inr (case tk_user_id t of Some uid \<Rightarrow> ScopeUser uid | None \<Rightarrow> ScopeToken (tk_id t)))
      | (w, Inr None) \<Rightarrow> (s\<lparr>ds_world := w\<rparr>, Inl (unauthorized ''invalid token''))
      | (w, Inl _) \<Rightarrow> (s\<lparr>ds_world := w\<rparr>, Inl (unauthorized ''invalid token'')))"
    using False unfolding require_auth_def Let_def presented_def[symmetric] p_def by simp
  show ?thesis
  proof (cases "w_db_up (ds_world s)")
    case True
    show ?thesis
    proof (cases "find (\<lambda>t. tk_token_hash t = ev_hash (de_env de) p) (w_tokens (ds_world s))")
      case None
      then have "\<not> token_known de cfg headers s" using True k by (auto simp: find_None_iff)
      then show ?thesis using True None by (simp add: r verify_token_def unauthorized_def)
    next
      case (Some t)
      then have "t \<in> set (w_tokens (ds_world s)) \<and> tk_token_hash t = ev_hash (de_env de) p"
        by (auto simp: find_Some_iff in_set_conv_nth)
      then have "token_known de cfg headers s" using True k by blast
      then show ?thesis using True Some by (simp add: r verify_token_def)
    qed
  qed (simp add: r k verify_token_def unauthorized_def)
qed

lemma handlers_not_401 [simp]:
  "response_status (list_tunnels de cfg scope s) \<noteq> 401" "response_status (get_tunnel de cfg scope tid s) \<noteq> 401"
  "response_status (snd (force_close_tunnel de scope tid s)) \<noteq> 401" "response_status (tunnel_health_events de scope tid s) \<noteq> 401"
  "response_status (list_groups de cfg scope s) \<noteq> 401" "response_status (group_events_sse de scope prot label s) \<noteq> 401"
  "response_status (tunnel_requests de scope tid limit s) \<noteq> 401" "response_status (replay_request de scope tid rid s) \<noteq> 401"
  "response_status (list_tokens de s) \<noteq> 401" "response_status (status_handler s) \<noteq> 401"
  "response_status (snd (create_token_handler de cfg now a b headers label sc s)) \<noteq> 401"
  "response_status (snd (delete_token_handler de cfg headers tid s)) \<noteq> 401"
  by (auto simp: list_tunnels_def get_tunnel_def force_close_tunnel_def tunnel_health_events_def list_groups_def
      group_events_sse_def tunnel_requests_def replay_request_def list_tokens_def status_handler_def create_token_handler_def
      delete_token_handler_def server_error_response_def not_found_def Let_def
      split: option.split sum.split prod.split if_split bool.split)

lemma api_handle_auth:
  "if authorised de cfg headers req s then response_status (snd (api_handle de cfg now ids headers req s)) \<noteq> 401
   else fst (api_handle de cfg now ids headers req s) = s \<and> response_status (snd (api_handle de cfg now ids headers req s)) = 401"
proof (cases "\<exists>tid u. req = PatchToken tid u")
  case True
  then show ?thesis
    by (auto simp: authorised_def api_handle_def admin_patch_token_def require_admin_def Let_def presented_def[symmetric]
        unauthorized_def not_found_def server_error_response_def split: prod.splits sum.splits bool.splits)
next
  case other: False
  show ?thesis
  proof (cases "token_known de cfg headers s")
    case True
    then obtain s' scope where "require_auth de cfg now headers s = (s', Inr scope)"
      using require_auth_known[of de cfg headers s now] by auto
    then show ?thesis using other True by (cases req) (simp_all add: authorised_def api_handle_def)
  next
    case False
    then obtain msg where "require_auth de cfg now headers s = (s, Inl (ApiError 401 msg))"
      using require_auth_known[of de cfg headers s now] by auto
    then show ?thesis using other False by (cases req) (simp_all add: authorised_def api_handle_def)
  qed
qed

lemma authorised_limiter [simp]: "authorised de cfg headers req (with_limiter l s) = authorised de cfg headers req s"
  by (simp add: authorised_def token_known_def with_limiter_def split: api_request.split)



end
