(* ===== verification/Stun.thy ===== *)
theory Stun
  imports Datagrams
begin

text \<open>
  The STUN client of the NAT probe (\<open>stun.rs\<close>): the binding request, the reading of a binding response out of the
  512-byte receive buffer, and the classification of the NAT from the answers of two servers.  An index or a slice
  outside its array is the outcome \<open>Panic\<close>; the sockets deliver datagrams, given as inputs.
\<close>

unbundle bit_operations_syntax

section \<open>Data\<close>

definition MAGIC_COOKIE :: u32 where
  "MAGIC_COOKIE = 0x2112A442"

definition DEFAULT_STUN_SERVERS :: "string list" where
  "DEFAULT_STUN_SERVERS = [''stun.l.google.com:19302'', ''stun1.l.google.com:19302'']"

datatype nat_type = NatOpen | NatCone | NatSymmetric | NatUnknown

fun nat_type_str :: "nat_type \<Rightarrow> string" where
  "nat_type_str NatOpen = ''open''"
| "nat_type_str NatCone = ''cone''"
| "nat_type_str NatSymmetric = ''symmetric''"
| "nat_type_str NatUnknown = ''unknown''"

record stun_result =
  sr_nat_type :: nat_type
  sr_mapped_addrs :: "socket_addr list"
  sr_local_addrs :: "socket_addr list"

datatype 'a outcome = Panic | Return 'a

text \<open>\<open>u16::from_be_bytes\<close> and the two slicings; \<open>None\<close> is an access out of bounds.\<close>

definition u16_be :: "u8 \<Rightarrow> u8 \<Rightarrow> u16" where
  "u16_be hi lo = push_bit 8 (ucast hi) OR ucast lo"

definition u16_at :: "u8 list \<Rightarrow> nat \<Rightarrow> u16 option" where
  "u16_at buf i = (if i + 1 < length buf then Some (u16_be (buf ! i) (buf ! (i + 1))) else None)"

definition slice_of :: "u8 list \<Rightarrow> nat \<Rightarrow> nat \<Rightarrow> u8 list option" where
  "slice_of buf start len = (if start + len \<le> length buf then Some (take len (drop start buf)) else None)"

section \<open>The mapped address\<close>

text \<open>\<open>Ipv6Addr::from\<close> of 16 bytes, most significant first.\<close>

definition ipv6_from_bytes :: "u8 list \<Rightarrow> uuid" where
  "ipv6_from_bytes bs = fold (\<lambda>b w. push_bit 8 w OR ucast b) bs 0"

definition parse_xor_mapped_address :: "u8 list \<Rightarrow> u8 list \<Rightarrow> socket_addr option" where
  "parse_xor_mapped_address data tx_id =
     (if length data < 8 then None
      else let family = data ! 1;
               xored_port = u16_be (data ! 2) (data ! 3);
               port = xored_port XOR ucast (drop_bit 16 MAGIC_COOKIE)
           in if family = 1
              then Some (IpV4 (from_be_bytes (take 4 (drop 4 data)) XOR MAGIC_COOKIE), port)
              else if family = 2
              then if length data < 20 then None
                   else Some (IpV6 (ipv6_from_bytes
                          (map2 (XOR) (take 16 (drop 4 data)) (to_be_bytes MAGIC_COOKIE @ tx_id))), port)
              else None)"

section \<open>Request and response\<close>

definition binding_request :: "u8 list \<Rightarrow> u8 list" where
  "binding_request tx_id = [0, 1, 0, 0] @ to_be_bytes MAGIC_COOKIE @ tx_id"

text \<open>The attribute loop: \<open>(attr_len + 3) & !3\<close> rounds up to a multiple of four.\<close>

definition pad4 :: "nat \<Rightarrow> nat" where
  "pad4 n = (n + 3) div 4 * 4"

function attr_loop :: "u8 list \<Rightarrow> u8 list \<Rightarrow> nat \<Rightarrow> nat \<Rightarrow> socket_addr option outcome" where
  "attr_loop buf tx_id attr_end pos =
     (if pos + 4 \<le> attr_end
      then (case (u16_at buf pos, u16_at buf (pos + 2)) of
              (Some attr_type, Some attr_len) \<Rightarrow>
                let attr_start = pos + 4
                in if attr_type = 0x0020
                   then (case slice_of buf attr_start (unat attr_len) of
                           None \<Rightarrow> Panic
                         | Some data \<Rightarrow> Return (parse_xor_mapped_address data tx_id))
                   else attr_loop buf tx_id attr_end (attr_start + pad4 (unat attr_len))
            | _ \<Rightarrow> Panic)
      else Return None)"
  by pat_completeness auto
termination by (relation "measure (\<lambda>(buf, tx_id, attr_end, pos). attr_end - pos)") auto

declare attr_loop.simps [simp del]

text \<open>The receive buffer has 512 bytes: a datagram fills its front, the rest stays zero, and what does not fit is cut.\<close>

definition receive_buffer :: "u8 list \<Rightarrow> u8 list \<times> nat" where
  "receive_buffer dgram = (let got = take 512 dgram in (got @ replicate (512 - length got) 0, length got))"

definition read_binding_response :: "u8 list \<Rightarrow> u8 list \<Rightarrow> socket_addr option outcome" where
  "read_binding_response tx_id dgram =
     (let (buf, n) = receive_buffer dgram
      in if n < 20 then Return None
         else if u16_be (buf ! 0) (buf ! 1) \<noteq> 0x0101 then Return None
         else if from_be_bytes (take 4 (drop 4 buf)) \<noteq> MAGIC_COOKIE then Return None
         else if take 12 (drop 8 buf) \<noteq> tx_id then Return None
         else attr_loop buf tx_id (min (20 + unat (u16_be (buf ! 2) (buf ! 3))) n) 20)"

text \<open>One request: whether it could be sent, and the datagram that arrived within the three seconds, if any.\<close>

definition stun_binding_request :: "u8 list \<Rightarrow> bool \<Rightarrow> u8 list option \<Rightarrow> socket_addr option outcome" where
  "stun_binding_request tx_id sent received =
     (if \<not> sent then Return None
      else case received of None \<Rightarrow> Return None | Some dgram \<Rightarrow> read_binding_response tx_id dgram)"

section \<open>Classification\<close>

definition stun_servers_used :: "string list \<Rightarrow> string \<times> string" where
  "stun_servers_used stun_servers =
     (if length stun_servers \<ge> 2 then (stun_servers ! 0, stun_servers ! 1)
      else if length stun_servers = 1 then (stun_servers ! 0, DEFAULT_STUN_SERVERS ! 1)
      else (DEFAULT_STUN_SERVERS ! 0, DEFAULT_STUN_SERVERS ! 1))"

definition classify_nat :: "socket_addr list \<Rightarrow> socket_addr option \<Rightarrow> socket_addr option \<Rightarrow> nat_type" where
  "classify_nat local_addrs mapped1 mapped2 =
     (case (mapped1, mapped2) of
        (Some a, Some b) \<Rightarrow>
          if list_ex (\<lambda>l. fst l = fst a) local_addrs then NatOpen
          else if a = b then NatCone else NatSymmetric
      | (None, None) \<Rightarrow> NatUnknown
      | _ \<Rightarrow> NatCone)"

text \<open>The probe: \<open>bound\<close> is the address of the socket when it could be bound, \<open>outbound\<close> the result of the connect
  trick of \<open>get_local_addrs\<close>, and \<open>ask\<close> one request to a server.\<close>

definition probe_nat ::
  "(string \<Rightarrow> socket_addr option outcome) \<Rightarrow> socket_addr option \<Rightarrow> socket_addr option \<Rightarrow> string list \<Rightarrow> stun_result outcome" where
  "probe_nat ask bound outbound stun_servers =
     (case bound of
        None \<Rightarrow> Return \<lparr>sr_nat_type = NatUnknown, sr_mapped_addrs = [], sr_local_addrs = []\<rparr>
      | Some local_addr \<Rightarrow>
          let (s1, s2) = stun_servers_used stun_servers
          in case ask s1 of
               Panic \<Rightarrow> Panic
             | Return mapped1 \<Rightarrow>
                 (case ask s2 of
                    Panic \<Rightarrow> Panic
                  | Return mapped2 \<Rightarrow>
                      let first = (case mapped1 of None \<Rightarrow> [] | Some a \<Rightarrow> [a]);
                          mapped_addrs = (case mapped2 of None \<Rightarrow> first
                            | Some a \<Rightarrow> if a \<in> set first then first else first @ [a]);
                          local_addrs = (case outbound of Some a \<Rightarrow> [a] | None \<Rightarrow> [local_addr])
                      in Return \<lparr>sr_nat_type = classify_nat local_addrs mapped1 mapped2,
                                 sr_mapped_addrs = mapped_addrs, sr_local_addrs = local_addrs\<rparr>))"

end
