(* ===== verification/Bytes.thy ===== *)
theory Bytes
  imports Prelude
begin

text \<open>
  Words as their bytes, most significant first, as \<open>to_be_bytes\<close>, \<open>Uuid::as_bytes\<close> and the address types of the
  standard library give them.
\<close>

unbundle bit_operations_syntax

section \<open>Big-endian bytes\<close>

fun be_bytes :: "nat \<Rightarrow> 'a::len word \<Rightarrow> u8 list" where
  "be_bytes 0 w = []"
| "be_bytes (Suc n) w = be_bytes n (drop_bit 8 w) @ [ucast w]"

lemma length_be_bytes [simp]: "length (be_bytes n w) = n"
  by (induction n w rule: be_bytes.induct) auto

lemma fold_be_bytes:
  "fold (\<lambda>b w. push_bit 8 w OR ucast b) (be_bytes n w) 0 = (take_bit (8 * n) w :: 'a::len word)"
proof (induction n w rule: be_bytes.induct)
  case (2 n w)
  have "push_bit 8 (take_bit (8 * n) (drop_bit 8 w)) OR ucast (ucast w :: u8) = take_bit (8 * Suc n) w"
    by (rule bit_word_eqI) (auto simp: bit_simps not_less less_diff_conv)
  then show ?case using 2 by simp
qed simp

lemma fold_be_bytes_all:
  "LENGTH('a) = 8 * n \<Longrightarrow> fold (\<lambda>b w. push_bit 8 w OR ucast b) (be_bytes n w) 0 = (w :: 'a::len word)"
  by (simp add: fold_be_bytes take_bit_word_eq_self)

end
