(* ===== verification/StunProps.thy ===== *)
theory StunProps
  imports Stun Bytes
begin

text \<open>
  The STUN client against the wire format of RFC 5389, written as an encoder: whatever attributes a server puts before
  and after it, the client reads back the mapped address; answers to other transactions are ignored; and the only way
  to an abnormal end is an attribute that claims to reach beyond the receive buffer.
\<close>

unbundle bit_operations_syntax

section \<open>Addresses as bytes\<close>

lemma ipv6_bytes: "ipv6_from_bytes (be_bytes 16 a) = a"
  unfolding ipv6_from_bytes_def by (rule fold_be_bytes_all) simp

lemma u16_bytes: "u16_be (ucast (drop_bit 8 p)) (ucast p) = p"
proof (rule bit_word_eqI)
  fix n assume n: "n < LENGTH(16)"
  show "bit (u16_be (ucast (drop_bit 8 p)) (ucast p)) n \<longleftrightarrow> bit p n"
    using n by (cases "n < 8") (auto simp: u16_be_def bit_simps)
qed

lemma masked_port:
  "u16_be (ucast (drop_bit 8 (p XOR m))) (ucast (p XOR m)) XOR m = p"
  unfolding u16_bytes by (simp add: xor.assoc)

lemma map2_xor_cancel:
  "length xs = length ys \<Longrightarrow> map2 (XOR) (map2 (XOR) xs ys) ys = (xs :: u8 list)"
  by (induction xs ys rule: list_induct2) (auto simp: xor.assoc)

section \<open>The wire format\<close>

definition be16 :: "u16 \<Rightarrow> u8 list" where
  "be16 w = [ucast (drop_bit 8 w), ucast w]"

text \<open>The value of XOR-MAPPED-ADDRESS; the first byte is reserved and may be anything.\<close>

definition xor_mapped_value :: "u8 \<Rightarrow> u8 list \<Rightarrow> socket_addr \<Rightarrow> u8 list" where
  "xor_mapped_value reserved tx_id a =
     (let port = be16 (snd a XOR ucast (drop_bit 16 MAGIC_COOKIE))
      in case fst a of
           IpV4 ip \<Rightarrow> reserved # 1 # port @ to_be_bytes (ip XOR MAGIC_COOKIE)
         | IpV6 ip \<Rightarrow> reserved # 2 # port @ map2 (XOR) (be_bytes 16 ip) (to_be_bytes MAGIC_COOKIE @ tx_id))"

text \<open>An attribute is its type, its length, its value, and bytes up to the next multiple of four.\<close>

type_synonym attr = "u16 \<times> u8 list \<times> u8 list"

definition attr_ok :: "attr \<Rightarrow> bool" where
  "attr_ok att \<longleftrightarrow> (case att of (ty, val, fill) \<Rightarrow> length val < 2 ^ 16 \<and> length val + length fill = pad4 (length val))"

definition attr_bytes :: "attr \<Rightarrow> u8 list" where
  "attr_bytes att = (case att of (ty, val, fill) \<Rightarrow> be16 ty @ be16 (of_nat (length val)) @ val @ fill)"

definition binding_response :: "u8 list \<Rightarrow> attr list \<Rightarrow> u8 list" where
  "binding_response tx_id ats =
     (let body = concat (map attr_bytes ats)
      in [1, 1] @ be16 (of_nat (length body)) @ to_be_bytes MAGIC_COOKIE @ tx_id @ body)"

section \<open>Reading\<close>

lemma xor_mapped_roundtrip:
  assumes "length tx_id = 12"
  shows "parse_xor_mapped_address (xor_mapped_value r tx_id a) tx_id = Some a"
proof -
  define mask where "mask = (ucast (drop_bit 16 MAGIC_COOKIE) :: u16)"
  have port: "u16_be (ucast (drop_bit 8 (snd a XOR mask))) (ucast (snd a XOR mask)) XOR mask = snd a" by (rule masked_port)
  show ?thesis
  proof (cases "fst a")
    case (IpV4 ip)
    have "from_be_bytes (to_be_bytes (ip XOR MAGIC_COOKIE)) XOR MAGIC_COOKIE = ip"
      by (simp add: from_to_be_bytes xor.assoc)
    then show ?thesis using IpV4
      by (simp add: xor_mapped_value_def parse_xor_mapped_address_def be16_def prod_eq_iff port
          flip: mask_def del: drop_bit_xor)
  next
    case (IpV6 ip)
    have len: "length (be_bytes 16 ip) = length (to_be_bytes MAGIC_COOKIE @ tx_id)" using assms by simp
    show ?thesis using IpV6 assms
      by (simp add: xor_mapped_value_def parse_xor_mapped_address_def be16_def prod_eq_iff port
          map2_xor_cancel[OF len] ipv6_bytes flip: mask_def del: drop_bit_xor)
  qed
qed

lemma attr_length: "attr_ok (ty, val, fill) \<Longrightarrow> length (attr_bytes (ty, val, fill)) = 4 + pad4 (length val)"
  by (simp add: attr_ok_def attr_bytes_def be16_def)

lemma attr_header:
  assumes "attr_ok (ty, val, fill)" "length pre = pos"
  shows "u16_at (pre @ attr_bytes (ty, val, fill) @ post) pos = Some ty"
    "map_option unat (u16_at (pre @ attr_bytes (ty, val, fill) @ post) (pos + 2)) = Some (length val)"
  using assms by (auto simp: u16_at_def attr_bytes_def be16_def nth_append u16_bytes attr_ok_def unat_of_nat)

lemma attr_value:
  "length pre = pos \<Longrightarrow> slice_of (pre @ attr_bytes (ty, val, fill) @ post) (pos + 4) (length val) = Some val"
  by (auto simp: slice_of_def attr_bytes_def be16_def)

text \<open>The loop skips attributes of other types and stops at the first mapped address.\<close>

lemma attr_loop_reads:
  assumes "list_all attr_ok (before @ [(0x20, val, fill)])" "list_all (\<lambda>att. fst att \<noteq> 0x20) before"
    and "length pre = pos" "buf = pre @ concat (map attr_bytes (before @ [(0x20, val, fill)])) @ post"
    and "pos + length (concat (map attr_bytes (before @ [(0x20, val, fill)]))) \<le> attr_end"
  shows "attr_loop buf tx_id attr_end pos = Return (parse_xor_mapped_address val tx_id)"
  using assms
proof (induction before arbitrary: pre pos)
  case Nil
  then have ok: "attr_ok (0x20, val, fill)" and buf: "buf = pre @ attr_bytes (0x20, val, fill) @ post" by simp_all
  obtain l where "u16_at buf (pos + 2) = Some l" "unat l = length val"
    using attr_header(2)[OF ok Nil.prems(3), of post] unfolding buf by auto
  then show ?case using Nil.prems(5) attr_length[OF ok] attr_header(1)[OF ok Nil.prems(3), of post]
      attr_value[OF Nil.prems(3), of "0x20" val fill post]
    by (subst attr_loop.simps) (simp add: buf)
next
  case (Cons att before)
  obtain ty v f where at: "att = (ty, v, f)" by (cases att)
  have ok: "attr_ok (ty, v, f)" and ty: "ty \<noteq> 0x20" using Cons.prems(1,2) by (simp_all add: at)
  define rest where "rest = concat (map attr_bytes (before @ [(0x20, val, fill)])) @ post"
  have buf: "buf = pre @ attr_bytes (ty, v, f) @ rest" using Cons.prems(4) by (simp add: at rest_def)
  obtain l where l: "u16_at buf (pos + 2) = Some l" "unat l = length v"
    using attr_header(2)[OF ok Cons.prems(3), of rest] unfolding buf by auto
  have "attr_loop buf tx_id attr_end (pos + (4 + pad4 (length v))) = Return (parse_xor_mapped_address val tx_id)"
    using Cons.prems attr_length[OF ok]
    by (intro Cons.IH[where pre = "pre @ attr_bytes (ty, v, f)"]) (auto simp: at)
  then show ?case using Cons.prems(5) attr_length[OF ok] attr_header(1)[OF ok Cons.prems(3), of rest] ty l
    by (subst attr_loop.simps) (simp add: buf at add.assoc)
qed

lemma receive_fits:
  "length d \<le> 512 \<Longrightarrow> receive_buffer d = (d @ replicate (512 - length d) 0, length d)"
  by (simp add: receive_buffer_def)

text \<open>An access out of bounds happens only on an attribute of the mapped type that reaches beyond the buffer.\<close>

lemma attr_loop_panic:
  assumes "attr_loop buf tx_id attr_end pos = Panic" "attr_end \<le> length buf"
  shows "\<exists>p\<ge>pos. p + 4 \<le> attr_end \<and> u16_at buf p = Some 0x20 \<and>
    (\<exists>l. u16_at buf (p + 2) = Some l \<and> p + 4 + unat l > length buf)"
  using assms
proof (induction buf tx_id attr_end pos rule: attr_loop.induct)
  case (1 buf tx_id attr_end pos)
  have more: "pos + 4 \<le> attr_end" using "1.prems"(1) by (subst (asm) attr_loop.simps) (simp split: if_splits)
  obtain ty l where ty: "u16_at buf pos = Some ty" and l: "u16_at buf (pos + 2) = Some l"
    using more "1.prems"(2) by (simp add: u16_at_def)
  show ?case
  proof (cases "ty = 0x20")
    case True
    then have "p + 4 + unat l > length buf" if "p = pos" for p
      using "1.prems"(1) more ty l that
      by (subst (asm) attr_loop.simps) (auto simp: slice_of_def Let_def split: option.splits if_splits)
    then show ?thesis using True more ty l by auto
  next
    case False
    then have again: "attr_loop buf tx_id attr_end (pos + 4 + pad4 (unat l)) = Panic"
      using "1.prems"(1) more ty l by (subst (asm) attr_loop.simps) simp
    have "\<exists>p\<ge>pos + 4 + pad4 (unat l). p + 4 \<le> attr_end \<and> u16_at buf p = Some 0x20 \<and>
        (\<exists>l. u16_at buf (p + 2) = Some l \<and> p + 4 + unat l > length buf)"
      using "1.IH"[OF more _ _ _ _ False again "1.prems"(2)] ty l by simp
    then show ?thesis by (meson le_add1 le_trans)
  qed
qed

section \<open>Properties\<close>

text \<open>C39. A binding response in the format of RFC 5389, for the transaction of the request and small enough for the
  receive buffer, is read back exactly: the client obtains the address the server encoded, IPv4 or IPv6, whatever other
  attributes stand before and after it and whatever the padding is.\<close>

theorem stun_roundtrip:
  assumes tx: "length tx_id = 12" and r: "r = binding_response tx_id (before @ [(0x20, xor_mapped_value res tx_id a, fill)] @ post)"
    and ok: "list_all attr_ok (before @ [(0x20, xor_mapped_value res tx_id a, fill)] @ post)"
    and other: "list_all (\<lambda>att. fst att \<noteq> 0x20) before" and fits: "length r \<le> 512"
  shows "stun_binding_request tx_id True (Some r) = Return (Some a)"
proof -
  define ats where "ats = before @ [(0x20, xor_mapped_value res tx_id a, fill)]"
  define body where "body = concat (map attr_bytes (ats @ post))"
  define buf where "buf = r @ replicate (512 - length r) 0"
  have r': "r = [1, 1] @ be16 (of_nat (length body)) @ to_be_bytes MAGIC_COOKIE @ tx_id @ body"
    by (simp add: r binding_response_def body_def ats_def Let_def)
  then have len: "length r = 20 + length body" using tx by (simp add: be16_def)
  then have body: "unat (of_nat (length body) :: u16) = length body" using fits by (simp add: unat_of_nat)
  have head: "u16_be (buf ! 0) (buf ! 1) = 0x0101" "from_be_bytes (take 4 (drop 4 buf)) = MAGIC_COOKIE"
      "take 12 (drop 8 buf) = tx_id" "u16_be (buf ! 2) (buf ! 3) = of_nat (length body)"
    using tx by (simp_all add: buf_def r' be16_def u16_bytes from_to_be_bytes) (simp add: u16_be_def)
  have "attr_loop buf tx_id (20 + length body) 20 = Return (parse_xor_mapped_address (xor_mapped_value res tx_id a) tx_id)"
    using ok other tx
    by (intro attr_loop_reads[where pre = "take 20 r" and fill = fill and before = before
          and post = "concat (map attr_bytes post) @ replicate (512 - length r) 0"])
      (auto simp: buf_def r' be16_def body_def ats_def)
  moreover have rb: "receive_buffer r = (buf, length r)" using fits by (simp add: receive_fits buf_def)
  ultimately show ?thesis using head len body
    by (simp add: stun_binding_request_def read_binding_response_def rb xor_mapped_roundtrip[OF tx])
qed

theorem stun_roundtrip_witness:
  "stun_binding_request (replicate 12 7) True
     (Some (binding_response (replicate 12 7) [(0x8022, [1, 2, 3], [0]), (0x20, xor_mapped_value 0 (replicate 12 7) (IpV6 5, 443), [])])) =
   Return (Some (IpV6 5, 443))"
proof -
  have "list_all attr_ok [(0x8022, [1, 2, 3], [0]), (0x20, xor_mapped_value 0 (replicate 12 7) (IpV6 5, 443), [])]"
    by (simp add: attr_ok_def pad4_def xor_mapped_value_def be16_def)
  moreover have "length (binding_response (replicate 12 7)
      [(0x8022, [1, 2, 3], [0]), (0x20, xor_mapped_value 0 (replicate 12 7) (IpV6 5, 443), [])]) \<le> 512"
    by (simp add: binding_response_def attr_bytes_def xor_mapped_value_def be16_def Let_def)
  ultimately show ?thesis
    using stun_roundtrip[of "replicate 12 7" _ "[(0x8022, [1, 2, 3], [0])]" 0 "(IpV6 5, 443)" "[]" "[]"] by simp
qed

text \<open>C40. Every datagram is dealt with: an address is taken only from a binding response that carries the magic cookie and
  the transaction of the request; the attribute loop ends on all inputs; and the task ends abnormally only on a
  mapped-address attribute whose length reaches beyond the receive buffer, which the code does not check.\<close>

theorem stun_every_datagram:
  "case stun_binding_request tx_id True (Some d) of
     Return None \<Rightarrow> True
   | Return (Some a) \<Rightarrow>
       20 \<le> length d \<and> u16_at d 0 = Some 0x0101 \<and> from_be_bytes (take 4 (drop 4 d)) = MAGIC_COOKIE \<and> take 12 (drop 8 d) = tx_id
   | Panic \<Rightarrow>
       20 \<le> length d \<and> take 12 (drop 8 d) = tx_id \<and>
       (\<exists>p l. u16_at (take 512 d) p = Some 0x20 \<and> u16_at (take 512 d) (p + 2) = Some l \<and> p + 4 + unat l > 512)"
proof -
  define got where "got = take 512 d"
  define buf where "buf = got @ replicate (512 - length got) 0"
  have rb: "receive_buffer d = (buf, length got)" by (simp add: receive_buffer_def buf_def got_def Let_def)
  have len: "length buf = 512" "length got \<le> 512" by (simp_all add: buf_def got_def)
  have head: "take 12 (drop 8 buf) = take 12 (drop 8 d)" "from_be_bytes (take 4 (drop 4 buf)) = from_be_bytes (take 4 (drop 4 d))"
      "u16_be (buf ! 0) (buf ! 1) = 0x0101 \<Longrightarrow> u16_at d 0 = Some 0x0101" "20 \<le> length d" if "\<not> length got < 20"
    using that by (auto simp: buf_def got_def u16_at_def nth_append min_def drop_take take_take split: if_splits)
  have at_got: "u16_at got p = u16_at buf p" if "p + 2 \<le> length got" for p
    using that by (simp add: u16_at_def buf_def nth_append)
  have panic: "\<exists>p l. u16_at got p = Some 0x20 \<and> u16_at got (p + 2) = Some l \<and> p + 4 + unat l > 512"
    if "attr_loop buf tx_id (min (20 + unat (u16_be (buf ! 2) (buf ! 3))) (length got)) 20 = Panic"
  proof -
    have "min (20 + unat (u16_be (buf ! 2) (buf ! 3))) (length got) \<le> length buf" using len by simp
    from attr_loop_panic[OF that this] obtain p l where "p + 4 \<le> length got" "u16_at buf p = Some 0x20"
      "u16_at buf (p + 2) = Some l" "p + 4 + unat l > 512" by (auto simp: len)
    then show ?thesis using at_got[of p] at_got[of "p + 2"] by auto
  qed
  define out where "out = stun_binding_request tx_id True (Some d)"
  have out: "out = (if length got < 20 then Return None
      else if u16_be (buf ! 0) (buf ! 1) \<noteq> 0x0101 then Return None
      else if from_be_bytes (take 4 (drop 4 buf)) \<noteq> MAGIC_COOKIE then Return None
      else if take 12 (drop 8 buf) \<noteq> tx_id then Return None
      else attr_loop buf tx_id (min (20 + unat (u16_be (buf ! 2) (buf ! 3))) (length got)) 20)"
    by (simp add: out_def stun_binding_request_def read_binding_response_def rb)
  show ?thesis using out head panic
    by (fold out_def got_def) (auto split: outcome.split option.split if_splits)
qed

text \<open>Such a datagram exists: 28 bytes are enough to end the task of the client.\<close>

theorem stun_oversized_attribute_panics:
  "stun_binding_request (replicate 12 7) True
     (Some ([1, 1, 0, 8] @ to_be_bytes MAGIC_COOKIE @ replicate 12 7 @ [0, 0x20, 0x10, 0] @ replicate 4 0)) = Panic"
  by code_simp

text \<open>The classification, on every combination of answers: without an answer the NAT is unknown; with one it is taken
  for a cone; with two it is open when the first public address is a local one, else a cone exactly when both servers saw
  the same address.  The reported addresses are those seen, without repetition.\<close>

theorem nat_classification:
  assumes "probe_nat ask (Some local_addr) outbound servers = Return r"
    and "stun_servers_used servers = (s1, s2)" "ask s1 = Return m1" "ask s2 = Return m2"
  shows "distinct (sr_mapped_addrs r) \<and> set (sr_mapped_addrs r) = set_option m1 \<union> set_option m2 \<and>
    (sr_nat_type r = NatUnknown \<longleftrightarrow> sr_mapped_addrs r = []) \<and>
    (sr_nat_type r = NatOpen \<longleftrightarrow> m1 \<noteq> None \<and> m2 \<noteq> None \<and> fst (the m1) \<in> fst ` set (sr_local_addrs r)) \<and>
    (sr_nat_type r = NatSymmetric \<longleftrightarrow> length (sr_mapped_addrs r) = 2 \<and> fst (the m1) \<notin> fst ` set (sr_local_addrs r))"
  using assms
  by (auto simp: probe_nat_def classify_nat_def Let_def list_ex_iff image_iff split: option.splits if_splits)

theorem nat_classification_witness:
  "sr_nat_type (case probe_nat (\<lambda>s. Return (Some (IpV4 (of_nat (length s)), 1))) (Some (IpV4 9, 2)) None [] of Return r \<Rightarrow> r) = NatSymmetric"
proof -
  define ask where "ask = (\<lambda>s :: string. Return (Some (IpV4 (of_nat (length s)), 1 :: u16)))"
  have s: "stun_servers_used [] = (DEFAULT_STUN_SERVERS ! 0, DEFAULT_STUN_SERVERS ! 1)" by (simp add: stun_servers_used_def)
  have m: "ask (DEFAULT_STUN_SERVERS ! 0) = Return (Some (IpV4 23, 1))" "ask (DEFAULT_STUN_SERVERS ! 1) = Return (Some (IpV4 24, 1))"
    by (simp_all add: ask_def DEFAULT_STUN_SERVERS_def)
  obtain r where r: "probe_nat ask (Some (IpV4 9, 2)) None [] = Return r"
    and "sr_local_addrs r = [(IpV4 9, 2)]" "sr_mapped_addrs r = [(IpV4 23, 1), (IpV4 24, 1)]"
    using m by (simp add: probe_nat_def s Let_def)
  then show ?thesis using nat_classification[OF r s m] by (simp add: r ask_def[symmetric])
qed

end
