(* ===== verification/DataPlane.thy ===== *)
theory DataPlane
  imports Datagrams Bytes
begin

text \<open>
  The data plane: the adapter that presents a WebSocket as a byte stream (\<open>control/mux.rs\<close>, and its copy in the
  client's \<open>control.rs\<close>), the bridge between the data WebSocket and the pipe of the session
  (\<open>handle_data_connection\<close>), the task that opens streams for waiting connections (\<open>spawn_yamux_driver\<close>) and the
  client's side of it (\<open>drive_client_mux\<close>).  yamux carries the bytes of a stream unchanged; what it does is input.
\<close>

unbundle bit_operations_syntax

section \<open>WebSocket messages\<close>

datatype data_msg = DmBinary "u8 list" | DmText | DmPing | DmPong | DmClose

text \<open>One poll of the message stream.\<close>

datatype msg_poll = MpPending | MpEnd | MpError | MpMsg data_msg

datatype read_poll = RpPending | RpOk "u8 list" | RpBrokenPipe

datatype write_poll = WpPending | WpOk nat | WpBrokenPipe

section \<open>The byte stream over a WebSocket\<close>

record ws_compat =
  wc_inner :: "msg_poll list"
  wc_read_buf :: "u8 list"
  wc_read_pos :: nat
  wc_sent :: "data_msg list"

definition ws_compat_new :: "msg_poll list \<Rightarrow> ws_compat" where
  "ws_compat_new inner = \<lparr>wc_inner = inner, wc_read_buf = [], wc_read_pos = 0, wc_sent = []\<rparr>"

text \<open>\<open>poll_read\<close> of the server: \<open>cap\<close> is the length of the caller's buffer, the result the bytes put into it.\<close>

function server_poll_read :: "nat \<Rightarrow> ws_compat \<Rightarrow> ws_compat \<times> read_poll" where
  "server_poll_read cap st =
     (if wc_read_pos st < length (wc_read_buf st)
      then let remaining = drop (wc_read_pos st) (wc_read_buf st);
               n = min (length remaining) cap
           in (st\<lparr>wc_read_pos := wc_read_pos st + n\<rparr>, RpOk (take n remaining))
      else case wc_inner st of
             [] \<Rightarrow> (st, RpPending)
           | p # ps \<Rightarrow>
               let st' = st\<lparr>wc_inner := ps\<rparr>
               in case p of
                    MpPending \<Rightarrow> (st', RpPending)
                  | MpEnd \<Rightarrow> (st', RpOk [])
                  | MpError \<Rightarrow> (st', RpBrokenPipe)
                  | MpMsg (DmBinary data) \<Rightarrow>
                      let n = min (length data) cap
                      in (if n < length data then st'\<lparr>wc_read_buf := drop n data, wc_read_pos := 0\<rparr> else st',
                          RpOk (take n data))
                  | MpMsg DmClose \<Rightarrow> (st', RpOk [])
                  | MpMsg _ \<Rightarrow> server_poll_read cap st')"
  by pat_completeness auto
termination by (relation "measure (\<lambda>(cap, st). length (wc_inner st))") auto

text \<open>\<open>poll_read\<close> of the client, which slices the leftover buffer in place.\<close>

function client_poll_read :: "nat \<Rightarrow> ws_compat \<Rightarrow> ws_compat \<times> read_poll" where
  "client_poll_read cap st =
     (if wc_read_pos st < length (wc_read_buf st)
      then let n = min (length (wc_read_buf st) - wc_read_pos st) cap
           in (st\<lparr>wc_read_pos := wc_read_pos st + n\<rparr>, RpOk (take n (drop (wc_read_pos st) (wc_read_buf st))))
      else case wc_inner st of
             [] \<Rightarrow> (st, RpPending)
           | p # ps \<Rightarrow>
               let st' = st\<lparr>wc_inner := ps\<rparr>
               in case p of
                    MpPending \<Rightarrow> (st', RpPending)
                  | MpEnd \<Rightarrow> (st', RpOk [])
                  | MpError \<Rightarrow> (st', RpBrokenPipe)
                  | MpMsg (DmBinary data) \<Rightarrow>
                      let n = min (length data) cap
                      in (if n < length data then st'\<lparr>wc_read_buf := drop n data, wc_read_pos := 0\<rparr> else st',
                          RpOk (take n data))
                  | MpMsg DmClose \<Rightarrow> (st', RpOk [])
                  | MpMsg _ \<Rightarrow> client_poll_read cap st')"
  by pat_completeness auto
termination by (relation "measure (\<lambda>(cap, st). length (wc_inner st))") auto

declare server_poll_read.simps [simp del] client_poll_read.simps [simp del]

text \<open>\<open>poll_write\<close>: \<open>ready\<close> is what \<open>poll_ready\<close> says (\<open>None\<close> is pending), \<open>accepted\<close> whether \<open>start_send\<close> succeeds.\<close>

definition server_poll_write :: "bool option \<Rightarrow> bool \<Rightarrow> u8 list \<Rightarrow> ws_compat \<Rightarrow> ws_compat \<times> write_poll" where
  "server_poll_write ready accepted buf st =
     (case ready of
        None \<Rightarrow> (st, WpPending)
      | Some False \<Rightarrow> (st, WpBrokenPipe)
      | Some True \<Rightarrow>
          if accepted then (st\<lparr>wc_sent := wc_sent st @ [DmBinary buf]\<rparr>, WpOk (length buf)) else (st, WpBrokenPipe))"

definition client_poll_write :: "bool option \<Rightarrow> bool \<Rightarrow> u8 list \<Rightarrow> ws_compat \<Rightarrow> ws_compat \<times> write_poll" where
  "client_poll_write ready accepted buf st =
     (case ready of
        None \<Rightarrow> (st, WpPending)
      | Some False \<Rightarrow> (st, WpBrokenPipe)
      | Some True \<Rightarrow>
          if accepted then (st\<lparr>wc_sent := wc_sent st @ [DmBinary buf]\<rparr>, WpOk (length buf)) else (st, WpBrokenPipe))"

section \<open>The bridge of the data WebSocket\<close>

definition DATA_PING_INTERVAL :: duration where
  "DATA_PING_INTERVAL = secs 20"

definition DATA_PONG_DEADLINE :: duration where
  "DATA_PONG_DEADLINE = secs 10"

text \<open>The retry loop for the pipe: 40 attempts, between which the other tasks run.\<close>

fun fetch_pipe :: "nat \<Rightarrow> uuid \<Rightarrow> (tunnel_core \<Rightarrow> tunnel_core) list \<Rightarrow> tunnel_core \<Rightarrow> tunnel_core \<times> nat option" where
  "fetch_pipe 0 sid others c = (c, None)"
| "fetch_pipe (Suc n) sid others c =
     (case take_data_pipe sid c of
        (c', Some pipe) \<Rightarrow> (c', Some pipe)
      | (c', None) \<Rightarrow>
          (case others of
             [] \<Rightarrow> fetch_pipe n sid [] c'
           | other # rest \<Rightarrow> fetch_pipe n sid rest (other c')))"

definition PIPE_ATTEMPTS :: nat where
  "PIPE_ATTEMPTS = 40"

record data_bridge =
  db_to_pipe :: "u8 list"
  db_to_ws :: "data_msg list"
  db_last_pong :: instant
  db_awaiting_pong :: bool

definition data_bridge_new :: "instant \<Rightarrow> data_bridge" where
  "data_bridge_new now = \<lparr>db_to_pipe = [], db_to_ws = [], db_last_pong = now, db_awaiting_pong = False\<rparr>"

text \<open>What one turn of the \<open>select!\<close> sees: a message of the WebSocket, bytes of the pipe (\<open>None\<close>: closed or an error),
  or the keepalive tick; the flag says whether the write of the arm succeeds.\<close>

datatype data_event =
    DeWs instant msg_poll bool
  | DePipe "u8 list option" bool
  | DeTick instant bool

definition data_bridge_step :: "data_event \<Rightarrow> data_bridge \<Rightarrow> data_bridge \<times> bool" where
  "data_bridge_step ev b =
     (case ev of
        DeWs now (MpMsg (DmBinary data)) ok \<Rightarrow>
          if ok then (b\<lparr>db_to_pipe := db_to_pipe b @ data\<rparr>, True) else (b, False)
      | DeWs now (MpMsg DmPong) ok \<Rightarrow> (b\<lparr>db_awaiting_pong := False, db_last_pong := now\<rparr>, True)
      | DeWs now (MpMsg DmClose) ok \<Rightarrow> (b, False)
      | DeWs now (MpMsg _) ok \<Rightarrow> (b, True)
      | DeWs now MpPending ok \<Rightarrow> (b, True)
      | DeWs now _ ok \<Rightarrow> (b, False)
      | DePipe None ok \<Rightarrow> (b, False)
      | DePipe (Some data) ok \<Rightarrow>
          if data = [] then (b, False)
          else if ok then (b\<lparr>db_to_ws := db_to_ws b @ [DmBinary data]\<rparr>, True) else (b, False)
      | DeTick now ok \<Rightarrow>
          if db_awaiting_pong b \<and> now - db_last_pong b > DATA_PONG_DEADLINE then (b, False)
          else if ok then (b\<lparr>db_to_ws := db_to_ws b @ [DmPing], db_awaiting_pong := True\<rparr>, True)
          else (b, False))"

fun data_bridge_loop :: "data_event list \<Rightarrow> data_bridge \<Rightarrow> data_bridge \<times> bool" where
  "data_bridge_loop [] b = (b, True)"
| "data_bridge_loop (e # es) b =
     (case data_bridge_step e b of (b', True) \<Rightarrow> data_bridge_loop es b' | (b', False) \<Rightarrow> (b', False))"

text \<open>The whole handler: without a pipe after the last attempt it returns; otherwise the bridge runs.\<close>

definition handle_data_connection ::
  "uuid \<Rightarrow> (tunnel_core \<Rightarrow> tunnel_core) list \<Rightarrow> instant \<Rightarrow> data_event list \<Rightarrow> tunnel_core \<Rightarrow>
   tunnel_core \<times> (nat \<times> data_bridge \<times> bool) option" where
  "handle_data_connection sid others now evs c =
     (case fetch_pipe PIPE_ATTEMPTS sid others c of
        (c', None) \<Rightarrow> (c', None)
      | (c', Some pipe) \<Rightarrow> (c', Some (pipe, data_bridge_loop evs (data_bridge_new now))))"

section \<open>Streams\<close>

text \<open>\<open>Uuid::as_bytes\<close> and \<open>Uuid::from_bytes\<close>.\<close>

definition uuid_as_bytes :: "uuid \<Rightarrow> u8 list" where
  "uuid_as_bytes u = be_bytes 16 u"

definition uuid_from_bytes :: "u8 list \<Rightarrow> uuid" where
  "uuid_from_bytes bs = fold (\<lambda>b w. push_bit 8 w OR ucast b) bs 0"

text \<open>The driver: requests of the session wait in a queue; opening a stream can succeed (and then writing the
  identifier into it can fail), fail or time out; an inbound stream is ignored, and an error or the end of the
  connection ends the driver, as does a closed queue.  \<open>dr_opened\<close> holds the streams whose identifier was written, with
  whether a task was waiting for it.\<close>

record driver =
  dr_core :: tunnel_core
  dr_queue :: "uuid list"
  dr_opened :: "(uuid \<times> bool) list"

datatype open_outcome = OpenedStream bool | OpenFailed | OpenTimedOut

datatype driver_event = DrRequest open_outcome | DrInbound | DrQueueClosed | DrConnEnd

text \<open>The task of a stream: the identifier goes first, then the stream is handed to the waiting edge task.\<close>

definition hand_over :: "uuid \<Rightarrow> bool \<Rightarrow> driver \<Rightarrow> driver" where
  "hand_over conn_id written d =
     (if \<not> written then d
      else case resolve_pending_conn conn_id (dr_core d) of
             (c, found) \<Rightarrow> d\<lparr>dr_core := c, dr_opened := dr_opened d @ [(conn_id, found)]\<rparr>)"

definition driver_step :: "driver_event \<Rightarrow> driver \<Rightarrow> driver \<times> bool" where
  "driver_step ev d =
     (case ev of
        DrRequest outcome \<Rightarrow>
          (case dr_queue d of
             [] \<Rightarrow> (d, True)
           | conn_id # queue \<Rightarrow>
               let d' = d\<lparr>dr_queue := queue\<rparr>
               in (case outcome of
                     OpenedStream written \<Rightarrow> hand_over conn_id written d'
                   | OpenFailed \<Rightarrow> d'
                   | OpenTimedOut \<Rightarrow> d'\<lparr>dr_core := cancel_pending_conn conn_id (dr_core d')\<rparr>, True))
      | DrInbound \<Rightarrow> (d, True)
      | DrQueueClosed \<Rightarrow> (d, False)
      | DrConnEnd \<Rightarrow> (d, False))"

definition drain_queue :: "driver \<Rightarrow> driver" where
  "drain_queue d = d\<lparr>dr_core := fold cancel_pending_conn (dr_queue d) (dr_core d), dr_queue := []\<rparr>"

fun driver_loop :: "driver_event list \<Rightarrow> driver \<Rightarrow> driver \<times> bool" where
  "driver_loop [] d = (d, True)"
| "driver_loop (e # es) d =
     (case driver_step e d of (d', True) \<Rightarrow> driver_loop es d' | (d', False) \<Rightarrow> (drain_queue d', False))"

text \<open>The bytes the driver and the edge task put into a stream, and what the client makes of an inbound stream.\<close>

definition stream_wire :: "uuid \<Rightarrow> u8 list \<Rightarrow> u8 list" where
  "stream_wire conn_id payload = uuid_as_bytes conn_id @ payload"

definition accept_stream :: "u8 list \<Rightarrow> (uuid \<times> u8 list) option" where
  "accept_stream bytes =
     (case read_exact 16 bytes of
        Inl e \<Rightarrow> None
      | Inr (id_bytes, rest) \<Rightarrow> Some (uuid_from_bytes id_bytes, rest))"

end
