(* ===== verification/DataPlaneProps.thy ===== *)
theory DataPlaneProps
  imports DataPlane
begin

text \<open>
  The data plane carries bytes unchanged: the contract of the WebSocket adapter, the bridge over it, and the tasks that
  open and accept streams.
\<close>

section \<open>The contract of the byte stream\<close>

fun msg_bytes :: "msg_poll list \<Rightarrow> u8 list" where
  "msg_bytes [] = []"
| "msg_bytes (MpMsg (DmBinary data) # ps) = data @ msg_bytes ps"
| "msg_bytes (_ # ps) = msg_bytes ps"

definition unread :: "ws_compat \<Rightarrow> u8 list" where
  "unread st = drop (wc_read_pos st) (wc_read_buf st) @ msg_bytes (wc_inner st)"

fun got :: "read_poll \<Rightarrow> u8 list" where
  "got (RpOk bs) = bs"
| "got _ = []"

text \<open>A message stream that goes on: no end, no error, and no empty message, which a reader takes for the end.\<close>

fun flowing :: "msg_poll \<Rightarrow> bool" where
  "flowing (MpMsg m) \<longleftrightarrow> m \<noteq> DmClose \<and> m \<noteq> DmBinary []"
| "flowing _ \<longleftrightarrow> False"

fun read_run :: "(nat \<Rightarrow> ws_compat \<Rightarrow> ws_compat \<times> read_poll) \<Rightarrow> nat list \<Rightarrow> ws_compat \<Rightarrow> ws_compat \<times> u8 list" where
  "read_run rd [] st = (st, [])"
| "read_run rd (cap # caps) st =
     (case rd cap st of (st', r) \<Rightarrow> (case read_run rd caps st' of (st'', bs) \<Rightarrow> (st'', got r @ bs)))"

locale byte_stream =
  fixes rd :: "nat \<Rightarrow> ws_compat \<Rightarrow> ws_compat \<times> read_poll"
  assumes rd_bytes: "rd cap st = (st', r) \<Longrightarrow> unread st = got r @ unread st'"
    and rd_flowing: "rd cap st = (st', r) \<Longrightarrow> list_all flowing (wc_inner st) \<Longrightarrow> list_all flowing (wc_inner st')"
    and rd_progress: "rd cap st = (st', r) \<Longrightarrow> list_all flowing (wc_inner st) \<Longrightarrow> 0 < cap \<Longrightarrow> unread st \<noteq> [] \<Longrightarrow> got r \<noteq> []"
begin

lemma reads_in_order: "read_run rd caps st = (st', bs) \<Longrightarrow> unread st = bs @ unread st'"
proof (induction caps arbitrary: st bs)
  case (Cons cap caps)
  then show ?case using rd_bytes by (auto split: prod.splits)
qed simp

lemma reads_everything:
  assumes "read_run rd caps st = (st', bs)" "list_all flowing (wc_inner st)" "list_all (\<lambda>c. 0 < c) caps"
    and "length (unread st) \<le> length caps"
  shows "bs = unread st"
  using assms
proof (induction caps arbitrary: st bs)
  case (Cons cap caps)
  obtain st1 r bs1 where s: "rd cap st = (st1, r)" "read_run rd caps st1 = (st', bs1)" "bs = got r @ bs1"
    using Cons.prems(1) by (auto split: prod.splits)
  have split: "unread st = got r @ unread st1" by (rule rd_bytes[OF s(1)])
  have "length (unread st1) \<le> length caps"
  proof (cases "unread st = []")
    case False
    then have "got r \<noteq> []" using rd_progress[OF s(1)] Cons.prems(2,3) by simp
    then show ?thesis using Cons.prems(4) split by (cases "got r") auto
  qed (simp add: split)
  then have "bs1 = unread st1" using Cons.IH[OF s(2)] rd_flowing[OF s(1)] Cons.prems(2,3) by simp
  then show ?case using s(3) split by simp
qed simp

end

lemma drop_split: "drop p b = take n (drop p b) @ drop (p + n) b"
  by (metis add.commute append_take_drop_id drop_drop)

lemma server_poll_read_unread:
  "server_poll_read cap st = (st', r) \<Longrightarrow> unread st = got r @ unread st'"
proof (induction cap st rule: server_poll_read.induct)
  case (1 cap st)
  show ?case
  proof (cases "wc_read_pos st < length (wc_read_buf st)")
    case True
    then show ?thesis using "1.prems"
      by (subst (asm) server_poll_read.simps) (auto simp: Let_def unread_def simp flip: drop_split)
  next
    case False
    then show ?thesis using 1
      by (subst (asm) (2) server_poll_read.simps)
        (auto simp: Let_def unread_def split: list.splits msg_poll.splits data_msg.splits if_splits)
  qed
qed

lemma server_poll_read_flowing:
  "server_poll_read cap st = (st', r) \<Longrightarrow> list_all flowing (wc_inner st) \<Longrightarrow> list_all flowing (wc_inner st')"
proof (induction cap st rule: server_poll_read.induct)
  case (1 cap st)
  then show ?case
    by (subst (asm) (2) server_poll_read.simps)
      (auto simp: Let_def split: list.splits msg_poll.splits data_msg.splits if_splits)
qed

lemma server_poll_read_progress:
  "server_poll_read cap st = (st', r) \<Longrightarrow> list_all flowing (wc_inner st) \<Longrightarrow> 0 < cap \<Longrightarrow> unread st \<noteq> [] \<Longrightarrow> got r \<noteq> []"
proof (induction cap st rule: server_poll_read.induct)
  case (1 cap st)
  then show ?case
    by (subst (asm) (2) server_poll_read.simps)
      (auto simp: Let_def unread_def split: list.splits msg_poll.splits data_msg.splits if_splits)
qed

lemma client_poll_read_same: "client_poll_read cap st = server_poll_read cap st"
proof (induction cap st rule: client_poll_read.induct)
  case (1 cap st)
  then show ?case
    by (subst client_poll_read.simps, subst server_poll_read.simps)
      (auto simp: Let_def split: list.split msg_poll.split data_msg.split)
qed

lemma client_poll_read_eq: "client_poll_read = server_poll_read"
  by (intro ext) (rule client_poll_read_same)

interpretation server_ws: byte_stream server_poll_read
  by unfold_locales (fact server_poll_read_unread, fact server_poll_read_flowing, fact server_poll_read_progress)

interpretation client_ws: byte_stream client_poll_read
  unfolding client_poll_read_eq by (rule server_ws.byte_stream_axioms)

section \<open>The bridge\<close>

fun pipe_bytes :: "data_event list \<Rightarrow> u8 list" where
  "pipe_bytes [] = []"
| "pipe_bytes (DePipe (Some data) ok # es) = data @ pipe_bytes es"
| "pipe_bytes (_ # es) = pipe_bytes es"

fun ws_messages :: "data_event list \<Rightarrow> msg_poll list" where
  "ws_messages [] = []"
| "ws_messages (DeWs now m ok # es) = m # ws_messages es"
| "ws_messages (_ # es) = ws_messages es"

lemma msg_bytes_append [simp]: "msg_bytes (ps @ qs) = msg_bytes ps @ msg_bytes qs"
  by (induction ps rule: msg_bytes.induct) auto

lemma bridge_step_bytes:
  assumes "data_bridge_step e b = (b', True)"
  shows "msg_bytes (map MpMsg (db_to_ws b')) = msg_bytes (map MpMsg (db_to_ws b)) @ pipe_bytes [e]"
    "db_to_pipe b' = db_to_pipe b @ msg_bytes (ws_messages [e])"
    "list_all flowing (map MpMsg (db_to_ws b)) \<Longrightarrow> list_all flowing (map MpMsg (db_to_ws b'))"
  using assms
  by (auto simp: data_bridge_step_def split: data_event.splits msg_poll.splits data_msg.splits option.splits if_splits)

lemma pipe_bytes_Cons: "pipe_bytes (e # es) = pipe_bytes [e] @ pipe_bytes es"
  by (cases "[e]" rule: pipe_bytes.cases) auto

lemma ws_messages_Cons: "ws_messages (e # es) = ws_messages [e] @ ws_messages es"
  by (cases e) auto

lemma bridge_loop_bytes:
  assumes "data_bridge_loop es b = (b', True)" "list_all flowing (map MpMsg (db_to_ws b))"
  shows "msg_bytes (map MpMsg (db_to_ws b')) = msg_bytes (map MpMsg (db_to_ws b)) @ pipe_bytes es \<and>
    db_to_pipe b' = db_to_pipe b @ msg_bytes (ws_messages es) \<and> list_all flowing (map MpMsg (db_to_ws b'))"
  using assms
proof (induction es arbitrary: b)
  case (Cons e es)
  obtain b1 where b1: "data_bridge_step e b = (b1, True)" "data_bridge_loop es b1 = (b', True)"
    using Cons.prems(1) by (auto split: prod.splits bool.splits)
  show ?case using Cons.IH[OF b1(2) bridge_step_bytes(3)[OF b1(1) Cons.prems(2)]] bridge_step_bytes(1,2)[OF b1(1)]
    unfolding pipe_bytes_Cons[of e es] ws_messages_Cons[of e es] by simp
qed simp

text \<open>What the adapter of the client sends for a sequence of writes.\<close>

definition write_run :: "u8 list list \<Rightarrow> ws_compat \<Rightarrow> ws_compat" where
  "write_run chunks st = fold (\<lambda>c st. fst (client_poll_write (Some True) True c st)) chunks st"

lemma write_run_sent: "wc_sent (write_run chunks st) = wc_sent st @ map DmBinary chunks"
  by (induction chunks arbitrary: st) (auto simp: write_run_def client_poll_write_def)

lemma msg_bytes_binaries: "msg_bytes (map MpMsg (map DmBinary chunks)) = concat chunks"
  by (induction chunks) auto



text \<open>The keepalive, on a bridge that is not waiting for an answer: after a ping the peer has until the next tick, 20
  seconds later, and the bridge is given up then exactly when no pong came; the deadline of 10 seconds is not checked
  in between.\<close>

fun has_pong :: "data_event list \<Rightarrow> bool" where
  "has_pong [] \<longleftrightarrow> False"
| "has_pong (DeWs now (MpMsg DmPong) ok # es) \<longleftrightarrow> True"
| "has_pong (_ # es) \<longleftrightarrow> has_pong es"

fun no_tick :: "data_event \<Rightarrow> bool" where
  "no_tick (DeTick now ok) \<longleftrightarrow> False"
| "no_tick _ \<longleftrightarrow> True"

lemma bridge_loop_append:
  "data_bridge_loop (es @ fs) b = (case data_bridge_loop es b of (b', True) \<Rightarrow> data_bridge_loop fs b' | (b', False) \<Rightarrow> (b', False))"
  by (induction es arbitrary: b) (auto split: prod.split bool.split)

lemma has_pong_Cons: "has_pong (e # es) \<longleftrightarrow> has_pong [e] \<or> has_pong es"
  by (cases "[e]" rule: has_pong.cases) auto

lemma bridge_loop_awaits:
  assumes "list_all no_tick es" "data_bridge_loop es b = (b', True)"
  shows "db_awaiting_pong b' = (db_awaiting_pong b \<and> \<not> has_pong es) \<and>
    (\<not> has_pong es \<longrightarrow> db_last_pong b' = db_last_pong b)"
  using assms
proof (induction es arbitrary: b)
  case (Cons e es)
  obtain b1 where b1: "data_bridge_step e b = (b1, True)" "data_bridge_loop es b1 = (b', True)"
    using Cons.prems(2) by (auto split: prod.splits bool.splits)
  have "db_awaiting_pong b1 = (db_awaiting_pong b \<and> \<not> has_pong [e])" "\<not> has_pong [e] \<Longrightarrow> db_last_pong b1 = db_last_pong b"
    using b1(1) Cons.prems(1)
    by (auto simp: data_bridge_step_def split: data_event.splits msg_poll.splits data_msg.splits option.splits if_splits)
  then show ?case using Cons.IH[OF _ b1(2)] Cons.prems(1) has_pong_Cons[of e es] by auto
qed simp

theorem data_keepalive_exact:
  assumes idle: "\<not> db_awaiting_pong b" "db_last_pong b \<le> t" and mid: "list_all no_tick es"
    and alive: "data_bridge_loop (DeTick t True # es) b = (b1, True)"
  shows "snd (data_bridge_loop (DeTick t True # es @ [DeTick (t + DATA_PING_INTERVAL) True]) b) = has_pong es"
proof -
  obtain b0 where b0: "data_bridge_step (DeTick t True) b = (b0, True)" "db_awaiting_pong b0" "db_last_pong b0 = db_last_pong b"
    using idle by (simp add: data_bridge_step_def)
  have loop: "data_bridge_loop es b0 = (b1, True)" using alive by (simp add: b0(1))
  have "snd (data_bridge_loop (DeTick t True # es @ [DeTick (t + DATA_PING_INTERVAL) True]) b) =
      snd (data_bridge_step (DeTick (t + DATA_PING_INTERVAL) True) b1)"
    by (simp add: b0(1) bridge_loop_append loop split: prod.split bool.split)
  also have "\<dots> = has_pong es" using bridge_loop_awaits[OF mid loop] b0(2,3) idle(2)
    by (auto simp: data_bridge_step_def DATA_PING_INTERVAL_def DATA_PONG_DEADLINE_def)
  finally show ?thesis .
qed

text \<open>The data connection finds the pipe that its session stores at most 39 attempts later, and takes it: a second data
  connection of the session finds none.\<close>

lemma take_data_pipe_none:
  "Option.bind (dm_get (sessions c) sid) si_data_pipe = None \<Longrightarrow>
   snd (take_data_pipe sid c) = None \<and> dm_get (sessions (fst (take_data_pipe sid c))) sid = dm_get (sessions c) sid"
  by (cases "dm_get (sessions c) sid") (auto simp: take_data_pipe_def)

lemma fetch_pipe_waits:
  assumes "dm_get (sessions c) sid = Some s" "si_data_pipe s = None" "k + 1 < n"
  shows "\<exists>c'. fetch_pipe n sid (replicate k id @ set_data_pipe sid p # rest) c = (c', Some p) \<and>
    Option.bind (dm_get (sessions c') sid) si_data_pipe = None"
  using assms
proof (induction k arbitrary: n c)
  case 0
  then obtain m where "n = Suc (Suc m)" by (metis Suc_eq_plus1 less_iff_Suc_add add_Suc_right add_0 Suc_lessE)
  then show ?case using 0 by (simp add: take_data_pipe_def set_data_pipe_def)
next
  case (Suc k)
  obtain m where n: "n = Suc m" "k + 1 < m" using Suc.prems(3) by (cases n) auto
  have "dm_get (sessions (fst (take_data_pipe sid c))) sid = Some s" "snd (take_data_pipe sid c) = None"
    using take_data_pipe_none[of c sid] Suc.prems(1,2) by simp_all
  then show ?case using Suc.IH[of "fst (take_data_pipe sid c)" m] Suc.prems(2) n
    by (simp add: prod.case_eq_if)
qed

section \<open>Streams\<close>

lemma accept_wire: "accept_stream (stream_wire conn_id payload) = Some (conn_id, payload)"
proof -
  have "uuid_from_bytes (uuid_as_bytes conn_id) = conn_id"
    unfolding uuid_from_bytes_def uuid_as_bytes_def by (rule fold_be_bytes_all) simp
  then show ?thesis
    by (simp add: accept_stream_def stream_wire_def read_exact_append uuid_as_bytes_def)
qed

text \<open>The requests a run of the driver is done with: those whose stream was handed over or timed out, and, once it ends,
  everything that still waits in its queue.  A stream that cannot be opened or written leaves its request waiting.\<close>

fun done_with :: "driver_event list \<Rightarrow> uuid list \<Rightarrow> uuid set" where
  "done_with [] q = {}"
| "done_with (DrRequest out # es) [] = done_with es []"
| "done_with (DrRequest out # es) (k # q) =
     (if out = OpenedStream True \<or> out = OpenTimedOut then insert k (done_with es q) else done_with es q)"
| "done_with (DrInbound # es) q = done_with es q"
| "done_with (DrQueueClosed # es) q = set q"
| "done_with (DrConnEnd # es) q = set q"

fun handed_over :: "driver_event list \<Rightarrow> uuid list \<Rightarrow> uuid list" where
  "handed_over (DrRequest out # es) (k # q) = (if out = OpenedStream True then [k] else []) @ handed_over es q"
| "handed_over (DrRequest out # es) [] = handed_over es []"
| "handed_over (DrInbound # es) q = handed_over es q"
| "handed_over _ q = []"

lemma pending_fold_cancel:
  "dm_get (pending_conns (fold cancel_pending_conn ks c)) k = (if k \<in> set ks then None else dm_get (pending_conns c) k)"
  by (induction ks arbitrary: c) (auto simp: cancel_pending_conn_def)

lemma pending_resolve_get:
  "dm_get (pending_conns (fst (resolve_pending_conn k' c))) k = (if k = k' then None else dm_get (pending_conns c) k)"
  by (auto simp: resolve_pending_conn_def split: option.split)

lemma resolve_found: "snd (resolve_pending_conn k c) = (dm_get (pending_conns c) k = Some True)"
  by (auto simp: resolve_pending_conn_def split: option.split)

lemma driver_loop_pending:
  "driver_loop es d = (d', alive) \<Longrightarrow>
   dm_get (pending_conns (dr_core d')) k = (if k \<in> done_with es (dr_queue d) then None else dm_get (pending_conns (dr_core d)) k)"
proof (induction es arbitrary: d)
  case (Cons e es)
  show ?case
  proof (cases e)
    case (DrRequest out)
    show ?thesis
    proof (cases "dr_queue d")
      case Nil
      then show ?thesis using Cons DrRequest by (simp add: driver_step_def)
    next
      case (Cons k' q)
      then show ?thesis using Cons.prems DrRequest Cons.IH
        by (auto simp: driver_step_def hand_over_def Let_def cancel_pending_conn_def pending_resolve_get
            split: open_outcome.splits prod.splits if_splits) (metis fst_conv pending_resolve_get)+
    qed
  qed (use Cons in \<open>auto simp: driver_step_def drain_queue_def pending_fold_cancel\<close>)
qed simp

lemma handed_over_subset: "set (handed_over es q) \<subseteq> set q"
  by (induction es q rule: handed_over.induct) auto

lemma driver_step_request:
  assumes "dr_queue d = k' # q" "driver_step (DrRequest out) d = (d1, go)"
  shows "go" "dr_queue d1 = q" "k \<noteq> k' \<Longrightarrow> dm_get (pending_conns (dr_core d1)) k = dm_get (pending_conns (dr_core d)) k"
    "dr_opened d1 = dr_opened d @
       (if out = OpenedStream True then [(k', dm_get (pending_conns (dr_core d)) k' = Some True)] else [])"
  using assms pending_resolve_get[of k' "dr_core d" k] resolve_found[of k' "dr_core d"]
  by (auto simp: driver_step_def hand_over_def Let_def cancel_pending_conn_def split: open_outcome.splits prod.splits if_splits)

lemma driver_loop_opened:
  assumes "driver_loop es d = (d', alive)" "distinct (dr_queue d)"
  shows "dr_opened d' = dr_opened d @
    map (\<lambda>k. (k, dm_get (pending_conns (dr_core d)) k = Some True)) (handed_over es (dr_queue d))"
  using assms
proof (induction es arbitrary: d)
  case (Cons e es)
  note IH = Cons.IH and run = Cons.prems(1) and dist = Cons.prems(2)
  show ?case
  proof (cases e)
    case (DrRequest out)
    show ?thesis
    proof (cases "dr_queue d")
      case Nil
      then show ?thesis using IH run DrRequest by (simp add: driver_step_def)
    next
      case (Cons k q)
      obtain d1 where st: "driver_step (DrRequest out) d = (d1, True)"
        using driver_step_request(1)[OF Cons] by (metis (full_types) surj_pair)
      note step = driver_step_request[OF Cons st]
      have "dr_opened d' = dr_opened d1 @ map (\<lambda>k. (k, dm_get (pending_conns (dr_core d1)) k = Some True)) (handed_over es q)"
        using IH[of d1] run dist st step(2) by (simp add: DrRequest Cons)
      moreover have "map (\<lambda>k. (k, dm_get (pending_conns (dr_core d1)) k = Some True)) (handed_over es q) =
          map (\<lambda>k. (k, dm_get (pending_conns (dr_core d)) k = Some True)) (handed_over es q)"
      proof (intro map_cong refl)
        fix x assume "x \<in> set (handed_over es q)"
        then have "x \<noteq> k" using handed_over_subset[of es q] dist by (auto simp: Cons)
        then show "(x, dm_get (pending_conns (dr_core d1)) x = Some True) = (x, dm_get (pending_conns (dr_core d)) x = Some True)"
          by (simp add: step(3))
      qed
      ultimately show ?thesis using step(4) by (simp add: DrRequest Cons)
    qed
  qed (use run dist IH in \<open>auto simp: driver_step_def drain_queue_def\<close>)
qed simp

lemma driver_loop_ended: "driver_loop es d = (d', False) \<Longrightarrow> dr_queue d' = []"
  by (induction es arbitrary: d) (auto simp: drain_queue_def split: prod.splits bool.splits)

text \<open>The driver of a session: a stream it opens for a connection is handed to the task waiting for exactly that
  connection, and the client reads the identifier of that connection and then the untouched payload out of it; a stream
  that takes too long, and, when the driver ends, every request still queued, is cancelled, so that its task stops
  waiting at once.  No other waiting connection is touched.\<close>

theorem driver_exact:
  assumes "driver_loop es d = (d', alive)" "distinct (dr_queue d)"
  shows "(\<forall>k. dm_get (pending_conns (dr_core d')) k =
       (if k \<in> done_with es (dr_queue d) then None else dm_get (pending_conns (dr_core d)) k)) \<and>
    dr_opened d' = dr_opened d @
      map (\<lambda>k. (k, dm_get (pending_conns (dr_core d)) k = Some True)) (handed_over es (dr_queue d)) \<and>
    (\<not> alive \<longrightarrow> dr_queue d' = []) \<and>
    (\<forall>k payload. accept_stream (stream_wire k payload) = Some (k, payload))"
  using driver_loop_pending[OF assms(1)] driver_loop_opened[OF assms] driver_loop_ended[of es d d'] assms(1) accept_wire
  by auto

definition example_driver :: driver where
  "example_driver = \<lparr>dr_core = fold register_pending_conn [1, 2, 3, 4] (tunnel_core_new (1, 2) (3, 4) 9 9 1 1),
     dr_queue = [1, 2, 3, 4], dr_opened = []\<rparr>"

theorem driver_exact_witness:
  "\<exists>d'. driver_loop [DrRequest (OpenedStream True), DrRequest OpenFailed, DrInbound, DrConnEnd] example_driver = (d', False) \<and>
     dr_opened d' = [(1, True)] \<and> dm_get (pending_conns (dr_core d')) 2 = Some True \<and>
     dm_get (pending_conns (dr_core d')) 3 = None"
proof -
  define es where "es = [DrRequest (OpenedStream True), DrRequest OpenFailed, DrInbound, DrConnEnd]"
  obtain d' alive where run: "driver_loop es example_driver = (d', alive)" by fastforce
  have q: "dr_queue example_driver = [1, 2, 3, 4]" "dr_opened example_driver = []"
      "dm_get (pending_conns (dr_core example_driver)) 1 = Some True" "dm_get (pending_conns (dr_core example_driver)) 2 = Some True"
    by (simp_all add: example_driver_def register_pending_conn_def)
  have "alive = False" using run by (auto simp: es_def q driver_step_def hand_over_def split: prod.splits)
  then show ?thesis using driver_exact[OF run] run by (auto simp: q es_def)
qed

end
