(* ===== verification/ClientSetup.thy ===== *)
theory ClientSetup
  imports ClientHealth RateLimits
begin

text \<open>
  What the client does before and around a connection: its error texts (\<open>error.rs\<close>), tunnel definitions
  (\<open>config.rs\<close>), the version gate (\<open>version.rs\<close>), the choice of a server (\<open>regions.rs\<close>) and the reconnect loop
  (\<open>reconnect.rs\<close>).  Times and latencies, the cache file and the answer of the region API are inputs; the \<open>f64\<close>
  arithmetic of the delays is rational with the rounding as an argument, as for the token bucket.
\<close>

section \<open>Errors\<close>

fun client_error_display :: "client_error \<Rightarrow> string" where
  "client_error_display (CeConfig m) = ''config error: '' @ m"
| "client_error_display (CeAuth m) = ''auth failed: '' @ m"
| "client_error_display (CeTunnel m) = ''tunnel error: '' @ m"
| "client_error_display (CeConnection m) = ''connection error: '' @ m"
| "client_error_display (CeProtocol m) = ''protocol error: '' @ m"
| "client_error_display (CeIo m) = m"

fun client_error_code :: "client_error \<Rightarrow> string" where
  "client_error_code (CeConfig m) = ''config''"
| "client_error_code (CeAuth m) = ''auth''"
| "client_error_code (CeTunnel m) = ''tunnel''"
| "client_error_code (CeConnection m) = ''connection''"
| "client_error_code (CeProtocol m) = ''protocol''"
| "client_error_code (CeIo m) = ''io''"

definition is_hobby_limit_message :: "string \<Rightarrow> bool" where
  "is_hobby_limit_message msg = starts_with ''Hobby plan'' msg"

definition client_error_hint :: "client_error \<Rightarrow> string option" where
  "client_error_hint e =
     (case e of
        CeConfig m \<Rightarrow> Some (''run `rustunnel setup` to create ~/.rustunnel/config.yml, '' @
          ''or pass --server <host:port> and --token <token> directly'')
      | CeAuth m \<Rightarrow>
          if str_contains ''admin token'' m
          then Some (''pass the server'' @ [CHR 39] @ ''s admin token with --admin-token '' @
            ''(set as [auth] admin_token in the server config)'')
          else Some (''pass a valid token with --token or the RUSTUNNEL_TOKEN env var; '' @
            ''get one at https://rustunnel.com (Dashboard -> API Keys), or for a '' @
            ''self-hosted server create one with `rustunnel token create`'')
      | CeConnection m \<Rightarrow> Some (''check network connectivity and the server address; '' @
          ''pass --server <host:port> or --region <eu|us|ap> to pick a different edge'')
      | CeTunnel m \<Rightarrow>
          if is_hobby_limit_message m then None
          else Some (''the server rejected the tunnel registration; '' @
            ''try a different --subdomain or check the server-side limits'')
      | _ \<Rightarrow> None)"

definition client_error_rendered :: "client_error \<Rightarrow> string" where
  "client_error_rendered e =
     (case e of
        CeTunnel msg \<Rightarrow> if is_hobby_limit_message msg then msg else ''error: '' @ client_error_display e
      | _ \<Rightarrow> ''error: '' @ client_error_display e)"

definition client_public_message :: "client_error \<Rightarrow> string" where
  "client_public_message e =
     (case e of
        CeTunnel msg \<Rightarrow> if is_hobby_limit_message msg then msg else client_error_display e
      | _ \<Rightarrow> client_error_display e)"

section \<open>Configuration\<close>

record tunnel_def =
  td_proto :: string
  td_local_port :: u16
  td_local_host :: string
  td_subdomain :: "string option"
  td_p2p_secret_hash :: "string option"
  td_p2p_name :: "string option"
  td_p2p_target :: "string option"
  td_p2p_secret :: "string option"
  td_registered_tunnel_id :: "uuid option"
  td_group :: "string option"
  td_group_key :: "string option"
  td_health_check :: "health_check_config option"

record client_config =
  cc_server :: string
  cc_auth_token :: "string option"
  cc_auth_token_source :: "string option"
  cc_insecure :: bool
  cc_region :: "string option"
  cc_tunnels :: "(string, tunnel_def) dashmap"

definition tunnel_def_from_cli :: "string \<Rightarrow> u16 \<Rightarrow> string \<Rightarrow> string option \<Rightarrow> tunnel_def" where
  "tunnel_def_from_cli proto port local_host subdomain =
     \<lparr>td_proto = proto, td_local_port = port, td_local_host = local_host, td_subdomain = subdomain,
      td_p2p_secret_hash = None, td_p2p_name = None, td_p2p_target = None, td_p2p_secret = None,
      td_registered_tunnel_id = None, td_group = None, td_group_key = None, td_health_check = None\<rparr>"

text \<open>\<open>hash\<close> is the hexadecimal SHA-256 digest.\<close>

definition p2p_publisher_def :: "(string \<Rightarrow> string) \<Rightarrow> u16 \<Rightarrow> string \<Rightarrow> string \<Rightarrow> string \<Rightarrow> tunnel_def" where
  "p2p_publisher_def hash port local_host name secret =
     \<lparr>td_proto = ''p2p'', td_local_port = port, td_local_host = local_host, td_subdomain = None,
      td_p2p_secret_hash = Some (hash secret), td_p2p_name = Some name, td_p2p_target = None, td_p2p_secret = Some secret,
      td_registered_tunnel_id = None, td_group = None, td_group_key = None, td_health_check = None\<rparr>"

definition p2p_subscriber_def :: "(string \<Rightarrow> string) \<Rightarrow> u16 \<Rightarrow> string \<Rightarrow> string \<Rightarrow> string \<Rightarrow> tunnel_def" where
  "p2p_subscriber_def hash port local_host target secret =
     \<lparr>td_proto = ''p2p'', td_local_port = port, td_local_host = local_host, td_subdomain = None,
      td_p2p_secret_hash = Some (hash secret), td_p2p_name = None, td_p2p_target = Some target, td_p2p_secret = Some secret,
      td_registered_tunnel_id = None, td_group = None, td_group_key = None, td_health_check = None\<rparr>"

definition client_config_validate :: "client_config \<Rightarrow> client_error + unit" where
  "client_config_validate cfg =
     (if cc_server cfg = []
      then Inl (CeConfig ''server address is required (use --server or set `server` in config)'')
      else Inr ())"

section \<open>Versions\<close>

definition MIN_SERVER_VERSION_FOR_LOAD_BALANCING :: "nat \<times> nat \<times> nat" where
  "MIN_SERVER_VERSION_FOR_LOAD_BALANCING = (0, 7, 0)"

text \<open>\<open>str::split\<close> on one character: one more piece than there are separators.\<close>

fun str_split :: "char \<Rightarrow> string \<Rightarrow> string list" where
  "str_split d [] = [[]]"
| "str_split d (c # cs) =
     (if c = d then [] # str_split d cs
      else case str_split d cs of p # ps \<Rightarrow> (c # p) # ps | [] \<Rightarrow> [[c]])"

definition u32_from_str :: "string \<Rightarrow> nat option" where
  "u32_from_str s =
     (let digits = (if s \<noteq> [] \<and> hd s = CHR ''+'' then tl s else s)
      in if digits = [] then None else digits_value 10 4294967295 0 digits)"

definition parse_semver :: "string \<Rightarrow> (nat \<times> nat \<times> nat) option" where
  "parse_semver s =
     (case str_split (CHR ''.'') (takeWhile (\<lambda>c. c \<noteq> CHR ''-'' \<and> c \<noteq> CHR ''+'') s) of
        [major, minor, patch] \<Rightarrow>
          Option.bind (u32_from_str major) (\<lambda>a. Option.bind (u32_from_str minor) (\<lambda>b.
            map_option (\<lambda>c. (a, b, c)) (u32_from_str patch)))
      | _ \<Rightarrow> None)"

text \<open>The derived order of tuples is lexicographic.\<close>

definition version_ge :: "nat \<times> nat \<times> nat \<Rightarrow> nat \<times> nat \<times> nat \<Rightarrow> bool" where
  "version_ge v w =
     (case (v, w) of ((a, b, c), (a', b', c')) \<Rightarrow> a > a' \<or> a = a' \<and> (b > b' \<or> b = b' \<and> c \<ge> c'))"

definition server_supports_load_balancing :: "string \<Rightarrow> bool" where
  "server_supports_load_balancing server_version =
     (case parse_semver server_version of
        Some v \<Rightarrow> version_ge v MIN_SERVER_VERSION_FOR_LOAD_BALANCING
      | None \<Rightarrow> False)"

section \<open>Regions\<close>

record region_info =
  ri_id :: string
  ri_name :: string
  ri_location :: string
  ri_host :: string
  ri_control_port :: u16

record api_region =
  ar_info :: region_info
  ar_active :: bool

definition builtin_regions :: "region_info list" where
  "builtin_regions =
     [\<lparr>ri_id = ''eu'', ri_name = ''Europe'', ri_location = ''Helsinki, FI'', ri_host = ''eu.edge.rustunnel.com'', ri_control_port = 4040\<rparr>,
      \<lparr>ri_id = ''us'', ri_name = ''US East'', ri_location = ''Hillsboro, OR'', ri_host = ''us.edge.rustunnel.com'', ri_control_port = 4040\<rparr>,
      \<lparr>ri_id = ''ap'', ri_name = ''Asia Pacific'', ri_location = ''Singapore'', ri_host = ''ap.edge.rustunnel.com'', ri_control_port = 4040\<rparr>]"

text \<open>The world around the choice: the clock, the cache file (when it can be read and parsed) and whether it can be
  written, the answer of the region API of a host (when it can be fetched), and for each address the time a connection
  took, when it succeeded within three seconds.\<close>

record region_world =
  rw_now :: instant
  rw_cache :: "(instant \<times> region_info list) option"
  rw_cache_writable :: bool
  rw_api :: "string \<Rightarrow> bool \<Rightarrow> api_region list option"
  rw_connect :: "string \<Rightarrow> u16 \<Rightarrow> duration option"

definition load_cache :: "region_world \<Rightarrow> region_info list option" where
  "load_cache w =
     (case rw_cache w of
        None \<Rightarrow> None
      | Some (fetched_at, regions) \<Rightarrow> if rw_now w - fetched_at < secs (24 * 3600) then Some regions else None)"

definition save_cache :: "region_info list \<Rightarrow> region_world \<Rightarrow> region_world" where
  "save_cache regions w = (if rw_cache_writable w then w\<lparr>rw_cache := Some (rw_now w, regions)\<rparr> else w)"

definition fetch_regions :: "string \<Rightarrow> bool \<Rightarrow> region_world \<Rightarrow> region_info list option" where
  "fetch_regions host insecure w = map_option (\<lambda>rs. map ar_info (filter ar_active rs)) (rw_api w host insecure)"

definition load_regions :: "string \<Rightarrow> bool \<Rightarrow> region_world \<Rightarrow> region_world \<times> region_info list" where
  "load_regions host insecure w =
     (case load_cache w of
        Some cached \<Rightarrow> (w, cached)
      | None \<Rightarrow>
          (case fetch_regions host insecure w of
             Some regions \<Rightarrow> (save_cache regions w, regions)
           | None \<Rightarrow> (w, builtin_regions)))"

definition probe_latency :: "region_world \<Rightarrow> string \<Rightarrow> u16 \<Rightarrow> duration" where
  "probe_latency w host port =
     (case rw_connect w host port of Some d \<Rightarrow> d | None \<Rightarrow> secs 10)"

text \<open>\<open>min_by_key\<close> keeps the first of several minima; \<open>None\<close> is the panic on an empty list.\<close>

fun min_by_key :: "('a \<Rightarrow> int) \<Rightarrow> 'a list \<Rightarrow> 'a option" where
  "min_by_key f [] = None"
| "min_by_key f (x # xs) =
     (case min_by_key f xs of None \<Rightarrow> Some x | Some y \<Rightarrow> if f y < f x then Some y else Some x)"

definition as_millis :: "duration \<Rightarrow> int" where
  "as_millis d = d div 1000000"

definition region_server :: "region_info \<Rightarrow> string" where
  "region_server r = ri_host r @ '':'' @ dec_string (unat (ri_control_port r))"

definition nearest :: "region_world \<Rightarrow> region_info list \<Rightarrow> string option" where
  "nearest w regions =
     map_option region_server (min_by_key (\<lambda>r. as_millis (probe_latency w (ri_host r) (ri_control_port r))) regions)"

definition auto_select :: "string \<Rightarrow> bool \<Rightarrow> region_world \<Rightarrow> region_world \<times> string option" where
  "auto_select host insecure w =
     (case load_regions host insecure w of (w', regions) \<Rightarrow> (w', nearest w' regions))"

definition auto_select_nearest :: "region_world \<Rightarrow> string option" where
  "auto_select_nearest w = nearest w builtin_regions"

definition extract_host :: "string \<Rightarrow> string" where
  "extract_host server = hd (str_split (CHR '':'') server)"

definition server_for_region :: "string \<Rightarrow> string option" where
  "server_for_region region_id = map_option region_server (find (\<lambda>r. ri_id r = region_id) builtin_regions)"

definition resolve_server ::
  "string \<Rightarrow> string option \<Rightarrow> string option \<Rightarrow> bool \<Rightarrow> region_world \<Rightarrow> region_world \<times> string option" where
  "resolve_server config_server region_flag config_region insecure w =
     (let effective = (case region_flag of Some r \<Rightarrow> Some r | None \<Rightarrow> config_region)
      in case effective of
           None \<Rightarrow> (w, Some config_server)
         | Some r \<Rightarrow>
             if r \<noteq> ''auto''
             then (case load_regions (extract_host config_server) insecure w of
                     (w', regions) \<Rightarrow>
                       (case find (\<lambda>ri. ri_id ri = r) regions of
                          Some info \<Rightarrow> (w', Some (region_server info))
                        | None \<Rightarrow> auto_select (extract_host config_server) insecure w'))
             else auto_select (extract_host config_server) insecure w)"

section \<open>Reconnecting\<close>

definition INITIAL_DELAY :: duration where
  "INITIAL_DELAY = secs 1"

definition MAX_DELAY :: duration where
  "MAX_DELAY = secs 60"

fun is_fatal :: "client_error \<Rightarrow> bool" where
  "is_fatal (CeAuth m) = True"
| "is_fatal (CeTunnel m) = True"
| "is_fatal _ = False"

text \<open>\<open>Duration::from_secs_f64\<close> rounds to the nearest nanosecond.  \<open>jitter_factor\<close> is the random factor.\<close>

definition from_secs_f64 :: "rat \<Rightarrow> duration" where
  "from_secs_f64 x = round (x * 1000000000)"

definition next_delay :: "(rat \<Rightarrow> rat) \<Rightarrow> rat \<Rightarrow> duration \<Rightarrow> duration" where
  "next_delay rnd jitter_factor current =
     from_secs_f64 (min (rnd (rnd (as_secs_f64 rnd current * 2) * jitter_factor)) (as_secs_f64 rnd MAX_DELAY))"

text \<open>One turn of the loop sees whether a shutdown was asked for before it, whether one arrives during the wait, the
  random factor, and the result of the connection.  The result of the loop is \<open>None\<close> while it goes on; \<open>rl_waits\<close>
  are the waits it has begun.\<close>

record turn =
  tn_shutdown :: bool
  tn_shutdown_waiting :: bool
  tn_jitter :: rat
  tn_result :: "client_error + unit"

record reconnect =
  rc_delay :: duration
  rc_attempt :: u32
  rc_last_error :: string
  rc_waits :: "duration list"

definition reconnect_start :: reconnect where
  "reconnect_start = \<lparr>rc_delay = INITIAL_DELAY, rc_attempt = 0, rc_last_error = [], rc_waits = []\<rparr>"

definition reconnect_turn :: "(rat \<Rightarrow> rat) \<Rightarrow> turn \<Rightarrow> reconnect \<Rightarrow> reconnect \<times> (client_error + unit) option" where
  "reconnect_turn rnd t s =
     (if tn_shutdown t then (s, Some (Inr ()))
      else let waits = rc_attempt s > 0;
               s1 = (if waits then s\<lparr>rc_waits := rc_waits s @ [rc_delay s]\<rparr> else s)
           in if waits \<and> tn_shutdown_waiting t then (s1, Some (Inr ()))
              else let s2 = (if waits then s1\<lparr>rc_delay := next_delay rnd (tn_jitter t) (rc_delay s1)\<rparr> else s1)
                   in case tn_result t of
                        Inr _ \<Rightarrow> (s2, Some (Inr ()))
                      | Inl e \<Rightarrow>
                          if is_fatal e then (s2, Some (Inl e))
                          else (s2\<lparr>rc_last_error := client_error_display e, rc_attempt := rc_attempt s2 + 1\<rparr>, None))"

fun run_with_reconnect :: "(rat \<Rightarrow> rat) \<Rightarrow> turn list \<Rightarrow> reconnect \<Rightarrow> reconnect \<times> (client_error + unit) option" where
  "run_with_reconnect rnd [] s = (s, None)"
| "run_with_reconnect rnd (t # ts) s =
     (case reconnect_turn rnd t s of
        (s', Some r) \<Rightarrow> (s', Some r)
      | (s', None) \<Rightarrow> run_with_reconnect rnd ts s')"

end
