(* ===== verification/ClientSetupProps.thy ===== *)
theory ClientSetupProps
  imports ClientSetup RateLimitProps Billing
begin

text \<open>
  The reconnect loop, the choice of a region, the version gate, and the error texts of the client.
\<close>

section \<open>Reconnecting\<close>

definition jitter_ok :: "rat \<Rightarrow> bool" where
  "jitter_ok j \<longleftrightarrow> 4 / 5 \<le> j \<and> j \<le> 6 / 5"

lemma rnd_ge: "f64_rounding rnd \<Longrightarrow> n \<le> 2 ^ 32 \<Longrightarrow> of_nat n \<le> x \<Longrightarrow> of_nat n \<le> rnd x"
  by (metis f64_rounding_def monoD)

lemma rnd_nat: "f64_rounding rnd \<Longrightarrow> n \<le> 2 ^ 32 \<Longrightarrow> rnd (of_nat n) = of_nat n"
  by (simp add: f64_rounding_def)

lemma secs_exact:
  assumes "f64_rounding rnd" "n \<le> 2 ^ 32"
  shows "as_secs_f64 rnd (secs (int n)) = of_nat n"
  using rnd_nat[OF assms] rnd_nat[OF assms(1), of 0] by (simp add: as_secs_f64_def)

lemma secs_ge_1:
  assumes rnd: "f64_rounding rnd" and d: "secs 1 \<le> d"
  shows "1 \<le> as_secs_f64 rnd d"
proof -
  have "1 \<le> d div 1000000000" using d by (simp add: pos_imp_zdiv_pos_iff int_one_le_iff_zero_less)
  then have "1 \<le> rnd (of_int (d div 1000000000))" using rnd_ge[OF rnd, of 1] by simp
  moreover have "0 \<le> rnd (of_int (d mod 1000000000) / 1000000000)" using f64_rounding_nonneg[OF rnd] by simp
  ultimately show ?thesis using rnd_ge[OF rnd, of 1] by (simp add: as_secs_f64_def)
qed

text \<open>A delay of at least a second at least stays that long, and none exceeds the maximum.\<close>

lemma next_delay_bounds:
  assumes rnd: "f64_rounding rnd" and j: "jitter_ok j" and d: "secs 1 \<le> d"
  shows "secs 1 \<le> next_delay rnd j d" "next_delay rnd j d \<le> MAX_DELAY"
proof -
  have max: "as_secs_f64 rnd MAX_DELAY = 60" using secs_exact[OF rnd, of 60] by (simp add: MAX_DELAY_def)
  define x where "x = rnd (as_secs_f64 rnd d * 2)"
  define y where "y = min (rnd (x * j)) 60"
  have "2 \<le> x" unfolding x_def using rnd_ge[OF rnd, of 2] secs_ge_1[OF rnd d] by simp
  moreover have "4 / 5 \<le> j" using j by (simp add: jitter_ok_def)
  ultimately have "1 \<le> x * j" using mult_mono[of 2 x "4 / 5" j] by simp
  then have y: "1 \<le> y" "y \<le> 60" unfolding y_def using rnd_ge[OF rnd, of 1] by auto
  have nd: "next_delay rnd j d = round (y * 1000000000)"
    by (simp add: next_delay_def from_secs_f64_def max x_def y_def)
  have "round (1 * 1000000000 :: rat) \<le> round (y * 1000000000)" "round (y * 1000000000) \<le> round (60 * 1000000000 :: rat)"
    using y by (intro round_mono; simp)+
  then show "secs 1 \<le> next_delay rnd j d" "next_delay rnd j d \<le> MAX_DELAY"
    unfolding nd MAX_DELAY_def by simp_all
qed

text \<open>A turn on which nobody asks for a shutdown, whose connection ends with a retryable error.\<close>

definition transient :: "turn \<Rightarrow> bool" where
  "transient t \<longleftrightarrow> \<not> tn_shutdown t \<and> \<not> tn_shutdown_waiting t \<and> jitter_ok (tn_jitter t) \<and>
     (\<exists>e. tn_result t = Inl e \<and> \<not> is_fatal e)"

definition patient :: "nat \<Rightarrow> reconnect \<Rightarrow> bool" where
  "patient n s \<longleftrightarrow> rc_attempt s = of_nat n \<and> length (rc_waits s) = n - 1 \<and>
     secs 1 \<le> rc_delay s \<and> rc_delay s \<le> MAX_DELAY \<and> (\<forall>d \<in> set (rc_waits s). secs 1 \<le> d \<and> d \<le> MAX_DELAY) \<and>
     (if n \<le> 1 then rc_delay s = INITIAL_DELAY else hd (rc_waits s) = INITIAL_DELAY)"

lemma attempt_pos: "0 < n \<Longrightarrow> n < 2 ^ 32 \<Longrightarrow> (0 :: u32) < of_nat n"
  by (simp add: word_less_nat_alt unat_of_nat)

lemma transient_turn:
  assumes rnd: "f64_rounding rnd" and t: "transient t" and s: "patient n s" and n: "n < 2 ^ 32"
  obtains s' where "reconnect_turn rnd t s = (s', None)" "patient (Suc n) s'"
proof -
  obtain e where e: "tn_result t = Inl e" "\<not> is_fatal e" using t by (auto simp: transient_def)
  have flags: "\<not> tn_shutdown t" "\<not> tn_shutdown_waiting t" "jitter_ok (tn_jitter t)" using t by (simp_all add: transient_def)
  show ?thesis
  proof (cases "n = 0")
    case True
    then show ?thesis using that e flags s by (simp add: reconnect_turn_def patient_def)
  next
    case False
    then have "rc_attempt s > 0" using attempt_pos[of n] n s by (simp add: patient_def)
    moreover have "hd (rc_waits s @ [rc_delay s]) = INITIAL_DELAY"
      using s False by (cases "rc_waits s") (auto simp: patient_def split: if_splits)
    ultimately show ?thesis using that e flags s False next_delay_bounds[OF rnd flags(3), of "rc_delay s"]
      by (auto simp: reconnect_turn_def patient_def Let_def)
  qed
qed

lemma transient_turns:
  assumes "f64_rounding rnd" "list_all transient ts" "patient n s" "n + length ts < 2 ^ 32"
  shows "\<exists>s'. run_with_reconnect rnd ts s = (s', None) \<and> patient (n + length ts) s'"
  using assms
proof (induction ts arbitrary: n s)
  case (Cons t ts)
  obtain s1 where s1: "reconnect_turn rnd t s = (s1, None)" "patient (Suc n) s1"
    using transient_turn[OF Cons.prems(1) _ Cons.prems(3), of t] Cons.prems(2,4) by auto
  then show ?case using Cons.IH[OF Cons.prems(1) _ s1(2)] Cons.prems(2,4) by simp
qed simp

lemma reconnect_append:
  "run_with_reconnect rnd (ts @ us) s =
     (case run_with_reconnect rnd ts s of (s', None) \<Rightarrow> run_with_reconnect rnd us s' | r \<Rightarrow> r)"
  by (induction ts arbitrary: s) (auto split: prod.split option.split)



section \<open>Regions\<close>

lemma min_by_key_None: "min_by_key f xs = None \<longleftrightarrow> xs = []"
  by (cases xs) (auto split: option.splits)

lemma min_by_key_first:
  "min_by_key f xs = Some x \<Longrightarrow> \<exists>ys zs. xs = ys @ x # zs \<and> (\<forall>y \<in> set ys. f x < f y) \<and> (\<forall>z \<in> set zs. f x \<le> f z)"
proof (induction xs arbitrary: x)
  case (Cons a xs)
  show ?case
  proof (cases "min_by_key f xs")
    case None
    then show ?thesis using Cons.prems by (auto simp: min_by_key_None intro!: exI[of _ "[]"])
  next
    case (Some y)
    then obtain ys zs where y: "xs = ys @ y # zs" "\<forall>u \<in> set ys. f y < f u" "\<forall>u \<in> set zs. f y \<le> f u"
      using Cons.IH by blast
    show ?thesis
    proof (cases "f y < f a")
      case True
      then have "x = y" using Cons.prems Some by simp
      then show ?thesis using y True by (intro exI[of _ "a # ys"] exI[of _ zs]) auto
    next
      case False
      then have "x = a" using Cons.prems Some by simp
      then show ?thesis using y False by (intro exI[of _ "[]"] exI[of _ xs]) fastforce
    qed
  qed
qed simp

abbreviation latency :: "region_world \<Rightarrow> region_info \<Rightarrow> int" where
  "latency w ri \<equiv> as_millis (probe_latency w (ri_host ri) (ri_control_port ri))"

lemma nearest_None: "nearest w regions = None \<longleftrightarrow> regions = []"
  by (simp add: nearest_def min_by_key_None)

lemma nearest_Some:
  assumes "nearest w regions = Some s"
  shows "\<exists>ys ri zs. regions = ys @ ri # zs \<and> s = region_server ri \<and>
    (\<forall>y \<in> set ys. latency w ri < latency w y) \<and> (\<forall>z \<in> set zs. latency w ri \<le> latency w z)"
proof -
  obtain ri where "min_by_key (latency w) regions = Some ri" "s = region_server ri"
    using assms by (auto simp: nearest_def)
  then show ?thesis using min_by_key_first[of "latency w" regions ri] by blast
qed

text \<open>Loading the list again gives the same list: it is in the cache by then, or comes from where it came from.\<close>

lemma load_regions_again:
  assumes "load_regions host insecure w = (w', regions)"
  shows "load_regions host insecure w' = (w', regions)"
proof (cases "load_cache w")
  case None
  show ?thesis
  proof (cases "fetch_regions host insecure w")
    case (Some rs)
    then have w': "w' = save_cache rs w" "regions = rs" using assms None by (auto simp: load_regions_def)
    then have "load_cache w' = (if rw_cache_writable w then Some rs else None)"
      using None by (auto simp: save_cache_def load_cache_def)
    moreover have "fetch_regions host insecure w' = Some rs" "\<not> rw_cache_writable w \<Longrightarrow> save_cache rs w' = w'"
      using Some w' by (auto simp: fetch_regions_def save_cache_def)
    ultimately show ?thesis using w' by (simp add: load_regions_def)
  next
    case fetch: None
    then show ?thesis using assms None by (simp add: load_regions_def)
  qed
next
  case (Some rs)
  then show ?thesis using assms by (simp add: load_regions_def)
qed

text \<open>The choice of the server: without a preference the configured one; with the identifier of a region of the list
  that region; in all other cases the first region of the list with the least latency in milliseconds.  The panic on an
  empty list is reached exactly when the list has no region and a region is preferred.\<close>

theorem region_choice:
  assumes regions: "load_regions (extract_host server) insecure w = (w1, regions)"
    and pref: "pref = (case flag of Some r \<Rightarrow> Some r | None \<Rightarrow> configured)"
    and out: "resolve_server server flag configured insecure w = (w', choice)"
  shows "(pref = None \<longrightarrow> choice = Some server \<and> w' = w) \<and>
    (\<forall>r. pref = Some r \<longrightarrow>
       (case find (\<lambda>ri. r \<noteq> ''auto'' \<and> ri_id ri = r) regions of
          Some ri \<Rightarrow> choice = Some (region_server ri)
        | None \<Rightarrow>
            (choice = None \<longleftrightarrow> regions = []) \<and>
            (\<forall>s. choice = Some s \<longrightarrow> (\<exists>ys ri zs. regions = ys @ ri # zs \<and> s = region_server ri \<and>
               (\<forall>y \<in> set ys. latency w ri < latency w y) \<and> (\<forall>z \<in> set zs. latency w ri \<le> latency w z)))))"
proof -
  have probe: "probe_latency w1 = probe_latency w" using regions
    by (auto simp: load_regions_def probe_latency_def save_cache_def fun_eq_iff split: option.splits if_splits)
  have near: "choice = nearest w1 regions" if "pref = Some r" "find (\<lambda>ri. r \<noteq> ''auto'' \<and> ri_id ri = r) regions = None" for r
  proof -
    have "r = ''auto'' \<or> find (\<lambda>ri. ri_id ri = r) regions = None" using that(2) by (auto simp: find_None_iff)
    then show ?thesis using that(1) out pref regions load_regions_again[OF regions]
      by (auto simp: resolve_server_def auto_select_def split: if_splits option.splits)
  qed
  have some: "choice = Some (region_server ri)"
    if "pref = Some r" "find (\<lambda>ri. r \<noteq> ''auto'' \<and> ri_id ri = r) regions = Some ri" for r ri
  proof -
    have "r \<noteq> ''auto''" using that(2) by (auto simp: find_Some_iff)
    then show ?thesis using that out pref regions by (auto simp: resolve_server_def split: option.splits)
  qed
  have none: "choice = Some server \<and> w' = w" if "pref = None"
    using that out pref by (auto simp: resolve_server_def split: option.splits)
  have same: "nearest w1 regions = nearest w regions" by (simp add: nearest_def probe)
  show ?thesis using none some near
    by (auto simp: same nearest_None split: option.split dest!: nearest_Some)
qed

definition example_regions :: region_world where
  "example_regions = \<lparr>rw_now = 5, rw_cache = None, rw_cache_writable = True, rw_api = (\<lambda>_ _. None),
     rw_connect = (\<lambda>host _. if hd host = CHR ''u'' then Some 3000000 else None)\<rparr>"

theorem region_choice_witness:
  "snd (resolve_server ''eu.edge.rustunnel.com:4040'' (Some ''mars'') None False example_regions) = Some (''us.edge.rustunnel.com:'' @ dec_string 4040)"
proof -
  obtain w' choice where out: "resolve_server ''eu.edge.rustunnel.com:4040'' (Some ''mars'') None False example_regions = (w', choice)"
    by fastforce
  have reg: "load_regions (extract_host ''eu.edge.rustunnel.com:4040'') False example_regions = (example_regions, builtin_regions)"
    by (simp add: load_regions_def load_cache_def fetch_regions_def example_regions_def)
  have none: "find (\<lambda>ri. ''mars'' \<noteq> ''auto'' \<and> ri_id ri = ''mars'') builtin_regions = None" by (simp add: builtin_regions_def)
  have "choice \<noteq> None" using region_choice[OF reg refl out] none by (simp add: builtin_regions_def)
  then obtain s ys ri zs where s: "choice = Some s" "builtin_regions = ys @ ri # zs" "s = region_server ri"
    and first: "\<forall>y \<in> set ys. latency example_regions ri < latency example_regions y"
    and least: "\<forall>z \<in> set zs. latency example_regions ri \<le> latency example_regions z"
    using region_choice[OF reg refl out] none by auto
  have ri: "ri \<in> set builtin_regions" unfolding s(2) by simp
  have "builtin_regions ! 1 \<in> set builtin_regions" by (rule nth_mem) (simp add: builtin_regions_def)
  moreover have "set builtin_regions = set ys \<union> {ri} \<union> set zs" unfolding s(2) by auto
  ultimately have "latency example_regions ri \<le> latency example_regions (builtin_regions ! 1)" using first least by auto
  also have "\<dots> = 3" by (simp add: builtin_regions_def probe_latency_def example_regions_def as_millis_def)
  finally have "hd (ri_host ri) = CHR ''u''"
    by (simp add: probe_latency_def example_regions_def as_millis_def split: if_splits)
  then have "ri_host ri = ''us.edge.rustunnel.com'' \<and> ri_control_port ri = 4040" using ri by (auto simp: builtin_regions_def)
  then have "choice = Some (''us.edge.rustunnel.com'' @ '':'' @ dec_string 4040)"
    using s by (simp add: region_server_def)
  then show ?thesis by (simp add: out)
qed

section \<open>Versions\<close>

lemma digit_char_value: "d < 10 \<Longrightarrow> to_digit 10 (digit_char d) = Some d"
  by (simp add: to_digit_def digit_char_def in_range_def Let_def)

lemma digits_value_dec: "n \<le> bound \<Longrightarrow> digits_value 10 bound 0 (dec_string n) = Some n"
proof (induction n rule: dec_string.induct)
  case (1 n)
  show ?case
  proof (cases "n < 10")
    case True
    then show ?thesis using 1 by (subst dec_string.simps) (simp add: digit_char_value)
  next
    case False
    have d: "n div 10 * 10 + n mod 10 = n" by simp
    show ?thesis using 1 False d by (subst dec_string.simps) (simp add: digits_value_append digit_char_value)
  qed
qed

lemma dec_string_digits: "list_all is_ascii_digit (dec_string n)"
proof (induction n rule: dec_string.induct)
  case (1 n)
  have "is_ascii_digit (digit_char d)" if "d < 10" for d using that by (simp add: is_ascii_digit_def digit_char_def)
  then show ?case using 1 by (subst dec_string.simps) simp
qed

lemma u32_dec: "n \<le> 4294967295 \<Longrightarrow> u32_from_str (dec_string n) = Some n"
proof -
  assume n: "n \<le> 4294967295"
  have "is_ascii_digit (hd (dec_string n))" using dec_string_digits[of n] by (cases "dec_string n") auto
  then have "hd (dec_string n) \<noteq> CHR ''+''" by (auto simp: is_ascii_digit_def)
  then show ?thesis using digits_value_dec[OF n] by (simp add: u32_from_str_def)
qed

lemma str_split_piece: "d \<notin> set p \<Longrightarrow> str_split d (p @ d # s) = p # str_split d s"
  by (induction p) auto

lemma str_split_last: "d \<notin> set p \<Longrightarrow> str_split d p = [p]"
  by (induction p) auto

lemma digits_avoid: "\<not> is_ascii_digit c \<Longrightarrow> c \<notin> set (dec_string n)"
  using dec_string_digits[of n] by (auto simp: list_all_iff)

text \<open>The version gate reads what a server of any version reports: for a version in the usual form, with or without a
  pre-release or build suffix, the parts are read back exactly, and the load-balancing fields and the probes are
  used iff the version is at least 0.7.\<close>

theorem semver_roundtrip:
  assumes "a \<le> 4294967295" "b \<le> 4294967295" "c \<le> 4294967295"
    and "ext = [] \<or> hd ext = CHR ''-'' \<or> hd ext = CHR ''+''"
  shows "parse_semver (dec_string a @ ''.'' @ dec_string b @ ''.'' @ dec_string c @ ext) = Some (a, b, c) \<and>
    (server_supports_load_balancing (dec_string a @ ''.'' @ dec_string b @ ''.'' @ dec_string c @ ext) \<longleftrightarrow> 0 < a \<or> 7 \<le> b)"
proof -
  define core where "core = dec_string a @ ''.'' @ dec_string b @ ''.'' @ dec_string c"
  have nodot: "CHR ''.'' \<notin> set (dec_string n)" "CHR ''-'' \<notin> set (dec_string n)" "CHR ''+'' \<notin> set (dec_string n)" for n
    by (rule digits_avoid; simp add: is_ascii_digit_def)+
  have "takeWhile (\<lambda>c. c \<noteq> CHR ''-'' \<and> c \<noteq> CHR ''+'') (core @ ext) = core"
  proof -
    have "\<And>x. x \<in> set core \<Longrightarrow> x \<noteq> CHR ''-'' \<and> x \<noteq> CHR ''+''" using nodot by (auto simp: core_def)
    then have "takeWhile (\<lambda>c. c \<noteq> CHR ''-'' \<and> c \<noteq> CHR ''+'') (core @ ext) =
        core @ takeWhile (\<lambda>c. c \<noteq> CHR ''-'' \<and> c \<noteq> CHR ''+'') ext" by (simp add: takeWhile_append2)
    then show ?thesis using assms(4) by (cases ext) auto
  qed
  moreover have "str_split (CHR ''.'') core = [dec_string a, dec_string b, dec_string c]"
    using nodot by (simp add: core_def str_split_piece str_split_last)
  ultimately have p: "parse_semver (core @ ext) = Some (a, b, c)"
    using assms(1-3) by (simp add: parse_semver_def u32_dec)
  then show ?thesis
    by (auto simp: core_def server_supports_load_balancing_def version_ge_def MIN_SERVER_VERSION_FOR_LOAD_BALANCING_def)
qed

theorem semver_roundtrip_witness: "parse_semver (dec_string 0 @ ''.'' @ dec_string 6 @ ''.'' @ dec_string 99 @ ''-rc1'') = Some (0, 6, 99)"
  using semver_roundtrip[of 0 6 99 "''-rc1''"] by simp

section \<open>Error texts\<close>

text \<open>The client recognises every plan-limit message the server sends: it shows the text of the server alone, without
  an error prefix and without a hint.\<close>

theorem hobby_messages_recognised:
  "is_hobby_limit_message (reason_message r s) \<and>
   client_error_rendered (CeTunnel (reason_message r s)) = reason_message r s \<and>
   client_public_message (CeTunnel (reason_message r s)) = reason_message r s \<and>
   client_error_hint (CeTunnel (reason_message r s)) = None"
proof -
  have "is_hobby_limit_message (reason_message r s)"
    by (cases r) (auto simp: is_hobby_limit_message_def starts_with_def)
  then show ?thesis by (simp add: client_error_rendered_def client_public_message_def client_error_hint_def)
qed

end
