(* ===== verification/ClientControl.thy ===== *)
theory ClientControl
  imports ClientSetup Stun Inspect Session
begin

text \<open>
  The control connection of the client (\<open>control.rs\<close>): authentication, registration of the tunnels, and the work between
  registration and the main loop.  The peer is a pair of functions on a state of any type, what a sent frame does to it
  and what the next receive yields, so that the server session of \<^theory_text>\<open>Session\<close> can be plugged in as the peer.  Printing
  is left out; the inspector, which the interfaces read, is part of the state.
\<close>

section \<open>The peer and the environment\<close>

datatype recv_event = RvTimeout | RvClosed | RvError string | RvMsg ws_message

record 's peer =
  pe_send :: "control_frame \<Rightarrow> 's \<Rightarrow> 's \<times> (string + unit)"
  pe_recv :: "'s \<Rightarrow> 's \<times> recv_event"

record client_env =
  cl_decode :: "string \<Rightarrow> string + control_frame"
  cl_frame_debug :: "control_frame \<Rightarrow> string"
  cl_sha256_hex :: "string \<Rightarrow> string"
  cl_to_lowercase :: "string \<Rightarrow> string"
  cl_uuid :: "uuid \<Rightarrow> string"
  cl_addr :: "socket_addr \<Rightarrow> string"
  cl_version :: string
  cl_surface :: "string option"
  cl_json_mode :: bool
  cl_bind_error :: "string \<Rightarrow> string option"

section \<open>Frames\<close>

definition client_parse_binary :: "client_env \<Rightarrow> ws_message \<Rightarrow> client_error + control_frame" where
  "client_parse_binary env msg =
     (case msg of
        WsBinary data \<Rightarrow> (case cl_decode env data of Inl e \<Rightarrow> Inl (CeProtocol e) | Inr f \<Rightarrow> Inr f)
      | WsOther other \<Rightarrow> Inl (CeConnection (''expected binary frame, got '' @ other)))"

definition client_send_frame :: "'s peer \<Rightarrow> control_frame \<Rightarrow> 's \<Rightarrow> 's \<times> (client_error + unit)" where
  "client_send_frame pe f s =
     (case pe_send pe f s of (s', Inl e) \<Rightarrow> (s', Inl (CeConnection e)) | (s', Inr _) \<Rightarrow> (s', Inr ()))"

definition recv_frame_timeout :: "client_env \<Rightarrow> 's peer \<Rightarrow> 's \<Rightarrow> 's \<times> (client_error + control_frame)" where
  "recv_frame_timeout env pe s =
     (case pe_recv pe s of
        (s', RvTimeout) \<Rightarrow> (s', Inl (CeConnection ''timeout waiting for server response''))
      | (s', RvClosed) \<Rightarrow> (s', Inl (CeConnection ''connection closed''))
      | (s', RvError e) \<Rightarrow> (s', Inl (CeConnection e))
      | (s', RvMsg msg) \<Rightarrow> (s', client_parse_binary env msg))"

definition with_server_context :: "client_error \<Rightarrow> string \<Rightarrow> client_error" where
  "with_server_context e server =
     (case e of CeConnection msg \<Rightarrow> CeConnection (msg @ '' (server '' @ server @ '')'') | _ \<Rightarrow> e)"

definition proto_to_enum :: "client_env \<Rightarrow> string \<Rightarrow> client_error + tunnel_protocol" where
  "proto_to_enum env proto =
     (let p = cl_to_lowercase env proto
      in if p = ''http'' then Inr Http
         else if p = ''https'' then Inr Https
         else if p = ''tcp'' then Inr Tcp
         else if p = ''udp'' then Inr Udp
         else if p = ''p2p'' then Inr P2p
         else Inl (CeConfig (''unknown protocol: '' @ p)))"

definition client_surface_from_value :: "string option \<Rightarrow> string option" where
  "client_surface_from_value raw =
     (case raw of
        Some s \<Rightarrow> if eq_ignore_ascii_case (str_trim s) ''mcp'' then Some ''mcp'' else None
      | None \<Rightarrow> None)"

definition local_addr_of :: "tunnel_def \<Rightarrow> string" where
  "local_addr_of t = td_local_host t @ '':'' @ dec_string (unat (td_local_port t))"

definition tunnel_label :: "tunnel_def \<Rightarrow> string" where
  "tunnel_label t =
     (case td_subdomain t of
        Some s \<Rightarrow> s
      | None \<Rightarrow> (case td_p2p_name t of
                   Some n \<Rightarrow> n
                 | None \<Rightarrow> (case td_p2p_target t of Some x \<Rightarrow> x | None \<Rightarrow> ''tunnel'')))"

section \<open>Authentication\<close>

definition em_dash :: string where
  "em_dash = [CHR 0xE2, CHR 0x80, CHR 0x94]"

definition token_desc :: "client_config \<Rightarrow> string" where
  "token_desc cfg =
     (if (case cc_auth_token cfg of None \<Rightarrow> [] | Some t \<Rightarrow> t) = [] then ''no auth token was provided''
      else ''the token came from the '' @
        (case cc_auth_token_source cfg of Some s \<Rightarrow> s | None \<Rightarrow> ''client configuration''))"

definition client_authenticate ::
  "client_env \<Rightarrow> client_config \<Rightarrow> 's peer \<Rightarrow> 's \<Rightarrow> 's \<times> (client_error + uuid \<times> bool)" where
  "client_authenticate env cfg pe s =
     (case client_send_frame pe (Auth (case cc_auth_token cfg of None \<Rightarrow> [] | Some t \<Rightarrow> t) (cl_version env)) s of
        (s1, Inl e) \<Rightarrow> (s1, Inl e)
      | (s1, Inr _) \<Rightarrow>
          (case recv_frame_timeout env pe s1 of
             (s2, Inl e) \<Rightarrow> (s2, Inl (with_server_context e (cc_server cfg)))
           | (s2, Inr (AuthOk session_id server_version)) \<Rightarrow>
               (s2, Inr (session_id, server_supports_load_balancing server_version))
           | (s2, Inr (AuthError message)) \<Rightarrow>
               (s2, Inl (CeAuth (''server '' @ cc_server cfg @ '' rejected authentication: '' @ message @
                  '' ('' @ token_desc cfg @ '') '' @ em_dash @
                  '' get a token at https://rustunnel.com (Dashboard -> API Keys), '' @
                  ''or for a self-hosted server create one with `rustunnel token create`'')))
           | (s2, Inr other) \<Rightarrow> (s2, Inl (CeConnection (''unexpected frame during auth: '' @ cl_frame_debug env other)))))"

section \<open>Registration\<close>

text \<open>The version gate: the load-balancing fields are sent only to a server that knows them.\<close>

definition effective_fields ::
  "client_env \<Rightarrow> bool \<Rightarrow> tunnel_def \<Rightarrow> client_error + string option \<times> string option \<times> health_check_spec option" where
  "effective_fields env supports_lb t =
     (if supports_lb
      then (case td_health_check t of
              None \<Rightarrow> Inr (td_group t, map_option (cl_sha256_hex env) (td_group_key t), None)
            | Some hc \<Rightarrow>
                (case health_check_to_wire hc of
                   Inl e \<Rightarrow> Inl e
                 | Inr wire \<Rightarrow> Inr (td_group t, map_option (cl_sha256_hex env) (td_group_key t), Some wire)))
      else Inr (None, None, None))"

definition registration_frame ::
  "client_env \<Rightarrow> bool \<Rightarrow> uuid \<Rightarrow> tunnel_def \<Rightarrow> client_error + control_frame" where
  "registration_frame env supports_lb request_id t =
     bind_result (proto_to_enum env (td_proto t)) (\<lambda>protocol.
       bind_result (effective_fields env supports_lb t) (\<lambda>(grp, key_hash, hc).
         Inr (RegisterTunnel (cl_uuid env request_id) protocol (td_subdomain t) (local_addr_of t)
                (td_p2p_secret_hash t) (td_p2p_name t) grp key_hash hc
                (client_surface_from_value (cl_surface env)))))"

text \<open>One tunnel: the reply decides; a notice that is not empty is kept.\<close>

definition registration_outcome ::
  "client_env \<Rightarrow> tunnel_def \<Rightarrow> client_error + control_frame \<Rightarrow> client_error + (tunnel_def \<times> string) \<times> string list" where
  "registration_outcome env t reply =
     (case reply of
        Inl e \<Rightarrow> Inl e
      | Inr (TunnelRegistered _ tunnel_id public_url _ _ notice) \<Rightarrow>
          Inr ((t\<lparr>td_registered_tunnel_id := Some tunnel_id\<rparr>, public_url),
               case notice of Some n \<Rightarrow> if n = [] then [] else [n] | None \<Rightarrow> [])
      | Inr (TunnelError _ message) \<Rightarrow> Inl (CeTunnel message)
      | Inr other \<Rightarrow> Inl (CeConnection (''unexpected frame during registration: '' @ cl_frame_debug env other)))"

definition register_one ::
  "client_env \<Rightarrow> bool \<Rightarrow> 's peer \<Rightarrow> uuid \<Rightarrow> tunnel_def \<Rightarrow> 's \<Rightarrow>
   's \<times> (client_error + (tunnel_def \<times> string) \<times> string list)" where
  "register_one env supports_lb pe request_id t s =
     (case registration_frame env supports_lb request_id t of
        Inl e \<Rightarrow> (s, Inl e)
      | Inr frame \<Rightarrow>
          (case client_send_frame pe frame s of
             (s1, Inl e) \<Rightarrow> (s1, Inl e)
           | (s1, Inr _) \<Rightarrow>
               (case recv_frame_timeout env pe s1 of (s2, reply) \<Rightarrow> (s2, registration_outcome env t reply))))"

fun register_tunnels ::
  "client_env \<Rightarrow> bool \<Rightarrow> 's peer \<Rightarrow> (tunnel_def \<times> uuid) list \<Rightarrow> 's \<Rightarrow>
   's \<times> (client_error + (tunnel_def \<times> string) list \<times> string list)" where
  "register_tunnels env lb pe [] s = (s, Inr ([], []))"
| "register_tunnels env lb pe ((t, request_id) # rest) s =
     (if td_p2p_target t \<noteq> None
      then (case register_tunnels env lb pe rest s of
              (s', Inl e) \<Rightarrow> (s', Inl e)
            | (s', Inr (registered, notices)) \<Rightarrow> (s', Inr ((t, []) # registered, notices)))
      else (case register_one env lb pe request_id t s of
              (s1, Inl e) \<Rightarrow> (s1, Inl e)
            | (s1, Inr (entry, notice)) \<Rightarrow>
                (case register_tunnels env lb pe rest s1 of
                   (s', Inl e) \<Rightarrow> (s', Inl e)
                 | (s', Inr (registered, notices)) \<Rightarrow> (s', Inr (entry # registered, notice @ notices)))))"

section \<open>After registration\<close>

text \<open>NAT reports of the P2P publishers; \<open>nat\<close> is the result of the probe.\<close>

definition nat_report :: "client_env \<Rightarrow> stun_result \<Rightarrow> uuid \<Rightarrow> control_frame" where
  "nat_report env r tid =
     P2pNatInfo tid (nat_type_str (sr_nat_type r)) (map (cl_addr env) (sr_mapped_addrs r)) (map (cl_addr env) (sr_local_addrs r))"

fun report_nat ::
  "client_env \<Rightarrow> 's peer \<Rightarrow> (tunnel_def \<Rightarrow> stun_result) \<Rightarrow> (tunnel_def \<times> string) list \<Rightarrow> 's \<Rightarrow> 's \<times> (client_error + unit)" where
  "report_nat env pe probe [] s = (s, Inr ())"
| "report_nat env pe probe ((t, url) # rest) s =
     (case (td_p2p_name t, td_registered_tunnel_id t) of
        (Some _, Some tid) \<Rightarrow>
          (case client_send_frame pe (nat_report env (probe t) tid) s of
             (s', Inl e) \<Rightarrow> (s', Inl e)
           | (s', Inr _) \<Rightarrow> report_nat env pe probe rest s')
      | _ \<Rightarrow> report_nat env pe probe rest s)"

text \<open>The first subscriber with a target and a secret hash, and the listener of the first subscriber.\<close>

fun p2p_subscription :: "tunnel_def list \<Rightarrow> (string \<times> string \<times> string) option" where
  "p2p_subscription [] = None"
| "p2p_subscription (t # ts) =
     (case (td_p2p_target t, td_p2p_secret_hash t) of
        (Some target, Some hash) \<Rightarrow> Some (target, hash, case td_p2p_secret t of Some x \<Rightarrow> x | None \<Rightarrow> [])
      | _ \<Rightarrow> p2p_subscription ts)"

definition subscriber_listener :: "client_env \<Rightarrow> tunnel_def list \<Rightarrow> client_error + string option" where
  "subscriber_listener env ts =
     (case find (\<lambda>t. td_p2p_target t \<noteq> None) ts of
        None \<Rightarrow> Inr None
      | Some sub \<Rightarrow>
          (case cl_bind_error env (local_addr_of sub) of
             Some e \<Rightarrow> Inl (CeConnection (''P2P subscriber: cannot bind '' @ local_addr_of sub @ '': '' @ e))
           | None \<Rightarrow> Inr (Some (local_addr_of sub))))"

definition ui_tunnel_of :: "tunnel_def \<times> string \<Rightarrow> ui_tunnel" where
  "ui_tunnel_of entry =
     (case entry of (t, url) \<Rightarrow>
        \<lparr>ut_name = tunnel_label t, ut_proto = td_proto t, ut_local = local_addr_of t,
         ut_public_url = (if url = [] then (case td_p2p_target t of Some x \<Rightarrow> ''p2p://'' @ x | None \<Rightarrow> []) else url),
         ut_healthy = None\<rparr>)"

text \<open>The probe tasks to start: one per registered tunnel with a valid health check, for servers that take reports.\<close>

definition probe_tasks :: "bool \<Rightarrow> (tunnel_def \<times> string) list \<Rightarrow> (uuid \<times> string \<times> probe_spec) list" where
  "probe_tasks supports_lb registered =
     (if supports_lb
      then List.map_filter (\<lambda>(t, url).
             case (td_health_check t, td_registered_tunnel_id t) of
               (Some cfg, Some tid) \<Rightarrow>
                 (case probe_spec_from_config cfg of Inr spec \<Rightarrow> Some (tid, local_addr_of t, spec) | Inl e \<Rightarrow> None)
             | _ \<Rightarrow> None) registered
      else [])"

section \<open>The connection\<close>

record connected =
  cn_session_id :: uuid
  cn_registered :: "(tunnel_def \<times> string) list"
  cn_subscription :: "(string \<times> string \<times> string) option"
  cn_listener :: "string option"
  cn_probes :: "(uuid \<times> string \<times> probe_spec) list"

text \<open>\<open>connect\<close> up to the main loop.  \<open>reach\<close> is the error of the WebSocket connection, if it fails.\<close>

definition client_connect ::
  "client_env \<Rightarrow> client_config \<Rightarrow> 's peer \<Rightarrow> string option \<Rightarrow> (tunnel_def \<Rightarrow> stun_result) \<Rightarrow> (tunnel_def \<times> uuid) list \<Rightarrow>
   inspector \<times> 's \<Rightarrow> (inspector \<times> 's) \<times> (client_error + connected)" where
  "client_connect env cfg pe reach probe tunnels st =
     (case st of (i0, s) \<Rightarrow>
      let i = set_server (cc_server cfg) (set_status Connecting i0)
      in case reach of
           Some e \<Rightarrow>
             ((i, s), Inl (CeConnection (''cannot reach '' @ cc_server cfg @ '' ('' @ e @ '') '' @ em_dash @
                '' check network/DNS, or pass --server <host:port> or --region <eu|us|ap> to pick a different edge'')))
         | None \<Rightarrow>
             (case client_authenticate env cfg pe s of
                (s1, Inl e) \<Rightarrow> ((i, s1), Inl e)
              | (s1, Inr (session_id, supports_lb)) \<Rightarrow>
                  (case register_tunnels env supports_lb pe tunnels s1 of
                     (s2, Inl e) \<Rightarrow> ((i, s2), Inl e)
                   | (s2, Inr (registered, notices)) \<Rightarrow>
                       (case report_nat env pe probe registered s2 of
                          (s3, Inl e) \<Rightarrow> ((i, s3), Inl e)
                        | (s3, Inr _) \<Rightarrow>
                            (case subscriber_listener env (map fst tunnels) of
                               Inl e \<Rightarrow> ((i, s3), Inl e)
                             | Inr listener \<Rightarrow>
                                 let i1 = set_status Online (set_tunnels (map ui_tunnel_of registered) i);
                                     i2 = (if cl_json_mode env then i1 else fold push_log notices i1)
                                 in ((i2, s3),
                                     Inr \<lparr>cn_session_id = session_id, cn_registered = registered,
                                          cn_subscription = p2p_subscription (map fst tunnels), cn_listener = listener,
                                          cn_probes = probe_tasks supports_lb registered\<rparr>))))))"

end
