(* ===== verification/ClientServer.thy ===== *)
theory ClientServer
  imports ClientControl SessionProps
begin

text \<open>
  Client and server together: the session of the server is the peer of the client's control connection.  What both
  need of the JSON codec, that decoding an encoded frame gives it back, is recorded along the run, as is the freshness of
  the identifiers the server draws; a run in which both hold is a hypothesis of the theorem.
\<close>

section \<open>The session as a peer\<close>

text \<open>The server's side of the connection: its environment, the codec, the clock and the identifiers it draws at each
  step, and the parameters of the accepted connection.\<close>

record server_side =
  ss_ev :: env
  ss_cfg :: server_config
  ss_enc :: "control_frame \<Rightarrow> string"
  ss_clock :: "nat \<Rightarrow> instant"
  ss_ids :: "nat \<Rightarrow> uuid \<times> uuid \<times> uuid \<times> uuid"
  ss_session :: uuid
  ss_addr :: socket_addr
  ss_tx :: nat
  ss_pipe :: nat

text \<open>The state: the session context once authenticated, whether the session still runs, how many of the sent frames the
  client has read, the number of steps, and whether so far all tunnel identifiers drawn were unused and all frames decoded to what
  was encoded.\<close>

record served =
  sv_world :: world
  sv_ctx :: "session_ctx option"
  sv_open :: bool
  sv_read :: nat
  sv_step :: nat
  sv_ok :: bool

definition served_start :: "world \<Rightarrow> served" where
  "served_start w = \<lparr>sv_world = w, sv_ctx = None, sv_open = True, sv_read = length (w_sent w), sv_step = 0, sv_ok = True\<rparr>"

definition tunnel_id_at :: "server_side \<Rightarrow> nat \<Rightarrow> uuid" where
  "tunnel_id_at ss n = fst (snd (ss_ids ss n))"

definition decodes :: "server_side \<Rightarrow> control_frame \<Rightarrow> bool" where
  "decodes ss f \<longleftrightarrow> ev_decode (ss_ev ss) (ss_enc ss f) = Inr f"

definition serve_message :: "server_side \<Rightarrow> session_ctx \<Rightarrow> control_frame \<Rightarrow> served \<Rightarrow> served" where
  "serve_message ss ctx f s =
     (let n = sv_step s;
          s1 = s\<lparr>sv_step := n + 1, sv_ok := sv_ok s \<and> decodes ss f \<and> fresh_tunnel_id (tunnel_id_at ss n) (w_core (sv_world s))\<rparr>
      in case handle_client_message (ss_ev ss) (ss_cfg ss) ctx (ss_clock ss n) (ss_ids ss n) (WsBinary (ss_enc ss f)) (sv_world s) of
           (w, Inl e) \<Rightarrow> s1\<lparr>sv_world := session_cleanup (ss_clock ss n) (sc_session_id ctx) w, sv_open := False\<rparr>
         | (w, Inr _) \<Rightarrow> s1\<lparr>sv_world := w\<rparr>)"

definition serve_auth :: "server_side \<Rightarrow> control_frame \<Rightarrow> served \<Rightarrow> served" where
  "serve_auth ss f s =
     (let n = sv_step s; s1 = s\<lparr>sv_step := n + 1, sv_ok := sv_ok s \<and> decodes ss f\<rparr>
      in case auth_handshake (ss_ev ss) (ss_cfg ss) (ss_clock ss n) (ss_session ss) (ss_addr ss) (ss_tx ss)
                (AuthMsg (WsBinary (ss_enc ss f))) (sv_world s) of
           (w, Inl e) \<Rightarrow> s1\<lparr>sv_world := w, sv_open := False\<rparr>
         | (w, Inr (sid, db)) \<Rightarrow>
             s1\<lparr>sv_world := w\<lparr>w_core := set_data_pipe sid (ss_pipe ss) (w_core w)\<rparr>,
                sv_ctx := Some \<lparr>sc_session_id = sid, sc_db_token = db\<rparr>\<rparr>)"

definition server_peer :: "(string \<Rightarrow> string + control_frame) \<Rightarrow> server_side \<Rightarrow> served peer" where
  "server_peer dec ss =
     \<lparr>pe_send = (\<lambda>f s. if \<not> sv_open s then (s, Inl ''broken pipe'')
                     else (case sv_ctx s of None \<Rightarrow> serve_auth ss f s | Some ctx \<Rightarrow> serve_message ss ctx f s, Inr ())),
      pe_recv = (\<lambda>s. if sv_read s < length (w_sent (sv_world s))
                    then let f = w_sent (sv_world s) ! sv_read s
                         in (s\<lparr>sv_read := sv_read s + 1, sv_ok := sv_ok s \<and> dec (ss_enc ss f) = Inr f\<rparr>,
                             RvMsg (WsBinary (ss_enc ss f)))
                    else (s, if sv_open s then RvTimeout else RvClosed))\<rparr>"

text \<open>A session in its main loop, with every frame read by the client.\<close>

definition running_session :: "u16 set \<Rightarrow> u16 set \<Rightarrow> uuid \<Rightarrow> served \<Rightarrow> bool" where
  "running_session TR UR sid s \<longleftrightarrow> sv_open s \<and> (\<exists>db. sv_ctx s = Some \<lparr>sc_session_id = sid, sc_db_token = db\<rparr>) \<and>
     core_inv TR UR (w_core (sv_world s)) \<and> w_ws_up (sv_world s) \<and> sv_read s = length (w_sent (sv_world s))"

text \<open>What the client is told about a tunnel agrees with the table of the server.\<close>

definition agrees :: "client_env \<Rightarrow> server_config \<Rightarrow> tunnel_def \<times> string \<Rightarrow> uuid \<times> tunnel_key \<Rightarrow> bool" where
  "agrees env cfg entry route \<longleftrightarrow>
     (case (entry, route) of ((t, url), (tid, k)) \<Rightarrow>
        td_registered_tunnel_id t = Some tid \<and>
        (\<exists>prot proto_str label port nm. proto_to_enum env (td_proto t) = Inr prot \<and> key_serves prot k \<and>
           announcement_for cfg prot tid k = (tid, proto_str, label, url, port, nm)))"

definition routes_of :: "uuid \<Rightarrow> (uuid \<times> tunnel_key) list \<Rightarrow> uuid \<rightharpoonup> uuid \<times> tunnel_key" where
  "routes_of sid rs = map_of (map (\<lambda>(tid, k). (tid, (sid, k))) rs)"

section \<open>One registration\<close>

lemma send_in_session:
  assumes "sv_open s" "sv_ctx s = Some ctx"
  shows "client_send_frame (server_peer (cl_decode env) ss) f s = (serve_message ss ctx f s, Inr ())"
  using assms by (simp add: client_send_frame_def server_peer_def)

lemma served_frame:
  assumes "decodes ss f"
  shows "handle_client_message (ss_ev ss) cfg ctx now ids (WsBinary (ss_enc ss f)) w = handle_frame (ss_ev ss) cfg ctx now ids f w"
  using assms by (simp add: handle_client_message_def parse_binary_def decodes_def)

lemma recv_reply:
  assumes "w_sent (sv_world s) = sent @ [f]" "sv_read s = length sent"
    and "recv_frame_timeout env (server_peer (cl_decode env) ss) s = (s', r)" "sv_ok s'"
  shows "s' = s\<lparr>sv_read := length (w_sent (sv_world s))\<rparr>" "r = Inr f"
  using assms by (auto simp: recv_frame_timeout_def server_peer_def client_parse_binary_def)

lemma recv_closed:
  assumes "sv_read s = length (w_sent (sv_world s))"
  shows "\<exists>e. recv_frame_timeout env (server_peer (cl_decode env) ss) s = (s, Inl e)"
  using assms by (simp add: recv_frame_timeout_def server_peer_def)

lemma cleanup_sent: "w_sent (session_cleanup now sid w) = w_sent w"
proof -
  have "w_sent (fold (log_unregistered now) ms w) = w_sent w" for ms
    by (induction ms arbitrary: w) simp_all
  then show ?thesis by (simp add: session_cleanup_def Let_def)
qed

lemma recv_ok: "recv_frame_timeout env (server_peer dec ss) s = (s', r) \<Longrightarrow> sv_ok s' \<Longrightarrow> sv_ok s"
  by (auto simp: recv_frame_timeout_def server_peer_def Let_def split: if_splits)

lemma serve_message_ok:
  "sv_ok (serve_message ss ctx f s) \<Longrightarrow>
   sv_ok s \<and> decodes ss f \<and> fresh_tunnel_id (tunnel_id_at ss (sv_step s)) (w_core (sv_world s))"
  by (auto simp: serve_message_def Let_def split: prod.splits sum.splits)

lemma serve_auth_ok: "sv_ok (serve_auth ss f s) = (sv_ok s \<and> decodes ss f)"
  by (auto simp: serve_auth_def Let_def split: prod.splits sum.splits)

lemma send_ok:
  assumes "client_send_frame (server_peer dec ss) f s = (s', r)" "sv_ok s'"
  shows "sv_ok s"
  using assms serve_message_ok serve_auth_ok
  by (auto simp: client_send_frame_def server_peer_def split: if_splits option.splits)

text \<open>Serving a registration, when the identifier drawn is unused: the reply decides, and the client reads exactly it.\<close>

lemma serve_registration:
  assumes ins: "running_session TR UR sid s" and f: "f = RegisterTunnel req prot sd la sh name grp kh hc cs"
    and ctx: "sv_ctx s = Some ctx" and s1: "s1 = serve_message ss ctx f s"
    and recv: "recv_frame_timeout env (server_peer (cl_decode env) ss) s1 = (s2, r)" and ok: "sv_ok s2"
    and tid: "tid = tunnel_id_at ss (sv_step s)"
  shows "(\<exists>e. r = Inl e) \<or> (\<exists>msg. r = Inr (TunnelError req msg)) \<or>
    (\<exists>k proto_str label url port nm notice. r = Inr (TunnelRegistered req tid url port nm notice) \<and>
       running_session TR UR sid s2 \<and> key_serves prot k \<and>
       announcement_for (ss_cfg ss) prot tid k = (tid, proto_str, label, url, port, nm) \<and>
       abs_core (w_core (sv_world s)) tid = None \<and>
       abs_core (w_core (sv_world s2)) = (abs_core (w_core (sv_world s)))(tid \<mapsto> (sid, k)))"
proof -
  define w where "w = sv_world s"
  define n where "n = sv_step s"
  obtain rnd conn sub where ids: "ss_ids ss n = (rnd, tid, conn, sub)"
    by (metis prod.collapse tunnel_id_at_def tid n_def)
  have inv: "core_inv TR UR (w_core w)" and up: "w_ws_up w" and opn: "sv_open s" and rd: "sv_read s = length (w_sent w)"
    and sid: "sc_session_id ctx = sid"
    using ins ctx by (auto simp: running_session_def w_def)
  have ok1: "sv_ok s1" using recv_ok[OF recv ok] .
  then have dec: "decodes ss f" and fr: "fresh_tunnel_id tid (w_core w)"
    using serve_message_ok[of ss ctx f s] by (simp_all add: s1 w_def tid)
  obtain w' r' where step: "handle_frame (ss_ev ss) (ss_cfg ss) ctx (ss_clock ss n) (rnd, tid, conn, sub) f w = (w', r')" by fastforce
  have s1': "s1 = (case r' of Inl e \<Rightarrow> s\<lparr>sv_step := n + 1, sv_ok := sv_ok s1,
        sv_world := session_cleanup (ss_clock ss n) sid w', sv_open := False\<rparr>
      | Inr _ \<Rightarrow> s\<lparr>sv_step := n + 1, sv_ok := sv_ok s1, sv_world := w'\<rparr>)"
    unfolding s1 serve_message_def
    using served_frame[OF dec] step sid ids by (simp add: Let_def w_def n_def split: sum.split)
  have reg: "register_frame (ss_ev ss) (ss_cfg ss) ctx (ss_clock ss n) rnd tid req prot sd sh name grp kh hc cs w = (w', r')"
    using step by (simp add: f handle_frame_def)
  have sent: "sv_world s1 = w'" "sv_open s1" "sv_ctx s1 = Some ctx" "sv_read s1 = length (w_sent w)" if "r' = Inr ()"
    using that opn ctx rd by (subst s1'; simp)+
  from inv fr reg show ?thesis
  proof (cases rule: register_frame_cases)
    case failed
    then have "sv_read s1 = length (w_sent (sv_world s1))" using rd by (subst (1 2) s1') (simp add: cleanup_sent)
    then show ?thesis using recv_closed[of s1 env ss] recv by auto
  next
    case (refused msg u)
    then have r: "r' = Inr ()" "w_sent w' = w_sent w @ [TunnelError req msg]" using up by (auto simp: send_frame_def)
    then show ?thesis using recv_reply(2)[OF _ sent(4)[OF r(1)] recv ok] sent(1) by auto
  next
    case (accepted k url port nm notice u proto_str label)
    then have w': "w' = u\<lparr>w_sent := w_sent w @ [TunnelRegistered req tid url port nm notice]\<rparr>" "r' = Inr ()"
      using up by (auto simp: send_frame_def)
    note sw = sent[OF w'(2)]
    have r: "s2 = s1\<lparr>sv_read := length (w_sent (sv_world s1))\<rparr>" "r = Inr (TunnelRegistered req tid url port nm notice)"
      using recv_reply[OF _ sw(4) recv ok] sw(1) by (auto simp: w'(1))
    have "running_session TR UR sid s2"
      using sw accepted(4,8) up ins ctx by (auto simp: running_session_def r(1) w'(1))
    moreover have "abs_core (w_core (sv_world s2)) = (abs_core (w_core w))(tid \<mapsto> (sid, k))"
      using accepted(5) sw sid by (simp add: r(1) w'(1))
    ultimately show ?thesis using r(2) accepted(2,3) abs_core_fresh[OF fr] unfolding w_def by blast
  qed
qed

lemma registration_frame_form:
  assumes "registration_frame env lb rid t = Inr f"
  obtains prot req sd la sh name grp kh hc cs where "proto_to_enum env (td_proto t) = Inr prot"
    "f = RegisterTunnel req prot sd la sh name grp kh hc cs"
  using assms by (auto simp: registration_frame_def bind_result_Inr_iff split: prod.splits)

text \<open>A successful registration of the client.\<close>

lemma register_one_agrees:
  assumes ins: "running_session TR UR sid s"
    and one: "register_one env lb (server_peer (cl_decode env) ss) rid t s = (s', Inr (entry, notice))" and fresh: "sv_ok s'"
  shows "\<exists>tid k. agrees env (ss_cfg ss) entry (tid, k) \<and> fst entry = t\<lparr>td_registered_tunnel_id := Some tid\<rparr> \<and>
    running_session TR UR sid s' \<and> abs_core (w_core (sv_world s)) tid = None \<and>
    abs_core (w_core (sv_world s')) = (abs_core (w_core (sv_world s)))(tid \<mapsto> (sid, k))"
proof -
  obtain f where f: "registration_frame env lb rid t = Inr f" using one by (auto simp: register_one_def split: sum.splits)
  obtain ctx where ctx: "sv_open s" "sv_ctx s = Some ctx" using ins by (auto simp: running_session_def)
  define s1 where "s1 = serve_message ss ctx f s"
  obtain s2 r where recv: "recv_frame_timeout env (server_peer (cl_decode env) ss) s1 = (s2, r)" by fastforce
  have s2: "s2 = s'" and out: "registration_outcome env t r = Inr (entry, notice)"
    using one by (simp_all add: register_one_def f send_in_session[OF ctx] recv flip: s1_def)
  obtain prot req sd la sh name grp kh hc cs where prot: "proto_to_enum env (td_proto t) = Inr prot"
    and ff: "f = RegisterTunnel req prot sd la sh name grp kh hc cs"
    using registration_frame_form[OF f] by blast
  define tid where "tid = tunnel_id_at ss (sv_step s)"
  have no_error: "r \<noteq> Inl e" "r \<noteq> Inr (TunnelError req msg)" for e msg
    using out by (auto simp: registration_outcome_def)
  obtain k proto_str label url port nm nt where
    r: "r = Inr (TunnelRegistered req tid url port nm nt)" and
    ok: "running_session TR UR sid s2" "key_serves prot k"
      "announcement_for (ss_cfg ss) prot tid k = (tid, proto_str, label, url, port, nm)"
      "abs_core (w_core (sv_world s)) tid = None"
      "abs_core (w_core (sv_world s2)) = (abs_core (w_core (sv_world s)))(tid \<mapsto> (sid, k))"
    using serve_registration[OF ins ff ctx(2) s1_def recv _ tid_def] fresh s2 no_error by auto
  have entry: "entry = (t\<lparr>td_registered_tunnel_id := Some tid\<rparr>, url)" using out r by (simp add: registration_outcome_def)
  have "agrees env (ss_cfg ss) entry (tid, k)" using prot ok(2,3) by (simp add: agrees_def entry)
  then show ?thesis using ok entry s2 by auto
qed

section \<open>All registrations\<close>

lemma register_one_ok:
  assumes "register_one env lb (server_peer (cl_decode env) ss) rid t s = (s', r)" "sv_ok s'"
  shows "sv_ok s"
  using assms send_ok recv_ok
  by (auto simp: register_one_def split: sum.splits prod.splits)

lemma register_tunnels_ok:
  "register_tunnels env lb (server_peer (cl_decode env) ss) ts s = (s', r) \<Longrightarrow> sv_ok s' \<Longrightarrow> sv_ok s"
proof (induction ts arbitrary: s r)
  case (Cons a ts)
  obtain t rid where a: "a = (t, rid)" by (cases a)
  show ?case
  proof (cases "td_p2p_target t = None")
    case True
    obtain s1 r1 where one: "register_one env lb (server_peer (cl_decode env) ss) rid t s = (s1, r1)" by fastforce
    have "sv_ok s1" using Cons True one by (auto simp: a split: sum.splits prod.splits)
    then show ?thesis using register_one_ok[OF one] by simp
  qed (use Cons in \<open>auto simp: a split: sum.splits prod.splits\<close>)
qed simp

lemma routes_of_Cons: "A ++ routes_of sid ((tid, k) # rs) = (A ++ routes_of sid rs)(tid \<mapsto> (sid, k))"
  by (simp add: routes_of_def)

lemma routes_of_upd: "tid \<notin> fst ` set rs \<Longrightarrow> A(tid \<mapsto> v) ++ routes_of sid rs = (A ++ routes_of sid rs)(tid \<mapsto> v)"
  by (rule map_add_upd_left) (auto simp: routes_of_def dom_map_of_conv_image_fst image_image case_prod_unfold)

lemma register_tunnels_agree:
  "running_session TR UR sid s \<Longrightarrow> register_tunnels env lb (server_peer (cl_decode env) ss) ts s = (s', Inr (regs, notices)) \<Longrightarrow> sv_ok s' \<Longrightarrow>
   \<exists>rs. list_all2 (agrees env (ss_cfg ss)) (filter (\<lambda>e. td_p2p_target (fst e) = None) regs) rs \<and> distinct (map fst rs) \<and>
     (\<forall>tid \<in> fst ` set rs. abs_core (w_core (sv_world s)) tid = None) \<and> length regs = length ts \<and> running_session TR UR sid s' \<and>
     abs_core (w_core (sv_world s')) = abs_core (w_core (sv_world s)) ++ routes_of sid rs"
proof (induction ts arbitrary: s regs notices)
  case Nil
  then show ?case by (auto simp: routes_of_def)
next
  case (Cons a ts)
  obtain t rid where a: "a = (t, rid)" by (cases a)
  show ?case
  proof (cases "td_p2p_target t = None")
    case False
    then obtain regs' where "register_tunnels env lb (server_peer (cl_decode env) ss) ts s = (s', Inr (regs', notices))" "regs = (t, []) # regs'"
      using Cons.prems(2) by (auto simp: a split: sum.splits prod.splits)
    then show ?thesis using Cons.IH[OF Cons.prems(1) _ Cons.prems(3)] False by auto
  next
    case True
    obtain s1 entry n1 regs' n2 where one: "register_one env lb (server_peer (cl_decode env) ss) rid t s = (s1, Inr (entry, n1))"
      and rest: "register_tunnels env lb (server_peer (cl_decode env) ss) ts s1 = (s', Inr (regs', n2))" and regs: "regs = entry # regs'"
      using Cons.prems(2) True by (auto simp: a split: sum.splits prod.splits)
    have fr: "sv_ok s1" using register_tunnels_ok[OF rest] Cons.prems(3) by simp
    from register_one_agrees[OF Cons.prems(1) one fr]
    obtain tid k where tk: "agrees env (ss_cfg ss) entry (tid, k)" "fst entry = t\<lparr>td_registered_tunnel_id := Some tid\<rparr>"
      "running_session TR UR sid s1" "abs_core (w_core (sv_world s)) tid = None"
      "abs_core (w_core (sv_world s1)) = (abs_core (w_core (sv_world s)))(tid \<mapsto> (sid, k))" by blast
    from Cons.IH[OF tk(3) rest Cons.prems(3)]
    obtain rs where rs: "list_all2 (agrees env (ss_cfg ss)) (filter (\<lambda>e. td_p2p_target (fst e) = None) regs') rs"
      "distinct (map fst rs)" "\<forall>x \<in> fst ` set rs. abs_core (w_core (sv_world s1)) x = None" "length regs' = length ts"
      "running_session TR UR sid s'" "abs_core (w_core (sv_world s')) = abs_core (w_core (sv_world s1)) ++ routes_of sid rs"
      by blast
    have new: "tid \<notin> fst ` set rs" using rs(3) tk(5) by auto
    have "abs_core (w_core (sv_world s')) = abs_core (w_core (sv_world s)) ++ routes_of sid ((tid, k) # rs)"
      unfolding rs(6) tk(5) routes_of_upd[OF new] routes_of_Cons ..
    moreover have "\<forall>x \<in> fst ` set ((tid, k) # rs). abs_core (w_core (sv_world s)) x = None"
    proof
      fix x assume x: "x \<in> fst ` set ((tid, k) # rs)"
      show "abs_core (w_core (sv_world s)) x = None"
      proof (cases "x = tid")
        case False
        then have "abs_core (w_core (sv_world s1)) x = None" using x rs(3) by auto
        then show ?thesis using False by (simp add: tk(5))
      qed (simp add: tk(4))
    qed
    moreover have "td_p2p_target (fst entry) = None" using tk(2) True by simp
    ultimately show ?thesis using rs(1,2,4,5) tk(1) new
      by (intro exI[of _ "(tid, k) # rs"]) (auto simp: regs)
  qed
qed

section \<open>Authentication and the whole connection\<close>

lemma auth_sent:
  assumes frame: "parse_binary ev msg = Inr (Auth tok ver)"
    and step: "auth_handshake ev cfg now sid addr tx (AuthMsg msg) w = (w', r)"
  shows "(\<exists>db v. r = Inr (sid, db) \<and> w_ws_up w \<and> w_sent w' = w_sent w @ [AuthOk sid v]) \<or>
    (\<exists>e. r = Inl e \<and> (w_sent w' = w_sent w \<or> (\<exists>m. w_sent w' = w_sent w @ [AuthError m])))"
    "w_ws_up w' = w_ws_up w"
proof -
  obtain l lim where l: "is_limited now (fst addr) (core_auth_limiter (w_core w)) = (l, lim)" by fastforce
  obtain w2 db a where ra: "resolve_auth ev cfg now tok (w\<lparr>w_core := (w_core w)\<lparr>core_auth_limiter := l\<rparr>\<rparr>) = (w2, db, a)"
    by (metis prod_cases3)
  note h = step[unfolded auth_handshake_cases[OF frame l ra]] and w2 = resolve_auth_sel[OF ra]
  show "(\<exists>db v. r = Inr (sid, db) \<and> w_ws_up w \<and> w_sent w' = w_sent w @ [AuthOk sid v]) \<or>
    (\<exists>e. r = Inl e \<and> (w_sent w' = w_sent w \<or> (\<exists>m. w_sent w' = w_sent w @ [AuthError m])))" "w_ws_up w' = w_ws_up w"
    using h w2 by (auto simp: send_frame_def Let_def split: if_splits)
qed

lemma authenticate_agrees:
  assumes inv: "core_inv TR UR (w_core w)" and new: "dm_get (sessions (w_core w)) (ss_session ss) = None" and ok: "sv_ok s'"
    and auth: "client_authenticate env ccfg (server_peer (cl_decode env) ss) (served_start w) = (s', Inr (sid, lb))"
  shows "sid = ss_session ss \<and> running_session TR UR sid s' \<and> abs_core (w_core (sv_world s')) = abs_core (w_core w)"
proof -
  define f where "f = Auth (case cc_auth_token ccfg of None \<Rightarrow> [] | Some t \<Rightarrow> t) (cl_version env)"
  define s1 where "s1 = serve_auth ss f (served_start w)"
  obtain w1 r where h: "auth_handshake (ss_ev ss) (ss_cfg ss) (ss_clock ss 0) (ss_session ss) (ss_addr ss) (ss_tx ss)
      (AuthMsg (WsBinary (ss_enc ss f))) w = (w1, r)" by fastforce
  have send: "client_send_frame (server_peer (cl_decode env) ss) f (served_start w) = (s1, Inr ())"
    by (simp add: client_send_frame_def server_peer_def served_start_def s1_def)
  obtain s2 reply where recv: "recv_frame_timeout env (server_peer (cl_decode env) ss) s1 = (s2, reply)" by fastforce
  have reply: "\<exists>v. reply = Inr (AuthOk sid v)" and s2: "s' = s2"
    using auth send recv unfolding client_authenticate_def f_def[symmetric]
    by (auto split: sum.splits control_frame.splits)
  have rd: "sv_read s1 = length (w_sent w)"
    by (auto simp: s1_def serve_auth_def served_start_def Let_def split: prod.split sum.split)
  have ok2: "sv_ok s2" using ok s2 by simp
  have "decodes ss f" using recv_ok[OF recv ok2] serve_auth_ok[of ss f "served_start w"] by (simp add: s1_def)
  then have frame: "parse_binary (ss_ev ss) (WsBinary (ss_enc ss f)) = Inr f" by (simp add: parse_binary_def decodes_def)
  note sent = auth_sent[OF frame[unfolded f_def], folded f_def, OF h]
  from sent(1) show ?thesis
  proof (elim disjE exE conjE)
    fix db v assume r: "r = Inr (ss_session ss, db)" and up: "w_ws_up w" and ws: "w_sent w1 = w_sent w @ [AuthOk (ss_session ss) v]"
    have s1: "sv_world s1 = w1\<lparr>w_core := set_data_pipe (ss_session ss) (ss_pipe ss) (w_core w1)\<rparr>" "sv_open s1"
        "sv_ctx s1 = Some \<lparr>sc_session_id = ss_session ss, sc_db_token = db\<rparr>"
      using h r by (auto simp: s1_def serve_auth_def served_start_def Let_def)
    have ws1: "w_sent (sv_world s1) = w_sent w @ [AuthOk (ss_session ss) v]" using s1 ws by simp
    have res: "s2 = s1\<lparr>sv_read := length (w_sent (sv_world s1))\<rparr>" "sid = ss_session ss"
      using recv_reply[OF ws1 rd recv ok2] reply by auto
    have kept: "core_kept TR UR (w_core w) (w_core (sv_world s1))"
      using core_kept_trans[OF auth_handshake_kept(1)[OF new h] set_data_pipe_kept] s1 by simp
    then show ?thesis using inv s1 res s2 rd sent(2) up by (auto simp: running_session_def core_kept_def)
  next
    fix e assume r: "r = Inl e" and ws: "w_sent w1 = w_sent w"
    have "sv_world s1 = w1" using h r by (auto simp: s1_def serve_auth_def served_start_def Let_def)
    then show ?thesis using recv_closed[of s1 env ss] rd ws recv reply by auto
  next
    fix e m assume r: "r = Inl e" and ws: "w_sent w1 = w_sent w @ [AuthError m]"
    have "sv_world s1 = w1" using h r by (auto simp: s1_def serve_auth_def served_start_def Let_def)
    then show ?thesis using recv_reply(2)[OF _ rd recv ok2, of "AuthError m"] ws reply by simp
  qed
qed

lemma report_nat_ok:
  "report_nat env (server_peer (cl_decode env) ss) probe regs s = (s', r) \<Longrightarrow> sv_ok s' \<Longrightarrow> sv_ok s"
proof (induction regs arbitrary: s)
  case (Cons a regs)
  obtain t url where a: "a = (t, url)" by (cases a)
  show ?case using Cons send_ok[of "cl_decode env" ss _ s]
    by (auto simp: a split: option.splits prod.splits sum.splits)
qed simp

lemma report_nat_agrees:
  "running_session TR UR sid s \<Longrightarrow> report_nat env (server_peer (cl_decode env) ss) probe regs s = (s', Inr ()) \<Longrightarrow> sv_ok s' \<Longrightarrow>
    running_session TR UR sid s' \<and> abs_core (w_core (sv_world s')) = abs_core (w_core (sv_world s))"
proof (induction regs arbitrary: s)
  case (Cons a regs)
  obtain t url where a: "a = (t, url)" by (cases a)
  show ?case
  proof (cases "\<exists>n tid. td_p2p_name t = Some n \<and> td_registered_tunnel_id t = Some tid")
    case True
    then obtain n tid where nt: "td_p2p_name t = Some n" "td_registered_tunnel_id t = Some tid" by blast
    define f where "f = nat_report env (probe t) tid"
    obtain ctx where ctx: "sv_open s" "sv_ctx s = Some ctx" using Cons.prems(1) by (auto simp: running_session_def)
    define s1 where "s1 = serve_message ss ctx f s"
    have rest: "report_nat env (server_peer (cl_decode env) ss) probe regs s1 = (s', Inr ())"
      using Cons.prems(2) by (simp add: a nt send_in_session[OF ctx] flip: f_def s1_def)
    obtain A B C where f: "f = P2pNatInfo tid A B C" by (simp add: f_def nat_report_def)
    have dec: "decodes ss f" using report_nat_ok[OF rest Cons.prems(3)] serve_message_ok[of ss ctx f s] by (simp add: s1_def)
    have s1: "sv_world s1 = (sv_world s)\<lparr>w_core := update_p2p_nat_info tid A B (w_core (sv_world s))\<rparr>"
        "sv_open s1" "sv_ctx s1 = Some ctx" "sv_read s1 = sv_read s"
      using ctx by (auto simp: s1_def serve_message_def served_frame[OF dec[unfolded f]] handle_frame_def f Let_def split: prod.splits)
    have "running_session TR UR sid s1 \<and> abs_core (w_core (sv_world s1)) = abs_core (w_core (sv_world s))"
      using Cons.prems(1) nat_frame_kept[of TR UR "w_core (sv_world s)" tid A B] s1 ctx by (auto simp: running_session_def core_kept_def)
    then show ?thesis using Cons.IH[OF _ rest Cons.prems(3)] by simp
  qed (use Cons in \<open>auto simp: a split: option.splits\<close>)
qed simp

text \<open>C32. Client and server agree: when the client has connected and registered its tunnels, the session the server keeps
  is the one the client knows, and the live tunnels of the server are those it had before plus exactly the tunnels
  the client lists, under the identifiers the client stored, each owned by this session, with a route of the
  requested protocol and the public URL the client shows.  No other tunnel is touched.\<close>

theorem client_server_agree:
  assumes inv: "core_inv TR UR (w_core w)" and new: "dm_get (sessions (w_core w)) (ss_session ss) = None"
    and run: "client_connect env ccfg (server_peer (cl_decode env) ss) None probe tunnels (i, served_start w) = ((i', s'), Inr cn)"
    and fresh: "sv_ok s'"
  shows "cn_session_id cn = ss_session ss \<and> length (cn_registered cn) = length tunnels \<and>
    core_inv TR UR (w_core (sv_world s')) \<and>
    us_tunnels (in_session i') = map ui_tunnel_of (cn_registered cn) \<and>
    (\<exists>rs. list_all2 (agrees env (ss_cfg ss)) (filter (\<lambda>e. td_p2p_target (fst e) = None) (cn_registered cn)) rs \<and>
       distinct (map fst rs) \<and> (\<forall>tid \<in> fst ` set rs. abs_core (w_core w) tid = None) \<and>
       abs_core (w_core (sv_world s')) = abs_core (w_core w) ++ routes_of (ss_session ss) rs)"
proof -
  define i0 where "i0 = set_server (cc_server ccfg) (set_status Connecting i)"
  obtain s1 sid lb where auth: "client_authenticate env ccfg (server_peer (cl_decode env) ss) (served_start w) = (s1, Inr (sid, lb))"
    using run by (auto simp: client_connect_def Let_def split: prod.splits sum.splits)
  obtain s2 regs notices where reg: "register_tunnels env lb (server_peer (cl_decode env) ss) tunnels s1 = (s2, Inr (regs, notices))"
    using run by (auto simp: client_connect_def auth Let_def split: prod.splits sum.splits)
  obtain s3 where nat: "report_nat env (server_peer (cl_decode env) ss) probe regs s2 = (s3, Inr ())"
    using run by (auto simp: client_connect_def auth reg Let_def split: prod.splits sum.splits)
  have s': "s' = s3" and cn: "cn_session_id cn = sid" "cn_registered cn = regs"
    and ui: "i' = (if cl_json_mode env then set_status Online (set_tunnels (map ui_tunnel_of regs) i0)
       else fold push_log notices (set_status Online (set_tunnels (map ui_tunnel_of regs) i0)))"
    using run by (auto simp: client_connect_def auth reg nat i0_def Let_def split: sum.splits)
  have ok: "sv_ok s1" "sv_ok s2" using report_nat_ok[OF nat] register_tunnels_ok[OF reg] fresh s' by auto
  note a = authenticate_agrees[OF inv new ok(1) auth]
  obtain rs where rs: "list_all2 (agrees env (ss_cfg ss)) (filter (\<lambda>e. td_p2p_target (fst e) = None) regs) rs"
      "distinct (map fst rs)" "\<forall>tid \<in> fst ` set rs. abs_core (w_core w) tid = None" "length regs = length tunnels"
      "abs_core (w_core (sv_world s2)) = abs_core (w_core w) ++ routes_of sid rs" "running_session TR UR sid s2"
    using register_tunnels_agree[OF _ reg ok(2), of TR UR sid] a by auto
  note n = report_nat_agrees[OF rs(6) nat fresh[unfolded s']]
  have logs: "us_tunnels (in_session (fold push_log ns j)) = us_tunnels (in_session j)" for ns j
    by (induction ns arbitrary: j) (simp_all add: push_log_def)
  have "us_tunnels (in_session i') = map ui_tunnel_of regs"
    by (simp add: ui logs set_status_def set_tunnels_def)
  moreover have "core_inv TR UR (w_core (sv_world s'))" using n s' by (simp add: running_session_def)
  ultimately show ?thesis using a n rs(1-5) s' by (auto simp: cn)
qed

definition example_client :: client_env where
  "example_client = \<lparr>cl_decode = (\<lambda>d. if d = ''ok'' then Inr (AuthOk 7 ''0.1'')
       else Inr (TunnelRegistered ''r1'' 11 ''tcp://ex.com:101'' (Some 101) None None)),
     cl_frame_debug = (\<lambda>_. []), cl_sha256_hex = id, cl_to_lowercase = id, cl_uuid = (\<lambda>_. ''r1''), cl_addr = (\<lambda>_. []),
     cl_version = ''1'', cl_surface = None, cl_json_mode = True, cl_bind_error = (\<lambda>_. None)\<rparr>"

definition example_side :: server_side where
  "example_side = \<lparr>ss_ev = example_env, ss_cfg = example_cfg,
     ss_enc = (\<lambda>f. case f of Auth _ _ \<Rightarrow> ''auth'' | RegisterTunnel _ _ _ _ _ _ _ _ _ _ \<Rightarrow> ''reg'' | AuthOk _ _ \<Rightarrow> ''ok'' | _ \<Rightarrow> ''done''),
     ss_clock = int, ss_ids = (\<lambda>n. (0, 10 + of_nat n, 0, 0)), ss_session = 7, ss_addr = (IpV4 1, 9), ss_tx = 3, ss_pipe = 4\<rparr>"

definition example_client_cfg :: client_config where
  "example_client_cfg = \<lparr>cc_server = ''ex.com:4040'', cc_auth_token = Some ''tok'', cc_auth_token_source = None,
     cc_insecure = False, cc_region = None, cc_tunnels = []\<rparr>"

lemmas example_side_defs = example_side_def example_defs tunnel_core_new_def

definition example_authed :: served where
  "example_authed = (serve_auth example_side (Auth ''tok'' ''1'') (served_start (example_world True)))\<lparr>sv_read := 1\<rparr>"

definition example_served :: served where
  "example_served = (serve_message example_side example_ctx example_register example_authed)\<lparr>sv_read := 2\<rparr>"

lemma example_authed_sel:
  "sv_open example_authed" "sv_ok example_authed" "sv_ctx example_authed = Some example_ctx" "sv_read example_authed = 1"
  unfolding example_authed_def example_ctx_def example_side_defs by code_simp+

lemma example_authed_sent: "w_sent (sv_world example_authed) = [AuthOk 7 ''0.1'']"
  unfolding example_authed_def example_side_defs by code_simp

lemma example_served_sel: "sv_open example_served" "sv_ok example_served" "sv_read example_served = 2"
  unfolding example_served_def example_authed_def example_ctx_def example_side_defs by code_simp+

lemma example_served_sent:
  "w_sent (sv_world example_served) =
     [AuthOk 7 ''0.1'', TunnelRegistered ''r1'' 11 ''tcp://ex.com:101'' (Some 101) None None]"
  unfolding example_served_def example_authed_def example_ctx_def example_side_defs by code_simp

text \<open>Reading the reply that is waiting.\<close>

lemma recv_waiting:
  assumes "sv_read s < length (w_sent (sv_world s))" "w_sent (sv_world s) ! sv_read s = f"
    and "sv_ok (s\<lparr>sv_read := Suc (sv_read s)\<rparr>)" "cl_decode env (ss_enc ss f) = Inr f"
  shows "recv_frame_timeout env (server_peer (cl_decode env) ss) s = (s\<lparr>sv_read := Suc (sv_read s)\<rparr>, Inr f)"
  using assms by (auto simp: recv_frame_timeout_def server_peer_def client_parse_binary_def Let_def)

lemma example_auth_run:
  "client_authenticate example_client example_client_cfg (server_peer (cl_decode example_client) example_side)
     (served_start (example_world True)) = (example_authed, Inr (7, server_supports_load_balancing ''0.1''))"
proof -
  let ?s = "serve_auth example_side (Auth ''tok'' ''1'') (served_start (example_world True))"
  have send: "client_send_frame (server_peer (cl_decode example_client) example_side) (Auth ''tok'' ''1'')
      (served_start (example_world True)) = (?s, Inr ())"
    by (simp add: client_send_frame_def server_peer_def served_start_def)
  have sel: "sv_world ?s = sv_world example_authed" "sv_read ?s = 0" "sv_ok (?s\<lparr>sv_read := Suc 0\<rparr>)"
    using example_authed_sel(2)
    by (auto simp: example_authed_def serve_auth_def served_start_def example_world_def Let_def split: prod.split sum.split)
  have "recv_frame_timeout example_client (server_peer (cl_decode example_client) example_side) ?s =
      (?s\<lparr>sv_read := Suc (sv_read ?s)\<rparr>, Inr (AuthOk 7 ''0.1''))"
    by (rule recv_waiting) (simp_all add: sel example_authed_sent, simp_all add: example_client_def example_side_def)
  then show ?thesis using send
    by (simp add: client_authenticate_def sel example_authed_def) (simp add: example_client_cfg_def example_client_def)
qed

definition example_tunnel :: tunnel_def where
  "example_tunnel = tunnel_def_from_cli ''tcp'' 22 ''localhost'' None"

lemma example_registration_frame: "registration_frame example_client lb 1 example_tunnel = Inr example_register"
proof -
  have "dec_string 22 = ''22''" by code_simp
  then show ?thesis
    by (simp add: registration_frame_def proto_to_enum_def effective_fields_def example_client_def example_tunnel_def
        tunnel_def_from_cli_def local_addr_of_def client_surface_from_value_def example_register_def)
qed

lemma example_register_run:
  "register_one example_client lb (server_peer (cl_decode example_client) example_side) 1 example_tunnel example_authed =
     (example_served, Inr ((example_tunnel\<lparr>td_registered_tunnel_id := Some 11\<rparr>, ''tcp://ex.com:101''), []))"
proof -
  let ?s = "serve_message example_side example_ctx example_register example_authed"
  have sel: "sv_world ?s = sv_world example_served" "sv_read ?s = Suc 0" "sv_ok (?s\<lparr>sv_read := Suc (Suc 0)\<rparr>)"
    using example_served_sel(2) example_authed_sel(4)
    by (auto simp: example_served_def serve_message_def Let_def split: prod.split sum.split)
  have "recv_frame_timeout example_client (server_peer (cl_decode example_client) example_side) ?s =
      (?s\<lparr>sv_read := Suc (sv_read ?s)\<rparr>, Inr (TunnelRegistered ''r1'' 11 ''tcp://ex.com:101'' (Some 101) None None))"
    by (rule recv_waiting) (simp_all add: sel example_served_sent, simp_all add: example_client_def example_side_def)
  moreover have "?s\<lparr>sv_read := Suc (sv_read ?s)\<rparr> = example_served"
    by (simp add: sel(2) example_served_def numeral_2_eq_2)
  ultimately show ?thesis
    by (simp add: register_one_def example_registration_frame send_in_session[OF example_authed_sel(1,3)]
        registration_outcome_def)
qed

lemma example_connect_run:
  "\<exists>i cn. client_connect example_client example_client_cfg (server_peer (cl_decode example_client) example_side) None
     (\<lambda>_. \<lparr>sr_nat_type = NatUnknown, sr_mapped_addrs = [], sr_local_addrs = []\<rparr>) [(example_tunnel, 1)]
     (inspector_new True [] None, served_start (example_world True)) = ((i, example_served), Inr cn) \<and>
     cn_registered cn = [(example_tunnel\<lparr>td_registered_tunnel_id := Some 11\<rparr>, ''tcp://ex.com:101'')]"
  by (simp add: client_connect_def example_auth_run example_register_run)
     (simp add: example_tunnel_def tunnel_def_from_cli_def subscriber_listener_def Let_def)

theorem client_server_agree_witness:
  "\<exists>k. abs_core (w_core (sv_world example_served)) = (abs_core (w_core (example_world True)))(11 \<mapsto> (7, k))"
proof -
  obtain i cn where run: "client_connect example_client example_client_cfg (server_peer (cl_decode example_client) example_side) None
     (\<lambda>_. \<lparr>sr_nat_type = NatUnknown, sr_mapped_addrs = [], sr_local_addrs = []\<rparr>) [(example_tunnel, 1)]
     (inspector_new True [] None, served_start (example_world True)) = ((i, example_served), Inr cn)"
    and reg: "cn_registered cn = [(example_tunnel\<lparr>td_registered_tunnel_id := Some 11\<rparr>, ''tcp://ex.com:101'')]"
    using example_connect_run by blast
  have new: "dm_get (sessions (w_core (example_world True))) (ss_session example_side) = None"
    by (simp add: example_world_def tunnel_core_new_def)
  obtain rs where "list_all2 (agrees example_client (ss_cfg example_side))
      [(example_tunnel\<lparr>td_registered_tunnel_id := Some 11\<rparr>, ''tcp://ex.com:101'')] rs"
    "abs_core (w_core (sv_world example_served)) = abs_core (w_core (example_world True)) ++ routes_of (ss_session example_side) rs"
    using client_server_agree[OF example_world_inv new run example_served_sel(2)] reg
    by (auto simp: example_tunnel_def tunnel_def_from_cli_def)
  then show ?thesis by (auto simp: list_all2_Cons1 agrees_def routes_of_def example_side_def)
qed

end
