(* ===== verification/ClientLoop.thy ===== *)
theory ClientLoop
  imports ClientControl
begin

text \<open>
  The main loop of the client (\<open>main_loop\<close> of \<open>control.rs\<close>): one step per arm of its \<open>select!\<close>, over the two pairs of maps
  that match connections announced on the control WebSocket with streams arriving on the data WebSocket.  A stream of the
  multiplexer and an accepted local socket are handles; a spawned task is recorded with its arguments.
\<close>

section \<open>Local targets and tasks\<close>

definition proto_matches :: "tunnel_protocol \<Rightarrow> string \<Rightarrow> bool" where
  "proto_matches protocol proto =
     (case protocol of
        Http \<Rightarrow> proto = ''http'' \<or> proto = ''https''
      | Https \<Rightarrow> proto = ''http'' \<or> proto = ''https''
      | Tcp \<Rightarrow> proto = ''tcp''
      | Udp \<Rightarrow> proto = ''udp''
      | P2p \<Rightarrow> proto = ''p2p'')"

fun find_local_target :: "(tunnel_def \<times> string) list \<Rightarrow> tunnel_protocol \<Rightarrow> (string \<times> string) option" where
  "find_local_target [] protocol = None"
| "find_local_target ((t, url) # rest) protocol =
     (if proto_matches protocol (td_proto t) then Some (local_addr_of t, tunnel_label t)
      else find_local_target rest protocol)"

fun note_health :: "(tunnel_def \<times> string) list \<Rightarrow> uuid \<Rightarrow> bool \<Rightarrow> inspector \<Rightarrow> inspector" where
  "note_health [] tunnel_id healthy i = i"
| "note_health ((t, url) # rest) tunnel_id healthy i =
     (if td_registered_tunnel_id t = Some tunnel_id then set_tunnel_health (local_addr_of t) healthy i
      else note_health rest tunnel_id healthy i)"

record conn_meta =
  cm_local_addr :: string
  cm_protocol :: tunnel_protocol
  cm_client_addr :: string
  cm_tunnel_label :: string

text \<open>A tapped proxy carries the label and the client address its exchanges are recorded with.\<close>

datatype client_task =
    TaskUdp (task_conn: uuid) nat string
  | TaskProxy (task_conn: uuid) nat string "(string \<times> string) option"
  | TaskRelay (task_conn: uuid) nat nat
  | TaskPunch (task_conn: uuid) "socket_addr list" string string u32

definition spawn_proxy :: "inspector \<Rightarrow> conn_meta \<Rightarrow> nat \<Rightarrow> uuid \<Rightarrow> client_task" where
  "spawn_proxy i m stream conn_id =
     (if cm_protocol m = Udp then TaskUdp conn_id stream (cm_local_addr m)
      else TaskProxy conn_id stream (cm_local_addr m)
        (if (cm_protocol m = Http \<or> cm_protocol m = Https) \<and> in_capture i
         then Some (cm_tunnel_label m, cm_client_addr m) else None))"

section \<open>State and events\<close>

definition CLIENT_PONG_DEADLINE :: duration where
  "CLIENT_PONG_DEADLINE = secs 10"

definition DATA_WS_RECONNECT_MAX_ATTEMPTS :: nat where
  "DATA_WS_RECONNECT_MAX_ATTEMPTS = 5"

record client_loop =
  lo_inspector :: inspector
  lo_last_pong :: instant
  lo_awaiting_pong :: bool
  lo_pending_conns :: "(uuid, conn_meta) dashmap"
  lo_pending_streams :: "(uuid, nat) dashmap"
  lo_request_to_local :: "(string, nat) dashmap"
  lo_local_streams :: "(uuid, nat) dashmap"
  lo_tasks :: "client_task list"
  lo_sent :: "control_frame list"

definition client_loop_new :: "inspector \<Rightarrow> instant \<Rightarrow> client_loop" where
  "client_loop_new i now =
     \<lparr>lo_inspector = i, lo_last_pong = now, lo_awaiting_pong = False, lo_pending_conns = [], lo_pending_streams = [],
      lo_request_to_local = [], lo_local_streams = [], lo_tasks = [], lo_sent = []\<rparr>"

text \<open>
  The arms: an accepted local socket with the request id drawn for it; Ctrl-C; the shutdown of the terminal UI; the ping
  tick; a frame of a probe task; a stream with its connection id; the end of the stream channel with the outcome of each
  attempt to reconnect; and what the control WebSocket yields.  Events that write carry the error of the write, if any;
  \<open>now\<close> is the monotonic clock, the \<^typ>\<open>u64\<close> the wall clock in milliseconds.
\<close>

datatype client_event =
    LvLocal nat string "string option"
  | LvInterrupt
  | LvShutdown
  | LvTick instant u64 "string option"
  | LvOutbound control_frame "string option"
  | LvStream uuid nat
  | LvStreamsClosed "nat \<Rightarrow> bool"
  | LvCtrlClosed
  | LvCtrlError string
  | LvCtrl instant u64 ws_message "string option"

type_synonym loop_result = "(client_error + unit) option"

section \<open>The steps\<close>

definition loop_send :: "control_frame \<Rightarrow> string option \<Rightarrow> client_loop \<Rightarrow> client_loop \<times> loop_result" where
  "loop_send f err s =
     (case err of
        Some e \<Rightarrow> (s, Some (Inl (CeConnection e)))
      | None \<Rightarrow> (s\<lparr>lo_sent := lo_sent s @ [f]\<rparr>, None))"

definition spawn_task :: "client_task \<Rightarrow> client_loop \<Rightarrow> client_loop" where
  "spawn_task t s = s\<lparr>lo_tasks := lo_tasks s @ [t]\<rparr>"

definition stream_arrived :: "uuid \<Rightarrow> nat \<Rightarrow> client_loop \<Rightarrow> client_loop" where
  "stream_arrived conn_id stream s =
     (case dm_get (lo_local_streams s) conn_id of
        Some local_tcp \<Rightarrow>
          spawn_task (TaskRelay conn_id stream local_tcp) (s\<lparr>lo_local_streams := dm_remove conn_id (lo_local_streams s)\<rparr>)
      | None \<Rightarrow>
          (case dm_get (lo_pending_conns s) conn_id of
             Some m \<Rightarrow>
               spawn_task (spawn_proxy (lo_inspector s) m stream conn_id)
                 (s\<lparr>lo_pending_conns := dm_remove conn_id (lo_pending_conns s)\<rparr>)
           | None \<Rightarrow> s\<lparr>lo_pending_streams := dm_insert conn_id stream (lo_pending_streams s)\<rparr>))"

definition data_ws_reconnect :: "(nat \<Rightarrow> bool) \<Rightarrow> nat option" where
  "data_ws_reconnect connects = find connects [1..<Suc DATA_WS_RECONNECT_MAX_ATTEMPTS]"

definition streams_closed :: "(nat \<Rightarrow> bool) \<Rightarrow> client_loop \<Rightarrow> client_loop \<times> loop_result" where
  "streams_closed connects s =
     (s\<lparr>lo_pending_conns := [], lo_pending_streams := []\<rparr>,
      case data_ws_reconnect connects of
        Some attempt \<Rightarrow> None
      | None \<Rightarrow> Some (Inl (CeConnection ''failed to reconnect data WebSocket'')))"

definition connection_announced ::
  "(tunnel_def \<times> string) list \<Rightarrow> uuid \<Rightarrow> string \<Rightarrow> tunnel_protocol \<Rightarrow> client_loop \<Rightarrow> client_loop" where
  "connection_announced registered conn_id client_addr protocol s =
     (if dm_contains (lo_local_streams s) conn_id then s
      else case find_local_target registered protocol of
             None \<Rightarrow> s
           | Some (local_addr, label) \<Rightarrow>
               let m = \<lparr>cm_local_addr = local_addr, cm_protocol = protocol, cm_client_addr = client_addr, cm_tunnel_label = label\<rparr>
               in case dm_get (lo_pending_streams s) conn_id of
                    Some stream \<Rightarrow>
                      spawn_task (spawn_proxy (lo_inspector s) m stream conn_id)
                        (s\<lparr>lo_pending_streams := dm_remove conn_id (lo_pending_streams s)\<rparr>)
                  | None \<Rightarrow> s\<lparr>lo_pending_conns := dm_insert conn_id m (lo_pending_conns s)\<rparr>)"

definition relay_established :: "string \<Rightarrow> uuid \<Rightarrow> client_loop \<Rightarrow> client_loop" where
  "relay_established request_id conn_id s =
     (case dm_get (lo_request_to_local s) request_id of
        None \<Rightarrow> s
      | Some loc \<Rightarrow>
          let s1 = s\<lparr>lo_request_to_local := dm_remove request_id (lo_request_to_local s)\<rparr>
          in case dm_get (lo_pending_streams s1) conn_id of
               Some yamux \<Rightarrow>
                 spawn_task (TaskRelay conn_id yamux loc)
                   (s1\<lparr>lo_pending_streams := dm_remove conn_id (lo_pending_streams s1)\<rparr>)
             | None \<Rightarrow> s1\<lparr>lo_local_streams := dm_insert conn_id loc (lo_local_streams s1)\<rparr>)"

text \<open>\<open>parse\<close> is the address parser of the standard library.\<close>

definition punch_instructed ::
  "(string \<Rightarrow> socket_addr option) \<Rightarrow> (string \<times> string \<times> string) option \<Rightarrow> uuid \<Rightarrow> string list \<Rightarrow> string \<Rightarrow> u32 \<Rightarrow>
   client_loop \<Rightarrow> client_loop" where
  "punch_instructed parse sub conn_id peer_addrs strategy punch_timeout_ms s =
     (let addrs = List.map_filter parse peer_addrs;
          secret = (case sub of Some (_, _, raw) \<Rightarrow> raw | None \<Rightarrow> [])
      in if addrs \<noteq> [] then spawn_task (TaskPunch conn_id addrs strategy secret punch_timeout_ms) s else s)"

record loop_env =
  le_client :: client_env
  le_parse_addr :: "string \<Rightarrow> socket_addr option"
  le_registered :: "(tunnel_def \<times> string) list"
  le_sub_info :: "(string \<times> string \<times> string) option"

definition client_frame ::
  "loop_env \<Rightarrow> instant \<Rightarrow> u64 \<Rightarrow> string option \<Rightarrow> control_frame \<Rightarrow> client_loop \<Rightarrow> client_loop \<times> loop_result" where
  "client_frame env now now_ms err frame s =
     (case frame of
        NewConnection conn_id client_addr protocol \<Rightarrow>
          (connection_announced (le_registered env) conn_id client_addr protocol s, None)
      | P2pConnected request_id conn_id \<Rightarrow> (relay_established request_id conn_id s, None)
      | P2pPunchInstructions conn_id peer_addrs strategy punch_timeout_ms \<Rightarrow>
          (punch_instructed (le_parse_addr env) (le_sub_info env) conn_id peer_addrs strategy punch_timeout_ms s, None)
      | P2pError request_id message \<Rightarrow> (s\<lparr>lo_request_to_local := dm_remove request_id (lo_request_to_local s)\<rparr>, None)
      | Ping timestamp \<Rightarrow> loop_send (Pong timestamp) err s
      | Pong timestamp \<Rightarrow>
          (s\<lparr>lo_awaiting_pong := False, lo_last_pong := now,
             lo_inspector := set_latency (unat now_ms - unat timestamp) (lo_inspector s)\<rparr>, None)
      | _ \<Rightarrow> (s, None))"

definition client_main_step :: "loop_env \<Rightarrow> client_event \<Rightarrow> client_loop \<Rightarrow> client_loop \<times> loop_result" where
  "client_main_step env e s =
     (case e of
        LvLocal local_stream request_id err \<Rightarrow>
          (case le_sub_info env of
             None \<Rightarrow> (s, None)
           | Some (target, secret_hash, _) \<Rightarrow>
               (case loop_send (P2pConnect request_id target secret_hash) err s of
                  (s', Some r) \<Rightarrow> (s', Some r)
                | (s', None) \<Rightarrow>
                    (s'\<lparr>lo_request_to_local := dm_insert request_id local_stream (lo_request_to_local s')\<rparr>, None)))
      | LvInterrupt \<Rightarrow> (s, Some (Inr ()))
      | LvShutdown \<Rightarrow> (s, Some (Inr ()))
      | LvTick now now_ms err \<Rightarrow>
          if lo_awaiting_pong s \<and> now - lo_last_pong s > CLIENT_PONG_DEADLINE
          then (s, Some (Inl (CeConnection ''heartbeat timeout'')))
          else (case loop_send (Ping now_ms) err s of
                  (s', Some r) \<Rightarrow> (s', Some r)
                | (s', None) \<Rightarrow> (s'\<lparr>lo_awaiting_pong := True\<rparr>, None))
      | LvOutbound frame err \<Rightarrow>
          let i = (case frame of
                     TunnelHealthy tunnel_id \<Rightarrow> note_health (le_registered env) tunnel_id True (lo_inspector s)
                   | TunnelUnhealthy tunnel_id _ \<Rightarrow> note_health (le_registered env) tunnel_id False (lo_inspector s)
                   | _ \<Rightarrow> lo_inspector s)
          in loop_send frame err (s\<lparr>lo_inspector := i\<rparr>)
      | LvStream conn_id stream \<Rightarrow> (stream_arrived conn_id stream s, None)
      | LvStreamsClosed connects \<Rightarrow> streams_closed connects s
      | LvCtrlClosed \<Rightarrow> (s, Some (Inr ()))
      | LvCtrlError err \<Rightarrow> (s, Some (Inl (CeConnection err)))
      | LvCtrl now now_ms msg err \<Rightarrow>
          (case client_parse_binary (le_client env) msg of
             Inl _ \<Rightarrow> (s, None)
           | Inr frame \<Rightarrow> client_frame env now now_ms err frame s))"

fun client_main_loop :: "loop_env \<Rightarrow> client_event list \<Rightarrow> client_loop \<Rightarrow> client_loop \<times> loop_result" where
  "client_main_loop env [] s = (s, None)"
| "client_main_loop env (e # es) s =
     (case client_main_step env e s of
        (s', Some r) \<Rightarrow> (s', Some r)
      | (s', None) \<Rightarrow> client_main_loop env es s')"

end
