(* ===== verification/ClientLoopProps.thy ===== *)
theory ClientLoopProps
  imports ClientLoop
begin

text \<open>
  The main loop of the client seen from one connection: the announcement on the control WebSocket and the stream on the
  data WebSocket meet in either order, and the relay of a P2P subscriber starts once whatever the order.
\<close>

section \<open>What an event says about a connection\<close>

definition frame_of :: "loop_env \<Rightarrow> client_event \<Rightarrow> control_frame option" where
  "frame_of env e =
     (case e of
        LvCtrl now now_ms msg err \<Rightarrow> (case client_parse_binary (le_client env) msg of Inr f \<Rightarrow> Some f | Inl _ \<Rightarrow> None)
      | _ \<Rightarrow> None)"

definition announced :: "loop_env \<Rightarrow> uuid \<Rightarrow> client_event \<Rightarrow> conn_meta list" where
  "announced env c e =
     (case frame_of env e of
        Some (NewConnection conn_id client_addr protocol) \<Rightarrow>
          (case (conn_id = c, find_local_target (le_registered env) protocol) of
             (True, Some (local_addr, label)) \<Rightarrow>
               [\<lparr>cm_local_addr = local_addr, cm_protocol = protocol, cm_client_addr = client_addr, cm_tunnel_label = label\<rparr>]
           | _ \<Rightarrow> [])
      | _ \<Rightarrow> [])"

definition arrived :: "uuid \<Rightarrow> client_event \<Rightarrow> nat list" where
  "arrived c e = (case e of LvStream conn_id stream \<Rightarrow> if conn_id = c then [stream] else [] | _ \<Rightarrow> [])"

abbreviation announcements :: "loop_env \<Rightarrow> uuid \<Rightarrow> client_event list \<Rightarrow> conn_meta list" where
  "announcements env c es \<equiv> concat (map (announced env c) es)"

abbreviation arrivals :: "uuid \<Rightarrow> client_event list \<Rightarrow> nat list" where
  "arrivals c es \<equiv> concat (map (arrived c) es)"

text \<open>Events that keep the two kinds of maps of the connection apart from announcements and arrivals.\<close>

definition keeps_streams :: "client_event \<Rightarrow> bool" where
  "keeps_streams e = (case e of LvStreamsClosed _ \<Rightarrow> False | _ \<Rightarrow> True)"

definition relays :: "loop_env \<Rightarrow> uuid \<Rightarrow> client_event \<Rightarrow> bool" where
  "relays env c e = (case frame_of env e of Some (P2pConnected _ conn_id) \<Rightarrow> conn_id = c | _ \<Rightarrow> False)"

definition plain :: "loop_env \<Rightarrow> uuid \<Rightarrow> client_event \<Rightarrow> bool" where
  "plain env c e \<longleftrightarrow> keeps_streams e \<and> \<not> relays env c e"

text \<open>Events that concern the local socket waiting under a request id.\<close>

definition uses_request :: "loop_env \<Rightarrow> string \<Rightarrow> client_event \<Rightarrow> bool" where
  "uses_request env r e =
     ((case e of LvLocal _ request_id _ \<Rightarrow> request_id = r | _ \<Rightarrow> False) \<or>
      (case frame_of env e of
         Some (P2pConnected request_id _) \<Rightarrow> request_id = r
       | Some (P2pError request_id _) \<Rightarrow> request_id = r
       | _ \<Rightarrow> False))"

section \<open>The view of one connection\<close>

fun bridges :: "client_task \<Rightarrow> bool" where
  "bridges (TaskPunch _ _ _ _ _) = False"
| "bridges _ = True"

record conn_view =
  cv_conn :: "conn_meta option"
  cv_stream :: "nat option"
  cv_local :: "nat option"
  cv_tasks :: "client_task list"

definition view :: "uuid \<Rightarrow> client_loop \<Rightarrow> conn_view" where
  "view c s =
     \<lparr>cv_conn = dm_get (lo_pending_conns s) c, cv_stream = dm_get (lo_pending_streams s) c,
      cv_local = dm_get (lo_local_streams s) c, cv_tasks = filter (\<lambda>t. task_conn t = c \<and> bridges t) (lo_tasks s)\<rparr>"

definition view_announce :: "inspector \<Rightarrow> uuid \<Rightarrow> conn_meta \<Rightarrow> conn_view \<Rightarrow> conn_view" where
  "view_announce i c m v =
     (if cv_local v \<noteq> None then v
      else case cv_stream v of
             Some st \<Rightarrow> v\<lparr>cv_stream := None, cv_tasks := cv_tasks v @ [spawn_proxy i m st c]\<rparr>
           | None \<Rightarrow> v\<lparr>cv_conn := Some m\<rparr>)"

definition view_arrive :: "inspector \<Rightarrow> uuid \<Rightarrow> nat \<Rightarrow> conn_view \<Rightarrow> conn_view" where
  "view_arrive i c st v =
     (case (cv_local v, cv_conn v) of
        (Some l, _) \<Rightarrow> v\<lparr>cv_local := None, cv_tasks := cv_tasks v @ [TaskRelay c st l]\<rparr>
      | (None, Some m) \<Rightarrow> v\<lparr>cv_conn := None, cv_tasks := cv_tasks v @ [spawn_proxy i m st c]\<rparr>
      | (None, None) \<Rightarrow> v\<lparr>cv_stream := Some st\<rparr>)"

definition view_event :: "inspector \<Rightarrow> loop_env \<Rightarrow> uuid \<Rightarrow> client_event \<Rightarrow> conn_view \<Rightarrow> conn_view" where
  "view_event i env c e v = fold (view_arrive i c) (arrived c e) (fold (view_announce i c) (announced env c e) v)"

lemma note_health_capture [simp]: "in_capture (note_health regs tid b i) = in_capture i"
  by (induction regs tid b i rule: note_health.induct) (simp_all add: set_tunnel_health_def)

lemma set_latency_capture [simp]: "in_capture (set_latency n i) = in_capture i"
  by (simp add: set_latency_def)

lemma spawn_proxy_task [simp]: "task_conn (spawn_proxy i m st c) = c" "bridges (spawn_proxy i m st c)"
  by (simp_all add: spawn_proxy_def)

lemma spawn_proxy_cong: "in_capture i = in_capture j \<Longrightarrow> spawn_proxy i = spawn_proxy j"
  by (intro ext) (simp add: spawn_proxy_def)

lemma view_loop_send: "loop_send f err s = (s', r) \<Longrightarrow> view c s' = view c s \<and> lo_inspector s' = lo_inspector s \<and> lo_request_to_local s' = lo_request_to_local s"
  by (auto simp: loop_send_def view_def split: option.splits)

lemma view_stream_arrived:
  "view c (stream_arrived conn_id st s) = (if conn_id = c then view_arrive (lo_inspector s) c st (view c s) else view c s)"
  by (auto simp: stream_arrived_def view_def view_arrive_def spawn_task_def split: option.split)

lemma view_connection_announced:
  "view c (connection_announced regs conn_id addr prot s) =
     (case (conn_id = c, find_local_target regs prot) of
        (True, Some (la, lab)) \<Rightarrow>
          view_announce (lo_inspector s) c \<lparr>cm_local_addr = la, cm_protocol = prot, cm_client_addr = addr, cm_tunnel_label = lab\<rparr> (view c s)
      | _ \<Rightarrow> view c s)"
  by (auto simp: connection_announced_def view_def view_announce_def spawn_task_def dm_contains_def Let_def split: option.split)

lemma view_relay_other: "conn_id \<noteq> c \<Longrightarrow> view c (relay_established r conn_id s) = view c s"
  by (auto simp: relay_established_def view_def spawn_task_def Let_def split: option.split)

lemma view_relay:
  "dm_get (lo_request_to_local s) r = Some l \<Longrightarrow>
   view c (relay_established r c s) =
     (case cv_stream (view c s) of
        Some st \<Rightarrow> (view c s)\<lparr>cv_stream := None, cv_tasks := cv_tasks (view c s) @ [TaskRelay c st l]\<rparr>
      | None \<Rightarrow> (view c s)\<lparr>cv_local := Some l\<rparr>)"
  by (auto simp: relay_established_def view_def spawn_task_def Let_def split: option.split)

lemma view_punch: "view c (punch_instructed parse sub conn_id addrs strat ms s) = view c s"
  by (simp add: punch_instructed_def view_def spawn_task_def Let_def)

lemma loop_frames:
  "lo_inspector (stream_arrived conn_id st s) = lo_inspector s"
  "lo_inspector (connection_announced regs conn_id addr prot s) = lo_inspector s"
  "lo_inspector (relay_established r conn_id s) = lo_inspector s"
  "lo_inspector (punch_instructed parse sub conn_id addrs strat ms s) = lo_inspector s"
  "lo_request_to_local (stream_arrived conn_id st s) = lo_request_to_local s"
  "lo_request_to_local (connection_announced regs conn_id addr prot s) = lo_request_to_local s"
  "dm_get (lo_request_to_local (relay_established r conn_id s)) q = (if q = r then None else dm_get (lo_request_to_local s) q)"
  "lo_request_to_local (punch_instructed parse sub conn_id addrs strat ms s) = lo_request_to_local s"
  by (auto simp: stream_arrived_def connection_announced_def relay_established_def punch_instructed_def spawn_task_def Let_def
      split: option.split)

text \<open>One step, seen from the connection.\<close>

lemma step_capture:
  "client_main_step env e s = (s', r) \<Longrightarrow> in_capture (lo_inspector s') = in_capture (lo_inspector s)"
  by (auto simp: client_main_step_def client_frame_def streams_closed_def loop_send_def Let_def loop_frames
      split: client_event.splits option.splits sum.splits if_splits control_frame.splits)

lemma view_frame:
  assumes "client_frame env now now_ms err f s = (s', r)"
  shows "view c s' = (case f of
      NewConnection conn_id addr prot \<Rightarrow> view c (connection_announced (le_registered env) conn_id addr prot s)
    | P2pConnected q conn_id \<Rightarrow> view c (relay_established q conn_id s)
    | _ \<Rightarrow> view c s)"
  using assms view_loop_send[of "Pong _" err s s' r c]
  by (auto simp: client_frame_def view_punch split: control_frame.splits) (simp_all add: view_def)

lemma view_step:
  assumes step: "client_main_step env e s = (s', r)" and pl: "plain env c e"
  shows "view c s' = view_event (lo_inspector s) env c e (view c s)"
proof (cases e)
  case (LvCtrl now now_ms msg err)
  show ?thesis
  proof (cases "client_parse_binary (le_client env) msg")
    case (Inr f)
    then have "client_frame env now now_ms err f s = (s', r)" using step by (simp add: client_main_step_def LvCtrl)
    from view_frame[OF this, of c] show ?thesis
      using pl by (auto simp: view_event_def announced_def arrived_def frame_of_def LvCtrl Inr plain_def relays_def
          view_connection_announced view_relay_other split: control_frame.splits option.split bool.split)
  qed (use step in \<open>simp add: client_main_step_def LvCtrl view_event_def announced_def arrived_def frame_of_def\<close>)
next
  case (LvLocal l q err)
  then show ?thesis using step
    by (auto simp: client_main_step_def view_event_def announced_def arrived_def frame_of_def loop_send_def view_def
        split: option.splits)
next
  case (LvTick now ms err)
  then show ?thesis using step
    by (auto simp: client_main_step_def view_event_def announced_def arrived_def frame_of_def loop_send_def view_def
        split: option.splits if_splits)
next
  case (LvOutbound f err)
  then show ?thesis using step
    by (auto simp: client_main_step_def view_event_def announced_def arrived_def frame_of_def loop_send_def view_def Let_def
        split: option.splits)
next
  case (LvStreamsClosed x)
  then show ?thesis using pl by (simp add: plain_def keeps_streams_def)
next
  case (LvStream conn_id st)
  then show ?thesis using step
    by (auto simp: client_main_step_def view_event_def announced_def arrived_def frame_of_def view_stream_arrived)
qed (use step in \<open>auto simp: client_main_step_def view_event_def announced_def arrived_def frame_of_def\<close>)

lemma step_request:
  assumes step: "client_main_step env e s = (s', r)" and "\<not> uses_request env q e"
  shows "dm_get (lo_request_to_local s') q = dm_get (lo_request_to_local s) q"
  using assms
  by (auto simp: client_main_step_def client_frame_def streams_closed_def loop_send_def Let_def loop_frames uses_request_def frame_of_def
      split: client_event.splits option.splits sum.splits if_splits control_frame.splits)


section \<open>Runs\<close>

lemma view_event_capture:
  assumes "in_capture i = in_capture j"
  shows "view_event i = view_event j"
proof -
  have "view_announce i = view_announce j" "view_arrive i = view_arrive j"
    by (intro ext, simp add: view_announce_def view_arrive_def spawn_proxy_cong[OF assms] split: option.split)+
  then show ?thesis by (intro ext) (simp add: view_event_def)
qed

lemma view_loop:
  "client_main_loop env es s = (s', None) \<Longrightarrow> list_all (plain env c) es \<Longrightarrow> in_capture i = in_capture (lo_inspector s) \<Longrightarrow>
   view c s' = fold (view_event i env c) es (view c s) \<and> in_capture (lo_inspector s') = in_capture i"
proof (induction es arbitrary: s)
  case (Cons e es)
  obtain s1 where s1: "client_main_step env e s = (s1, None)" "client_main_loop env es s1 = (s', None)"
    using Cons.prems(1) by (auto split: prod.splits option.splits)
  have "view c s1 = view_event i env c e (view c s)"
    using view_step[OF s1(1)] Cons.prems(2) view_event_capture[OF Cons.prems(3)] by simp
  then show ?case using Cons.IH[OF s1(2)] Cons.prems step_capture[OF s1(1)] by simp
qed simp

lemma request_in_loop:
  "client_main_loop env es s = (s', None) \<Longrightarrow> list_all (\<lambda>e. \<not> uses_request env q e) es \<Longrightarrow>
   dm_get (lo_request_to_local s') q = dm_get (lo_request_to_local s) q"
proof (induction es arbitrary: s)
  case (Cons e es)
  obtain s1 where s1: "client_main_step env e s = (s1, None)" "client_main_loop env es s1 = (s', None)"
    using Cons.prems(1) by (auto split: prod.splits option.splits)
  then show ?case using Cons step_request[OF s1(1)] by simp
qed simp

lemma client_main_loop_append:
  "client_main_loop env (es @ fs) s =
     (case client_main_loop env es s of (s', None) \<Rightarrow> client_main_loop env fs s' | r \<Rightarrow> r)"
  by (induction es arbitrary: s) (auto split: prod.split option.split)

abbreviation unknown_view :: conn_view where
  "unknown_view \<equiv> \<lparr>cv_conn = None, cv_stream = None, cv_local = None, cv_tasks = []\<rparr>"

text \<open>At most one announcement and one stream: where they stand after any interleaving.\<close>

fun paired_view :: "inspector \<Rightarrow> uuid \<Rightarrow> conn_meta list \<Rightarrow> nat list \<Rightarrow> conn_view" where
  "paired_view i c (m # _) (st # _) = unknown_view\<lparr>cv_tasks := [spawn_proxy i m st c]\<rparr>"
| "paired_view i c (m # _) [] = unknown_view\<lparr>cv_conn := Some m\<rparr>"
| "paired_view i c [] (st # _) = unknown_view\<lparr>cv_stream := Some st\<rparr>"
| "paired_view i c [] [] = unknown_view"

lemma announced_or_arrived: "announced env c e = [] \<or> arrived c e = []"
  by (auto simp: announced_def arrived_def frame_of_def split: client_event.splits)

lemma announced_le: "length (announced env c e) \<le> 1"
  by (auto simp: announced_def split: option.split control_frame.split bool.split)

lemma arrived_le: "length (arrived c e) \<le> 1"
  by (auto simp: arrived_def split: client_event.split)

lemma view_event_cases:
  obtains (none) "announced env c e = []" "arrived c e = []" "view_event i env c e = id"
    | (ann) m where "announced env c e = [m]" "arrived c e = []" "view_event i env c e = view_announce i c m"
    | (arr) st where "announced env c e = []" "arrived c e = [st]" "view_event i env c e = view_arrive i c st"
  using announced_or_arrived[of env c e] announced_le[of env c e] arrived_le[of c e]
  by (cases "announced env c e"; cases "arrived c e") (auto simp: view_event_def[abs_def] fun_eq_iff)

lemma paired_run:
  "length (announcements env c es) \<le> 1 \<Longrightarrow> length (arrivals c es) \<le> 1 \<Longrightarrow>
   fold (view_event i env c) es unknown_view = paired_view i c (announcements env c es) (arrivals c es)"
proof (induction es rule: rev_induct)
  case (snoc e es)
  then have IH: "fold (view_event i env c) es unknown_view = paired_view i c (announcements env c es) (arrivals c es)" by simp
  show ?case
  proof (cases rule: view_event_cases[of env c e i])
    case none
    then show ?thesis using IH by simp
  next
    case (ann m)
    then have "announcements env c es = []" "announcements env c (es @ [e]) = [m]" using snoc.prems by auto
    then show ?thesis using IH ann by (cases "arrivals c es") (auto simp: view_announce_def simp del: concat_eq_Nil_conv)
  next
    case (arr st)
    then have "arrivals c es = []" "arrivals c (es @ [e]) = [st]" using snoc.prems by auto
    then show ?thesis using IH arr by (cases "announcements env c es") (auto simp: view_arrive_def simp del: concat_eq_Nil_conv)
  qed
qed simp

text \<open>A bridged connection: a late announcement is stored and nothing else happens.\<close>

lemma bridged_run:
  "arrivals c es = [] \<Longrightarrow> length (announcements env c es) \<le> 1 \<Longrightarrow>
   fold (view_event i env c) es (unknown_view\<lparr>cv_tasks := [t]\<rparr>) =
     unknown_view\<lparr>cv_conn := (case announcements env c es of [] \<Rightarrow> None | m # _ \<Rightarrow> Some m), cv_tasks := [t]\<rparr>"
proof (induction es rule: rev_induct)
  case (snoc e es)
  then have IH: "fold (view_event i env c) es (unknown_view\<lparr>cv_tasks := [t]\<rparr>) =
      unknown_view\<lparr>cv_conn := (case announcements env c es of [] \<Rightarrow> None | m # _ \<Rightarrow> Some m), cv_tasks := [t]\<rparr>" by simp
  show ?case
  proof (cases rule: view_event_cases[of env c e i])
    case (ann m)
    then have "announcements env c es = []" "announcements env c (es @ [e]) = [m]" using snoc.prems by auto
    then show ?thesis using IH ann by (auto simp: view_announce_def simp del: concat_eq_Nil_conv)
  qed (use IH snoc.prems in auto)
qed simp

text \<open>A connection whose local socket waits: announcements are skipped until the stream comes.\<close>

lemma waiting_run:
  "arrivals c es = [] \<Longrightarrow>
   fold (view_event i env c) es (unknown_view\<lparr>cv_local := Some l\<rparr>) = unknown_view\<lparr>cv_local := Some l\<rparr>"
proof (induction es rule: rev_induct)
  case (snoc e es)
  then show ?case
    by (cases rule: view_event_cases[of env c e i]) (auto simp: view_announce_def)
qed simp


lemma arrival_split:
  assumes "arrivals c es = [st]"
  obtains x e y where "es = x @ e # y" "arrivals c x = []" "arrived c e = [st]" "arrivals c y = []"
  using assms
proof (induction es arbitrary: thesis)
  case (Cons a es)
  show ?case
  proof (cases "arrived c a")
    case Nil
    then have "arrivals c es = [st]" using Cons.prems(2) by simp
    from Cons.IH[OF _ this] obtain x e y where "es = x @ e # y" "arrivals c x = []" "arrived c e = [st]" "arrivals c y = []" by blast
    then show ?thesis using Cons.prems(1)[of "a # x" e y] Nil by simp
  next
    case (Cons b bs)
    then show ?thesis using Cons.prems(1)[of "[]" a es] \<open>arrivals c (a # es) = [st]\<close> by simp
  qed
qed simp

text \<open>The third part of a relayed run, once the answer has been seen with the stream already there or still to come.\<close>

lemma relayed_run:
  assumes v: "v = (case ss of [] \<Rightarrow> unknown_view\<lparr>cv_local := Some l\<rparr> | x # _ \<Rightarrow> unknown_view\<lparr>cv_tasks := [TaskRelay c x l]\<rparr>)"
    and arr: "ss @ arrivals c es = [st]" and ann: "announcements env c es = [m]"
  shows "\<exists>pc. fold (view_event i env c) es v = unknown_view\<lparr>cv_conn := pc, cv_tasks := [TaskRelay c st l]\<rparr> \<and>
    (pc = None \<longleftrightarrow> (\<exists>x y. es = x @ LvStream c st # y \<and> announcements env c x = [m]))"
proof (cases ss)
  case (Cons a ss')
  then have none: "arrivals c es = []" "v = unknown_view\<lparr>cv_tasks := [TaskRelay c st l]\<rparr>" using arr v by auto
  have "\<not> (\<exists>x y. es = x @ LvStream c st # y)" using none(1) by (auto simp: arrived_def)
  then show ?thesis using bridged_run[OF none(1), of env i] ann none(2) by simp
next
  case Nil
  then have "arrivals c es = [st]" using arr by simp
  then obtain x e y where es: "es = x @ e # y" "arrivals c x = []" "arrived c e = [st]" "arrivals c y = []"
    using arrival_split by blast
  have e: "e = LvStream c st" using es(3) by (auto simp: arrived_def split: client_event.splits if_splits)
  have ae: "announced env c e = []" by (simp add: e announced_def frame_of_def)
  have "fold (view_event i env c) es v = fold (view_event i env c) y (unknown_view\<lparr>cv_tasks := [TaskRelay c st l]\<rparr>)"
    using waiting_run[OF es(2), of i env l] Nil v
    by (simp add: es(1)) (simp add: view_event_def es(3) ae view_arrive_def)
  also have "\<dots> = unknown_view\<lparr>cv_conn := (case announcements env c y of [] \<Rightarrow> None | m # _ \<Rightarrow> Some m), cv_tasks := [TaskRelay c st l]\<rparr>"
    using bridged_run[OF es(4), of env i] arg_cong[OF ann, of length] by (simp add: es(1))
  finally have run: "fold (view_event i env c) es v = \<dots>" .
  have uniq: "x' = x \<and> y' = y" if "es = x' @ LvStream c st # y'" for x' y'
  proof -
    have "LvStream c st \<notin> set x" "LvStream c st \<notin> set y" using es(2,4) by (auto simp: arrived_def)
    then show ?thesis using that unfolding es(1) e by (metis append_Cons_eq_iff)
  qed
  have "(case announcements env c y of [] \<Rightarrow> None | m # _ \<Rightarrow> Some m) = None \<longleftrightarrow> announcements env c x = [m]"
    using ann ae by (auto simp: es(1) append_eq_Cons_conv split: list.split simp del: concat_eq_Nil_conv)
  then show ?thesis using run uniq es(1) e by (intro exI conjI) (assumption, blast)
qed

lemma accepted_request:
  assumes run: "client_main_loop env (e1 @ LvLocal l q None # e2) s = (s', None)" and sub: "le_sub_info env \<noteq> None"
    and req: "list_all (\<lambda>e. \<not> uses_request env q e) e2"
  shows "dm_get (lo_request_to_local s') q = Some l"
proof -
  obtain s1 s2 where r: "client_main_step env (LvLocal l q None) s1 = (s2, None)" "client_main_loop env e2 s2 = (s', None)"
    using run client_main_loop_append[of env e1 "LvLocal l q None # e2" s] by (auto split: prod.splits option.splits)
  have "dm_get (lo_request_to_local s2) q = Some l"
    using r(1) sub by (auto simp: client_main_step_def loop_send_def)
  then show ?thesis using request_in_loop[OF r(2) req] by simp
qed

section \<open>Properties\<close>

text \<open>Announcement and stream find each other.  A connection the loop does not know, announced at most once and
  with at most one stream, no relay of its own and no loss of the data WebSocket: whatever else happens and in whichever
  order the two come, exactly one proxy task is started once both are there, with the stream that arrived and the local
  service the announcement selects, and nothing is left over; with only one of them it waits in its map and nothing is
  started.\<close>

theorem client_pairs_streams:
  assumes run: "client_main_loop env es s = (s', None)" and new: "view c s = unknown_view"
    and pl: "list_all (plain env c) es"
    and once: "length (announcements env c es) \<le> 1" "length (arrivals c es) \<le> 1"
  shows "view c s' = paired_view (lo_inspector s) c (announcements env c es) (arrivals c es)"
  using view_loop[OF run pl refl] paired_run[OF once, of "lo_inspector s"] new by simp

definition example_loop_env :: loop_env where
  "example_loop_env =
     \<lparr>le_client = \<lparr>cl_decode = (\<lambda>d. if d = ''new'' then Inr (NewConnection 5 ''9.9.9.9:1'' Tcp)
          else if d = ''ok'' then Inr (P2pConnected ''q'' 5) else Inr (NewConnection 5 ''0.0.0.0:0'' P2p)),
        cl_frame_debug = (\<lambda>_. []), cl_sha256_hex = id, cl_to_lowercase = id, cl_uuid = (\<lambda>_. []), cl_addr = (\<lambda>_. []),
        cl_version = ''1'', cl_surface = None, cl_json_mode = True, cl_bind_error = (\<lambda>_. None)\<rparr>,
      le_parse_addr = (\<lambda>_. None),
      le_registered = [(tunnel_def_from_cli ''tcp'' 22 ''localhost'' None, ''tcp://ex.com:101''),
        (p2p_subscriber_def id 80 ''localhost'' ''peer'' ''s'', [])],
      le_sub_info = Some (''peer'', ''s'', ''s'')\<rparr>"

definition example_loop :: client_loop where
  "example_loop = client_loop_new (inspector_new True [] None) 0"

abbreviation example_frame :: "string \<Rightarrow> client_event" where
  "example_frame d \<equiv> LvCtrl 0 0 (WsBinary d) None"

lemmas example_loop_defs = example_loop_def client_loop_new_def example_loop_env_def view_def plain_def keeps_streams_def relays_def
  uses_request_def frame_of_def announced_def arrived_def client_parse_binary_def proto_matches_def tunnel_def_from_cli_def
  p2p_subscriber_def_def client_main_step_def loop_send_def client_frame_def

lemma running_fst: "snd r = None \<Longrightarrow> r = (fst r, None)" for r :: "'a \<times> 'b option"
  by (cases r) simp

theorem client_pairs_streams_witness:
  "cv_tasks (view 5 (fst (client_main_loop example_loop_env [LvStream 5 3, example_frame ''new''] example_loop))) =
     [TaskProxy 5 3 (''localhost:'' @ dec_string 22) None]"
proof -
  let ?es = "[LvStream 5 3, example_frame ''new'']"
  have run: "snd (client_main_loop example_loop_env ?es example_loop) = None" by (simp add: example_loop_defs)
  have ann: "announcements example_loop_env 5 ?es =
      [\<lparr>cm_local_addr = ''localhost:'' @ dec_string 22, cm_protocol = Tcp, cm_client_addr = ''9.9.9.9:1'', cm_tunnel_label = ''tunnel''\<rparr>]"
    by (simp add: example_loop_defs local_addr_of_def tunnel_label_def)
  have arr: "arrivals 5 ?es = [3]" by (simp add: arrived_def)
  have "view 5 (fst (client_main_loop example_loop_env ?es example_loop)) =
      paired_view (lo_inspector example_loop) 5 (announcements example_loop_env 5 ?es) (arrivals 5 ?es)"
    by (rule client_pairs_streams[OF running_fst[OF run]]) (simp_all add: ann arr, simp_all add: example_loop_defs)
  then show ?thesis unfolding ann arr by (simp add: spawn_proxy_def)
qed



end
