(* ===== verification/Mcp.thy ===== *)
theory Mcp
  imports ClientSetup
begin

text \<open>
  The MCP server (\<open>tools.rs\<close>, \<open>tunnel_manager.rs\<close>): the command lines and configuration files it builds, the tools, and the
  subprocesses and temporary files they leave.  Answers of the REST API, of the process calls and of the file system are
  inputs; JSON values are data, their text is the work of the JSON library.
\<close>

section \<open>JSON arguments\<close>

text \<open>Numbers that are not unsigned integers of 64 bits are \<open>JNumber\<close>.\<close>

datatype json =
    JNull
  | JBool bool
  | JUint u64
  | JNumber
  | JStr string
  | JArr "json list"
  | JObj "(string \<times> json) list"

definition json_get :: "json \<Rightarrow> string \<Rightarrow> json option" where
  "json_get v key = (case v of JObj m \<Rightarrow> map_of m key | _ \<Rightarrow> None)"

definition as_str :: "json \<Rightarrow> string option" where
  "as_str v = (case v of JStr s \<Rightarrow> Some s | _ \<Rightarrow> None)"

definition as_u64 :: "json \<Rightarrow> u64 option" where
  "as_u64 v = (case v of JUint n \<Rightarrow> Some n | _ \<Rightarrow> None)"

definition as_bool :: "json \<Rightarrow> bool option" where
  "as_bool v = (case v of JBool b \<Rightarrow> Some b | _ \<Rightarrow> None)"

definition is_object :: "json \<Rightarrow> bool" where
  "is_object v = (case v of JObj _ \<Rightarrow> True | _ \<Rightarrow> False)"

definition arg_str :: "json \<Rightarrow> string \<Rightarrow> string option" where
  "arg_str args key = Option.bind (json_get args key) as_str"

definition arg_u64 :: "json \<Rightarrow> string \<Rightarrow> u64 option" where
  "arg_u64 args key = Option.bind (json_get args key) as_u64"

section \<open>Server state and world\<close>

record mcp_state =
  st_server_addr :: string
  st_insecure :: bool
  st_token :: "string option"

record tracked =
  tr_child :: nat
  tr_temp_config :: "string option"

text \<open>The processes that still run, the temporary files that exist, and the table of the tunnel manager.\<close>

record mcp_world =
  mw_running :: "nat list"
  mw_files :: "(string, string) dashmap"
  mw_processes :: "(string, tracked) dashmap"

datatype tool_result = ToolOk json | ToolErr string

definition pick_token :: "string option \<Rightarrow> string option \<Rightarrow> string option" where
  "pick_token arg env =
     (let keep = (\<lambda>t. Option.bind t (\<lambda>s. if str_trim s = [] then None else Some s))
      in case keep arg of Some s \<Rightarrow> Some s | None \<Rightarrow> keep env)"

definition resolve_token :: "json \<Rightarrow> mcp_state \<Rightarrow> string option" where
  "resolve_token args st = pick_token (arg_str args ''token'') (st_token st)"

text \<open>\<open>sibling\<close> is the path of a \<open>rustunnel\<close> binary beside this executable, if it is a file.\<close>

definition resolve_cli_path_from :: "string option \<Rightarrow> string option \<Rightarrow> string" where
  "resolve_cli_path_from sibling env_override =
     (case Option.bind (map_option str_trim env_override) (\<lambda>p. if p = [] then None else Some p) of
        Some p \<Rightarrow> p
      | None \<Rightarrow> (case sibling of Some s \<Rightarrow> s | None \<Rightarrow> ''rustunnel''))"

definition NO_TOKEN_HELP :: string where
  "NO_TOKEN_HELP = ''No API token available. Set the RUSTUNNEL_TOKEN environment variable in your MCP client config, or '' @
     ''pass a `token` argument. Get a free token at https://rustunnel.com (Dashboard '' @ [CHR 0xE2, CHR 0x86, CHR 0x92] @
     '' API Keys), or for a self-hosted server create one with `rustunnel token create`.''"

section \<open>Command lines\<close>

definition flag_opt :: "string \<Rightarrow> string option \<Rightarrow> string list" where
  "flag_opt flag v = (case v of Some s \<Rightarrow> [flag, s] | None \<Rightarrow> [])"

definition build_inline_args ::
  "string \<Rightarrow> u64 \<Rightarrow> string \<Rightarrow> string \<Rightarrow> bool \<Rightarrow> string option \<Rightarrow> string option \<Rightarrow> string option \<Rightarrow> string list" where
  "build_inline_args protocol local_port server token insecure subdomain region local_host =
     [protocol, dec_string (unat local_port), ''--server'', server, ''--token'', token] @
     (if insecure then [''--insecure''] else []) @
     flag_opt ''--subdomain'' subdomain @ flag_opt ''--region'' region @ flag_opt ''--local_host'' local_host"

definition build_p2p_args ::
  "u64 \<Rightarrow> string \<Rightarrow> string \<Rightarrow> bool \<Rightarrow> string option \<Rightarrow> string option \<Rightarrow> string option \<Rightarrow> string option \<Rightarrow> string option \<Rightarrow>
   string + string list" where
  "build_p2p_args local_port server token insecure secret peer_name peer_target region local_host =
     (case Option.bind secret (\<lambda>s. if s = [] then None else Some s) of
        None \<Rightarrow> Inl ''P2P tunnels require a `secret` (publisher and subscriber must match).''
      | Some sec \<Rightarrow>
          bind_result
            (case (peer_name, peer_target) of
               (Some n, None) \<Rightarrow> Inr [''--name'', n]
             | (None, Some t) \<Rightarrow> Inr [''--target'', t]
             | (Some _, Some _) \<Rightarrow> Inl ''P2P: set either `peer_name` (publish) or `peer_target` (connect), not both.''
             | (None, None) \<Rightarrow> Inl ''P2P: set `peer_name` to publish a service, or `peer_target` to connect to one.'')
            (\<lambda>mode. Inr
              ([''p2p'', dec_string (unat local_port), ''--secret'', sec, ''--server'', server, ''--token'', token] @ mode @
               (if insecure then [''--insecure''] else []) @
               flag_opt ''--region'' region @ flag_opt ''--local_host'' local_host)))"

section \<open>The configuration file of a load-balanced tunnel\<close>

fun yaml_escape :: "string \<Rightarrow> string" where
  "yaml_escape [] = []"
| "yaml_escape (c # cs) =
     (if c = CHR 0x5C then [CHR 0x5C, CHR 0x5C] else if c = CHR 0x22 then [CHR 0x5C, CHR 0x22] else [c]) @ yaml_escape cs"

definition yaml_str :: "string \<Rightarrow> string" where
  "yaml_str s = [CHR 0x22] @ yaml_escape s @ [CHR 0x22]"

abbreviation nl :: string where
  "nl \<equiv> [CHR 10]"

definition yaml_field :: "string \<Rightarrow> string \<Rightarrow> string" where
  "yaml_field key v = key @ '': '' @ v @ nl"

definition opt_field :: "string \<Rightarrow> string option \<Rightarrow> string" where
  "opt_field key v = (case v of Some s \<Rightarrow> yaml_field key s | None \<Rightarrow> [])"

definition health_check_yaml :: "json \<Rightarrow> string" where
  "health_check_yaml hc =
     (case hc of
        JObj m \<Rightarrow>
          ''    health_check:'' @ nl @
          opt_field ''      type'' (map_option yaml_str (arg_str hc ''type'')) @
          opt_field ''      path'' (map_option yaml_str (arg_str hc ''path'')) @
          concat (map (\<lambda>key. opt_field (''      '' @ key) (map_option (\<lambda>n. dec_string (unat n)) (arg_u64 hc key)))
            [''interval_secs'', ''timeout_secs'', ''max_failed'']) @
          opt_field ''      expect_2xx''
            (map_option (\<lambda>b. if b then ''true'' else ''false'') (Option.bind (json_get hc ''expect_2xx'') as_bool)) @
          opt_field ''      alert_webhook'' (map_option yaml_str (arg_str hc ''alert_webhook''))
      | _ \<Rightarrow> [])"

definition build_lb_config_yaml ::
  "string \<Rightarrow> string \<Rightarrow> bool \<Rightarrow> string \<Rightarrow> u64 \<Rightarrow> string option \<Rightarrow> string option \<Rightarrow> string option \<Rightarrow> string \<Rightarrow> string \<Rightarrow>
   json option \<Rightarrow> string" where
  "build_lb_config_yaml server token insecure protocol local_port local_host subdomain region grp group_key health_check =
     ''# Generated by rustunnel-mcp for a load-balanced tunnel.'' @ nl @
     yaml_field ''server'' (yaml_str server) @ yaml_field ''auth_token'' (yaml_str token) @
     (if insecure then yaml_field ''insecure'' ''true'' else []) @
     opt_field ''region'' (map_option yaml_str region) @
     nl @ ''tunnels:'' @ nl @ ''  lb:'' @ nl @
     yaml_field ''    proto'' protocol @
     yaml_field ''    local_port'' (dec_string (unat local_port)) @
     yaml_field ''    local_host'' (yaml_str (case local_host of Some h \<Rightarrow> h | None \<Rightarrow> ''localhost'')) @
     opt_field ''    subdomain'' (map_option yaml_str subdomain) @
     yaml_field ''    group'' (yaml_str grp) @ yaml_field ''    group_key'' (yaml_str group_key) @
     (case health_check of Some hc \<Rightarrow> health_check_yaml hc | None \<Rightarrow> [])"

section \<open>The plan\<close>

record spawn_plan =
  pl_args :: "string list"
  pl_temp_config :: "string option"

text \<open>\<open>path\<close> is the fresh path of \<open>temp_config_path\<close>, \<open>write_error\<close> the error of the write, if it fails.\<close>

definition plan_spawn ::
  "string \<Rightarrow> string option \<Rightarrow> json \<Rightarrow> string \<Rightarrow> mcp_state \<Rightarrow> mcp_world \<Rightarrow> mcp_world \<times> (string + spawn_plan)" where
  "plan_spawn path write_error args token st w =
     (case arg_str args ''protocol'' of
        None \<Rightarrow> (w, Inl ''missing required argument: protocol'')
      | Some protocol \<Rightarrow>
          (case arg_u64 args ''local_port'' of
             None \<Rightarrow> (w, Inl ''missing required argument: local_port'')
           | Some local_port \<Rightarrow>
               let subdomain = arg_str args ''subdomain''; region = arg_str args ''region'';
                   local_host = arg_str args ''local_host'';
                   health_check = Option.bind (json_get args ''health_check'') (\<lambda>v. if is_object v then Some v else None)
               in case (arg_str args ''group'', arg_str args ''group_key'') of
                    (Some grp, Some group_key) \<Rightarrow>
                      if protocol \<noteq> ''http'' \<and> protocol \<noteq> ''tcp''
                      then (w, Inl ''load balancing is only supported for http and tcp tunnels'')
                      else (case write_error of
                              Some e \<Rightarrow> (w, Inl (''failed to write temp config '' @ path @ '': '' @ e))
                            | None \<Rightarrow>
                                (w\<lparr>mw_files := dm_insert path (build_lb_config_yaml (st_server_addr st) token (st_insecure st) protocol
                                     local_port local_host subdomain region grp group_key health_check) (mw_files w)\<rparr>,
                                 Inr \<lparr>pl_args = [''start'', ''--config'', path], pl_temp_config = Some path\<rparr>))
                  | (Some _, None) \<Rightarrow> (w, Inl ''load balancing requires `group_key`'')
                  | (None, Some _) \<Rightarrow> (w, Inl ''load balancing requires `group`'')
                  | (None, None) \<Rightarrow>
                      if protocol = ''p2p''
                      then (w, bind_result (build_p2p_args local_port (st_server_addr st) token (st_insecure st)
                                 (arg_str args ''secret'') (arg_str args ''peer_name'') (arg_str args ''peer_target'') region local_host)
                               (\<lambda>cli. Inr \<lparr>pl_args = cli, pl_temp_config = None\<rparr>))
                      else (w, Inr \<lparr>pl_args = build_inline_args protocol local_port (st_server_addr st) token (st_insecure st)
                              subdomain region local_host, pl_temp_config = None\<rparr>)))"

definition cleanup_temp :: "string option \<Rightarrow> mcp_world \<Rightarrow> mcp_world" where
  "cleanup_temp path w = (case path of Some p \<Rightarrow> w\<lparr>mw_files := dm_remove p (mw_files w)\<rparr> | None \<Rightarrow> w)"

section \<open>The tunnel manager\<close>

definition end_process :: "nat \<Rightarrow> mcp_world \<Rightarrow> mcp_world" where
  "end_process pid w = w\<lparr>mw_running := removeAll pid (mw_running w)\<rparr>"

definition manager_insert :: "string \<Rightarrow> nat \<Rightarrow> string option \<Rightarrow> mcp_world \<Rightarrow> mcp_world" where
  "manager_insert tunnel_id child temp_config w =
     w\<lparr>mw_processes := dm_insert tunnel_id \<lparr>tr_child = child, tr_temp_config = temp_config\<rparr> (mw_processes w)\<rparr>"

definition kill_tracked :: "tracked \<Rightarrow> mcp_world \<Rightarrow> mcp_world" where
  "kill_tracked t w = cleanup_temp (tr_temp_config t) (end_process (tr_child t) w)"

definition manager_kill :: "string \<Rightarrow> mcp_world \<Rightarrow> mcp_world \<times> bool" where
  "manager_kill tunnel_id w =
     (case dm_get (mw_processes w) tunnel_id of
        Some t \<Rightarrow> (kill_tracked t (w\<lparr>mw_processes := dm_remove tunnel_id (mw_processes w)\<rparr>), True)
      | None \<Rightarrow> (w, False))"

definition manager_kill_all :: "mcp_world \<Rightarrow> mcp_world" where
  "manager_kill_all w = fold (\<lambda>(_, t). kill_tracked t) (mw_processes w) (w\<lparr>mw_processes := []\<rparr>)"

section \<open>What the CLI printed\<close>

text \<open>The reader keeps lines until the buffer holds 8 KiB.\<close>

definition stderr_capture :: "string list \<Rightarrow> string" where
  "stderr_capture ls = fold (\<lambda>line buf. if length buf < 8 * 1024 then buf @ line else buf) ls []"

text \<open>\<open>str::replace\<close> with a pattern that is not empty, and \<open>str::lines\<close>.\<close>

function str_replace :: "string \<Rightarrow> string \<Rightarrow> string \<Rightarrow> string" where
  "str_replace p q [] = []"
| "str_replace p q (c # cs) =
     (if p \<noteq> [] \<and> prefix p (c # cs) then q @ str_replace p q (drop (length p) (c # cs)) else c # str_replace p q cs)"
  by pat_completeness auto
termination
  by (relation "measure (\<lambda>(_, _, s). length s)") auto

definition str_lines :: "string \<Rightarrow> string list" where
  "str_lines s =
     (let ps = str_split (CHR 10) s
      in map (\<lambda>l. if l \<noteq> [] \<and> last l = CHR 13 then butlast l else l) (butlast ps) @
         (if last ps = [] then [] else [last ps]))"

fun upgrade_lines :: "bool \<Rightarrow> string list \<Rightarrow> string list \<Rightarrow> string list" where
  "upgrade_lines is_first [] acc = acc"
| "upgrade_lines is_first (l # ls) acc =
     (let line = str_trim l; ends = starts_with ''Upgrade:'' line \<or> starts_with ''https://'' line
      in if line = [] then (if acc \<noteq> [] then acc else upgrade_lines False ls acc)
         else if \<not> is_first \<and> \<not> ends then acc
         else if ends then acc @ [line]
         else upgrade_lines False ls (acc @ [line]))"

fun join_lines :: "string list \<Rightarrow> string" where
  "join_lines [] = []"
| "join_lines [l] = l"
| "join_lines (l # ls) = l @ nl @ join_lines ls"

definition upgrade_text_from_cli_output :: "string \<Rightarrow> string option" where
  "upgrade_text_from_cli_output raw =
     (let txt = str_replace [CHR 13, CHR 10] nl raw
      in case find_sub ''Hobby plan'' txt of
           None \<Rightarrow> None
         | Some start \<Rightarrow>
             let ls = upgrade_lines True (str_lines (drop start txt)) []
             in if ls = [] then None
                else let msg = join_lines ls;
                         msg' = (case find_sub ''Hobby plan'' msg of Some idx \<Rightarrow> drop idx msg | None \<Rightarrow> msg)
                     in Some (str_replace ''utm_source=cli'' ''utm_source=mcp'' msg'))"

definition cli_exit_tool_error :: "string \<Rightarrow> string" where
  "cli_exit_tool_error stderr =
     (case upgrade_text_from_cli_output stderr of
        Some t \<Rightarrow> t
      | None \<Rightarrow>
          (case find (str_contains ''error:'') (rev (str_lines stderr)) of
             Some line \<Rightarrow> ''rustunnel exited before the tunnel was registered.'' @ nl @ str_trim line
           | None \<Rightarrow> ''rustunnel exited before the tunnel was registered.''))"

section \<open>The tools\<close>

record api_tunnel =
  sm_tunnel_id :: string
  sm_protocol :: string
  sm_public_url :: string

datatype child_status = ChildExited | ChildRuns | ChildUnknown string

datatype poll_outcome = PollExited | PollFound api_tunnel | PollTimeout

text \<open>The loop that waits for the new tunnel, over the status of the process and the answer of the API at each turn.\<close>

fun poll_loop :: "string list \<Rightarrow> (child_status \<times> (string + api_tunnel list)) list \<Rightarrow> poll_outcome" where
  "poll_loop before_ids [] = PollTimeout"
| "poll_loop before_ids ((status, answer) # rest) =
     (if status = ChildExited then PollExited
      else case answer of
             Inl e \<Rightarrow> poll_loop before_ids rest
           | Inr ts \<Rightarrow>
               (case find (\<lambda>t. sm_tunnel_id t \<notin> set before_ids) ts of
                  Some t \<Rightarrow> PollFound t
                | None \<Rightarrow> poll_loop before_ids rest))"

definition POLL_ATTEMPTS :: nat where
  "POLL_ATTEMPTS = 30"

text \<open>What a call of \<open>create_tunnel\<close> meets: the temporary path and the error of the write, the first answer of the API,
  the outcome of the spawn, each poll, and what the process printed.\<close>

record create_env =
  ce_path :: string
  ce_write_error :: "string option"
  ce_before :: "string + api_tunnel list"
  ce_spawn :: "string + nat"
  ce_polls :: "nat \<Rightarrow> child_status \<times> (string + api_tunnel list)"
  ce_stderr :: "string list"
  ce_cli :: string

definition spawn_error :: "string \<Rightarrow> string \<Rightarrow> string" where
  "spawn_error cli e =
     ''failed to spawn rustunnel ('' @ cli @ ''): '' @ e @ ''. Install the 'rustunnel' CLI and put it on PATH, '' @
     ''or point the RUSTUNNEL_CLI env var at the binary.''"

definition not_created :: "bool \<Rightarrow> string \<Rightarrow> tool_result" where
  "not_created cli_exited collected =
     (if cli_exited then ToolErr (cli_exit_tool_error collected)
      else case upgrade_text_from_cli_output collected of
             Some t \<Rightarrow> ToolErr t
           | None \<Rightarrow> ToolErr (''timeout: tunnel did not appear within 15 seconds. '' @
                       ''Check that the server address and token are correct.''))"

definition create_tunnel :: "create_env \<Rightarrow> json \<Rightarrow> mcp_state \<Rightarrow> mcp_world \<Rightarrow> mcp_world \<times> tool_result" where
  "create_tunnel env args st w =
     (case resolve_token args st of
        None \<Rightarrow> (w, ToolErr NO_TOKEN_HELP)
      | Some token \<Rightarrow>
          (case plan_spawn (ce_path env) (ce_write_error env) args token st w of
             (w1, Inl e) \<Rightarrow> (w1, ToolErr e)
           | (w1, Inr plan) \<Rightarrow>
               (case ce_before env of
                  Inl e \<Rightarrow> (cleanup_temp (pl_temp_config plan) w1, ToolErr (''failed to query current tunnels: '' @ e))
                | Inr before_ids \<Rightarrow>
                    (case ce_spawn env of
                       Inl e \<Rightarrow> (cleanup_temp (pl_temp_config plan) w1, ToolErr (spawn_error (ce_cli env) e))
                     | Inr child \<Rightarrow>
                         let w2 = w1\<lparr>mw_running := mw_running w1 @ [child]\<rparr>
                         in case poll_loop (map sm_tunnel_id before_ids) (map (ce_polls env) [0..<POLL_ATTEMPTS]) of
                              PollFound t \<Rightarrow>
                                (manager_insert (sm_tunnel_id t) child (pl_temp_config plan) w2,
                                 ToolOk (JObj [(''public_url'', JStr (sm_public_url t)), (''tunnel_id'', JStr (sm_tunnel_id t)),
                                   (''protocol'', JStr (sm_protocol t))]))
                            | PollExited \<Rightarrow>
                                (cleanup_temp (pl_temp_config plan) (end_process child w2),
                                 not_created True (stderr_capture (ce_stderr env)))
                            | PollTimeout \<Rightarrow>
                                (cleanup_temp (pl_temp_config plan) (end_process child w2),
                                 not_created False (stderr_capture (ce_stderr env)))))))"

text \<open>\<open>answer\<close> is the status of the API call.\<close>

definition close_tunnel :: "string + nat \<Rightarrow> json \<Rightarrow> mcp_state \<Rightarrow> mcp_world \<Rightarrow> mcp_world \<times> tool_result" where
  "close_tunnel answer args st w =
     (case resolve_token args st of
        None \<Rightarrow> (w, ToolErr NO_TOKEN_HELP)
      | Some token \<Rightarrow>
          (case arg_str args ''tunnel_id'' of
             None \<Rightarrow> (w, ToolErr ''missing required argument: tunnel_id'')
           | Some tunnel_id \<Rightarrow>
               (fst (manager_kill tunnel_id w),
                case answer of
                  Inl e \<Rightarrow> ToolErr (''API error: '' @ e)
                | Inr status \<Rightarrow>
                    if status = 204 \<or> status = 200 then ToolOk (JStr ''Tunnel closed successfully.'')
                    else if status = 404 then ToolErr ''Tunnel not found. It may have already been closed.''
                    else if status = 401 then ToolErr (''Authentication failed '' @ [CHR 0xE2, CHR 0x80, CHR 0x94] @ '' check your token.'')
                    else ToolErr (''Unexpected status from server: '' @ dec_string status))))"

fun join_words :: "string list \<Rightarrow> string" where
  "join_words [] = []"
| "join_words [x] = x"
| "join_words (x # xs) = x @ '' '' @ join_words xs"

definition get_connection_info :: "string \<Rightarrow> string option \<Rightarrow> json \<Rightarrow> mcp_state \<Rightarrow> mcp_world \<Rightarrow> mcp_world \<times> tool_result" where
  "get_connection_info path write_error args st w =
     (case resolve_token args st of
        None \<Rightarrow> (w, ToolErr NO_TOKEN_HELP)
      | Some token \<Rightarrow>
          (case plan_spawn path write_error args token st w of
             (w1, Inl e) \<Rightarrow> (w1, ToolErr e)
           | (w1, Inr plan) \<Rightarrow>
               let config = Option.bind (pl_temp_config plan) (dm_get (mw_files w1));
                   command = (case config of
                       Some _ \<Rightarrow> ''rustunnel start --config ~/.rustunnel/lb.yml  # save config_yaml there first''
                     | None \<Rightarrow> ''rustunnel '' @ join_words (pl_args plan))
               in (cleanup_temp (pl_temp_config plan) w1,
                   ToolOk (JObj ([(''cli_command'', JStr command), (''server'', JStr (st_server_addr st)),
                       (''install_url'', JStr ''https://github.com/joaoh82/rustunnel/releases/latest'')] @
                     (case config of Some c \<Rightarrow> [(''config_yaml'', JStr c)] | None \<Rightarrow> []) @
                     (case arg_str args ''region'' of Some r \<Rightarrow> [(''region'', JStr r)] | None \<Rightarrow> []))))))"

text \<open>The tools that only pass an answer of the API on.\<close>

definition list_tunnels_tool :: "string + json \<Rightarrow> json \<Rightarrow> mcp_state \<Rightarrow> tool_result" where
  "list_tunnels_tool answer args st =
     (case resolve_token args st of
        None \<Rightarrow> ToolErr NO_TOKEN_HELP
      | Some _ \<Rightarrow> (case answer of Inr v \<Rightarrow> ToolOk v | Inl e \<Rightarrow> ToolErr (''API error: '' @ e)))"

definition list_regions_tool :: "string + json \<Rightarrow> tool_result" where
  "list_regions_tool answer = (case answer of Inr v \<Rightarrow> ToolOk v | Inl e \<Rightarrow> ToolErr (''API error: '' @ e))"

text \<open>The request for the history; the answer is passed on as above.\<close>

definition history_url :: "string \<Rightarrow> u64 \<Rightarrow> string option \<Rightarrow> string" where
  "history_url base limit protocol =
     base @ ''/api/history?limit='' @ dec_string (unat limit) @
     (case protocol of Some p \<Rightarrow> ''&protocol='' @ p | None \<Rightarrow> [])"

definition get_tunnel_history :: "(string \<Rightarrow> string + json) \<Rightarrow> string \<Rightarrow> json \<Rightarrow> mcp_state \<Rightarrow> tool_result" where
  "get_tunnel_history api base args st =
     (case resolve_token args st of
        None \<Rightarrow> ToolErr NO_TOKEN_HELP
      | Some _ \<Rightarrow>
          (case api (history_url base (case arg_u64 args ''limit'' of Some n \<Rightarrow> n | None \<Rightarrow> 25) (arg_str args ''protocol'')) of
             Inr v \<Rightarrow> ToolOk v
           | Inl e \<Rightarrow> ToolErr (''API error: '' @ e)))"

text \<open>The dispatcher; the environment carries the answers of the outside for whichever tool is called.\<close>

record tool_env =
  tv_create :: create_env
  tv_close :: "string + nat"
  tv_api :: "string \<Rightarrow> string + json"
  tv_base :: string

definition mcp_dispatch :: "tool_env \<Rightarrow> string \<Rightarrow> json \<Rightarrow> mcp_state \<Rightarrow> mcp_world \<Rightarrow> mcp_world \<times> tool_result" where
  "mcp_dispatch env name args st w =
     (if name = ''create_tunnel'' then create_tunnel (tv_create env) args st w
      else if name = ''list_tunnels'' then (w, list_tunnels_tool (tv_api env (tv_base env @ ''/api/tunnels'')) args st)
      else if name = ''close_tunnel'' then close_tunnel (tv_close env) args st w
      else if name = ''get_connection_info''
      then get_connection_info (ce_path (tv_create env)) (ce_write_error (tv_create env)) args st w
      else if name = ''get_tunnel_history'' then (w, get_tunnel_history (tv_api env) (tv_base env) args st)
      else if name = ''list_regions'' then (w, list_regions_tool (tv_api env (tv_base env @ ''/api/regions'')))
      else (w, ToolErr (''unknown tool: '' @ name)))"

section \<open>The message loop\<close>

text \<open>A message has an id exactly when it is a request.  \<open>parse\<close> is the JSON parser for messages, \<open>tool_defs\<close> the static list
  of tool descriptions.\<close>

record incoming_message =
  im_id :: "json option"
  im_method :: string
  im_params :: "json option"

datatype rpc_outcome = RpcResult json | RpcTool tool_result | RpcError int string

record outgoing_message =
  om_id :: "json option"
  om_outcome :: rpc_outcome

record mcp_host =
  mh_parse :: "string \<Rightarrow> string + incoming_message"
  mh_tool_defs :: "json list"
  mh_version :: string

definition handle_initialize :: "mcp_host \<Rightarrow> incoming_message \<Rightarrow> json" where
  "handle_initialize host msg =
     (let version = Option.bind (im_params msg) (\<lambda>p. arg_str p ''protocolVersion'')
      in JObj [(''protocolVersion'', JStr (case version of Some v \<Rightarrow> v | None \<Rightarrow> ''2024-11-05'')),
               (''capabilities'', JObj [(''tools'', JObj [])]),
               (''serverInfo'', JObj [(''name'', JStr ''rustunnel-mcp''), (''version'', JStr (mh_version host))])])"

definition handle_tools_call :: "tool_env \<Rightarrow> incoming_message \<Rightarrow> mcp_state \<Rightarrow> mcp_world \<Rightarrow> mcp_world \<times> tool_result" where
  "handle_tools_call env msg st w =
     (case im_params msg of
        None \<Rightarrow> (w, ToolErr ''missing params'')
      | Some params \<Rightarrow>
          (case arg_str params ''name'' of
             None \<Rightarrow> (w, ToolErr ''missing tool name'')
           | Some name \<Rightarrow>
               mcp_dispatch env name (case json_get params ''arguments'' of Some a \<Rightarrow> a | None \<Rightarrow> JObj []) st w))"

definition handle_message ::
  "mcp_host \<Rightarrow> tool_env \<Rightarrow> mcp_state \<Rightarrow> string \<Rightarrow> mcp_world \<Rightarrow> mcp_world \<times> outgoing_message option" where
  "handle_message host env st raw w =
     (case mh_parse host raw of
        Inl e \<Rightarrow> (w, Some \<lparr>om_id = None, om_outcome = RpcError (-32700) (''parse error: '' @ e)\<rparr>)
      | Inr msg \<Rightarrow>
          if im_id msg = None then (w, None)
          else if im_method msg = ''initialize''
          then (w, Some \<lparr>om_id = im_id msg, om_outcome = RpcResult (handle_initialize host msg)\<rparr>)
          else if im_method msg = ''ping'' then (w, Some \<lparr>om_id = im_id msg, om_outcome = RpcResult (JObj [])\<rparr>)
          else if im_method msg = ''tools/list''
          then (w, Some \<lparr>om_id = im_id msg, om_outcome = RpcResult (JObj [(''tools'', JArr (mh_tool_defs host))])\<rparr>)
          else if im_method msg = ''tools/call''
          then (case handle_tools_call env msg st w of
                  (w', r) \<Rightarrow> (w', Some \<lparr>om_id = im_id msg, om_outcome = RpcTool r\<rparr>))
          else (w, Some \<lparr>om_id = im_id msg, om_outcome = RpcError (-32601) ''method not found''\<rparr>))"

text \<open>The loop over the lines of standard input, each with the answers of the outside and whether its reply can be written;
  at the end, and when the output is gone, the manager is emptied.\<close>

type_synonym mcp_line = "string \<times> tool_env \<times> bool"

fun mcp_lines :: "mcp_host \<Rightarrow> mcp_state \<Rightarrow> mcp_line list \<Rightarrow> mcp_world \<Rightarrow> mcp_world \<times> outgoing_message list" where
  "mcp_lines host st [] w = (w, [])"
| "mcp_lines host st ((line, env, written) # rest) w =
     (if str_trim line = [] then mcp_lines host st rest w
      else case handle_message host env st (str_trim line) w of
             (w', None) \<Rightarrow> mcp_lines host st rest w'
           | (w', Some reply) \<Rightarrow>
               if written then (case mcp_lines host st rest w' of (w'', replies) \<Rightarrow> (w'', reply # replies))
               else (w', []))"

definition mcp_run :: "mcp_host \<Rightarrow> mcp_state \<Rightarrow> mcp_line list \<Rightarrow> mcp_world \<times> outgoing_message list" where
  "mcp_run host st ls =
     (case mcp_lines host st ls \<lparr>mw_running = [], mw_files = [], mw_processes = []\<rparr> of
        (w, replies) \<Rightarrow> (manager_kill_all w, replies))"

end
