(* ===== verification/McpProps.thy ===== *)
theory McpProps
  imports Mcp ClientControl ClientSetupProps Billing
begin

text \<open>
  The MCP server leaves nothing behind: every running subprocess and every temporary file belongs to a tunnel its manager
  tracks.  A P2P subscriber cannot be opened through it, since it never shows up among the tunnels.
\<close>

section \<open>Ownership\<close>

definition tracked_children :: "mcp_world \<Rightarrow> nat set" where
  "tracked_children w = (tr_child \<circ> snd) ` set (mw_processes w)"

definition tracked_files :: "mcp_world \<Rightarrow> string set" where
  "tracked_files w = {p. \<exists>e \<in> set (mw_processes w). tr_temp_config (snd e) = Some p}"

definition owned :: "mcp_world \<Rightarrow> bool" where
  "owned w \<longleftrightarrow> dm_wf (mw_processes w) \<and> set (mw_running w) \<subseteq> tracked_children w \<and> dom (dm_get (mw_files w)) \<subseteq> tracked_files w"

text \<open>What the outside provides anew: a path no tunnel uses, a process handle not in use, and identifiers of new tunnels
  that the manager does not track yet.\<close>

definition fresh_env :: "create_env \<Rightarrow> mcp_world \<Rightarrow> bool" where
  "fresh_env env w \<longleftrightarrow> dm_get (mw_files w) (ce_path env) = None \<and> ce_path env \<notin> tracked_files w \<and>
     (\<forall>pid. ce_spawn env = Inr pid \<longrightarrow> pid \<notin> set (mw_running w) \<and> pid \<notin> tracked_children w) \<and>
     (\<forall>k before ts t. ce_before env = Inr before \<longrightarrow> snd (ce_polls env k) = Inr ts \<longrightarrow> t \<in> set ts \<longrightarrow>
        sm_tunnel_id t \<notin> sm_tunnel_id ` set before \<longrightarrow> dm_get (mw_processes w) (sm_tunnel_id t) = None)"

inductive mcp_reachable :: "mcp_state \<Rightarrow> mcp_world \<Rightarrow> bool" for st where
  start: "mcp_reachable st \<lparr>mw_running = [], mw_files = [], mw_processes = []\<rparr>"
| tool: "mcp_reachable st w \<Longrightarrow> fresh_env (tv_create env) w \<Longrightarrow> mcp_reachable st (fst (mcp_dispatch env name args st w))"
| exits: "mcp_reachable st w \<Longrightarrow> mcp_reachable st (end_process pid w)"

lemma cleanup_temp_sel [simp]:
  "mw_running (cleanup_temp p w) = mw_running w" "mw_processes (cleanup_temp p w) = mw_processes w"
  "dm_get (mw_files (cleanup_temp p w)) = (\<lambda>q. if p = Some q then None else dm_get (mw_files w) q)"
  by (auto simp: cleanup_temp_def fun_eq_iff split: option.split)

lemma cleanup_files: "mw_files a = mw_files b \<Longrightarrow> mw_files (cleanup_temp p a) = mw_files (cleanup_temp p b)"
  by (simp add: cleanup_temp_def split: option.split)

lemma end_process_sel [simp]:
  "set (mw_running (end_process pid w)) = set (mw_running w) - {pid}" "mw_processes (end_process pid w) = mw_processes w"
  "mw_files (end_process pid w) = mw_files w"
  by (auto simp: end_process_def)

lemma kill_tracked_sel [simp]:
  "set (mw_running (kill_tracked t w)) = set (mw_running w) - {tr_child t}" "mw_processes (kill_tracked t w) = mw_processes w"
  "dm_get (mw_files (kill_tracked t w)) = (\<lambda>q. if tr_temp_config t = Some q then None else dm_get (mw_files w) q)"
  by (auto simp: kill_tracked_def fun_eq_iff)

lemma kill_tracked_fold:
  "set (mw_running (fold (\<lambda>(_, t). kill_tracked t) ps w)) = set (mw_running w) - (tr_child \<circ> snd) ` set ps"
  "dom (dm_get (mw_files (fold (\<lambda>(_, t). kill_tracked t) ps w))) =
     dom (dm_get (mw_files w)) - {p. \<exists>e \<in> set ps. tr_temp_config (snd e) = Some p}"
proof (induction ps arbitrary: w)
  case (Cons e ps)
  { case 1 show ?case using Cons(1) by (auto simp: case_prod_beta) }
  { case 2 show ?case using Cons(2) by (auto simp: case_prod_beta split: if_splits) }
qed simp_all

text \<open>What a plan changes: at most the file at the fresh path, exactly when the plan names it.\<close>

lemma plan_spawn_sel:
  assumes "plan_spawn path err args token st w = (w', r)"
  shows "mw_running w' = mw_running w" "mw_processes w' = mw_processes w"
    "(r = Inl e \<longrightarrow> w' = w) \<and> (\<forall>plan. r = Inr plan \<longrightarrow> (pl_temp_config plan = None \<and> w' = w) \<or>
       (pl_temp_config plan = Some path \<and> dm_get (mw_files w') = (dm_get (mw_files w))(path \<mapsto> the (dm_get (mw_files w') path))))"
  using assms
  by (auto simp: plan_spawn_def bind_result_def Let_def fun_eq_iff split: option.splits if_splits sum.splits)

lemma plan_error:
  "plan_spawn path err args token st w = (w', Inl e) \<Longrightarrow> w' = w"
  using plan_spawn_sel(3) by blast

lemma plan_cleanup:
  assumes "plan_spawn path err args token st w = (w', Inr plan)" "dm_get (mw_files w) path = None"
  shows "dm_get (mw_files (cleanup_temp (pl_temp_config plan) w')) = dm_get (mw_files w)"
  using plan_spawn_sel(3)[OF assms(1), of undefined] assms(2) by (auto simp: fun_eq_iff)

lemma plan_files:
  assumes "plan_spawn path err args token st w = (w', Inr plan)"
  shows "dom (dm_get (mw_files w')) \<subseteq> dom (dm_get (mw_files w)) \<union> {p. pl_temp_config plan = Some p}"
proof -
  consider "w' = w" | v where "pl_temp_config plan = Some path" "dm_get (mw_files w') = (dm_get (mw_files w))(path \<mapsto> v)"
    using plan_spawn_sel(3)[OF assms, of undefined] by blast
  then show ?thesis by cases simp_all
qed

lemma owned_cong:
  assumes "mw_processes w' = mw_processes w" "set (mw_running w') \<subseteq> set (mw_running w)"
    "dom (dm_get (mw_files w')) \<subseteq> dom (dm_get (mw_files w))" "owned w"
  shows "owned w'"
  using assms(1,4) order_trans[OF assms(2)] order_trans[OF assms(3)]
  by (simp add: owned_def tracked_children_def tracked_files_def)

lemma poll_found:
  "poll_loop ids ps = PollFound t \<Longrightarrow> \<exists>ts st. (st, Inr ts) \<in> set ps \<and> t \<in> set ts \<and> sm_tunnel_id t \<notin> set ids"
proof (induction ids ps rule: poll_loop.induct)
  case (2 ids status answer rest)
  then show ?case
    by (auto split: if_splits sum.splits option.splits simp: find_Some_iff)
qed simp

lemma update_absent: "dm_get m k = None \<Longrightarrow> dm_insert k v m = m @ [(k, v)]"
  by (induction m) (auto split: if_splits)

lemma owned_insert:
  assumes "owned w" "dm_get (mw_processes w) tid = None"
    and "mw_processes w' = dm_insert tid \<lparr>tr_child = pid, tr_temp_config = tmp\<rparr> (mw_processes w)"
    and "set (mw_running w') \<subseteq> insert pid (set (mw_running w))"
    and "dom (dm_get (mw_files w')) \<subseteq> dom (dm_get (mw_files w)) \<union> {p. tmp = Some p}"
  shows "owned w'"
proof -
  have "mw_processes w' = mw_processes w @ [(tid, \<lparr>tr_child = pid, tr_temp_config = tmp\<rparr>)]"
    using assms(2,3) by (simp add: update_absent)
  note ps = this
  have kids: "tracked_children w' = insert pid (tracked_children w)"
    unfolding tracked_children_def ps by auto
  have files: "tracked_files w' = tracked_files w \<union> {p. tmp = Some p}"
    unfolding tracked_files_def ps by auto
  have "dm_wf (mw_processes w')" using assms(1,3) by (simp add: owned_def)
  moreover have "set (mw_running w') \<subseteq> tracked_children w'" using assms(1,4) unfolding kids owned_def by blast
  moreover have "dom (dm_get (mw_files w')) \<subseteq> tracked_files w'" using assms(1,5) unfolding files owned_def by blast
  ultimately show ?thesis by (simp add: owned_def)
qed

lemma create_tunnel_owned:
  assumes inv: "owned w" and fresh: "fresh_env env w"
  shows "owned (fst (create_tunnel env args st w))"
proof (cases "resolve_token args st")
  case (Some token)
  obtain w1 r where p: "plan_spawn (ce_path env) (ce_write_error env) args token st w = (w1, r)" by fastforce
  have free: "dm_get (mw_files w) (ce_path env) = None" using fresh by (simp add: fresh_env_def)
  show ?thesis
  proof (cases r)
    case (Inl e)
    then show ?thesis using p plan_error[OF p[unfolded Inl]] inv by (simp add: create_tunnel_def Some)
  next
    case (Inr plan)
    note sel = plan_spawn_sel[OF p[unfolded Inr]] and cl = plan_cleanup[OF p[unfolded Inr] free]
    have gone: "owned (cleanup_temp (pl_temp_config plan) w2)"
      if "mw_processes w2 = mw_processes w1" "set (mw_running w2) \<subseteq> set (mw_running w1)" "mw_files w2 = mw_files w1" for w2
      using that sel(1,2) cl cleanup_files[OF that(3), of "pl_temp_config plan"]
      by (intro owned_cong[OF _ _ _ inv]) (simp_all del: cleanup_temp_sel(3))
    show ?thesis
    proof (cases "ce_before env")
      case before: (Inr before)
      show ?thesis
      proof (cases "ce_spawn env")
        case pid: (Inr pid)
        let ?w2 = "w1\<lparr>mw_running := mw_running w1 @ [pid]\<rparr>"
        have ended: "owned (cleanup_temp (pl_temp_config plan) (end_process pid ?w2))" by (rule gone) auto
        show ?thesis
        proof (cases "poll_loop (map sm_tunnel_id before) (map (ce_polls env) [0..<POLL_ATTEMPTS])")
          case (PollFound t)
          from poll_found[OF this] have "dm_get (mw_processes w) (sm_tunnel_id t) = None"
            using fresh before by (auto simp: fresh_env_def) (metis snd_conv)
          then have "owned (manager_insert (sm_tunnel_id t) pid (pl_temp_config plan) ?w2)"
            by (rule owned_insert[OF inv, of _ _ pid "pl_temp_config plan"])
               (use sel(1,2) plan_files[OF p[unfolded Inr]] in \<open>simp_all add: manager_insert_def\<close>)
          then show ?thesis using PollFound by (simp add: create_tunnel_def Some p Inr before pid Let_def)
        qed (use ended in \<open>simp_all add: create_tunnel_def Some p Inr before pid Let_def\<close>)
      qed (use gone in \<open>simp add: create_tunnel_def Some p Inr before\<close>)
    qed (use gone in \<open>simp add: create_tunnel_def Some p Inr\<close>)
  qed
qed (use inv in \<open>simp add: create_tunnel_def\<close>)

lemma owned_kill:
  assumes "owned w"
  shows "owned (fst (manager_kill tid w))"
proof (cases "dm_get (mw_processes w) tid")
  case (Some t)
  have wf: "dm_wf (mw_processes w)" using assms by (simp add: owned_def)
  have e: "(tid, t) \<in> set (mw_processes w)" using Some by (rule dm_get_mem)
  let ?rest = "dm_remove tid (mw_processes w)"
  have rest: "x \<in> set ?rest \<or> x = (tid, t)" if "x \<in> set (mw_processes w)" for x
  proof (cases "fst x = tid")
    case True
    then have "(tid, snd x) \<in> set (mw_processes w)" using that by (metis prod.collapse)
    then have "snd x = t" using Some dm_set_iff[OF wf] by simp
    then show ?thesis using True by (metis prod.collapse)
  qed (use that in \<open>auto simp: AList.delete_eq\<close>)
  let ?w' = "kill_tracked t (w\<lparr>mw_processes := ?rest\<rparr>)"
  have "set (mw_running ?w') \<subseteq> tracked_children ?w'"
    using assms rest unfolding owned_def tracked_children_def by fastforce
  moreover have "dom (dm_get (mw_files ?w')) \<subseteq> tracked_files ?w'"
  proof
    fix q assume "q \<in> dom (dm_get (mw_files ?w'))"
    then have q: "q \<in> dom (dm_get (mw_files w))" "tr_temp_config t \<noteq> Some q" by (auto split: if_splits)
    then obtain x where "x \<in> set (mw_processes w)" "tr_temp_config (snd x) = Some q"
      using assms by (auto simp: owned_def tracked_files_def)
    then show "q \<in> tracked_files ?w'" using rest q(2) unfolding tracked_files_def by fastforce
  qed
  ultimately show ?thesis using wf by (simp add: manager_kill_def Some owned_def del: kill_tracked_sel(1,3))
qed (use assms in \<open>simp add: manager_kill_def\<close>)

lemma connection_info_owned:
  assumes "owned w" "dm_get (mw_files w) path = None"
  shows "owned (fst (get_connection_info path err args st w))"
proof (cases "resolve_token args st")
  case (Some token)
  obtain w1 r where p: "plan_spawn path err args token st w = (w1, r)" by fastforce
  show ?thesis
  proof (cases r)
    case (Inl e)
    then show ?thesis using plan_error[OF p[unfolded Inl]] p assms by (simp add: get_connection_info_def Some)
  next
    case (Inr plan)
    have "owned (cleanup_temp (pl_temp_config plan) w1)"
      using plan_spawn_sel(1,2)[OF p] plan_cleanup[OF p[unfolded Inr] assms(2)]
      by (intro owned_cong[OF _ _ _ assms(1)]) (simp_all del: cleanup_temp_sel(3))
    then show ?thesis by (simp add: get_connection_info_def Some p Inr Let_def)
  qed
qed (use assms in \<open>simp add: get_connection_info_def\<close>)

lemma close_tunnel_owned: "owned w \<Longrightarrow> owned (fst (close_tunnel answer args st w))"
  using owned_kill by (auto simp: close_tunnel_def split: option.split)

lemma dispatch_owned:
  assumes "owned w" "fresh_env (tv_create env) w"
  shows "owned (fst (mcp_dispatch env name args st w))"
  using assms create_tunnel_owned[OF assms] close_tunnel_owned[OF assms(1)] connection_info_owned[OF assms(1)]
  by (simp add: mcp_dispatch_def fresh_env_def)

lemma reachable_owned: "mcp_reachable st w \<Longrightarrow> owned w"
proof (induction rule: mcp_reachable.induct)
  case (exits w pid)
  then show ?case by (intro owned_cong[of "end_process pid w" w]) auto
qed (simp add: owned_def tracked_children_def tracked_files_def, rule dispatch_owned)

lemma message_reachable:
  assumes "mcp_reachable st w" "fresh_env (tv_create env) w"
  shows "mcp_reachable st (fst (handle_message host env st raw w))"
  using assms mcp_reachable.tool[OF assms]
  by (auto simp: handle_message_def handle_tools_call_def split: sum.split option.split prod.splits)
     (metis fst_conv)+

text \<open>The freshness of what the outside provides, along a run.\<close>

fun fresh_lines :: "mcp_host \<Rightarrow> mcp_state \<Rightarrow> mcp_line list \<Rightarrow> mcp_world \<Rightarrow> bool" where
  "fresh_lines host st [] w = True"
| "fresh_lines host st ((line, env, written) # rest) w \<longleftrightarrow>
     fresh_env (tv_create env) w \<and>
     fresh_lines host st rest (if str_trim line = [] then w else fst (handle_message host env st (str_trim line) w))"

lemma lines_reachable:
  "mcp_reachable st w \<Longrightarrow> fresh_lines host st ls w \<Longrightarrow> mcp_reachable st (fst (mcp_lines host st ls w))"
proof (induction ls arbitrary: w)
  case (Cons l ls)
  obtain line env written where l: "l = (line, env, written)" by (metis prod_cases3)
  show ?case using Cons message_reachable[OF Cons.prems(1), of env host "str_trim line"]
    by (auto simp: l split: prod.splits option.splits if_splits) (metis fst_conv)+
qed simp

lemma kill_all_empty:
  assumes "mcp_reachable st w"
  shows "mw_running (manager_kill_all w) = []" "mw_files (manager_kill_all w) = []"
proof -
  have inv: "owned w" using reachable_owned[OF assms] .
  have "set (mw_running (manager_kill_all w)) = set (mw_running w) - tracked_children w"
    "dom (dm_get (mw_files (manager_kill_all w))) = dom (dm_get (mw_files w)) - tracked_files w"
    unfolding manager_kill_all_def kill_tracked_fold tracked_children_def tracked_files_def by simp_all
  then have "set (mw_running (manager_kill_all w)) = {}" "dom (dm_get (mw_files (manager_kill_all w))) = {}"
    using inv by (simp_all add: owned_def)
  then show "mw_running (manager_kill_all w) = []" "mw_files (manager_kill_all w) = []"
    by (simp, metis dm_empty_iff)
qed

section \<open>Properties\<close>


definition example_mcp :: mcp_state where
  "example_mcp = \<lparr>st_server_addr = ''ex.com:4040'', st_insecure = False, st_token = Some ''tok''\<rparr>"

definition example_create :: create_env where
  "example_create = \<lparr>ce_path = ''/tmp/a.yml'', ce_write_error = None, ce_before = Inr [],
     ce_spawn = Inr 8, ce_polls = (\<lambda>_. (ChildRuns, Inr [\<lparr>sm_tunnel_id = ''t1'', sm_protocol = ''http'', sm_public_url = ''u''\<rparr>])),
     ce_stderr = [], ce_cli = ''rustunnel''\<rparr>"

definition example_tools :: tool_env where
  "example_tools = \<lparr>tv_create = example_create, tv_close = Inr 204, tv_api = (\<lambda>_. Inl []), tv_base = []\<rparr>"

definition example_args :: json where
  "example_args = JObj [(''protocol'', JStr ''http''), (''local_port'', JUint 80), (''group'', JStr ''g''), (''group_key'', JStr ''k'')]"

lemma poll_attempts_Cons: "map f [0..<POLL_ATTEMPTS] = f 0 # map f [1..<POLL_ATTEMPTS]"
  by (simp add: POLL_ATTEMPTS_def upt_rec)

lemma trim_tok: "str_trim ''tok'' = ''tok''"
  by (rule str_trim_solid) (simp_all add: solid_def)


text \<open>The ids owed: one reply per line that is no notification.\<close>

definition owed :: "mcp_host \<Rightarrow> mcp_line \<Rightarrow> json option list" where
  "owed host l =
     (case l of (line, env, written) \<Rightarrow>
        if str_trim line = [] then []
        else case mh_parse host (str_trim line) of
               Inl e \<Rightarrow> [None]
             | Inr msg \<Rightarrow> if im_id msg = None then [] else [im_id msg])"

lemma reply_ids:
  "list_all (\<lambda>(_, _, written). written) ls \<Longrightarrow> map om_id (snd (mcp_lines host st ls w)) = concat (map (owed host) ls)"
proof (induction ls arbitrary: w)
  case (Cons l ls)
  obtain line env written where l: "l = (line, env, written)" by (metis prod_cases3)
  show ?case
  proof (cases "str_trim line = []")
    case True
    then show ?thesis using Cons by (simp add: l owed_def)
  next
    case False
    obtain w' r where h: "handle_message host env st (str_trim line) w = (w', r)" by fastforce
    have one: "map om_id (case r of None \<Rightarrow> [] | Some r \<Rightarrow> [r]) = owed host l"
      using h False by (auto simp: handle_message_def owed_def l split: sum.splits prod.splits if_splits)
    have IH: "map om_id (snd (mcp_lines host st ls w')) = concat (map (owed host) ls)" using Cons by simp
    show ?thesis
    proof (cases r)
      case None
      then show ?thesis using False h one IH by (simp add: l)
    next
      case (Some m)
      then have "owed host l = [om_id m]" using one by simp
      then show ?thesis using False h Some IH Cons.prems by (simp add: l case_prod_beta)
    qed
  qed
qed simp

text \<open>A whole session over standard input: every request gets one reply with its id, in the order of the requests, a
  line that does not parse gets an error, a notification none; and when the input ends no subprocess runs and no temporary file is
  left, whatever tools were called and however they failed.\<close>

theorem mcp_session:
  assumes "fresh_lines host st ls \<lparr>mw_running = [], mw_files = [], mw_processes = []\<rparr>"
  shows "mw_running (fst (mcp_run host st ls)) = [] \<and> mw_files (fst (mcp_run host st ls)) = [] \<and>
    (list_all (\<lambda>(_, _, written). written) ls \<longrightarrow> map om_id (snd (mcp_run host st ls)) = concat (map (owed host) ls))"
proof -
  let ?r = "mcp_lines host st ls \<lparr>mw_running = [], mw_files = [], mw_processes = []\<rparr>"
  have "mcp_reachable st (fst ?r)" using lines_reachable[OF mcp_reachable.start assms] .
  then have "mw_running (manager_kill_all (fst ?r)) = []" "mw_files (manager_kill_all (fst ?r)) = []"
    using kill_all_empty by blast+
  then show ?thesis using reply_ids[of ls host st "\<lparr>mw_running = [], mw_files = [], mw_processes = []\<rparr>"]
    by (auto simp: mcp_run_def case_prod_beta)
qed

definition example_host :: mcp_host where
  "example_host = \<lparr>mh_parse = (\<lambda>line. if line = ''call'' then Inr \<lparr>im_id = Some (JUint 1), im_method = ''tools/call'',
       im_params = Some (JObj [(''name'', JStr ''create_tunnel''), (''arguments'', example_args)])\<rparr> else Inl ''bad''),
     mh_tool_defs = [], mh_version = ''1''\<rparr>"

lemma trim_call: "str_trim ''call'' = ''call''"
  by (rule str_trim_solid) (simp_all add: solid_def)

theorem mcp_session_witness:
  "mw_running (fst (mcp_run example_host example_mcp [(''call'', example_tools, True)])) = [] \<and>
   map om_id (snd (mcp_run example_host example_mcp [(''call'', example_tools, True)])) = [Some (JUint 1)]"
proof -
  have "fresh_env example_create \<lparr>mw_running = [], mw_files = [], mw_processes = []\<rparr>"
    by (simp add: fresh_env_def example_create_def tracked_files_def tracked_children_def)
  then have "fresh_lines example_host example_mcp [(''call'', example_tools, True)] \<lparr>mw_running = [], mw_files = [], mw_processes = []\<rparr>"
    by (simp add: example_tools_def)
  from mcp_session[OF this] show ?thesis by (simp add: owed_def trim_call example_host_def)
qed


definition example_target_args :: json where
  "example_target_args = JObj [(''protocol'', JStr ''p2p''), (''local_port'', JUint 80), (''secret'', JStr ''s''),
     (''peer_target'', JStr ''peer'')]"


section \<open>The upgrade text\<close>

lemma find_sub_skip:
  "p \<noteq> [] \<Longrightarrow> hd p \<notin> set x \<Longrightarrow> find_sub p (x @ y) = map_option ((+) (length x)) (find_sub p y)"
proof (induction x)
  case (Cons c x)
  then have "\<not> prefix p (c # x @ y)" by (cases p) auto
  then show ?case using Cons by (cases "find_sub p y") auto
qed (cases "find_sub p y"; simp)

lemma str_replace_skip:
  "p \<noteq> [] \<Longrightarrow> hd p \<notin> set x \<Longrightarrow> str_replace p q (x @ y) = x @ str_replace p q y"
proof (induction x)
  case (Cons c x)
  then have "\<not> prefix p (c # x @ y)" by (cases p) auto
  then show ?case using Cons by simp
qed simp

lemma str_split_cons: "d \<notin> set p \<Longrightarrow> str_split d (p @ d # rest) = p # str_split d rest"
  by (induction p) auto

lemma int_string_chars: "c \<in> set (int_string i) \<Longrightarrow> is_ascii_digit c \<or> c = CHR ''-''"
  using dec_string_digits[of "nat i"] dec_string_digits[of "nat (- i)"]
  by (auto simp: int_string_def list_all_iff split: if_splits)

lemma int_string_avoid: "\<not> is_ascii_digit c \<Longrightarrow> c \<noteq> CHR ''-'' \<Longrightarrow> c \<notin> set (int_string i)"
  using int_string_chars by blast

lemma replace_int: "\<not> is_ascii_digit c \<Longrightarrow> c \<noteq> CHR ''-'' \<Longrightarrow>
    str_replace (c # p) q (int_string i @ y) = int_string i @ str_replace (c # p) q y"
  using str_replace_skip[of "c # p" "int_string i" q y] int_string_avoid[of c i] by simp

lemma message_replaced:
  "s \<in> {Cli, Mcp} \<Longrightarrow> str_replace ''utm_source=cli'' ''utm_source=mcp'' (reason_message r s) = reason_message r Mcp"
  by (cases r) (auto simp: replace_int upgrade_url_def is_ascii_digit_def)

lemma str_replace_absent: "p \<noteq> [] \<Longrightarrow> hd p \<notin> set x \<Longrightarrow> str_replace p q x = x"
  using str_replace_skip[of p x q "[]"] by simp

text \<open>The two lines of a limit message.\<close>

definition message_line :: "string \<Rightarrow> bool" where
  "message_line l \<longleftrightarrow> l \<noteq> [] \<and> solid (hd l) \<and> solid (last l) \<and> CHR 10 \<notin> set l \<and> CHR 13 \<notin> set l"

lemma message_lines:
  obtains l1 where "reason_message r s = l1 @ nl @ ''Upgrade: '' @ upgrade_url r s" "message_line l1" "prefix ''Hobby plan'' l1"
    "\<not> starts_with ''Upgrade:'' l1" "\<not> starts_with ''https://'' l1"
proof -
  define l1 where "l1 = takeWhile (\<lambda>c. c \<noteq> CHR 10) (reason_message r s)"
  have av: "\<And>x. x \<in> set (int_string i) \<Longrightarrow> x \<noteq> CHR 10 \<and> x \<noteq> CHR 13" for i
    using int_string_avoid[of "CHR 10" i] int_string_avoid[of "CHR 13" i] by (auto simp: is_ascii_digit_def)
  have "reason_message r s = l1 @ nl @ ''Upgrade: '' @ upgrade_url r s"
    by (cases r) (auto simp: l1_def takeWhile_append2 av)
  moreover have "message_line l1" "prefix ''Hobby plan'' l1" "\<not> starts_with ''Upgrade:'' l1" "\<not> starts_with ''https://'' l1"
    by (cases r; auto simp: l1_def takeWhile_append2 av message_line_def solid_def starts_with_def dest: av)+
  ultimately show ?thesis using that by blast
qed

lemma upgrade_line: "message_line (''Upgrade: '' @ upgrade_url r s)"
  by (cases r; cases s; simp add: message_line_def upgrade_url_def solid_def)

lemma str_lines_two:
  assumes "message_line a" "message_line b"
  shows "str_lines (a @ nl @ b @ nl) = [a, b]"
proof -
  have "str_split (CHR 10) (a @ nl @ b @ nl) = [a, b, []]"
    using assms str_split_cons[of "CHR 10" a "b @ nl"] str_split_cons[of "CHR 10" b "[]"] by (simp add: message_line_def)
  moreover have "last a \<noteq> CHR 13" "last b \<noteq> CHR 13"
    using assms by (auto simp: message_line_def solid_def)
  ultimately show ?thesis by (simp add: str_lines_def Let_def)
qed

lemma trim_message_line: "message_line l \<Longrightarrow> str_trim l = l"
  by (rule str_trim_solid) (simp add: message_line_def)

text \<open>The limit message reaches the assistant whole: what the server writes, the client prints on standard error after
  other output, and the MCP server reports back is the message itself, with the link marked as coming from MCP whichever
  client printed it.\<close>

theorem mcp_upgrade_text:
  assumes noise: "CHR ''H'' \<notin> set noise" "CHR 13 \<notin> set noise"
  shows "upgrade_text_from_cli_output (noise @ client_error_rendered (CeTunnel (reason_message r s)) @ nl) =
    Some (reason_message r Mcp)"
proof -
  obtain l1 where m: "reason_message r s = l1 @ nl @ ''Upgrade: '' @ upgrade_url r s" and l1: "message_line l1"
      "prefix ''Hobby plan'' l1" "\<not> starts_with ''Upgrade:'' l1" "\<not> starts_with ''https://'' l1" by (rule message_lines)
  let ?m = "reason_message r s" and ?l2 = "''Upgrade: '' @ upgrade_url r s"
  have pre: "prefix ''Hobby plan'' ?m" using l1(2) unfolding m by simp
  have "starts_with ''Hobby plan'' ?m" using pre by (auto simp: starts_with_def prefix_def)
  then have out: "client_error_rendered (CeTunnel ?m) = ?m" by (simp add: client_error_rendered_def is_hobby_limit_message_def)
  have cr: "str_replace [CHR 13, CHR 10] nl (noise @ ?m @ nl) = noise @ ?m @ nl"
    using l1(1) upgrade_line[of r s] noise(2) unfolding m by (intro str_replace_absent) (auto simp: message_line_def)
  have here: "find_sub ''Hobby plan'' (?m @ x) = Some 0" for x
    using pre by (cases "?m @ x") (auto simp: prefix_def)
  have at: "find_sub ''Hobby plan'' (noise @ ?m @ nl) = Some (length noise)"
    using find_sub_skip[of "''Hobby plan''" noise "?m @ nl"] noise(1) here by simp
  have "upgrade_lines True (str_lines (?m @ nl)) [] = [l1, ?l2]"
    using str_lines_two[OF l1(1) upgrade_line[of r s]] l1(1,3,4) trim_message_line[OF l1(1)] trim_message_line[OF upgrade_line[of r s]]
    unfolding m by (simp add: Let_def message_line_def starts_with_def)
  moreover have "join_lines [l1, ?l2] = ?m" unfolding m by simp
  moreover have "s \<in> {Cli, Mcp}" by (cases s) simp_all
  ultimately show ?thesis using here[of "[]"] at message_replaced[of s r]
    by (simp add: upgrade_text_from_cli_output_def out cr Let_def)
qed

theorem mcp_upgrade_text_witness:
  "upgrade_text_from_cli_output (''connecting'' @ nl @ client_error_rendered (CeTunnel (reason_message (TunnelLimit 3) Cli)) @ nl) =
    Some (reason_message (TunnelLimit 3) Mcp)"
  using mcp_upgrade_text[of "''connecting'' @ nl" "TunnelLimit 3" Cli] by simp

end
