(* ===== verification/InspectServer.thy ===== *)
theory InspectServer
  imports Inspect
begin

text \<open>
  The local web inspector (\<open>inspect/server.rs\<close>): the scan for a free port, the request list with its filters, and the replay
  of a captured request.  Sockets and the HTTP client are inputs; responses are values, their JSON text is not modelled.
\<close>

section \<open>Binding\<close>

definition DEFAULT_PORT :: u16 where
  "DEFAULT_PORT = 4040"

definition PORT_SCAN_RANGE :: u16 where
  "PORT_SCAN_RANGE = 20"

definition RESERVED_PORT :: u16 where
  "RESERVED_PORT = 3000"

definition loopback_url :: "u16 \<Rightarrow> string" where
  "loopback_url port = ''http://127.0.0.1:'' @ dec_string (unat port)"

text \<open>The exclusive range \<open>preferred..preferred.saturating_add(PORT_SCAN_RANGE)\<close>.\<close>

definition scan_ports :: "u16 \<Rightarrow> u16 list" where
  "scan_ports preferred = map of_nat [unat preferred ..< unat (saturating_add preferred PORT_SCAN_RANGE)]"

text \<open>\<open>serving\<close> tells whether something answers on the port, \<open>bindable\<close> whether the bind succeeds, \<open>any_port\<close> the port of a
  bind to port 0.\<close>

definition inspect_bind :: "(u16 \<Rightarrow> bool) \<Rightarrow> (u16 \<Rightarrow> bool) \<Rightarrow> u16 option \<Rightarrow> u16 \<Rightarrow> (u16 \<times> string) option" where
  "inspect_bind serving bindable any_port preferred =
     (if preferred = 0 then map_option (\<lambda>p. (p, loopback_url p)) any_port
      else map_option (\<lambda>p. (p, loopback_url p))
        (find (\<lambda>p. p \<noteq> RESERVED_PORT \<and> \<not> serving p \<and> bindable p) (scan_ports preferred)))"

section \<open>Reading\<close>

definition usize_from_str :: "string \<Rightarrow> nat option" where
  "usize_from_str s = u64_from_str_radix s 10"

definition status_from_str :: "string \<Rightarrow> u16 option" where
  "status_from_str s =
     (let digits = (if s \<noteq> [] \<and> hd s = CHR ''+'' then tl s else s)
      in if digits = [] then None else map_option of_nat (digits_value 10 65535 0 digits))"

definition to_ascii_uppercase :: "char \<Rightarrow> char" where
  "to_ascii_uppercase c = (if 97 \<le> byte_of c \<and> byte_of c \<le> 122 then char_of (byte_of c - 32) else c)"

text \<open>\<open>lower\<close> is the Unicode lower-casing of the standard library.\<close>

definition list_requests :: "(string \<Rightarrow> string) \<Rightarrow> (string \<times> string) list \<Rightarrow> inspector \<Rightarrow> exchange list" where
  "list_requests lower params i =
     (let limit = (case Option.bind (map_of params ''limit'') usize_from_str of Some n \<Rightarrow> n | None \<Rightarrow> 200);
          method = map_option (map to_ascii_uppercase) (map_of params ''method'');
          status_filter = Option.bind (map_of params ''status'') status_from_str;
          query = map_option lower (map_of params ''q'')
      in take limit
           (filter (\<lambda>e. case query of None \<Rightarrow> True | Some q \<Rightarrow>
                      str_contains q (lower (ex_path e)) \<or> str_contains q (lower (ex_method e)) \<or>
                      str_contains q (dec_string (unat (ex_status e))))
             (filter (\<lambda>e. case status_filter of None \<Rightarrow> True | Some s \<Rightarrow> ex_status e = s)
               (filter (\<lambda>e. case method of None \<Rightarrow> True | Some m \<Rightarrow> ex_method e = m) (exchanges i)))))"

definition request_detail :: "u64 \<Rightarrow> inspector \<Rightarrow> nat + exchange" where
  "request_detail n i = (case exchange_by_id n i of Some e \<Rightarrow> Inr e | None \<Rightarrow> Inl 404)"

definition clear_requests :: "inspector \<Rightarrow> inspector \<times> nat" where
  "clear_requests i = (inspector_clear i, 204)"

text \<open>The event stream of one subscriber: what the channel yields until it closes; \<open>None\<close> is a lagged receiver.\<close>

definition sse_stream :: "exchange option list \<Rightarrow> exchange list" where
  "sse_stream received = List.map_filter id received"

section \<open>Replay\<close>

definition origin_form :: "string \<Rightarrow> string" where
  "origin_form target =
     (let after = (\<lambda>rest. case dropWhile (\<lambda>c. c \<noteq> CHR ''/'') rest of [] \<Rightarrow> ''/'' | p \<Rightarrow> p)
      in if starts_with ''/'' target then target
         else if starts_with ''http://'' target then after (drop 7 target)
         else if starts_with ''https://'' target then after (drop 8 target)
         else ''/'')"

definition REPLAY_HOP_BY_HOP :: "string list" where
  "REPLAY_HOP_BY_HOP = [''connection'', ''keep-alive'', ''proxy-authenticate'', ''proxy-authorization'', ''te'', ''trailer'',
     ''transfer-encoding'', ''upgrade'']"

definition is_hop_by_hop :: "string \<Rightarrow> bool" where
  "is_hop_by_hop name = (let lower = ascii_lower name in lower \<in> set REPLAY_HOP_BY_HOP \<or> lower = ''content-length'')"

record replay_out =
  ro_method :: string
  ro_url :: string
  ro_headers :: headers
  ro_body :: "string option"

text \<open>What the HTTP client does: whether it takes the method, the error of building it, and the answer to the request.  A
  response is a status, its headers and the outcome of reading the body.\<close>

record replay_env =
  re_method_ok :: "string \<Rightarrow> bool"
  re_build_error :: "string option"
  re_send :: "replay_out \<Rightarrow> string + u16 \<times> headers \<times> (string + string)"
  re_duration_ms :: nat
  re_started_at :: instant

definition replay_message :: "exchange \<Rightarrow> string \<Rightarrow> replay_out" where
  "replay_message original local_addr =
     \<lparr>ro_method = ex_method original, ro_url = ''http://'' @ local_addr @ origin_form (ex_path original),
      ro_headers = filter (\<lambda>(name, v). \<not> is_hop_by_hop name) (ex_request_headers original),
      ro_body = (if bd_bytes (ex_request_body original) = [] then None else Some (bd_bytes (ex_request_body original)))\<rparr>"

definition replay_body :: "string \<Rightarrow> body" where
  "replay_body bytes =
     (let b = body_push (take (min (length bytes) BODY_CAP) bytes) body_default
      in b\<lparr>bd_total := length bytes, bd_truncated := length bytes > length (bd_bytes b)\<rparr>)"

definition inspect_replay ::
  "replay_env \<Rightarrow> u64 \<Rightarrow> inspector \<Rightarrow> inspector \<times> replay_out list \<times> ((nat \<times> string) + exchange \<times> bool)" where
  "inspect_replay env n i =
     (case exchange_by_id n i of
        None \<Rightarrow> (i, [], Inl (404, ''no such request''))
      | Some original \<Rightarrow>
          (case local_addr_for (ex_tunnel original) i of
             None \<Rightarrow> (i, [], Inl (409, ''no local address known for this tunnel''))
           | Some local_addr \<Rightarrow>
               if \<not> re_method_ok env (ex_method original)
               then (i, [], Inl (400, ''cannot replay method '' @ ex_method original))
               else case re_build_error env of
                      Some e \<Rightarrow> (i, [], Inl (500, e))
                    | None \<Rightarrow>
                        let out = replay_message original local_addr
                        in case re_send env out of
                             Inl e \<Rightarrow> (i, [out], Inl (502, ''replay failed: '' @ e))
                           | Inr (status, response_headers, Inl e) \<Rightarrow> (i, [out], Inl (502, ''replay failed: '' @ e))
                           | Inr (status, response_headers, Inr bytes) \<Rightarrow>
                               let e = \<lparr>ex_id = 0, ex_conn_id = ex_conn_id original, ex_tunnel = ex_tunnel original,
                                        ex_client_addr = ''replay'', ex_method = ex_method original, ex_path = ex_path original,
                                        ex_host = ex_host original, ex_status = status,
                                        ex_request_headers = ex_request_headers original, ex_response_headers = response_headers,
                                        ex_request_body = ex_request_body original, ex_response_body = replay_body bytes,
                                        ex_duration_ms = re_duration_ms env, ex_started_at = re_started_at env, ex_replayed = True\<rparr>
                               in (inspector_record e i, [out],
                                   Inr (e\<lparr>ex_id := in_next_id i\<rparr>, bd_truncated (ex_request_body original)))))"

section \<open>Properties of the parts\<close>

lemma replay_body_of: "replay_body bytes = body_of bytes"
proof -
  have "body_push (take (min (length bytes) BODY_CAP) bytes) body_default = body_of (take BODY_CAP bytes)"
    by (simp add: body_push_default min_def)
  then show ?thesis by (auto simp: replay_body_def body_of_def Let_def min_def)
qed

lemma dropWhile_hd: "dropWhile (\<lambda>c. c \<noteq> x) s = y # ys \<Longrightarrow> y = x"
  by (induction s) (auto split: if_splits)

lemma origin_form_slash: "\<exists>rest. origin_form target = CHR ''/'' # rest"
proof -
  define after where "after = (\<lambda>rest. case dropWhile (\<lambda>c. c \<noteq> CHR ''/'') rest of [] \<Rightarrow> ''/'' | p \<Rightarrow> p)"
  have after: "\<exists>rest. after s = CHR ''/'' # rest" for s
  proof (cases "dropWhile (\<lambda>c. c \<noteq> CHR ''/'') s")
    case (Cons y ys)
    then have "y = CHR ''/''" by (rule dropWhile_hd)
    then show ?thesis using Cons by (simp add: after_def)
  next
    case Nil
    then show ?thesis unfolding after_def by (simp only:) simp
  qed
  have def: "origin_form target = (if starts_with ''/'' target then target
      else if starts_with ''http://'' target then after (drop 7 target)
      else if starts_with ''https://'' target then after (drop 8 target) else ''/'')"
    unfolding origin_form_def after_def Let_def ..
  show ?thesis
  proof (cases "starts_with ''/'' target")
    case True
    then show ?thesis unfolding def by (cases target) (auto simp: starts_with_def)
  next
    case False
    then show ?thesis unfolding def using after by (metis (full_types))
  qed
qed

lemma scan_ports_set:
  "port \<in> set (scan_ports p) \<longleftrightarrow> unat p \<le> unat port \<and> unat port < min (unat p + 20) 65535"
proof -
  let ?hi = "unat (saturating_add p PORT_SCAN_RANGE)"
  have hi: "?hi = min (unat p + 20) 65535"
    by (simp add: unat_saturating_add PORT_SCAN_RANGE_def)
  have "port \<in> set (scan_ports p) \<longleftrightarrow> (\<exists>n \<in> {unat p ..< ?hi}. port = of_nat n)" by (auto simp: scan_ports_def)
  also have "\<dots> \<longleftrightarrow> unat port \<in> {unat p ..< ?hi}"
  proof -
    have "unat (of_nat n :: u16) = n" if "n < ?hi" for n using that hi by (simp add: unat_of_nat)
    then show ?thesis by (auto intro: bexI[of _ "unat port"])
  qed
  finally show ?thesis by (simp add: hi)
qed

end
