(* ===== verification/Terminal.thy ===== *)
theory Terminal
  imports Inspect
begin

text \<open>
  The state of the terminal interface (\<open>tui/mod.rs\<close>): keys, scrolling, the request rate, and the rows the two panes show
  (\<open>tui/ui.rs\<close>).  Drawing itself is left to the terminal library.
\<close>

section \<open>The application\<close>

definition RPS_HISTORY :: nat where
  "RPS_HISTORY = 60"

record app =
  ap_inspector :: inspector
  ap_offset :: nat
  ap_follow :: bool
  ap_show_logs :: bool
  ap_rps_history :: "nat list"
  ap_rps_current :: nat
  ap_quit :: bool

definition app_new :: "inspector \<Rightarrow> app" where
  "app_new i = \<lparr>ap_inspector = i, ap_offset = 0, ap_follow = True, ap_show_logs = False,
     ap_rps_history = replicate RPS_HISTORY 0, ap_rps_current = 0, ap_quit = False\<rparr>"

definition max_offset :: "app \<Rightarrow> nat" where
  "max_offset a = (if ap_show_logs a then length (in_logs (ap_inspector a)) else length (exchanges (ap_inspector a))) - 1"

definition scroll_back :: "nat \<Rightarrow> app \<Rightarrow> app" where
  "scroll_back n a = a\<lparr>ap_offset := min (ap_offset a + n) (max_offset a), ap_follow := False\<rparr>"

definition scroll_forward :: "nat \<Rightarrow> app \<Rightarrow> app" where
  "scroll_forward n a =
     (let a' = a\<lparr>ap_offset := ap_offset a - n\<rparr> in if ap_offset a' = 0 then a'\<lparr>ap_follow := True\<rparr> else a')"

datatype key = KeyChar char | KeyEsc | KeyUp | KeyDown | KeyPageUp | KeyPageDown | KeyHome | KeyEnd | KeyOther

definition on_key :: "key \<Rightarrow> bool \<Rightarrow> app \<Rightarrow> app" where
  "on_key code ctrl a =
     (if code = KeyChar CHR ''q'' \<or> code = KeyEsc then a\<lparr>ap_quit := True\<rparr>
      else if code = KeyChar CHR ''c'' \<and> ctrl then a\<lparr>ap_quit := True\<rparr>
      else if code = KeyChar CHR ''c'' then a\<lparr>ap_inspector := inspector_clear (ap_inspector a), ap_offset := 0\<rparr>
      else if code = KeyChar CHR ''f'' then
        (if ap_follow a then a\<lparr>ap_follow := False\<rparr> else a\<lparr>ap_follow := True, ap_offset := 0\<rparr>)
      else if code = KeyChar CHR ''l'' then a\<lparr>ap_show_logs := \<not> ap_show_logs a\<rparr>
      else if code = KeyUp \<or> code = KeyChar CHR ''k'' then scroll_back 1 a
      else if code = KeyDown \<or> code = KeyChar CHR ''j'' then scroll_forward 1 a
      else if code = KeyPageUp then scroll_back 10 a
      else if code = KeyPageDown then scroll_forward 10 a
      else if code = KeyHome \<or> code = KeyChar CHR ''g'' then a\<lparr>ap_offset := 0, ap_follow := True\<rparr>
      else if code = KeyEnd \<or> code = KeyChar CHR ''G'' then a\<lparr>ap_offset := max_offset a, ap_follow := False\<rparr>
      else a)"

definition on_exchange :: "app \<Rightarrow> app" where
  "on_exchange a =
     (let a' = a\<lparr>ap_rps_current := ap_rps_current a + 1\<rparr>
      in if ap_follow a' then a'\<lparr>ap_offset := 0\<rparr>
         else a'\<lparr>ap_offset := min (ap_offset a' + 1) (max_offset a')\<rparr>)"

definition on_second :: "app \<Rightarrow> app" where
  "on_second a = a\<lparr>ap_rps_history := tl (ap_rps_history a) @ [ap_rps_current a], ap_rps_current := 0\<rparr>"

section \<open>The loop\<close>

text \<open>The arms of the \<open>select!\<close>, and what the tunnel does to the shared inspector meanwhile.\<close>

datatype tui_event =
    TuKey key bool
  | TuIgnored
  | TuExchange
  | TuLagged
  | TuClosed
  | TuSecond
  | TuTick
  | TuShutdown
  | TuRecord exchange
  | TuLog string

definition tui_step :: "tui_event \<Rightarrow> app \<Rightarrow> app \<times> bool" where
  "tui_step e a =
     (case e of
        TuKey code ctrl \<Rightarrow> (on_key code ctrl a, True)
      | TuExchange \<Rightarrow> (on_exchange a, True)
      | TuSecond \<Rightarrow> (on_second a, True)
      | TuClosed \<Rightarrow> (a, False)
      | TuShutdown \<Rightarrow> (a, False)
      | TuRecord x \<Rightarrow> (a\<lparr>ap_inspector := inspector_record x (ap_inspector a)\<rparr>, True)
      | TuLog l \<Rightarrow> (a\<lparr>ap_inspector := push_log l (ap_inspector a)\<rparr>, True)
      | _ \<Rightarrow> (a, True))"

fun tui_loop :: "tui_event list \<Rightarrow> app \<Rightarrow> app" where
  "tui_loop [] a = a"
| "tui_loop (e # es) a =
     (if ap_quit a then a\<lparr>ap_inspector := request_shutdown (ap_inspector a)\<rparr>
      else case tui_step e a of
             (a', True) \<Rightarrow> tui_loop es a'
           | (a', False) \<Rightarrow> a'\<lparr>ap_inspector := request_shutdown (ap_inspector a')\<rparr>)"

text \<open>The rows the shown pane displays, newest first.\<close>

definition visible_requests :: "nat \<Rightarrow> app \<Rightarrow> exchange list" where
  "visible_requests height a = take height (drop (ap_offset a) (exchanges (ap_inspector a)))"

definition visible_logs :: "nat \<Rightarrow> app \<Rightarrow> string list" where
  "visible_logs height a = take height (drop (ap_offset a) (rev (in_logs (ap_inspector a))))"

section \<open>Invariant\<close>

definition app_ok :: "app \<Rightarrow> bool" where
  "app_ok a \<longleftrightarrow> length (ap_rps_history a) = RPS_HISTORY \<and> (ap_follow a \<longrightarrow> ap_offset a = 0) \<and> ap_offset a < RING_CAPACITY \<and>
     length (in_store (ap_inspector a)) \<le> RING_CAPACITY \<and> length (in_logs (ap_inspector a)) \<le> LOG_CAPACITY"

lemma push_evict_length: "0 < cap \<Longrightarrow> length xs \<le> cap \<Longrightarrow> length (push_evict cap x xs) \<le> cap"
  by (auto simp: push_evict_def)

lemma max_offset_bound: "app_ok a \<Longrightarrow> max_offset a < RING_CAPACITY"
  by (auto simp: app_ok_def max_offset_def exchanges_def RING_CAPACITY_def LOG_CAPACITY_def)

lemma app_ok_key: "app_ok a \<Longrightarrow> app_ok (on_key code ctrl a)"
  using max_offset_bound[of a]
  by (auto simp: app_ok_def on_key_def scroll_back_def scroll_forward_def inspector_clear_def Let_def)

lemma app_ok_step: "app_ok a \<Longrightarrow> app_ok (fst (tui_step e a))"
proof (cases e)
  case TuExchange
  assume ok: "app_ok a"
  have "max_offset (a\<lparr>ap_rps_current := n\<rparr>) < RING_CAPACITY" for n
    using max_offset_bound[OF ok] by (simp add: max_offset_def split: if_splits)
  then show ?thesis using ok TuExchange by (auto simp: tui_step_def on_exchange_def app_ok_def Let_def min_less_iff_disj)
next
  case (TuRecord x)
  then show "app_ok a \<Longrightarrow> ?thesis" using push_evict_length[of RING_CAPACITY "in_store (ap_inspector a)"]
    by (auto simp: tui_step_def app_ok_def inspector_record_def RING_CAPACITY_def Let_def)
next
  case (TuLog x)
  then show "app_ok a \<Longrightarrow> ?thesis" using push_evict_length[of LOG_CAPACITY "in_logs (ap_inspector a)"]
    by (auto simp: tui_step_def app_ok_def push_log_def LOG_CAPACITY_def)
next
  case TuSecond
  then show "app_ok a \<Longrightarrow> ?thesis" by (auto simp: tui_step_def app_ok_def on_second_def RPS_HISTORY_def)
qed (auto simp: tui_step_def app_ok_key)

lemma tui_loop_ok: "app_ok a \<Longrightarrow> app_ok (tui_loop es a)"
proof (induction es arbitrary: a)
  case (Cons e es)
  obtain a' b where s: "tui_step e a = (a', b)" by fastforce
  have "app_ok a'" using app_ok_step[OF Cons.prems, of e] s by simp
  then show ?case using Cons s by (cases b) (auto simp: app_ok_def request_shutdown_def)
qed simp

text \<open>The terminal view.  In every state of the loop following means standing on the newest row, the scroll position
  and the rate history stay within their bounds; and while the list of requests is paused with the ring not full, a request that
  arrives does not move the rows on the screen, while following shows it first.\<close>

theorem terminal_view:
  assumes start: "length (in_store i) \<le> RING_CAPACITY" "length (in_logs i) \<le> LOG_CAPACITY" and run: "a = tui_loop es (app_new i)"
  shows "length (ap_rps_history a) = RPS_HISTORY \<and> ap_offset a < RING_CAPACITY \<and> (ap_follow a \<longrightarrow> ap_offset a = 0) \<and>
    (let a' = on_exchange (a\<lparr>ap_inspector := inspector_record x (ap_inspector a)\<rparr>)
     in if ap_follow a then \<exists>rest. visible_requests (Suc height) a' = x\<lparr>ex_id := in_next_id (ap_inspector a)\<rparr> # rest
        else \<not> ap_show_logs a \<and> ap_offset a < length (exchanges (ap_inspector a)) \<and>
             length (exchanges (ap_inspector a)) < RING_CAPACITY \<longrightarrow>
             visible_requests height a' = visible_requests height a)"
proof -
  have "app_ok (app_new i)" using start by (simp add: app_ok_def app_new_def RING_CAPACITY_def)
  then have ok: "app_ok a" using tui_loop_ok run by simp
  let ?b = "a\<lparr>ap_inspector := inspector_record x (ap_inspector a)\<rparr>"
  let ?x = "x\<lparr>ex_id := in_next_id (ap_inspector a)\<rparr>"
  have full: "exchanges (inspector_record x (ap_inspector a)) =
      ?x # rev (if length (in_store (ap_inspector a)) = RING_CAPACITY then tl (in_store (ap_inspector a)) else in_store (ap_inspector a))"
    by (simp add: exchanges_def inspector_record_def push_evict_def Let_def)
  have follow: "\<exists>rest. visible_requests (Suc height) (on_exchange ?b) = ?x # rest" if "ap_follow a"
    using that full by (simp add: visible_requests_def on_exchange_def Let_def)
  have paused: "visible_requests height (on_exchange ?b) = visible_requests height a"
    if "\<not> ap_follow a" "\<not> ap_show_logs a" "ap_offset a < length (exchanges (ap_inspector a))"
      "length (exchanges (ap_inspector a)) < RING_CAPACITY"
  proof -
    have ex: "exchanges (inspector_record x (ap_inspector a)) = ?x # exchanges (ap_inspector a)"
      using full that(4) by (simp add: exchanges_def)
    then have "min (ap_offset a + 1) (max_offset (?b\<lparr>ap_rps_current := ap_rps_current a + 1\<rparr>)) = ap_offset a + 1"
      using that(2,3) by (simp add: max_offset_def)
    then show ?thesis using that(1) ex by (simp add: visible_requests_def on_exchange_def Let_def)
  qed
  show ?thesis using ok follow paused by (auto simp: app_ok_def Let_def)
qed

theorem terminal_view_witness:
  "ap_offset (tui_loop [TuKey KeyUp False, TuSecond] (app_new (inspector_new True [] None))) < RING_CAPACITY"
  by (rule terminal_view[of "inspector_new True [] None", OF _ _ refl, THEN conjunct2, THEN conjunct1])
     (simp_all add: inspector_new_def)

end
