(* ===== verification/ClientProxy.thy ===== *)
theory ClientProxy
  imports Tap
begin

text \<open>
  The proxy of one connection on the client (\<open>proxy.rs\<close>): the two pumps between the tunnel and the local service, with and
  without the tap.  The two directions advance in any order; what each side sends is given as the chunks its reads
  return, the end of the list being the end of the stream.
\<close>

section \<open>State\<close>

record proxy_stats =
  px_conns_open :: u64
  px_conns_total :: u64
  px_bytes_to_local :: u64
  px_bytes_to_tunnel :: u64

datatype dir = ToLocal | ToTunnel

text \<open>A pump waits for a read, has a chunk to write, or has seen the end of its source and shut its sink.\<close>

datatype pump_phase = PumpReading | PumpWriting string | PumpDone

record copy_state =
  cp_source :: "dir \<Rightarrow> string list"
  cp_phase :: "dir \<Rightarrow> pump_phase"
  cp_sink :: "dir \<Rightarrow> string"
  cp_total :: "dir \<Rightarrow> u64"
  cp_tap :: "tap_state option"
  cp_stats :: proxy_stats

definition count_bytes :: "dir \<Rightarrow> u64 \<Rightarrow> proxy_stats \<Rightarrow> proxy_stats" where
  "count_bytes d n st =
     (case d of
        ToLocal \<Rightarrow> st\<lparr>px_bytes_to_local := px_bytes_to_local st + n\<rparr>
      | ToTunnel \<Rightarrow> st\<lparr>px_bytes_to_tunnel := px_bytes_to_tunnel st + n\<rparr>)"

text \<open>What a tapped pump reports after a chunk has been forwarded; an untapped one reports nothing.\<close>

definition observe :: "httparse \<Rightarrow> instant \<Rightarrow> dir \<Rightarrow> string \<Rightarrow> copy_state \<Rightarrow> copy_state" where
  "observe hp now d chunk s =
     (case cp_tap s of
        None \<Rightarrow> s
      | Some t \<Rightarrow>
          s\<lparr>cp_stats := count_bytes d (of_nat (length chunk)) (cp_stats s),
            cp_tap := Some (case d of ToLocal \<Rightarrow> feed_request hp now chunk t | ToTunnel \<Rightarrow> feed_response hp now chunk t)\<rparr>)"

section \<open>The pumps\<close>

datatype copy_event = CopyAdvance dir instant | CopyFail dir

definition pump_step :: "httparse \<Rightarrow> instant \<Rightarrow> dir \<Rightarrow> copy_state \<Rightarrow> copy_state" where
  "pump_step hp now d s =
     (case cp_phase s d of
        PumpReading \<Rightarrow>
          (case cp_source s d of
             chunk # rest \<Rightarrow> s\<lparr>cp_source := (cp_source s)(d := rest), cp_phase := (cp_phase s)(d := PumpWriting chunk)\<rparr>
           | [] \<Rightarrow> s\<lparr>cp_phase := (cp_phase s)(d := PumpDone)\<rparr>)
      | PumpWriting chunk \<Rightarrow>
          observe hp now d chunk
            (s\<lparr>cp_sink := (cp_sink s)(d := cp_sink s d @ chunk), cp_total := (cp_total s)(d := cp_total s d + of_nat (length chunk)),
               cp_phase := (cp_phase s)(d := PumpReading)\<rparr>)
      | PumpDone \<Rightarrow> s)"

text \<open>The loop: it returns when both pumps are done, or with the first error; \<open>None\<close> means it still runs.\<close>

fun copy_loop :: "httparse \<Rightarrow> copy_event list \<Rightarrow> copy_state \<Rightarrow> copy_state \<times> bool option" where
  "copy_loop hp [] s = (s, None)"
| "copy_loop hp (CopyAdvance d now # es) s =
     (let s' = pump_step hp now d s
      in if cp_phase s' ToLocal = PumpDone \<and> cp_phase s' ToTunnel = PumpDone then (s', Some True) else copy_loop hp es s')"
| "copy_loop hp (CopyFail d # es) s = (if cp_phase s d = PumpDone then copy_loop hp es s else (s, Some False))"

definition copy_start :: "string list \<Rightarrow> string list \<Rightarrow> tap_state option \<Rightarrow> proxy_stats \<Rightarrow> copy_state" where
  "copy_start from_tunnel from_local tap st =
     \<lparr>cp_source = (\<lambda>d. case d of ToLocal \<Rightarrow> from_tunnel | ToTunnel \<Rightarrow> from_local), cp_phase = (\<lambda>_. PumpReading),
      cp_sink = (\<lambda>_. []), cp_total = (\<lambda>_. 0), cp_tap = tap, cp_stats = st\<rparr>"

section \<open>A connection\<close>

definition guard_new :: "proxy_stats \<Rightarrow> proxy_stats" where
  "guard_new st = st\<lparr>px_conns_open := px_conns_open st + 1, px_conns_total := px_conns_total st + 1\<rparr>"

definition guard_drop :: "proxy_stats \<Rightarrow> proxy_stats" where
  "guard_drop st = st\<lparr>px_conns_open := px_conns_open st - 1\<rparr>"

text \<open>The untapped copy adds its totals once, when it returns without an error.\<close>

definition copy_result :: "instant \<Rightarrow> copy_state \<Rightarrow> bool \<Rightarrow> proxy_stats \<times> tap_state option" where
  "copy_result now s ok =
     (case cp_tap s of
        Some t \<Rightarrow> (cp_stats s, Some (tap_finish now t))
      | None \<Rightarrow>
          (if ok then count_bytes ToLocal (cp_total s ToLocal) (count_bytes ToTunnel (cp_total s ToTunnel) (cp_stats s))
           else cp_stats s, None))"

text \<open>\<open>connects\<close> tells whether the local service accepts; the result is the counters, the tap, and what each side received.\<close>

definition proxy_connection ::
  "httparse \<Rightarrow> bool \<Rightarrow> string list \<Rightarrow> string list \<Rightarrow> copy_event list \<Rightarrow> instant \<Rightarrow> tap_state option \<Rightarrow> proxy_stats \<Rightarrow>
   (proxy_stats \<times> tap_state option \<times> string \<times> string) option" where
  "proxy_connection hp connects from_tunnel from_local es now tap st =
     (let st1 = guard_new st
      in if \<not> connects then Some (guard_drop st1, tap, [], [])
         else case copy_loop hp es (copy_start from_tunnel from_local tap st1) of
                (s, None) \<Rightarrow> None
              | (s, Some ok) \<Rightarrow>
                  (case copy_result now s ok of
                     (st2, tap') \<Rightarrow> Some (guard_drop st2, tap', cp_sink s ToLocal, cp_sink s ToTunnel)))"

text \<open>The relay of a P2P subscriber: the untapped copy between an accepted socket and the stream.\<close>

definition proxy_p2p_relay ::
  "httparse \<Rightarrow> string list \<Rightarrow> string list \<Rightarrow> copy_event list \<Rightarrow> instant \<Rightarrow> proxy_stats \<Rightarrow> (proxy_stats \<times> string \<times> string) option" where
  "proxy_p2p_relay hp from_tunnel from_local es now st =
     (case copy_loop hp es (copy_start from_tunnel from_local None (guard_new st)) of
        (s, None) \<Rightarrow> None
      | (s, Some ok) \<Rightarrow> Some (guard_drop (fst (copy_result now s ok)), cp_sink s ToLocal, cp_sink s ToTunnel))"

section \<open>What the pumps keep\<close>

definition in_flight :: "pump_phase \<Rightarrow> string" where
  "in_flight p = (case p of PumpWriting c \<Rightarrow> c | _ \<Rightarrow> [])"

definition flow :: "copy_state \<Rightarrow> dir \<Rightarrow> string" where
  "flow s d = cp_sink s d @ in_flight (cp_phase s d) @ concat (cp_source s d)"

definition copy_ok :: "copy_state \<Rightarrow> bool" where
  "copy_ok s \<longleftrightarrow> (\<forall>d. cp_total s d = of_nat (length (cp_sink s d)) \<and> (cp_phase s d = PumpDone \<longrightarrow> cp_source s d = []))"

lemma observe_sel [simp]:
  "cp_source (observe hp now d c s) = cp_source s" "cp_phase (observe hp now d c s) = cp_phase s"
  "cp_sink (observe hp now d c s) = cp_sink s" "cp_total (observe hp now d c s) = cp_total s"
  by (simp_all add: observe_def split: option.split)

lemma pump_step_flow: "flow (pump_step hp now d s) = flow s"
  by (auto simp: pump_step_def flow_def in_flight_def fun_eq_iff split: pump_phase.split list.split)

lemma pump_step_ok: "copy_ok s \<Longrightarrow> copy_ok (pump_step hp now d s)"
  by (auto simp: pump_step_def copy_ok_def split: pump_phase.split list.split)

lemma copy_loop_flow: "copy_loop hp es s = (s', r) \<Longrightarrow> flow s' = flow s"
  by (induction hp es s rule: copy_loop.induct) (auto simp: Let_def pump_step_flow split: if_splits)

lemma copy_loop_ok: "copy_loop hp es s = (s', r) \<Longrightarrow> copy_ok s \<Longrightarrow> copy_ok s'"
  by (induction hp es s rule: copy_loop.induct) (auto simp: Let_def pump_step_ok split: if_splits)

lemma copy_loop_done:
  "copy_loop hp es s = (s', Some True) \<Longrightarrow> cp_phase s' d = PumpDone"
proof (induction hp es s rule: copy_loop.induct)
  case (2 hp d' now es s)
  then show ?case by (cases d) (auto simp: Let_def split: if_splits)
qed (auto split: if_splits)

text \<open>The counters of a tapped copy follow its sinks; those of an untapped one do not move.\<close>

definition counted :: "proxy_stats \<Rightarrow> copy_state \<Rightarrow> bool" where
  "counted st s \<longleftrightarrow> cp_stats s = (case cp_tap s of None \<Rightarrow> st
     | Some _ \<Rightarrow> count_bytes ToLocal (of_nat (length (cp_sink s ToLocal))) (count_bytes ToTunnel (of_nat (length (cp_sink s ToTunnel))) st))"

lemma pump_step_counted: "counted st s \<Longrightarrow> counted st (pump_step hp now d s)"
  by (cases d) (auto simp: counted_def pump_step_def observe_def count_bytes_def split: option.splits pump_phase.splits list.splits)

lemma copy_loop_counted: "copy_loop hp es s = (s', r) \<Longrightarrow> counted st s \<Longrightarrow> counted st s'"
  by (induction hp es s rule: copy_loop.induct) (auto simp: Let_def pump_step_counted split: if_splits)

text \<open>The tap watches only: the same schedule with and without it moves the same bytes.\<close>

definition same_bytes :: "copy_state \<Rightarrow> copy_state \<Rightarrow> bool" where
  "same_bytes s u \<longleftrightarrow> cp_source s = cp_source u \<and> cp_phase s = cp_phase u \<and> cp_sink s = cp_sink u \<and> cp_total s = cp_total u"

lemma pump_step_same: "same_bytes s u \<Longrightarrow> same_bytes (pump_step hp now d s) (pump_step hp now d u)"
  by (auto simp: same_bytes_def pump_step_def split: pump_phase.split list.split)

lemma copy_loop_same:
  "same_bytes s u \<Longrightarrow> same_bytes (fst (copy_loop hp es s)) (fst (copy_loop hp es u)) \<and> snd (copy_loop hp es s) = snd (copy_loop hp es u)"
proof (induction hp es s arbitrary: u rule: copy_loop.induct)
  case (2 hp d now es s)
  have "same_bytes (pump_step hp now d s) (pump_step hp now d u)" using pump_step_same[OF "2.prems"] .
  then show ?case using "2.IH" by (auto simp: Let_def same_bytes_def)
next
  case (3 hp d es s)
  then show ?case by (auto simp: same_bytes_def)
qed simp

lemma copy_loop_tap: "copy_loop hp es s = (s', r) \<Longrightarrow> (cp_tap s' = None) = (cp_tap s = None)"
proof (induction hp es s rule: copy_loop.induct)
  case (2 hp d now es s)
  have "(cp_tap (pump_step hp now d s) = None) = (cp_tap s = None)"
    by (simp add: pump_step_def observe_def split: pump_phase.split list.split option.split)
  then show ?case using 2 by (auto simp: Let_def split: if_splits)
qed (auto split: if_splits)


definition example_stats :: proxy_stats where
  "example_stats = \<lparr>px_conns_open = 0, px_conns_total = 0, px_bytes_to_local = 0, px_bytes_to_tunnel = 0\<rparr>"

definition no_httparse :: httparse where
  "no_httparse = \<lparr>hp_request = (\<lambda>_. None), hp_response = (\<lambda>_. None)\<rparr>"


end
