(* ===== verification/Acme.thy ===== *)
theory Acme
  imports TunnelModel
begin

text \<open>
  The certificate manager (\<open>tls/acme.rs\<close>): the DNS-01 flow with its bounded polls, the files it writes, and the swap of the
  live TLS configuration.  The CA, the DNS provider, the file system and the certificate parsers are outside the source; their
  answers are the fields of the environment.
\<close>

section \<open>Environment and world\<close>

definition RENEW_THRESHOLD_DAYS :: int where
  "RENEW_THRESHOLD_DAYS = 30"

definition DNS_PROPAGATION_SECS :: nat where
  "DNS_PROPAGATION_SECS = 60"

definition MAX_POLL_ATTEMPTS :: nat where
  "MAX_POLL_ATTEMPTS = 24"

record tls_section =
  tl_domain :: string
  tl_acme_enabled :: bool
  tl_cert_path :: string
  tl_key_path :: string
  tl_cloudflare_api_token :: string
  tl_cloudflare_zone_id :: string

datatype order_status = OrderReady | OrderInvalid | OrderOther

datatype challenge_type = Dns01 | OtherChallenge

text \<open>A challenge with the TXT value that answers it (the digest of its key authorization).\<close>

record authorization =
  au_valid :: bool
  au_challenges :: "(challenge_type \<times> string) list"

record txt_record =
  txt_id :: string
  txt_name :: string
  txt_content :: string

text \<open>An answer of the DNS provider: the request fails, the body does not parse, or success flag, record id and errors.\<close>

datatype cf_reply = CfRequestError string | CfParseError string | CfResponse bool "string option" "string list"

text \<open>A write succeeds, or fails and leaves the file with some content.\<close>

datatype write_outcome = Written | WriteFailed string "string option"

record acme_env =
  ae_token_env :: "string option"
  ae_zone_env :: "string option"
  ae_not_found :: string
  ae_read_account :: "string option"
  ae_parse_account :: "string \<Rightarrow> string option"
  ae_load_account :: "string \<Rightarrow> string option"
  ae_create_account :: "string + string"
  ae_mkdir_account :: "string option"
  ae_serialize_account :: "string option"
  ae_write_account :: write_outcome
  ae_order :: "string list \<Rightarrow> string option"
  ae_auths :: "string + authorization list"
  ae_create :: "nat \<Rightarrow> cf_reply"
  ae_ready :: "nat \<Rightarrow> string option"
  ae_status :: "nat \<Rightarrow> string + order_status"
  ae_key_pair :: "string + string"
  ae_params :: "string list \<Rightarrow> string option"
  ae_csr :: "string option"
  ae_finalize :: "string option"
  ae_certificate :: "nat \<Rightarrow> string + string option"
  ae_refresh :: "nat \<Rightarrow> string option"
  ae_mkdir :: "string option"
  ae_write_cert :: write_outcome
  ae_write_key :: write_outcome
  ae_delete :: "string \<Rightarrow> string + bool"
  ae_open_cert :: "string option"
  ae_open_key :: "string option"
  ae_not_after :: "string \<Rightarrow> int option"
  ae_now :: int
  ae_parse_certs :: "string \<Rightarrow> string + string list"
  ae_parse_key :: "string \<Rightarrow> string + string option"
  ae_build :: "string list \<Rightarrow> string \<Rightarrow> string + string"

datatype acme_step = RecordCreated string | ChallengeReady | DnsWait nat | DeleteSent string

record acme_world =
  aw_cert :: "string option"
  aw_key :: "string option"
  aw_account :: "string option"
  aw_records :: "txt_record list"
  aw_trace :: "acme_step list"

type_synonym 'a acme = "acme_world \<times> (server_error + 'a)"

text \<open>The operator \<open>?\<close> on a call that may change the world.\<close>

definition and_then :: "'a acme \<Rightarrow> ('a \<Rightarrow> acme_world \<Rightarrow> 'b acme) \<Rightarrow> 'b acme" where
  "and_then m f = (case m of (w, Inl e) \<Rightarrow> (w, Inl e) | (w, Inr x) \<Rightarrow> f x w)"

definition fails :: "string \<Rightarrow> string option \<Rightarrow> acme_world \<Rightarrow> unit acme" where
  "fails what err w = (w, case err of Some e \<Rightarrow> Inl (AcmeError (what @ '': '' @ e)) | None \<Rightarrow> Inr ())"

section \<open>Credentials\<close>

definition resolve_cloudflare_token :: "acme_env \<Rightarrow> tls_section \<Rightarrow> server_error + string" where
  "resolve_cloudflare_token env cfg =
     (case ae_token_env env of
        Some v \<Rightarrow> Inr v
      | None \<Rightarrow>
          if tl_cloudflare_api_token cfg \<noteq> [] then Inr (tl_cloudflare_api_token cfg)
          else Inl (ConfigError (''Cloudflare API token required: set CLOUDFLARE_API_TOKEN env var '' @
                 ''or tls.cloudflare_api_token in config'')))"

definition resolve_cloudflare_zone_id :: "acme_env \<Rightarrow> tls_section \<Rightarrow> server_error + string" where
  "resolve_cloudflare_zone_id env cfg =
     (case ae_zone_env env of
        Some v \<Rightarrow> Inr v
      | None \<Rightarrow>
          if tl_cloudflare_zone_id cfg \<noteq> [] then Inr (tl_cloudflare_zone_id cfg)
          else Inl (ConfigError (''Cloudflare Zone ID required: set CLOUDFLARE_ZONE_ID env var '' @
                 ''or tls.cloudflare_zone_id in config'')))"

text \<open>An account on file is loaded; otherwise one is created and its credentials saved.\<close>

definition load_or_create_account :: "acme_env \<Rightarrow> acme_world \<Rightarrow> unit acme" where
  "load_or_create_account env w =
     (case aw_account w of
        Some raw \<Rightarrow>
          (case ae_read_account env of
             Some e \<Rightarrow> (w, Inl (IoError e))
           | None \<Rightarrow>
               and_then (fails ''parse account credentials'' (ae_parse_account env raw) w) (\<lambda>_ w.
                 fails ''load account'' (ae_load_account env raw) w))
      | None \<Rightarrow>
          (case ae_create_account env of
             Inl e \<Rightarrow> (w, Inl (AcmeError (''create account: '' @ e)))
           | Inr credentials \<Rightarrow>
               (case ae_mkdir_account env of
                  Some e \<Rightarrow> (w, Inl (IoError e))
                | None \<Rightarrow>
                    and_then (fails ''serialize credentials'' (ae_serialize_account env) w) (\<lambda>_ w.
                      case ae_write_account env of
                        WriteFailed e held \<Rightarrow> (w\<lparr>aw_account := held\<rparr>, Inl (IoError e))
                      | Written \<Rightarrow> (w\<lparr>aw_account := Some credentials\<rparr>, Inr ())))))"

section \<open>Challenges and polls\<close>

definition cloudflare_create_txt :: "cf_reply \<Rightarrow> server_error + string" where
  "cloudflare_create_txt reply =
     (case reply of
        CfRequestError e \<Rightarrow> Inl (AcmeError (''Cloudflare API request: '' @ e))
      | CfParseError e \<Rightarrow> Inl (AcmeError (''Cloudflare API parse: '' @ e))
      | CfResponse success result errors \<Rightarrow>
          if \<not> success
          then Inl (AcmeError (''Cloudflare create TXT: '' @ (case errors of [] \<Rightarrow> ''unknown error'' | e # _ \<Rightarrow> e)))
          else case result of Some i \<Rightarrow> Inr i | None \<Rightarrow> Inl (AcmeError ''Cloudflare returned no record ID''))"

definition dns01_challenge :: "authorization \<Rightarrow> string option" where
  "dns01_challenge a = map_option snd (List.find (\<lambda>c. fst c = Dns01) (au_challenges a))"

definition challenge_name :: "string \<Rightarrow> string" where
  "challenge_name domain = ''_acme-challenge.'' @ domain"

text \<open>The loop over the authorizations; \<open>k\<close> counts them.\<close>

fun answer_challenges :: "acme_env \<Rightarrow> string \<Rightarrow> nat \<Rightarrow> authorization list \<Rightarrow> acme_world \<Rightarrow> string list acme" where
  "answer_challenges env domain k [] w = (w, Inr [])"
| "answer_challenges env domain k (a # as) w =
     (if au_valid a then answer_challenges env domain (Suc k) as w
      else case dns01_challenge a of
             None \<Rightarrow> (w, Inl (AcmeError ''no DNS-01 challenge offered by CA''))
           | Some dns_value \<Rightarrow>
      (case cloudflare_create_txt (ae_create env k) of
             Inl e \<Rightarrow> (w, Inl e)
           | Inr i \<Rightarrow>
               let record = \<lparr>txt_id = i, txt_name = challenge_name domain, txt_content = dns_value\<rparr>;
                   w1 = w\<lparr>aw_records := aw_records w @ [record], aw_trace := aw_trace w @ [RecordCreated i]\<rparr>
               in case ae_ready env k of
                    Some e \<Rightarrow> (w1, Inl (AcmeError (''set challenge ready: '' @ e)))
                  | None \<Rightarrow>
                      and_then (answer_challenges env domain (Suc k) as (w1\<lparr>aw_trace := aw_trace w1 @ [ChallengeReady]\<rparr>))
                        (\<lambda>ids w2. (w2, Inr (i # ids)))))"

fun poll_ready :: "(string + order_status) list \<Rightarrow> server_error + unit" where
  "poll_ready [] = Inl (AcmeError (''order did not become ready after '' @ dec_string MAX_POLL_ATTEMPTS @ '' attempts''))"
| "poll_ready (Inl e # rest) = Inl (AcmeError (''order refresh: '' @ e))"
| "poll_ready (Inr s # rest) =
     (if s = OrderReady then Inr ()
      else if s = OrderInvalid then Inl (AcmeError ''ACME order became invalid'')
      else poll_ready rest)"

definition poll_until_ready :: "acme_env \<Rightarrow> server_error + unit" where
  "poll_until_ready env = poll_ready (map (ae_status env) [0..<MAX_POLL_ATTEMPTS])"

fun poll_cert :: "((string + string option) \<times> string option) list \<Rightarrow> server_error + string" where
  "poll_cert [] = Inl (AcmeError (''certificate not available after '' @ dec_string MAX_POLL_ATTEMPTS @ '' attempts''))"
| "poll_cert ((Inl e, r) # rest) = Inl (AcmeError (''certificate download: '' @ e))"
| "poll_cert ((Inr (Some pem), r) # rest) = Inr pem"
| "poll_cert ((Inr None, Some e) # rest) = Inl (AcmeError (''order refresh: '' @ e))"
| "poll_cert ((Inr None, None) # rest) = poll_cert rest"

definition poll_certificate :: "acme_env \<Rightarrow> server_error + string" where
  "poll_certificate env = poll_cert (map (\<lambda>k. (ae_certificate env k, ae_refresh env k)) [0..<MAX_POLL_ATTEMPTS])"

section \<open>The flow\<close>

text \<open>A failed request is logged; an answer that refuses the deletion is not looked at.\<close>

definition delete_record :: "acme_env \<Rightarrow> string \<Rightarrow> acme_world \<Rightarrow> acme_world" where
  "delete_record env i w =
     (case ae_delete env i of
        Inl e \<Rightarrow> w
      | Inr removed \<Rightarrow>
          w\<lparr>aw_records := (if removed then filter (\<lambda>t. txt_id t \<noteq> i) (aw_records w) else aw_records w),
            aw_trace := aw_trace w @ [DeleteSent i]\<rparr>)"

definition save_certificate :: "acme_env \<Rightarrow> string \<Rightarrow> string \<Rightarrow> acme_world \<Rightarrow> unit acme" where
  "save_certificate env chain private_key w =
     (case ae_mkdir env of
        Some e \<Rightarrow> (w, Inl (IoError e))
      | None \<Rightarrow>
          (case ae_write_cert env of
             WriteFailed e held \<Rightarrow> (w\<lparr>aw_cert := held\<rparr>, Inl (IoError e))
           | Written \<Rightarrow>
               let w1 = w\<lparr>aw_cert := Some chain\<rparr>
               in case ae_write_key env of
                    WriteFailed e held \<Rightarrow> (w1\<lparr>aw_key := held\<rparr>, Inl (IoError e))
                  | Written \<Rightarrow> (w1\<lparr>aw_key := Some private_key\<rparr>, Inr ())))"

definition order_names :: "tls_section \<Rightarrow> string list" where
  "order_names cfg = [tl_domain cfg, ''*.'' @ tl_domain cfg]"

definition run_acme :: "acme_env \<Rightarrow> tls_section \<Rightarrow> acme_world \<Rightarrow> unit acme" where
  "run_acme env cfg w =
     and_then (w, resolve_cloudflare_token env cfg) (\<lambda>_ w.
     and_then (w, resolve_cloudflare_zone_id env cfg) (\<lambda>_ w.
     and_then (load_or_create_account env w) (\<lambda>_ w.
     and_then (fails ''new order'' (ae_order env (order_names cfg)) w) (\<lambda>_ w.
     and_then (w, case ae_auths env of Inl e \<Rightarrow> Inl (AcmeError (''authorizations: '' @ e)) | Inr as \<Rightarrow> Inr as) (\<lambda>as w.
     and_then (answer_challenges env (tl_domain cfg) 0 as w) (\<lambda>ids w.
     let w = w\<lparr>aw_trace := aw_trace w @ [DnsWait DNS_PROPAGATION_SECS]\<rparr> in
     and_then (w, poll_until_ready env) (\<lambda>_ w.
     and_then (w, case ae_key_pair env of Inl e \<Rightarrow> Inl (AcmeError (''key generation: '' @ e)) | Inr k \<Rightarrow> Inr k) (\<lambda>key w.
     and_then (fails ''cert params'' (ae_params env (order_names cfg)) w) (\<lambda>_ w.
     and_then (fails ''CSR'' (ae_csr env) w) (\<lambda>_ w.
     and_then (fails ''finalize'' (ae_finalize env) w) (\<lambda>_ w.
     and_then (w, poll_certificate env) (\<lambda>chain w.
     and_then (save_certificate env chain key w) (\<lambda>_ w.
       (fold (delete_record env) ids w, Inr ()))))))))))))))"

section \<open>The manager\<close>

text \<open>Signed division of the machine truncates towards zero.\<close>

definition trunc_div :: "int \<Rightarrow> int \<Rightarrow> int" where
  "trunc_div a b = (if a < 0 then - ((- a) div b) else a div b)"

text \<open>Reading a file: missing, or present and unreadable, or its content.\<close>

definition read_file :: "acme_env \<Rightarrow> string option \<Rightarrow> string option \<Rightarrow> string + string" where
  "read_file env err held =
     (case held of None \<Rightarrow> Inl (ae_not_found env) | Some c \<Rightarrow> (case err of Some e \<Rightarrow> Inl e | None \<Rightarrow> Inr c))"

definition cert_expiring_within :: "acme_env \<Rightarrow> acme_world \<Rightarrow> int \<Rightarrow> bool" where
  "cert_expiring_within env w threshold_days =
     (case read_file env (ae_open_cert env) (aw_cert w) of
        Inl _ \<Rightarrow> True
      | Inr pem \<Rightarrow>
          (case ae_not_after env pem of
             None \<Rightarrow> True
           | Some not_after \<Rightarrow> trunc_div (not_after - ae_now env) 86400 < threshold_days))"

definition path_quoted :: "string \<Rightarrow> string" where
  "path_quoted path = [CHR 0x27] @ path @ [CHR 0x27]"

definition build_tls_config :: "acme_env \<Rightarrow> tls_section \<Rightarrow> acme_world \<Rightarrow> server_error + string" where
  "build_tls_config env cfg w =
     (case read_file env (ae_open_cert env) (aw_cert w) of
        Inl e \<Rightarrow> Inl (TlsError (''open cert '' @ path_quoted (tl_cert_path cfg) @ '': '' @ e))
      | Inr c \<Rightarrow>
          (case ae_parse_certs env c of
             Inl e \<Rightarrow> Inl (TlsError (''parse cert '' @ path_quoted (tl_cert_path cfg) @ '': '' @ e))
           | Inr chain \<Rightarrow>
               (case read_file env (ae_open_key env) (aw_key w) of
                  Inl e \<Rightarrow> Inl (TlsError (''open key '' @ path_quoted (tl_key_path cfg) @ '': '' @ e))
                | Inr k \<Rightarrow>
                    (case ae_parse_key env k of
                       Inl e \<Rightarrow> Inl (TlsError (''parse key '' @ path_quoted (tl_key_path cfg) @ '': '' @ e))
                     | Inr None \<Rightarrow> Inl (TlsError (''no private key in '' @ path_quoted (tl_key_path cfg)))
                     | Inr (Some key) \<Rightarrow>
                         (case ae_build env chain key of
                            Inl e \<Rightarrow> Inl (TlsError (''build server config: '' @ e))
                          | Inr c \<Rightarrow> Inr c)))))"

text \<open>The result is the live configuration.\<close>

definition cert_manager_new :: "acme_env \<Rightarrow> tls_section \<Rightarrow> acme_world \<Rightarrow> string acme" where
  "cert_manager_new env cfg w =
     (let cert_missing = (aw_cert w = None \<or> aw_key w = None);
          cert_expiring = (\<not> cert_missing \<and> cert_expiring_within env w RENEW_THRESHOLD_DAYS)
      in and_then (if tl_acme_enabled cfg \<and> (cert_missing \<or> cert_expiring) then run_acme env cfg w else (w, Inr ()))
           (\<lambda>_ w. (w, build_tls_config env cfg w)))"

definition check_and_renew :: "acme_env \<Rightarrow> tls_section \<Rightarrow> string \<Rightarrow> acme_world \<Rightarrow> acme_world \<times> string \<times> (server_error + unit)" where
  "check_and_renew env cfg live w =
     (if \<not> tl_acme_enabled cfg then (w, live, Inr ())
      else if cert_expiring_within env w RENEW_THRESHOLD_DAYS
      then (case run_acme env cfg w of
              (w', Inl e) \<Rightarrow> (w', live, Inl e)
            | (w', Inr _) \<Rightarrow>
                (case build_tls_config env cfg w' of Inl e \<Rightarrow> (w', live, Inl e) | Inr new_cfg \<Rightarrow> (w', new_cfg, Inr ())))
      else (w, live, Inr ()))"

text \<open>The renewal task: one check a day; a failure is logged and the loop goes on.\<close>

fun renewal_task :: "acme_env list \<Rightarrow> tls_section \<Rightarrow> string \<Rightarrow> acme_world \<Rightarrow> acme_world \<times> string" where
  "renewal_task [] cfg live w = (w, live)"
| "renewal_task (env # days) cfg live w =
     (case check_and_renew env cfg live w of (w', live', r) \<Rightarrow> renewal_task days cfg live' w')"

end
