(* ===== verification/AcmeProps.thy ===== *)
theory AcmeProps
  imports Acme "HOL-Library.Sublist"
begin

text \<open>
  Certificate renewal: which TXT records a run leaves with the DNS provider on every outcome, and when the live TLS configuration
  changes and to what.
\<close>

section \<open>Sequencing\<close>

lemma and_then_simps [simp]:
  "and_then (w, Inl e) f = (w, Inl e)"
  "and_then (w, Inr x) f = f x w"
  by (simp_all add: and_then_def)

lemma and_then_Ok: "and_then m f = (w', Inr y) \<longleftrightarrow> (\<exists>x w1. m = (w1, Inr x) \<and> f x w1 = (w', Inr y))"
  by (cases m) (auto simp: and_then_def split: sum.splits)

lemma and_then_Err:
  "and_then m f = (w', Inl e) \<longleftrightarrow> m = (w', Inl e) \<or> (\<exists>x w1. m = (w1, Inr x) \<and> f x w1 = (w', Inl e))"
  by (cases m) (auto simp: and_then_def split: sum.splits)

lemma fails_Ok: "fails what err w = (w', Inr y) \<longleftrightarrow> err = None \<and> w' = w"
  by (cases err) (auto simp: fails_def)

lemma fails_world: "fails what err w = (w', r) \<Longrightarrow> w' = w"
  by (simp add: fails_def)

text \<open>What a step may not touch: the TXT records and the trace of the calls to the provider.\<close>

definition same_records :: "acme_world \<Rightarrow> acme_world \<Rightarrow> bool" where
  "same_records w w' \<longleftrightarrow> aw_records w' = aw_records w \<and> aw_trace w' = aw_trace w"

lemma same_records_refl [simp]: "same_records w w"
  by (simp add: same_records_def)

lemma load_or_create_account_records: "load_or_create_account env w = (w', r) \<Longrightarrow> same_records w w'"
  by (auto simp: load_or_create_account_def fails_def and_then_def same_records_def
      split: option.splits sum.splits write_outcome.splits)

lemma save_certificate_records: "save_certificate env chain key w = (w', r) \<Longrightarrow> same_records w w'"
  by (auto simp: save_certificate_def Let_def same_records_def split: option.splits write_outcome.splits)

lemma save_certificate_Ok:
  "save_certificate env chain key w = (w', Inr u) \<Longrightarrow> aw_cert w' = Some chain \<and> aw_key w' = Some key"
  by (auto simp: save_certificate_def Let_def split: option.splits write_outcome.splits)

section \<open>Challenges\<close>

text \<open>The records a run has to create: one for each authorization that is not valid, under the challenge name of the domain,
  with the value of its first DNS-01 challenge.\<close>

definition wanted_records :: "string \<Rightarrow> authorization list \<Rightarrow> (string \<times> string option) list" where
  "wanted_records domain as = map (\<lambda>a. (challenge_name domain, dns01_challenge a)) (filter (\<lambda>a. \<not> au_valid a) as)"

definition written_records :: "txt_record list \<Rightarrow> (string \<times> string option) list" where
  "written_records new = map (\<lambda>t. (txt_name t, Some (txt_content t))) new"

definition answered :: "string list \<Rightarrow> acme_step list" where
  "answered ids = concat (map (\<lambda>i. [RecordCreated i, ChallengeReady]) ids)"

lemma wanted_records_simps [simp]:
  "wanted_records d [] = []"
  "wanted_records d (a # as) =
     (if au_valid a then wanted_records d as else (challenge_name d, dns01_challenge a) # wanted_records d as)"
  by (simp_all add: wanted_records_def)

lemma written_records_simps [simp]:
  "written_records [] = []"
  "written_records (t # new) = (txt_name t, Some (txt_content t)) # written_records new"
  by (simp_all add: written_records_def)

lemma answered_simps [simp]:
  "answered [] = []" "answered (i # ids) = RecordCreated i # ChallengeReady # answered ids"
  by (simp_all add: answered_def)

lemma answer_challenges_Ok:
  "answer_challenges env d k as w = (w', Inr ids) \<Longrightarrow>
   \<exists>new. aw_records w' = aw_records w @ new \<and> map txt_id new = ids \<and> written_records new = wanted_records d as \<and>
         aw_trace w' = aw_trace w @ answered ids"
proof (induction env d k as w arbitrary: w' ids rule: answer_challenges.induct)
  case (2 env d k a as w)
  show ?case
  proof (cases "au_valid a")
    case True
    then show ?thesis using 2 by simp
  next
    case False
    obtain v i w1 ids' where v: "dns01_challenge a = Some v" and i: "cloudflare_create_txt (ae_create env k) = Inr i"
      and r: "ae_ready env k = None" and ids: "ids = i # ids'"
      and w1: "w1 = w\<lparr>aw_records := aw_records w @ [\<lparr>txt_id = i, txt_name = challenge_name d, txt_content = v\<rparr>],
                 aw_trace := aw_trace w @ [RecordCreated i, ChallengeReady]\<rparr>"
      and rest: "answer_challenges env d (Suc k) as w1 = (w', Inr ids')"
      using 2(3) False by (auto simp: Let_def and_then_Ok split: option.splits sum.splits)
    obtain new where "aw_records w' = aw_records w1 @ new" "map txt_id new = ids'"
      "written_records new = wanted_records d as" "aw_trace w' = aw_trace w1 @ answered ids'"
      using 2(2) [OF False v i refl refl r, of w' ids'] rest w1 by auto
    then show ?thesis using v w1 ids False
      by (intro exI [of _ "\<lparr>txt_id = i, txt_name = challenge_name d, txt_content = v\<rparr> # new"]) simp
  qed
qed simp

text \<open>On an error the records made so far are a prefix of the wanted ones, and nothing has been deleted.\<close>

lemma answer_challenges_Err:
  "answer_challenges env d k as w = (w', Inl e) \<Longrightarrow>
   \<exists>new tr. aw_records w' = aw_records w @ new \<and> prefix (written_records new) (wanted_records d as) \<and>
         aw_trace w' = aw_trace w @ tr \<and> (\<forall>i. DeleteSent i \<notin> set tr)"
proof (induction env d k as w arbitrary: w' rule: answer_challenges.induct)
  case (2 env d k a as w)
  show ?case
  proof (cases "au_valid a \<or> dns01_challenge a = None \<or> (\<exists>e. cloudflare_create_txt (ae_create env k) = Inl e)")
    case True
    then show ?thesis using 2 by (auto split: option.splits if_splits)
  next
    case False
    then obtain v i where v: "dns01_challenge a = Some v" and i: "cloudflare_create_txt (ae_create env k) = Inr i"
      and nv: "\<not> au_valid a"
      by (metis not_None_eq sum.exhaust)
    let ?t = "\<lparr>txt_id = i, txt_name = challenge_name d, txt_content = v\<rparr>"
    show ?thesis
    proof (cases "ae_ready env k")
      case (Some x)
      then show ?thesis using 2(3) nv v i
        by (intro exI [of _ "[?t]"] exI [of _ "[RecordCreated i]"]) (auto simp: Let_def)
    next
      case None
      let ?next = "w\<lparr>aw_records := aw_records w @ [?t], aw_trace := aw_trace w @ [RecordCreated i, ChallengeReady]\<rparr>"
      have "answer_challenges env d (Suc k) as ?next = (w', Inl e)"
        using 2(3) nv v i None by (auto simp: Let_def and_then_Err)
      then obtain new tr where "aw_records w' = aw_records ?next @ new" "prefix (written_records new) (wanted_records d as)"
        "aw_trace w' = aw_trace ?next @ tr" "\<forall>i. DeleteSent i \<notin> set tr"
        using 2(2) [OF nv v i refl refl None, of w'] by auto
      then show ?thesis using v nv
        by (intro exI [of _ "?t # new"] exI [of _ "RecordCreated i # ChallengeReady # tr"]) simp
    qed
  qed
qed simp

section \<open>Polls and clean-up\<close>

lemma poll_cert_Ok: "poll_cert xs = Inr pem \<Longrightarrow> \<exists>x\<in>set xs. fst x = Inr (Some pem)"
  by (induction xs rule: poll_cert.induct) auto

lemma poll_certificate_Ok:
  "poll_certificate env = Inr pem \<Longrightarrow> \<exists>k<MAX_POLL_ATTEMPTS. ae_certificate env k = Inr (Some pem)"
  by (auto simp: poll_certificate_def dest!: poll_cert_Ok) metis

lemma fold_delete_record:
  "aw_records (fold (delete_record env) ids w) =
     filter (\<lambda>t. \<not> (txt_id t \<in> set ids \<and> ae_delete env (txt_id t) = Inr True)) (aw_records w)"
  "aw_trace (fold (delete_record env) ids w) =
     aw_trace w @ map DeleteSent (filter (\<lambda>i. \<not> isl (ae_delete env i)) ids)"
  "aw_cert (fold (delete_record env) ids w) = aw_cert w"
  "aw_key (fold (delete_record env) ids w) = aw_key w"
proof (induction ids arbitrary: w)
  case (Cons i ids)
  { case 1 show ?case using Cons(1) [of "delete_record env i w"]
      by (auto simp: delete_record_def split: sum.splits intro!: filter_cong) }
  { case 2 show ?case using Cons(2) [of "delete_record env i w"] by (auto simp: delete_record_def split: sum.splits) }
  { case 3 show ?case using Cons(3) [of "delete_record env i w"] by (auto simp: delete_record_def split: sum.splits) }
  { case 4 show ?case using Cons(4) [of "delete_record env i w"] by (auto simp: delete_record_def split: sum.splits) }
qed simp_all

section \<open>A run\<close>

lemma run_acme_Ok:
  assumes "run_acme env cfg w = (w', Inr u)"
  obtains as w1 ids w2 chain key where "ae_auths env = Inr as" "same_records w w1"
    "answer_challenges env (tl_domain cfg) 0 as w1 = (w2, Inr ids)" "ae_key_pair env = Inr key"
    "poll_certificate env = Inr chain"
    "\<exists>w3. save_certificate env chain key (w2\<lparr>aw_trace := aw_trace w2 @ [DnsWait DNS_PROPAGATION_SECS]\<rparr>) = (w3, Inr ()) \<and>
         w' = fold (delete_record env) ids w3"
  using assms
  by (auto simp: run_acme_def Let_def and_then_Ok fails_Ok split: sum.splits dest!: load_or_create_account_records)

lemma run_acme_Err:
  assumes "run_acme env cfg w = (w', Inl e)"
  shows "same_records w w' \<or>
    (\<exists>as w1. ae_auths env = Inr as \<and> same_records w w1 \<and>
       (answer_challenges env (tl_domain cfg) 0 as w1 = (w', Inl e) \<or>
        (\<exists>w2 ids. answer_challenges env (tl_domain cfg) 0 as w1 = (w2, Inr ids) \<and>
           same_records (w2\<lparr>aw_trace := aw_trace w2 @ [DnsWait DNS_PROPAGATION_SECS]\<rparr>) w')))"
  using assms unfolding run_acme_def Let_def and_then_Err
  by (elim disjE exE conjE)
    (fastforce simp: fails_Ok split: sum.splits dest: fails_world load_or_create_account_records save_certificate_records)+

text \<open>C31. The TXT records of a run.  When it succeeds, it has created exactly one record for each authorization that was not
  already valid, in order, under the challenge name and with the value of the DNS-01 challenge; of the records at the provider it
  removed exactly those whose deletion was carried out; and the CA was told to check every challenge before the wait for DNS
  propagation.  When it fails, it has created the records of a prefix of the authorizations and deleted nothing: all of them stay
  at the provider.\<close>

theorem acme_records:
  "case run_acme env cfg w of
     (w', Inr _) \<Rightarrow>
       \<exists>as new. ae_auths env = Inr as \<and> written_records new = wanted_records (tl_domain cfg) as \<and>
         aw_records w' =
           filter (\<lambda>t. \<not> (txt_id t \<in> txt_id ` set new \<and> ae_delete env (txt_id t) = Inr True)) (aw_records w @ new) \<and>
         aw_trace w' = aw_trace w @ answered (map txt_id new) @ [DnsWait 60] @
           map DeleteSent (filter (\<lambda>i. \<not> isl (ae_delete env i)) (map txt_id new))
   | (w', Inl _) \<Rightarrow>
       \<exists>new tr. aw_records w' = aw_records w @ new \<and> aw_trace w' = aw_trace w @ tr \<and> (\<forall>i. DeleteSent i \<notin> set tr) \<and>
         (case ae_auths env of
            Inl _ \<Rightarrow> new = []
          | Inr as \<Rightarrow> prefix (written_records new) (wanted_records (tl_domain cfg) as))"
proof (cases "run_acme env cfg w")
  case (Pair w' r)
  show ?thesis
  proof (cases r)
    case (Inr u)
    obtain as w1 ids w2 chain key w3 where as: "ae_auths env = Inr as" and w1: "same_records w w1"
      and a: "answer_challenges env (tl_domain cfg) 0 as w1 = (w2, Inr ids)"
      and s: "save_certificate env chain key (w2\<lparr>aw_trace := aw_trace w2 @ [DnsWait DNS_PROPAGATION_SECS]\<rparr>) = (w3, Inr ())"
      and w': "w' = fold (delete_record env) ids w3"
      using run_acme_Ok [OF Pair [unfolded Inr]] by metis
    show ?thesis
      using answer_challenges_Ok [OF a] save_certificate_records [OF s] as w1 Pair Inr
      by (auto simp: w' fold_delete_record same_records_def DNS_PROPAGATION_SECS_def)
  next
    case (Inl e)
    have no_delete: "DeleteSent i \<notin> set (answered ids)" for i ids
      by (auto simp: answered_def)
    show ?thesis using run_acme_Err [OF Pair [unfolded Inl]]
    proof (elim disjE exE conjE)
      assume "same_records w w'"
      then show ?thesis using Pair Inl by (auto simp: same_records_def split: sum.splits)
    next
      fix as w1 assume "ae_auths env = Inr as" "same_records w w1"
        "answer_challenges env (tl_domain cfg) 0 as w1 = (w', Inl e)"
      then show ?thesis using answer_challenges_Err [of env "tl_domain cfg" 0 as w1 w' e] Pair Inl
        by (auto simp: same_records_def)
    next
      fix as w1 w2 ids assume "ae_auths env = Inr as" "same_records w w1"
        "answer_challenges env (tl_domain cfg) 0 as w1 = (w2, Inr ids)"
        "same_records (w2\<lparr>aw_trace := aw_trace w2 @ [DnsWait DNS_PROPAGATION_SECS]\<rparr>) w'"
      then show ?thesis using answer_challenges_Ok [of env "tl_domain cfg" 0 as w1 w2 ids] Pair Inl no_delete
        by (fastforce simp: same_records_def)
    qed
  qed
qed

section \<open>Renewal\<close>

lemma trunc_div_less: "0 < d \<Longrightarrow> trunc_div a 86400 < d \<longleftrightarrow> a < d * 86400"
  by (auto simp: trunc_div_def div_less_iff_less_mult intro: order_le_less_trans)

lemma cert_expiring_iff:
  "cert_expiring_within env w RENEW_THRESHOLD_DAYS \<longleftrightarrow>
   \<not> (\<exists>pem not_after. read_file env (ae_open_cert env) (aw_cert w) = Inr pem \<and> ae_not_after env pem = Some not_after \<and>
        30 * 86400 \<le> not_after - ae_now env)"
  by (auto simp: cert_expiring_within_def RENEW_THRESHOLD_DAYS_def trunc_div_less split: sum.splits option.splits)

lemma build_tls_config_Ok:
  "build_tls_config env cfg w = Inr c \<Longrightarrow>
   \<exists>pem key chain pk. read_file env (ae_open_cert env) (aw_cert w) = Inr pem \<and>
     read_file env (ae_open_key env) (aw_key w) = Inr key \<and> ae_parse_certs env pem = Inr chain \<and>
     ae_parse_key env key = Inr (Some pk) \<and> ae_build env chain pk = Inr c"
  by (auto simp: build_tls_config_def split: sum.splits option.splits)

lemma read_file_Ok: "read_file env err (Some c) = Inr x \<Longrightarrow> x = c"
  by (auto simp: read_file_def split: option.splits)

text \<open>A configuration issued by a run: built from the chain the CA delivered in one of the polls of the run and from the key
  generated in the same run.\<close>

definition issued :: "acme_env \<Rightarrow> acme_world \<Rightarrow> string \<Rightarrow> bool" where
  "issued env w live \<longleftrightarrow>
     (\<exists>k<MAX_POLL_ATTEMPTS. \<exists>chain key certs pk. ae_certificate env k = Inr (Some chain) \<and> ae_key_pair env = Inr key \<and>
        aw_cert w = Some chain \<and> aw_key w = Some key \<and> ae_parse_certs env chain = Inr certs \<and>
        ae_parse_key env key = Inr (Some pk) \<and> ae_build env certs pk = Inr live)"

lemma run_then_build_issued:
  assumes run: "run_acme env cfg w = (w', Inr u)" and build: "build_tls_config env cfg w' = Inr c"
  shows "issued env w' c"
proof -
  obtain as w1 ids w2 chain key w3 where key: "ae_key_pair env = Inr key" and chain: "poll_certificate env = Inr chain"
    and s: "save_certificate env chain key (w2\<lparr>aw_trace := aw_trace w2 @ [DnsWait DNS_PROPAGATION_SECS]\<rparr>) = (w3, Inr ())"
    and w': "w' = fold (delete_record env) ids w3"
    using run_acme_Ok [OF run] by metis
  have "aw_cert w' = Some chain" "aw_key w' = Some key"
    using save_certificate_Ok [OF s] by (simp_all add: w' fold_delete_record)
  then show ?thesis
    using build_tls_config_Ok [OF build] poll_certificate_Ok [OF chain] key
    unfolding issued_def by (metis read_file_Ok)
qed

text \<open>C30. The daily check.  With ACME off, or a certificate on disk that is readable and good for another thirty days, nothing
  changes.  Otherwise a renewal runs: when it fails, at whatever step, connections keep the live configuration they had; when it
  succeeds, the files hold the chain the CA delivered within the 24 polls and the key generated in this run, and the live
  configuration is the one built from exactly these two.\<close>

theorem renewal_exact:
  "case check_and_renew env cfg live w of (w', live', r) \<Rightarrow>
     if \<not> tl_acme_enabled cfg \<or>
        (\<exists>pem not_after. read_file env (ae_open_cert env) (aw_cert w) = Inr pem \<and> ae_not_after env pem = Some not_after \<and>
           30 * 86400 \<le> not_after - ae_now env)
     then w' = w \<and> live' = live \<and> r = Inr ()
     else case r of Inl _ \<Rightarrow> live' = live | Inr _ \<Rightarrow> issued env w' live'"
  by (auto simp: check_and_renew_def cert_expiring_iff intro: run_then_build_issued split: prod.splits sum.splits if_splits)

text \<open>Over any number of days the live configuration is the initial one or was issued by the run of one day.\<close>

lemma renewal_task_live:
  "renewal_task days cfg live w = (w', live') \<Longrightarrow> live' = live \<or> (\<exists>env\<in>set days. \<exists>w1. issued env w1 live')"
proof (induction days arbitrary: live w)
  case (Cons env days)
  obtain w1 live1 r where c: "check_and_renew env cfg live w = (w1, live1, r)" by (cases "check_and_renew env cfg live w") auto
  then have "live1 = live \<or> issued env w1 live1"
    by (auto simp: check_and_renew_def intro: run_then_build_issued split: prod.splits sum.splits if_splits)
  then show ?case using Cons.IH [of live1 w1] Cons.prems c by auto
qed simp

section \<open>A concrete renewal\<close>

text \<open>The order has one authorization that is valid and two that need a record; the CA delivers the chain at the second poll;
  the deletion of the second record is refused by the provider.\<close>

definition demo_tls :: tls_section where
  "demo_tls = \<lparr>tl_domain = ''t.io'', tl_acme_enabled = True, tl_cert_path = ''c'', tl_key_path = ''k'',
     tl_cloudflare_api_token = ''tok'', tl_cloudflare_zone_id = ''zone''\<rparr>"

definition demo_acme :: acme_env where
  "demo_acme =
     \<lparr>ae_token_env = None, ae_zone_env = None, ae_not_found = ''missing'', ae_read_account = None,
      ae_parse_account = (\<lambda>_. None), ae_load_account = (\<lambda>_. None), ae_create_account = Inr ''acc'',
      ae_mkdir_account = None, ae_serialize_account = None, ae_write_account = Written, ae_order = (\<lambda>_. None),
      ae_auths = Inr [\<lparr>au_valid = True, au_challenges = []\<rparr>,
                     \<lparr>au_valid = False, au_challenges = [(OtherChallenge, ''x''), (Dns01, ''v1'')]\<rparr>,
                     \<lparr>au_valid = False, au_challenges = [(Dns01, ''v2'')]\<rparr>],
      ae_create = (\<lambda>k. CfResponse True (Some (if k = 1 then ''r1'' else ''r2'')) []), ae_ready = (\<lambda>_. None),
      ae_status = (\<lambda>k. Inr (if k = 0 then OrderOther else OrderReady)), ae_key_pair = Inr ''key'', ae_params = (\<lambda>_. None),
      ae_csr = None, ae_finalize = None, ae_certificate = (\<lambda>k. Inr (if k = 0 then None else Some ''chain'')),
      ae_refresh = (\<lambda>_. None), ae_mkdir = None, ae_write_cert = Written, ae_write_key = Written,
      ae_delete = (\<lambda>i. Inr (i = ''r1'')), ae_open_cert = None, ae_open_key = None,
      ae_not_after = (\<lambda>pem. if pem = ''old'' then Some 2592000 else Some 9000000), ae_now = 1,
      ae_parse_certs = (\<lambda>pem. Inr [pem]), ae_parse_key = (\<lambda>k. Inr (Some k)),
      ae_build = (\<lambda>certs k. Inr (concat certs @ ''+'' @ k))\<rparr>"

definition demo_files :: acme_world where
  "demo_files = \<lparr>aw_cert = Some ''old'', aw_key = Some ''oldkey'', aw_account = None, aw_records = [], aw_trace = []\<rparr>"

lemma demo_polls: "poll_until_ready demo_acme = Inr ()" "poll_certificate demo_acme = Inr ''chain''"
  by (simp_all add: poll_until_ready_def poll_certificate_def MAX_POLL_ATTEMPTS_def demo_acme_def upt_conv_Cons)

lemma demo_run:
  "run_acme demo_acme demo_tls demo_files =
     (\<lparr>aw_cert = Some ''chain'', aw_key = Some ''key'', aw_account = Some ''acc'',
       aw_records = [\<lparr>txt_id = ''r2'', txt_name = ''_acme-challenge.t.io'', txt_content = ''v2''\<rparr>],
       aw_trace = [RecordCreated ''r1'', ChallengeReady, RecordCreated ''r2'', ChallengeReady, DnsWait 60,
                   DeleteSent ''r1'', DeleteSent ''r2'']\<rparr>, Inr ())"
  unfolding run_acme_def demo_polls
  by (simp add: demo_acme_def demo_tls_def demo_files_def resolve_cloudflare_token_def
      resolve_cloudflare_zone_id_def load_or_create_account_def fails_def dns01_challenge_def cloudflare_create_txt_def
      challenge_name_def save_certificate_def delete_record_def DNS_PROPAGATION_SECS_def Let_def)

lemma demo_expiring: "cert_expiring_within demo_acme demo_files RENEW_THRESHOLD_DAYS"
  by (simp add: cert_expiring_within_def read_file_def RENEW_THRESHOLD_DAYS_def trunc_div_def demo_acme_def demo_files_def)

lemma demo_build:
  "aw_cert w = Some ''chain'' \<Longrightarrow> aw_key w = Some ''key'' \<Longrightarrow> build_tls_config demo_acme cfg w = Inr ''chain+key''"
  by (simp add: build_tls_config_def read_file_def demo_acme_def)

lemma demo_check:
  "\<exists>w'. check_and_renew demo_acme demo_tls ''live'' demo_files = (w', ''chain+key'', Inr ())"
  unfolding check_and_renew_def demo_run using demo_expiring
  by (simp add: demo_build) (simp add: demo_tls_def)

theorem renewal_exact_witness:
  "\<exists>w'. check_and_renew demo_acme demo_tls ''live'' demo_files = (w', ''chain+key'', Inr ()) \<and>
     issued demo_acme w' ''chain+key''"
proof -
  have "tl_acme_enabled demo_tls" by (simp add: demo_tls_def)
  then show ?thesis
    using renewal_exact [where env = demo_acme and cfg = demo_tls and live = "''live''" and w = demo_files]
      demo_check demo_expiring [unfolded cert_expiring_iff]
    by (auto split: if_splits)
qed

theorem acme_records_witness:
  "\<exists>as new w'. run_acme demo_acme demo_tls demo_files = (w', Inr ()) \<and> ae_auths demo_acme = Inr as \<and>
     written_records new = wanted_records ''t.io'' as \<and> length new = 2 \<and> map txt_id (aw_records w') = [''r2'']"
proof -
  have "written_records new = wanted_records ''t.io'' as \<Longrightarrow> ae_auths demo_acme = Inr as \<Longrightarrow> length new = 2" for new as
    by (auto simp: demo_acme_def written_records_def dest!: arg_cong [of _ _ length])
  moreover have "tl_domain demo_tls = ''t.io''" by (simp add: demo_tls_def)
  ultimately show ?thesis using acme_records [where env = demo_acme and cfg = demo_tls and w = demo_files]
    by (auto simp: demo_run)
qed

end
