(* ===== verification/EdgeForward.thy ===== *)
theory EdgeForward
  imports EdgeHttp Dashboard
begin

text \<open>
  The second half of \<open>proxy_request\<close> (\<open>edge/http.rs\<close>): forwarding over the stream of the tunnel, the meter on that stream, the body
  of the response handed on frame by frame, the capture event of the guard, and the WebSocket upgrade.  The HTTP/1.1 client
  of hyper is outside the source; its answers are fields of the environment.
\<close>

section \<open>The meter of the stream\<close>

text \<open>What one poll of the stream returns: so many bytes read or written, or nothing (pending or an error).\<close>

datatype upstream_io = IoRead nat | IoWrite nat | IoNone

definition direction_meter :: "upstream_io \<Rightarrow> tunnel_info \<Rightarrow> tunnel_info" where
  "direction_meter io ti =
     (case io of
        IoRead n \<Rightarrow> if n > 0 then add_transfer 0 (of_nat n) ti else ti
      | IoWrite n \<Rightarrow> if n > 0 then add_transfer (of_nat n) 0 ti else ti
      | IoNone \<Rightarrow> ti)"

section \<open>Capture\<close>

text \<open>The channel: capture is off, or an event is offered and taken or, when the channel is full, dropped.\<close>

type_synonym capture_tx = "bool option"

definition emit_capture :: "capture_tx \<Rightarrow> capture_event \<Rightarrow> capture_event list \<Rightarrow> capture_event list" where
  "emit_capture tx e sent = (case tx of Some True \<Rightarrow> sent @ [e] | Some False \<Rightarrow> sent | None \<Rightarrow> sent)"

definition elapsed_ms :: "instant \<Rightarrow> instant \<Rightarrow> u64" where
  "elapsed_ms start now = of_int ((now - start) div 1000000)"

record capture_guard =
  cg_conn_id :: uuid
  cg_tunnel_id :: uuid
  cg_tunnel_label :: string
  cg_method :: string
  cg_path :: string
  cg_status :: u16
  cg_request_bytes :: u64
  cg_start :: instant

definition guard_event :: "capture_guard \<Rightarrow> u64 \<Rightarrow> instant \<Rightarrow> instant \<Rightarrow> capture_event" where
  "guard_event g response_bytes now wall =
     \<lparr>ce_conn_id = cg_conn_id g, ce_tunnel_id = cg_tunnel_id g, ce_tunnel_label = cg_tunnel_label g, ce_method = cg_method g,
      ce_path = cg_path g, ce_status = cg_status g, ce_request_bytes = cg_request_bytes g,
      ce_response_bytes = response_bytes, ce_duration_ms = elapsed_ms (cg_start g) now, ce_captured_at = wall\<rparr>"

section \<open>The body of the response\<close>

datatype body_frame = FrameData string | FrameTrailers "(string \<times> string) list"

text \<open>What the caller of the edge does with the body, with the clocks: it asks for the next frame, which the upstream body answers
  with a frame, an error or its end; or it drops the body.  The last component is the room in the channel at that moment.\<close>

datatype body_event =
    BodyFrame body_frame
  | BodyError string instant instant bool
  | BodyEnd instant instant bool
  | BodyDropped instant instant bool

record response_stream =
  rs_guard :: "capture_guard option"
  rs_bytes :: u64
  rs_delivered :: "body_frame list"
  rs_sent :: "capture_event list"

definition frame_bytes :: "body_frame \<Rightarrow> u64" where
  "frame_bytes f = (case f of FrameData data \<Rightarrow> of_nat (length data) | FrameTrailers _ \<Rightarrow> 0)"

text \<open>The end of the stream drops its state and with it the guard.\<close>

definition drop_guard :: "bool \<Rightarrow> instant \<Rightarrow> instant \<Rightarrow> bool \<Rightarrow> response_stream \<Rightarrow> response_stream" where
  "drop_guard capture now wall room s =
     (case rs_guard s of
        None \<Rightarrow> s
      | Some g \<Rightarrow>
          s\<lparr>rs_guard := None,
            rs_sent := emit_capture (if capture then Some room else None) (guard_event g (rs_bytes s) now wall) (rs_sent s)\<rparr>)"

definition body_step :: "bool \<Rightarrow> body_event \<Rightarrow> response_stream \<Rightarrow> response_stream" where
  "body_step capture e s =
     (if rs_guard s = None then s
      else case e of
             BodyFrame f \<Rightarrow> s\<lparr>rs_bytes := rs_bytes s + frame_bytes f, rs_delivered := rs_delivered s @ [f]\<rparr>
           | BodyError err now wall room \<Rightarrow> drop_guard capture now wall room s
           | BodyEnd now wall room \<Rightarrow> drop_guard capture now wall room s
           | BodyDropped now wall room \<Rightarrow> drop_guard capture now wall room s)"

definition body_stream :: "bool \<Rightarrow> body_event list \<Rightarrow> response_stream \<Rightarrow> response_stream" where
  "body_stream capture es s = fold (body_step capture) es s"

section \<open>Forwarding\<close>

record upstream_env =
  ue_handshake :: "string option"
  ue_response :: "header_map \<Rightarrow> string + u16 \<times> header_map"
  ue_timeout :: bool

definition forward_http ::
  "upstream_env \<Rightarrow> http_request \<Rightarrow> socket_addr \<Rightarrow> forward_scheme \<Rightarrow> string \<Rightarrow> (u16 \<Rightarrow> capture_guard) \<Rightarrow>
   string + u16 \<times> header_map \<times> response_stream" where
  "forward_http env req peer scheme original_host guard =
     (case ue_handshake env of
        Some e \<Rightarrow> Inl e
      | None \<Rightarrow>
          (case ue_response env (forwarded_headers peer scheme original_host req) of
             Inl e \<Rightarrow> Inl e
           | Inr (status, headers) \<Rightarrow>
               Inr (status, remove_hop_by_hop headers,
                 \<lparr>rs_guard = Some (guard status), rs_bytes = 0, rs_delivered = [], rs_sent = []\<rparr>)))"

definition ws_event :: "uuid \<Rightarrow> instant \<Rightarrow> instant \<Rightarrow> instant \<Rightarrow> capture_event" where
  "ws_event conn_id start now wall =
     \<lparr>ce_conn_id = conn_id, ce_tunnel_id = 0, ce_tunnel_label = [], ce_method = ''WS-UPGRADE'', ce_path = [], ce_status = 101,
      ce_request_bytes = 0, ce_response_bytes = 0, ce_duration_ms = elapsed_ms start now, ce_captured_at = wall\<rparr>"

text \<open>The copy of an upgraded connection runs in a task of its own: \<open>None\<close> when the upgrade or the copy failed.\<close>

definition ws_copied :: "(u64 \<times> u64) option \<Rightarrow> tunnel_info \<Rightarrow> tunnel_info" where
  "ws_copied outcome ti = (case outcome of Some (up, dn) \<Rightarrow> add_transfer up dn ti | None \<Rightarrow> ti)"

datatype edge_response =
    EdgeError nat string
  | EdgeUpgrade header_map
  | EdgeResponse u16 header_map response_stream

definition request_bytes :: "http_request \<Rightarrow> u64" where
  "request_bytes req = (case request_content_length req of Some n \<Rightarrow> of_nat n | None \<Rightarrow> 0)"

definition request_path :: "http_request \<Rightarrow> string" where
  "request_path req = (case rq_path_and_query req of Some p \<Rightarrow> p | None \<Rightarrow> ''/'')"

text \<open>\<open>proxy_request\<close> once it has its stream: the answer, and the events captured before it is returned.\<close>

definition proxy_over_stream ::
  "upstream_env \<Rightarrow> capture_tx \<Rightarrow> instant \<Rightarrow> instant \<Rightarrow> instant \<Rightarrow> uuid \<Rightarrow> uuid \<Rightarrow> string \<Rightarrow> string \<Rightarrow> string \<Rightarrow> socket_addr \<Rightarrow>
   forward_scheme \<Rightarrow> http_request \<Rightarrow> edge_response \<times> capture_event list" where
  "proxy_over_stream env tx start now wall conn_id tunnel_id subdomain method host peer scheme req =
     (if is_websocket_upgrade req
      then (EdgeUpgrade [(''upgrade'', ''websocket''), (''connection'', ''Upgrade'')],
            emit_capture tx (ws_event conn_id start now wall) [])
      else if ue_timeout env then (EdgeError 504 ''Proxy timeout'', [])
      else case forward_http env req peer scheme host
                  (\<lambda>status. \<lparr>cg_conn_id = conn_id, cg_tunnel_id = tunnel_id, cg_tunnel_label = subdomain, cg_method = method,
                     cg_path = request_path req, cg_status = status, cg_request_bytes = request_bytes req, cg_start = start\<rparr>) of
             Inl e \<Rightarrow> (EdgeError 502 ''Proxy error'', [])
           | Inr (status, headers, s) \<Rightarrow> (EdgeResponse status headers s, []))"

section \<open>What is counted\<close>

definition bytes_written :: "upstream_io list \<Rightarrow> nat" where
  "bytes_written ios = sum_list (map (\<lambda>io. case io of IoWrite n \<Rightarrow> n | _ \<Rightarrow> 0) ios)"

definition bytes_read :: "upstream_io list \<Rightarrow> nat" where
  "bytes_read ios = sum_list (map (\<lambda>io. case io of IoRead n \<Rightarrow> n | _ \<Rightarrow> 0) ios)"

lemma add_transfer_one:
  "add_transfer n 0 ti = ti\<lparr>ti_bytes_in := ti_bytes_in ti + n, ti_bytes_proxied := ti_bytes_proxied ti + n\<rparr>"
  "add_transfer 0 n ti = ti\<lparr>ti_bytes_out := ti_bytes_out ti + n, ti_bytes_proxied := ti_bytes_proxied ti + n\<rparr>"
  by (cases "n = 0"; simp add: add_transfer_def saturating_add_def word_gt_0)+

lemma direction_meter_step:
  "direction_meter (IoRead n) ti = add_transfer 0 (of_nat n) ti"
  "direction_meter (IoWrite n) ti = add_transfer (of_nat n) 0 ti"
  "direction_meter IoNone ti = ti"
  by (simp_all add: direction_meter_def add_transfer_one)

lemma direction_meter_fold:
  "fold direction_meter ios ti =
     ti\<lparr>ti_bytes_in := ti_bytes_in ti + of_nat (bytes_written ios), ti_bytes_out := ti_bytes_out ti + of_nat (bytes_read ios),
       ti_bytes_proxied := ti_bytes_proxied ti + of_nat (bytes_written ios + bytes_read ios)\<rparr>"
proof (induction ios arbitrary: ti)
  case (Cons io ios)
  then show ?case
    by (cases io) (simp_all add: direction_meter_step add_transfer_one bytes_written_def bytes_read_def algebra_simps)
qed (simp add: bytes_written_def bytes_read_def)

section \<open>What is captured\<close>

text \<open>An event that ends the body, with the clocks and the room in the channel.\<close>

fun ends_body :: "body_event \<Rightarrow> (instant \<times> instant \<times> bool) option" where
  "ends_body (BodyFrame f) = None"
| "ends_body (BodyError err now wall room) = Some (now, wall, room)"
| "ends_body (BodyEnd now wall room) = Some (now, wall, room)"
| "ends_body (BodyDropped now wall room) = Some (now, wall, room)"

lemma body_frames:
  "rs_guard s = Some g \<Longrightarrow>
   body_stream capture (map BodyFrame fs) s =
     s\<lparr>rs_bytes := rs_bytes s + sum_list (map frame_bytes fs), rs_delivered := rs_delivered s @ fs\<rparr>"
  by (induction fs arbitrary: s) (simp_all add: body_stream_def body_step_def add.assoc)

lemma body_ended: "rs_guard s = None \<Longrightarrow> body_stream capture es s = s"
  by (induction es) (simp_all add: body_stream_def body_step_def)

lemma body_step_ends:
  "ends_body e = Some (now, wall, room) \<Longrightarrow> body_step capture e s = drop_guard capture now wall room s"
  by (cases e) (auto simp: body_step_def drop_guard_def split: option.split)

lemma body_stream_append: "body_stream capture (es @ es') s = body_stream capture es' (body_stream capture es s)"
  by (simp add: body_stream_def)

lemma body_run:
  assumes "rs_guard s = Some g" "ends_body e = Some (now, wall, room)"
  shows "body_stream capture (map BodyFrame fs @ e # rest) s =
    \<lparr>rs_guard = None, rs_bytes = rs_bytes s + sum_list (map frame_bytes fs), rs_delivered = rs_delivered s @ fs,
     rs_sent = emit_capture (if capture then Some room else None)
       (guard_event g (rs_bytes s + sum_list (map frame_bytes fs)) now wall) (rs_sent s)\<rparr>"
proof -
  have "body_stream capture (e # rest) s' = drop_guard capture now wall room s'" if "rs_guard s' = Some g" for s'
    using body_ended [of "drop_guard capture now wall room s'" capture rest] that body_step_ends [OF assms(2), of capture s']
    by (simp add: body_stream_def drop_guard_def)
  then show ?thesis using assms(1) by (simp add: body_stream_append body_frames drop_guard_def)
qed

lemma frame_bytes_sum:
  "sum_list (map frame_bytes fs) = of_nat (length (concat (map (\<lambda>f. case f of FrameData d \<Rightarrow> d | FrameTrailers _ \<Rightarrow> []) fs)))"
  by (induction fs) (simp_all add: frame_bytes_def split: body_frame.split)

text \<open>C21. A forwarded request and its record.  When the local service answers, the caller gets its status, its headers
  without the hop-by-hop ones, and the frames of its body unchanged up to the point where the body ends, fails or is dropped, and
  exactly one event is offered to the capture channel at that point, with the identity of the tunnel and the number of body
  bytes handed on; whatever comes later changes nothing.  Nothing is offered before.  The meter of the tunnel grows by exactly the
  bytes that crossed the stream, in each direction and in sum.\<close>

theorem forward_capture_exact:
  assumes fwd: "proxy_over_stream env tx start now wall conn_id tunnel_id subdomain method host peer scheme req =
      (EdgeResponse status headers s, before)"
    and ends: "ends_body e = Some (now', wall', room)"
  shows "before = [] \<and>
    (\<exists>hs. ue_response env (forwarded_headers peer scheme host req) = Inr (status, hs) \<and> headers = remove_hop_by_hop hs) \<and>
    rs_delivered (body_stream True (map BodyFrame fs @ e # rest) s) = fs \<and>
    rs_sent (body_stream True (map BodyFrame fs) s) = [] \<and>
    rs_sent (body_stream True (map BodyFrame fs @ e # rest) s) =
      (if room then [\<lparr>ce_conn_id = conn_id, ce_tunnel_id = tunnel_id, ce_tunnel_label = subdomain, ce_method = method,
         ce_path = request_path req, ce_status = status, ce_request_bytes = request_bytes req,
         ce_response_bytes = of_nat (length (concat (map (\<lambda>f. case f of FrameData d \<Rightarrow> d | FrameTrailers _ \<Rightarrow> []) fs))),
         ce_duration_ms = elapsed_ms start now', ce_captured_at = wall'\<rparr>] else []) \<and>
    meter_snapshot (fold direction_meter ios ti) =
      (meter_snapshot ti)\<lparr>lm_bytes_in := ti_bytes_in ti + of_nat (bytes_written ios),
        lm_bytes_out := ti_bytes_out ti + of_nat (bytes_read ios)\<rparr>"
proof -
  obtain hs where hs: "ue_response env (forwarded_headers peer scheme host req) = Inr (status, hs)"
      "headers = remove_hop_by_hop hs" "before = []"
    and s: "s = \<lparr>rs_guard = Some \<lparr>cg_conn_id = conn_id, cg_tunnel_id = tunnel_id, cg_tunnel_label = subdomain, cg_method = method,
        cg_path = request_path req, cg_status = status, cg_request_bytes = request_bytes req, cg_start = start\<rparr>,
        rs_bytes = 0, rs_delivered = [], rs_sent = []\<rparr>"
    using fwd by (auto simp: proxy_over_stream_def forward_http_def split: if_splits sum.splits option.splits)
  have g: "rs_guard s = Some \<lparr>cg_conn_id = conn_id, cg_tunnel_id = tunnel_id, cg_tunnel_label = subdomain, cg_method = method,
        cg_path = request_path req, cg_status = status, cg_request_bytes = request_bytes req, cg_start = start\<rparr>"
    by (simp add: s)
  show ?thesis
    using hs body_run [OF g ends, of True fs rest] body_frames [OF g, of True fs]
    by (simp add: s frame_bytes_sum guard_event_def emit_capture_def direction_meter_fold meter_snapshot_def)
qed

text \<open>A failed attempt is answered with an error and captured nowhere; an upgrade is captured at once, under no tunnel.\<close>

lemma proxy_over_stream_other:
  "case proxy_over_stream env tx start now wall conn_id tunnel_id subdomain method host peer scheme req of
     (EdgeError status msg, before) \<Rightarrow> before = [] \<and> status \<in> {502, 504}
   | (EdgeUpgrade hs, before) \<Rightarrow> is_websocket_upgrade req \<and> before = emit_capture tx (ws_event conn_id start now wall) []
   | (EdgeResponse status hs s, before) \<Rightarrow> \<not> is_websocket_upgrade req"
  by (auto simp: proxy_over_stream_def split: sum.split)

definition example_upstream :: upstream_env where
  "example_upstream = \<lparr>ue_handshake = None, ue_response = (\<lambda>hs. Inr (200, [(''te'', ''x''), (''etag'', ''1'')])), ue_timeout = False\<rparr>"

definition example_get :: http_request where
  "example_get = \<lparr>rq_headers = [(''host'', ''a.t.io'')], rq_path_and_query = Some ''/p''\<rparr>"

theorem forward_capture_exact_witness:
  "\<exists>s. proxy_over_stream example_upstream (Some True) 0 0 0 7 3 ''a'' ''GET'' ''a.t.io'' (IpV4 1, 5) SchemeHttps example_get =
         (EdgeResponse 200 [(''etag'', ''1'')] s, []) \<and>
     rs_delivered (body_stream True [BodyFrame (FrameData ''abc''), BodyError ''reset'' 2000000 9 True] s) = [FrameData ''abc''] \<and>
     map ce_response_bytes (rs_sent (body_stream True [BodyFrame (FrameData ''abc''), BodyError ''reset'' 2000000 9 True] s)) = [3]"
proof -
  have "\<not> is_websocket_upgrade example_get"
    by (simp add: is_websocket_upgrade_def example_get_def hm_get_def)
  then obtain s where fwd: "proxy_over_stream example_upstream (Some True) 0 0 0 7 3 ''a'' ''GET'' ''a.t.io'' (IpV4 1, 5) SchemeHttps
      example_get = (EdgeResponse 200 [(''etag'', ''1'')] s, [])"
    by (simp add: proxy_over_stream_def example_upstream_def forward_http_def remove_hop_by_hop_def HOP_BY_HOP_def hm_remove_def)
  have "ends_body (BodyError ''reset'' 2000000 9 True) = Some (2000000, 9, True)" by simp
  from forward_capture_exact [OF fwd this, of "[FrameData ''abc'']" "[]"] fwd show ?thesis by simp
qed

end
