(* ===== verification/PunchDirect.thy ===== *)
theory PunchDirect
  imports ClientLoop
begin

text \<open>
  Direct connections between two clients (\<open>p2p_direct.rs\<close>): the exchange of probes over UDP and what is tried with a punched hole.
  Sockets and QUIC answer through the environment.
\<close>

section \<open>Probes\<close>

definition PROBE_MAGIC :: string where
  "PROBE_MAGIC = ''RTUN_P2P''"

definition PUNCH_BUFFER :: nat where
  "PUNCH_BUFFER = 64"

text \<open>What the \<open>select!\<close> of the loop sees: a tick of the probe interval, a datagram with its sender, or a receive error.\<close>

datatype punch_event = PuTick instant | PuRecv string socket_addr | PuRecvError string

text \<open>A datagram is cut to the receive buffer.\<close>

definition is_probe :: "string \<Rightarrow> bool" where
  "is_probe data =
     (let received = take PUNCH_BUFFER data
      in length received \<ge> length PROBE_MAGIC \<and> take (length PROBE_MAGIC) received = PROBE_MAGIC)"

text \<open>The result is the addresses probes were sent to and, unless the loop still runs, the peer found.\<close>

fun punch_direct_exchange ::
  "instant \<Rightarrow> socket_addr list \<Rightarrow> punch_event list \<Rightarrow> socket_addr list \<Rightarrow> socket_addr list \<times> socket_addr option option" where
  "punch_direct_exchange deadline peers [] sent = (sent, None)"
| "punch_direct_exchange deadline peers (PuTick now # es) sent =
     (if now \<ge> deadline then (sent, Some None) else punch_direct_exchange deadline peers es (sent @ peers))"
| "punch_direct_exchange deadline peers (PuRecv data from # es) sent =
     (if is_probe data then (sent @ [from], Some (Some from)) else punch_direct_exchange deadline peers es sent)"
| "punch_direct_exchange deadline peers (PuRecvError e # es) sent = punch_direct_exchange deadline peers es sent"

section \<open>The attempt\<close>

record punch_env =
  pu_bind :: bool
  pu_now :: instant
  pu_events :: "punch_event list"
  pu_into_std :: bool

datatype quic_attempt = QuicServer | QuicClient socket_addr

text \<open>What is done with the hole: nothing, or an attempt to connect as server or as client; the outer \<open>None\<close> means the
  loop still runs.\<close>

definition attempt_direct_connection ::
  "punch_env \<Rightarrow> socket_addr list \<Rightarrow> string \<Rightarrow> string \<Rightarrow> u32 \<Rightarrow> socket_addr list \<times> quic_attempt option option" where
  "attempt_direct_connection env peers strategy role timeout_ms =
     (if peers = [] \<or> \<not> pu_bind env then ([], Some None)
      else if strategy = ''direct_exchange'' \<or> strategy = ''port_prediction''
      then (case punch_direct_exchange (pu_now env + int (unat timeout_ms) * 1000000) peers (pu_events env) [] of
              (sent, None) \<Rightarrow> (sent, None)
            | (sent, Some None) \<Rightarrow> (sent, Some None)
            | (sent, Some (Some peer)) \<Rightarrow>
                (sent, Some (if \<not> pu_into_std env then None
                             else if role = ''publisher'' then Some QuicServer else Some (QuicClient peer))))
      else ([], Some None))"

text \<open>The task the main loop spawns for punch instructions.\<close>

definition run_punch_task :: "punch_env \<Rightarrow> client_task \<Rightarrow> socket_addr list \<times> quic_attempt option option" where
  "run_punch_task env t =
     (case t of
        TaskPunch conn_id addrs strategy secret timeout_ms \<Rightarrow>
          attempt_direct_connection env addrs strategy ''subscriber'' timeout_ms
      | _ \<Rightarrow> ([], Some None))"

section \<open>What the exchange does\<close>

definition decides :: "instant \<Rightarrow> punch_event \<Rightarrow> bool" where
  "decides deadline e = (case e of PuTick now \<Rightarrow> now \<ge> deadline | PuRecv data from \<Rightarrow> is_probe data | PuRecvError _ \<Rightarrow> False)"

definition found_by :: "punch_event \<Rightarrow> socket_addr option" where
  "found_by e = (case e of PuRecv data from \<Rightarrow> Some from | _ \<Rightarrow> None)"

definition ticks_of :: "punch_event list \<Rightarrow> nat" where
  "ticks_of es = length (filter (\<lambda>e. case e of PuTick _ \<Rightarrow> True | _ \<Rightarrow> False) es)"

lemma ticks_of_simps [simp]:
  "ticks_of [] = 0" "ticks_of (PuTick t # es) = Suc (ticks_of es)" "ticks_of (PuRecv d f # es) = ticks_of es"
  "ticks_of (PuRecvError e # es) = ticks_of es"
  by (simp_all add: ticks_of_def)

lemma punch_undecided:
  "list_all (\<lambda>e. \<not> decides deadline e) es \<Longrightarrow>
   punch_direct_exchange deadline peers (es @ rest) sent =
     punch_direct_exchange deadline peers rest (sent @ concat (replicate (ticks_of es) peers))"
  by (induction deadline peers es sent rule: punch_direct_exchange.induct) (auto simp: decides_def)

lemma punch_decided:
  "decides deadline e \<Longrightarrow>
   punch_direct_exchange deadline peers (e # rest) sent =
     (sent @ (case found_by e of Some from \<Rightarrow> [from] | None \<Rightarrow> []), Some (found_by e))"
  by (cases e) (auto simp: decides_def found_by_def)

text \<open>The exchange ends, and what ends it is its result.  It runs on exactly until the first tick at or after the deadline
  or the first datagram that starts with the magic bytes, has by then sent one probe to every candidate per tick, and yields
  nothing in the first case and the sender of the datagram in the second, whether or not that sender is a candidate.  The task the
  client starts for punch instructions only ever goes on as a QUIC client.\<close>

theorem punch_exact:
  assumes "list_all (\<lambda>e. \<not> decides deadline e) es"
  shows "punch_direct_exchange deadline peers es [] = (concat (replicate (ticks_of es) peers), None) \<and>
    (\<forall>e rest. decides deadline e \<longrightarrow>
       punch_direct_exchange deadline peers (es @ e # rest) [] =
         (concat (replicate (ticks_of es) peers) @ (case found_by e of Some from \<Rightarrow> [from] | None \<Rightarrow> []), Some (found_by e))) \<and>
    snd (run_punch_task env t) \<noteq> Some (Some QuicServer)"
proof -
  have "snd (run_punch_task env t) \<noteq> Some (Some QuicServer)"
    by (auto simp: run_punch_task_def attempt_direct_connection_def split: client_task.split prod.split option.split)
  then show ?thesis
    using punch_undecided [OF assms, of peers "[]" "[]"] punch_undecided [OF assms, of peers _ "[]"] punch_decided by simp
qed

theorem punch_exact_witness:
  "punch_direct_exchange 1000 [(IpV4 1, 5)] ([PuTick 0, PuRecv ''noise'' (IpV4 1, 5), PuTick 100] @
     PuRecv ''RTUN_P2P!'' (IpV4 9, 9) # []) [] = ([(IpV4 1, 5), (IpV4 1, 5), (IpV4 9, 9)], Some (Some (IpV4 9, 9)))"
proof -
  have "list_all (\<lambda>e. \<not> decides 1000 e) [PuTick 0, PuRecv ''noise'' (IpV4 1, 5), PuTick 100]"
    "decides 1000 (PuRecv ''RTUN_P2P!'' (IpV4 9, 9))"
    by (simp_all add: decides_def is_probe_def PROBE_MAGIC_def PUNCH_BUFFER_def Let_def)
  then show ?thesis
    using punch_exact [where deadline = 1000 and es = "[PuTick 0, PuRecv ''noise'' (IpV4 1, 5), PuTick 100]"
        and peers = "[(IpV4 1, 5)]"]
    by (simp add: found_by_def)
qed

end
