(* ===== verification/Spec2Isabelle.thy ===== *)
theory Spec2Isabelle
  imports RateLimitProps RouterProps RouterDispatch EdgeProxyProps Datagrams BillingProps SessionProps TapPairs EdgeHttpProps
    ClientHealthProps RollupProps DashboardProps StunProps DataPlaneProps ClientSetupProps ClientServer
    ClientLoopProps McpProps InspectServerProps Terminal ClientProxy AcmeProps EdgeForward PunchDirect
begin

text \<open>
  \<^bold>\<open>Verification of rustunnel\<close>

  rustunnel is a tunnel service in Rust.  A client behind NAT keeps a control WebSocket and a data WebSocket to a server; the
  server accepts public connections on its HTTP, TCP and UDP edges and relays each of them over a yamux stream of the data
  WebSocket to the client, which proxies it to a local service.  Four crates under \<open>src/crates\<close> make it up:
  \<open>rustunnel-protocol\<close> (the control frames), \<open>rustunnel-server\<close>, \<open>rustunnel-client\<close> and \<open>rustunnel-mcp\<close> (a server that lets an
  agent open tunnels through the client binary).  Paths below are relative to the \<open>src\<close> directory of the crate named.

  \<^bold>\<open>1. How the parts interact\<close>

  A control session (\<open>control/session.rs\<close>) authenticates a client, registers its tunnels with the router (\<open>core/router.rs\<close>),
  writes rows of the tunnel log, and obeys the plan limits of \<open>billing.rs\<close>.  The router broadcasts registrations; the TCP and UDP
  edges keep one listener per routed port.  An edge connection asks the router for a healthy member of the group of its key, takes
  a permit, stores a pending connection, announces it to the client, and waits for the stream that the yamux driver opens.
  The client pairs the announcement with the stream and starts a proxy task, which the HTTP tap observes for the inspector.
  Health probes of the client report edges of their verdicts, and the router sets the health bit that dispatch reads.  Counters are
  flushed to the log and rolled up per day; the dashboard API reads and controls the router.

  \<^bold>\<open>2. Theories and the code they model\<close>

  Foundations.
  \<^item> \<open>Prelude\<close>: machine words, the deterministic map \<open>dm\<close> that stands for a concurrent hash map, shared lemmas and the
    collections \<open>dm_simps\<close> and \<open>rust_simps\<close>.  \<open>Bytes\<close>: words as bytes.  \<open>RustStr\<close>: what the code uses of \<open>str\<close>, UTF-8 and number
    parsing.  \<open>Ring\<close>: the locale \<open>bounded_ring\<close> of buffers that keep the last entries.
  \<^item> \<open>Protocol\<close>: the control frames (protocol, \<open>frame.rs\<close>).  \<open>TunnelModel\<close>: \<open>core/tunnel.rs\<close> and \<open>error.rs\<close> of the server.

  Server.
  \<^item> \<open>RateLimits\<close>, \<open>RateLimitProps\<close>: \<open>core/ip_limiter.rs\<close>, \<open>auth.rs\<close>, \<open>core/limiter.rs\<close>.  Both sliding windows interpret the locale
    \<open>window_log\<close>; the pruning limiters decide as the full history would.
  \<^item> \<open>Router\<close>, \<open>RouterHealth\<close>: every operation of \<open>TunnelCore\<close>.  \<open>RouterInv\<close> states the consistency of the tables through the locale
    \<open>route_table\<close>, interpreted for HTTP, TCP and UDP; \<open>RouterSteps\<close> shows one preservation lemma with the exact effect per
    operation; \<open>RouterReach\<close> defines the reachable states; \<open>RouterProps\<close> and \<open>RouterDispatch\<close> hold the invariant, the conservation
    of ports, exact registration and removal, dispatch and the alert for a group without a healthy member.
  \<^item> \<open>EdgeListeners\<close>: the listener managers of \<open>edge/tcp.rs\<close> and \<open>edge/udp.rs\<close>, with the locale \<open>port_events\<close> for both.
  \<^item> \<open>EdgeProxy\<close>, \<open>EdgeProxyProps\<close>: the connection tasks of the three edges, split at their await points and interleaved with the
    router in any order; the connection limit and the exact content of the pending map.
  \<^item> \<open>EdgeHttp\<close>, \<open>EdgeHttpProps\<close>, \<open>EdgeForward\<close>: \<open>edge/http.rs\<close>: host parsing, redirects, the routing decision, forwarded headers;
    then the forwarding over the stream with its meter, the body of the response and the capture event.
  \<^item> \<open>Datagrams\<close>: the UDP framing of both ends (locale \<open>datagram_codec\<close>, interpreted in both directions), the session table and the
    bridge loop of \<open>edge/udp.rs\<close>.
  \<^item> \<open>Billing\<close>, \<open>BillingProps\<close>: the plan gate of \<open>billing.rs\<close> and the metering statements of \<open>db/metering.rs\<close>.
  \<^item> \<open>Session\<close>, \<open>SessionProps\<close>: handshake, every frame, main loop, cleanup and heartbeat of \<open>control/session.rs\<close>.
  \<^item> \<open>DataPlane\<close>, \<open>DataPlaneProps\<close>: the WebSocket adapters of both ends (locale \<open>byte_stream\<close>), the data bridge and the yamux driver.
  \<^item> \<open>Rollup\<close>, \<open>RollupProps\<close>: the daily recompute of \<open>db/usage_rollup.rs\<close> and the backfill of \<open>main.rs\<close>.
  \<^item> \<open>Dashboard\<close>, \<open>DashboardProps\<close>: \<open>dashboard/api.rs\<close> and \<open>dashboard/capture.rs\<close>: callers, throttle, visibility, tunnels, groups,
    captured requests and tokens.
  \<^item> \<open>Acme\<close>, \<open>AcmeProps\<close>: \<open>tls/acme.rs\<close>: issuance, renewal and the swap of the live TLS configuration.

  Client.
  \<^item> \<open>ClientSetup\<close>, \<open>ClientSetupProps\<close>: \<open>error.rs\<close>, \<open>config.rs\<close> (tunnel definitions), \<open>version.rs\<close>, \<open>regions.rs\<close>, \<open>reconnect.rs\<close>.
  \<^item> \<open>ClientControl\<close>: \<open>connect\<close> of \<open>control.rs\<close> up to its main loop.  \<open>ClientServer\<close> composes it with the session of the server.
    \<open>ClientLoop\<close>, \<open>ClientLoopProps\<close>: the main loop.
  \<^item> \<open>ClientProxy\<close>: the two pumps of \<open>proxy.rs\<close>.
  \<^item> \<open>ClientHealth\<close>, \<open>ClientHealthProps\<close>: \<open>health.rs\<close>, and its composition with the health bit of the router.
  \<^item> \<open>PunchDirect\<close>: the exchange of probes of \<open>p2p_direct.rs\<close>.
  \<^item> \<open>Stun\<close>, \<open>StunProps\<close>: \<open>stun.rs\<close> against an encoder of the RFC 5389 wire format.
  \<^item> \<open>Inspect\<close>: \<open>inspect/mod.rs\<close>.  \<open>Tap\<close>, \<open>TapProps\<close>, \<open>TapStream\<close>, \<open>TapPairs\<close>: \<open>inspect/tap.rs\<close>; request and response loop interpret
    the locale \<open>framed_parser\<close>.  \<open>InspectServer\<close>, \<open>InspectServerProps\<close>: \<open>inspect/server.rs\<close>.  \<open>Terminal\<close>: \<open>tui/mod.rs\<close>.

  MCP server.
  \<^item> \<open>Mcp\<close>, \<open>McpProps\<close>: \<open>main.rs\<close>, \<open>mcp.rs\<close>, \<open>tools.rs\<close>, \<open>tunnel_manager.rs\<close>, \<open>api_client.rs\<close>.

  \<^bold>\<open>3. How state, effects and errors are written\<close>

  Structs are records and enums are datatypes with the constructors of the source; an operation takes and returns the record it
  changes.  Integers that can wrap are words of their width.  Errors are values of \<open>server_error\<close>, \<open>client_error\<close> or a sum.
  A concurrent map is an association list without duplicate keys; one call of the router is one step, as its locks make it, except
  where a task awaits between two calls: there the task is split and the steps interleave.  A \<open>select!\<close> loop is a function of
  the list of events it receives; statements about it hold for every such list.  Randomness (identifiers, the pick
  among healthy members), clocks, sockets, the database answer and the results of libraries are arguments or
  fields of an environment record.

  \<^bold>\<open>4. What the properties show\<close>

  Router: the tables stay consistent in every reachable state, no port is lost or handed out twice, registration, removal and
  dispatch have exactly their stated effect.  Edges: listeners follow routes, also after lost events; the connection limit holds in every
  interleaving; the pending map holds the waiting connections and, for TCP, the leaked ones.  Session: each registration gets one
  reply, each frame touches only the tunnels it may, and no session leaves a tunnel behind.  Client and server: after a
  connection the tunnels of the server are those the client shows; stream and announcement meet in either order; datagrams and
  byte streams arrive unchanged from end to end; the health bit follows the probes; a forwarded HTTP request is captured once.  Inspector: chunked bodies are delimited exactly and
  exchanges are paired in order over any split of the bytes; a replay sends what was captured.  Usage and billing: counters are
  absolute, closed tunnels are counted once, the recompute is idempotent, the gate decides by the plan.  Dashboard: who may see
  and close what.  Certificates: a failed renewal never changes what is served.  MCP: nothing it started outlives it.

  Several theorems state a defect of the code as the code has it, such as the leaked pending entry of a timed-out TCP connection, the
  relay entry that stays in the main loop of the client, the inspector port that is never tried, the TXT records left by a failed
  run, or the subscriber that cannot be opened over MCP.

  \<^bold>\<open>5. Bounds and fuel\<close>

  No operation uses fuel; the reference decoder of framed datagrams in \<open>Datagrams\<close> has as much as there are bytes.  Recursions that are not structural have a termination proof: the chunk scanner and the two parser
  loops consume their buffer, the STUN attribute loop advances its offset, the poll loops of the WebSocket adapter consume messages, the UTF-8
  functions consume bytes.  Loops that may run forever are functions of their event list, so a run of any length is covered; the
  reconnect loop is shown to return at the first result that ends it.  The bounded polls have the bounds of the source (24 polls of
  the order, 30 of the tunnel list, 5 reconnects of the data WebSocket).

  \<^bold>\<open>6. Assumptions\<close>

  Identifiers drawn are fresh where a theorem says so.  Decoding an encoded frame gives it back (serde_json).  The head
  parser (httparse) satisfies the hypotheses the tap theorems name.  Timestamps of the database have microseconds.  Rates computed in
  floating point are rational numbers and a rounding function.  The task spawned for a new yamux stream completes within the step that
  spawned it.  A process that was killed counts as ended.  A released build is modelled, so counters wrap.

  \<^bold>\<open>7. Not modelled\<close>

  Libraries: JSON and TOML codecs, clap, hyper, rustls, yamux, QUIC, ratatui and the SQL engine; the statements of the metering, the
  tokens and the rollup are modelled as functions on rows.  Of the server: start-up and configuration files, the accept loop of the
  control server, the read queries of the usage charts and of the history, and the serving of dashboard assets, which only move data
  between libraries.  Of the client: the command line and its output,
  drawing, and the QUIC connections over a punched hole.  The dashboard front end is TypeScript.
\<close>

section \<open>A public connection from the server to the proxy of the client\<close>

text \<open>The yamux driver of the server and the main loop of the client, joined by the data WebSocket: the streams the driver
  opened reach the accept loop of the client, whose tasks read the connection id out of each and pass it on with the
  stream, in any order.  A stream is named by its position.\<close>

definition accepted_streams :: "(uuid \<Rightarrow> u8 list) \<Rightarrow> driver \<Rightarrow> (uuid \<times> nat) list" where
  "accepted_streams payload d =
     List.map_filter (\<lambda>((k, found), i). map_option (\<lambda>(c, rest). (c, i)) (accept_stream (stream_wire k (payload k))))
       (zip (dr_opened d) [0..<length (dr_opened d)])"

definition stream_events :: "client_event list \<Rightarrow> (uuid \<times> nat) list" where
  "stream_events evs = concat (map (\<lambda>e. case e of LvStream c i \<Rightarrow> [(c, i)] | _ \<Rightarrow> []) evs)"

lemma arrivals_stream_events: "arrivals c evs = map snd (filter (\<lambda>p. fst p = c) (stream_events evs))"
  by (induction evs) (auto simp: stream_events_def arrived_def split: client_event.split)

lemma accepted_streams_zip: "accepted_streams payload d = zip (map fst (dr_opened d)) [0..<length (dr_opened d)]"
  by (auto simp: accepted_streams_def List.map_filter_def accept_wire zip_map1 split_def intro!: map_cong)

lemma arrivals_mset:
  "mset (stream_events evs) = mset xs \<Longrightarrow> mset (arrivals c evs) = mset (map snd (filter (\<lambda>p. fst p = c) xs))"
  unfolding arrivals_stream_events by (simp only: mset_map mset_filter)

lemma handed_over_distinct: "distinct q \<Longrightarrow> distinct (handed_over es q)"
  using handed_over_subset by (induction es q rule: handed_over.induct) fastforce+

lemma positions_of:
  "map snd (filter (\<lambda>p. fst p = k) (zip ks [n..<n + length ks])) = filter (\<lambda>i. ks ! (i - n) = k) [n..<n + length ks]"
proof (induction ks arbitrary: n)
  case (Cons x ks)
  have "filter (\<lambda>i. ks ! (i - Suc n) = k) [Suc n..<Suc n + length ks] =
      filter (\<lambda>i. (x # ks) ! (i - n) = k) [Suc n..<Suc n + length ks]"
    by (intro filter_cong) (auto simp: nth_Cons' Suc_diff_le)
  moreover have "[n..<n + length (x # ks)] = n # [Suc n..<Suc n + length ks]"
    by (simp add: upt_conv_Cons del: upt_Suc)
  ultimately show ?case using Cons.IH [of "Suc n"] by (simp del: upt_Suc add_Suc)
qed simp

lemma filter_upt_eq: "filter (\<lambda>j. j = i) [0..<n] = (if i < n then [i] else [])"
  by (induction n) auto

lemma position_once:
  assumes "distinct ks" "i < length ks"
  shows "map snd (filter (\<lambda>p. fst p = ks ! i) (zip ks [0..<length ks])) = [i]"
proof -
  have "filter (\<lambda>j. ks ! j = ks ! i) [0..<length ks] = filter (\<lambda>j. j = i) [0..<length ks]"
    using assms by (intro filter_cong) (auto simp: nth_eq_iff_index_eq)
  also have "\<dots> = [i]" using assms(2) by (simp add: filter_upt_eq)
  finally show ?thesis using positions_of [of "ks ! i" ks 0] by simp
qed

lemma position_none: "k \<notin> set ks \<Longrightarrow> map snd (filter (\<lambda>p. fst p = k) (zip ks [0..<length ks])) = []"
  by (auto simp: filter_empty_conv dest: set_zip_leftD)

text \<open>C3. A public connection on its way.  The driver of the server works through its queue while the client runs its main loop on
  whatever it receives; the streams among that are those the driver opened, in any order, and the connection is announced once.  Then the task
  that waited for the connection on the server gets its stream exactly when the driver opened one for it and wrote its identifier,
  and in that case, and only then, the client starts one proxy task for the connection, on that very stream and with the local service
  the announcement selects.  Otherwise the announcement waits and nothing is started.\<close>

theorem public_connection_proxied:
  assumes drv: "driver_loop des d = (d', alive)" "distinct (dr_queue d)" "dr_opened d = []"
    and wire: "mset (stream_events evs) = mset (accepted_streams payload d')"
    and run: "client_main_loop env evs (client_loop_new ins now) = (s', None)" "list_all (plain env k) evs"
    and ann: "announcements env k evs = [m]"
  shows "((k, True) \<in> set (dr_opened d') \<longleftrightarrow>
            k \<in> set (map fst (dr_opened d')) \<and> dm_get (pending_conns (dr_core d)) k = Some True) \<and>
    (\<forall>i<length (dr_opened d'). fst (dr_opened d' ! i) = k \<longrightarrow>
       cv_tasks (view k s') = [spawn_proxy ins m i k] \<and> cv_conn (view k s') = None) \<and>
    (k \<notin> set (map fst (dr_opened d')) \<longrightarrow> cv_tasks (view k s') = [] \<and> cv_conn (view k s') = Some m)"
proof -
  let ?ks = "handed_over des (dr_queue d)"
  have opened: "dr_opened d' = map (\<lambda>k. (k, dm_get (pending_conns (dr_core d)) k = Some True)) ?ks"
    using driver_loop_opened [OF drv(1,2)] drv(3) by simp
  then have ks: "map fst (dr_opened d') = ?ks" by (simp add: comp_def)
  have acc: "accepted_streams payload d' = zip ?ks [0..<length ?ks]"
    by (simp add: accepted_streams_zip ks flip: length_map [of fst "dr_opened d'"])
  have arr: "mset (arrivals k evs) = mset (map snd (filter (\<lambda>p. fst p = k) (zip ?ks [0..<length ?ks])))"
    using arrivals_mset [OF wire] unfolding acc .
  have view: "view k s' = paired_view ins k [m] (arrivals k evs)" if "length (arrivals k evs) \<le> 1"
  proof -
    have "view k (client_loop_new ins now) = unknown_view" "lo_inspector (client_loop_new ins now) = ins"
      by (simp_all add: view_def client_loop_new_def)
    then show ?thesis using view_loop [OF run refl] paired_run [of env k evs, OF _ that, of ins] ann by simp
  qed
  have "cv_tasks (view k s') = [spawn_proxy ins m i k] \<and> cv_conn (view k s') = None" if "i < length ?ks" "?ks ! i = k" for i
  proof -
    have "mset (arrivals k evs) = {#i#}"
      unfolding arr using position_once [OF handed_over_distinct [OF drv(2)] that(1)] that(2) by simp
    then have "arrivals k evs = [i]" by (rule mset_single_iff [THEN iffD1])
    then show ?thesis using view by simp
  qed
  moreover have "cv_tasks (view k s') = [] \<and> cv_conn (view k s') = Some m" if "k \<notin> set ?ks"
  proof -
    have "arrivals k evs = []" using arr unfolding position_none [OF that] by simp
    then show ?thesis using view by (simp del: concat_eq_Nil_conv)
  qed
  ultimately show ?thesis unfolding ks by (auto simp: opened)
qed

lemma driver_requests_alive: "snd (driver_loop (map DrRequest outs) d)"
proof (induction outs arbitrary: d)
  case (Cons out outs)
  have "snd (driver_step (DrRequest out) d)" by (simp add: driver_step_def Let_def split: list.split)
  then show ?case using Cons by (auto split: prod.split bool.split)
qed simp

theorem public_connection_proxied_witness:
  "\<exists>d' s'. driver_loop [DrRequest (OpenedStream True), DrRequest OpenFailed, DrRequest (OpenedStream True)]
       (example_driver\<lparr>dr_queue := [9, 7, 5]\<rparr>) = (d', True) \<and> map fst (dr_opened d') = [9, 5] \<and>
     client_main_loop example_loop_env [LvStream 5 1, example_frame ''new'', LvStream 9 0] example_loop = (s', None) \<and>
     cv_tasks (view 5 s') = [TaskProxy 5 1 (''localhost:'' @ dec_string 22) None]"
proof -
  define d where "d = example_driver\<lparr>dr_queue := [9, 7, 5]\<rparr>"
  define es where "es = [DrRequest (OpenedStream True), DrRequest OpenFailed, DrRequest (OpenedStream True)]"
  let ?evs = "[LvStream 5 1, example_frame ''new'', LvStream 9 0]"
  have q: "dr_queue d = [9, 7, 5]" "dr_opened d = []" by (simp_all add: d_def example_driver_def)
  obtain d' where drv: "driver_loop es d = (d', True)"
    using driver_requests_alive [of "[OpenedStream True, OpenFailed, OpenedStream True]" d]
    by (cases "driver_loop es d") (simp add: es_def)
  have opened: "map fst (dr_opened d') = [9, 5]"
    using driver_loop_opened [OF drv] by (simp add: q es_def)
  obtain s' where run: "client_main_loop example_loop_env ?evs (client_loop_new (inspector_new True [] None) 0) = (s', None)"
    by (simp add: example_loop_defs)
  have len: "length (dr_opened d') = 2" using arg_cong [OF opened, of length] by simp
  have ann: "announcements example_loop_env 5 ?evs =
      [\<lparr>cm_local_addr = ''localhost:'' @ dec_string 22, cm_protocol = Tcp, cm_client_addr = ''9.9.9.9:1'', cm_tunnel_label = ''tunnel''\<rparr>]"
    by (simp add: example_loop_defs local_addr_of_def tunnel_label_def)
  have wire: "mset (stream_events ?evs) = mset (accepted_streams (\<lambda>_. []) d')"
    by (simp add: stream_events_def accepted_streams_zip opened len upt_conv_Cons)
  have plain: "list_all (plain example_loop_env 5) ?evs" by (simp add: example_loop_defs)
  have "fst (dr_opened d' ! 1) = 5" using arg_cong [OF opened, of "\<lambda>xs. xs ! 1"] len by simp
  then have "cv_tasks (view 5 s') = [TaskProxy 5 1 (''localhost:'' @ dec_string 22) None]"
    using public_connection_proxied [OF drv _ q(2) wire run plain ann] by (auto simp: q len spawn_proxy_def)
  then show ?thesis using drv opened run unfolding d_def es_def example_loop_def
    by (intro exI [of _ d'] exI [of _ s'] conjI)
qed

end
